(* ===== verification/Go_Prelude.thy ===== *)
theory Go_Prelude
  imports Main "HOL-Library.AList" "HOL-Library.Sublist" "HOL-Library.State_Monad" "HOL-Library.Signed_Division"
begin

text \<open>
  The part of the Go language and of its standard library that the server uses, as the other
  theories share it: byte strings with the functions of package \<open>strings\<close>, wall-clock times and
  durations in nanoseconds, 64-bit integer wrap-around, maps with a finite set of keys, and the
  effect type of a call that reads and writes the outside world.  The lemmas collected in
  \<open>go_str\<close>, \<open>go_map\<close> and \<open>go_io\<close> carry the proofs of the component theories.
\<close>

named_theorems go_str \<open>facts about the functions of package strings\<close>
named_theorems go_map \<open>facts about Go maps\<close>
named_theorems go_io \<open>facts about effectful calls\<close>

section \<open>Byte strings\<close>

text \<open>
  A Go string is a sequence of bytes, here a \<open>char list\<close>; \<open>len\<close> counts bytes.  The white
  space that \<open>strings.TrimSpace\<close> removes is that of \<open>unicode.IsSpace\<close>; its UTF-8 encodings have
  one byte, two bytes (U+0085, U+00A0) or three bytes (U+1680, U+2000 to U+200A, U+2028, U+2029,
  U+202F, U+205F, U+3000).
\<close>

definition space1 :: "char \<Rightarrow> bool" where
  "space1 c \<longleftrightarrow> c = CHR 0x20 \<or> c = CHR 0x09 \<or> c = CHR 0x0A \<or> c = CHR 0x0B \<or> c = CHR 0x0C \<or> c = CHR 0x0D"

definition space2 :: "char \<Rightarrow> char \<Rightarrow> bool" where
  "space2 c d \<longleftrightarrow> c = CHR 0xC2 \<and> (d = CHR 0x85 \<or> d = CHR 0xA0)"

definition space3 :: "char \<Rightarrow> char \<Rightarrow> char \<Rightarrow> bool" where
  "space3 c d e \<longleftrightarrow>
     c = CHR 0xE1 \<and> d = CHR 0x9A \<and> e = CHR 0x80 \<or>
     c = CHR 0xE2 \<and> d = CHR 0x80 \<and>
       e \<in> set [CHR 0x80, CHR 0x81, CHR 0x82, CHR 0x83, CHR 0x84, CHR 0x85, CHR 0x86, CHR 0x87,
         CHR 0x88, CHR 0x89, CHR 0x8A, CHR 0xA8, CHR 0xA9, CHR 0xAF] \<or>
     c = CHR 0xE2 \<and> d = CHR 0x81 \<and> e = CHR 0x9F \<or>
     c = CHR 0xE3 \<and> d = CHR 0x80 \<and> e = CHR 0x80"

text \<open>Stripping the runes that the three tests accept from the front of a list.\<close>

fun strip_runes ::
  "('a \<Rightarrow> bool) \<Rightarrow> ('a \<Rightarrow> 'a \<Rightarrow> bool) \<Rightarrow> ('a \<Rightarrow> 'a \<Rightarrow> 'a \<Rightarrow> bool) \<Rightarrow> 'a list \<Rightarrow> 'a list" where
  "strip_runes p q r [] = []"
| "strip_runes p q r [c] = (if p c then [] else [c])"
| "strip_runes p q r [c, d] =
     (if p c then strip_runes p q r [d] else if q c d then [] else [c, d])"
| "strip_runes p q r (c # d # e # s) =
     (if p c then strip_runes p q r (d # e # s)
      else if q c d then strip_runes p q r (e # s)
      else if r c d e then strip_runes p q r s
      else c # d # e # s)"

definition TrimLeftSpace :: "string \<Rightarrow> string" where
  "TrimLeftSpace s = strip_runes space1 space2 space3 s"

definition TrimRightSpace :: "string \<Rightarrow> string" where
  "TrimRightSpace s =
     rev (strip_runes space1 (\<lambda>c d. space2 d c) (\<lambda>c d e. space3 e d c) (rev s))"

definition TrimSpace :: "string \<Rightarrow> string" where
  "TrimSpace s = TrimRightSpace (TrimLeftSpace s)"

definition HasPrefix :: "string \<Rightarrow> string \<Rightarrow> bool" where
  "HasPrefix s p \<longleftrightarrow> take (length p) s = p"

definition TrimPrefix :: "string \<Rightarrow> string \<Rightarrow> string" where
  "TrimPrefix s p = (if HasPrefix s p then drop (length p) s else s)"

lemma suffix_strip_runes: "suffix (strip_runes p q r s) s"
  by (induction p q r s rule: strip_runes.induct) (auto intro: suffix_ConsI)

lemma strip_runes_idem [simp]: "strip_runes p q r (strip_runes p q r s) = strip_runes p q r s"
  by (induction p q r s rule: strip_runes.induct) auto

lemma strip_runes_neq: "strip_runes p q r s \<noteq> x # s" "strip_runes p q r s \<noteq> x # y # s"
  "strip_runes p q r s \<noteq> x # y # z # s" "strip_runes p q r s \<noteq> x # y # z # v # s"
  using suffix_length_le [OF suffix_strip_runes [of p q r s]] by auto

text \<open>A string that has nothing to strip in front keeps that property in each of its prefixes.\<close>

lemma strip_runes_prefix:
  assumes "strip_runes p q r s = s" and "prefix t s"
  shows "strip_runes p q r t = t"
proof -
  from assms(2) obtain u where "s = t @ u" by (auto simp: prefix_def)
  with assms(1) show ?thesis
    by (cases "(p, q, r, t)" rule: strip_runes.cases; cases u; cases "tl u")
      (auto simp: strip_runes_neq split: if_splits)
qed

lemma prefix_TrimRightSpace: "prefix (TrimRightSpace s) s"
  unfolding TrimRightSpace_def
  by (metis rev_rev_ident suffix_strip_runes suffix_to_prefix)

lemma TrimRightSpace_idem [simp]: "TrimRightSpace (TrimRightSpace s) = TrimRightSpace s"
  by (simp add: TrimRightSpace_def)

lemma TrimLeftSpace_TrimSpace [simp]: "TrimLeftSpace (TrimSpace s) = TrimSpace s"
proof -
  have "strip_runes space1 space2 space3 (TrimLeftSpace s) = TrimLeftSpace s"
    by (simp add: TrimLeftSpace_def)
  then show ?thesis
    unfolding TrimSpace_def
    by (subst TrimLeftSpace_def) (rule strip_runes_prefix [OF _ prefix_TrimRightSpace])
qed

lemma TrimSpace_idem [simp, go_str]: "TrimSpace (TrimSpace s) = TrimSpace s"
proof -
  have "TrimSpace (TrimSpace s) = TrimRightSpace (TrimLeftSpace (TrimSpace s))"
    by (rule TrimSpace_def)
  also have "\<dots> = TrimRightSpace (TrimSpace s)" by simp
  also have "\<dots> = TrimSpace s" by (simp add: TrimSpace_def)
  finally show ?thesis .
qed

lemma TrimSpace_Nil [simp, go_str]: "TrimSpace [] = []"
  by (simp add: TrimSpace_def TrimLeftSpace_def TrimRightSpace_def)

lemma HasPrefix_append [simp, go_str]: "HasPrefix (p @ s) p"
  by (simp add: HasPrefix_def)

lemma TrimPrefix_append [simp, go_str]: "TrimPrefix (p @ s) p = s"
  by (simp add: TrimPrefix_def)

lemma HasPrefix_prefix: "HasPrefix s p \<longleftrightarrow> prefix p s"
  by (metis HasPrefix_def append_eq_conv_conj prefix_def)

section \<open>Times, durations and 64-bit integers\<close>

text \<open>
  A \<open>time.Time\<close> is an instant, counted here in nanoseconds from Go's zero time (1 January of
  year 1, UTC), so that \<open>IsZero\<close> is equality with 0; a \<open>time.Duration\<close> is a signed 64-bit count of
  nanoseconds.  \<open>t.Sub(u)\<close> saturates at the ends of the \<open>Duration\<close> range.
\<close>

type_synonym gotime = int
type_synonym duration = int

definition Second :: duration where "Second = 10 ^ 9"
definition Minute :: duration where "Minute = 60 * Second"
definition Hour :: duration where "Hour = 60 * Minute"

definition maxInt64 :: int where "maxInt64 = 2 ^ 63 - 1"
definition minInt64 :: int where "minInt64 = - (2 ^ 63)"

definition IsZero :: "gotime \<Rightarrow> bool" where
  "IsZero t \<longleftrightarrow> t = 0"

definition Sub :: "gotime \<Rightarrow> gotime \<Rightarrow> duration" where
  "Sub t u = max minInt64 (min maxInt64 (t - u))"

definition Unix :: "gotime \<Rightarrow> int" where
  "Unix t = t div Second - 62135596800"

definition UnixMilli :: "gotime \<Rightarrow> int" where
  "UnixMilli t = t div 1000000 - 62135596800000"

text \<open>An \<open>int64\<close> (and an \<open>int\<close> of a 64-bit target) wraps around.\<close>

definition wrap64 :: "int \<Rightarrow> int" where
  "wrap64 x = (x + 2 ^ 63) mod 2 ^ 64 - 2 ^ 63"

definition is_int64 :: "int \<Rightarrow> bool" where
  "is_int64 x \<longleftrightarrow> minInt64 \<le> x \<and> x \<le> maxInt64"

lemma is_int64_wrap64: "is_int64 (wrap64 x)"
proof -
  have "0 \<le> (x + 2 ^ 63) mod 2 ^ 64" and "(x + 2 ^ 63) mod 2 ^ 64 < (2 ^ 64 :: int)" by simp_all
  then show ?thesis by (simp add: is_int64_def wrap64_def minInt64_def maxInt64_def)
qed

lemma wrap64_id: "is_int64 x \<Longrightarrow> wrap64 x = x"
  by (simp add: is_int64_def wrap64_def minInt64_def maxInt64_def)

lemma is_int64_Sub: "is_int64 (Sub t u)"
  by (simp add: is_int64_def Sub_def minInt64_def maxInt64_def)

lemma Sub_mono: "t \<le> t' \<Longrightarrow> Sub t u \<le> Sub t' u"
  by (auto simp: Sub_def)

lemma Sub_self [simp]: "Sub t t = 0"
  by (simp add: Sub_def minInt64_def maxInt64_def)

section \<open>Maps\<close>

text \<open>
  A Go map is an association list with distinct keys: it has finitely many keys, \<open>len\<close> is its
  length, and a \<open>range\<close> loop visits the entries in some order, here that of the list.  No theorem
  about a component depends on that order.  A \<open>map[string]struct{}\<close> is a map to \<open>unit\<close>.
\<close>

type_synonym ('k, 'v) gomap = "('k \<times> 'v) list"
type_synonym 'k goset = "('k \<times> unit) list"

abbreviation mput :: "'k \<Rightarrow> 'v \<Rightarrow> ('k, 'v) gomap \<Rightarrow> ('k, 'v) gomap" where
  "mput k v m \<equiv> AList.update k v m"

abbreviation mdelete :: "'k \<Rightarrow> ('k, 'v) gomap \<Rightarrow> ('k, 'v) gomap" where
  "mdelete k m \<equiv> AList.delete k m"

abbreviation mkeys :: "('k, 'v) gomap \<Rightarrow> 'k list" where
  "mkeys m \<equiv> map fst m"

abbreviation wf_map :: "('k, 'v) gomap \<Rightarrow> bool" where
  "wf_map m \<equiv> distinct (map fst m)"

declare update_conv' [go_map] delete_conv' [go_map] distinct_update [go_map]
  distinct_delete [go_map] dom_map_of_conv_image_fst [go_map]

lemma set_mkeys [go_map]: "set (mkeys m) = dom (map_of m)"
  by (simp add: dom_map_of_conv_image_fst)

lemma map_of_Nil_iff [go_map]: "map_of m = Map.empty \<longleftrightarrow> m = []"
  by (cases m) auto

lemma length_wf_map [go_map]: "wf_map m \<Longrightarrow> length m = card (dom (map_of m))"
  by (metis distinct_card length_map set_mkeys)

lemma mput_not_Nil [simp]: "mput k v m \<noteq> []"
  by (cases m) auto

lemma mdelete_Nil_iff [go_map]: "mdelete k m = [] \<longleftrightarrow> dom (map_of m) \<subseteq> {k}"
proof -
  have "mdelete k m = [] \<longleftrightarrow> map_of (mdelete k m) = Map.empty"
    by (simp add: map_of_Nil_iff)
  then show ?thesis by (auto simp: delete_conv' fun_eq_iff dom_def split: if_splits)
qed

section \<open>Effects\<close>

text \<open>
  A call with effects is a computation of the library's state monad over the outside world \<open>'w\<close>.
  \<open>reads\<close> looks at the world, \<open>on_part\<close> runs an operation of one component on its part of the world.
\<close>

type_synonym ('w, 'a) io = "('w, 'a) state"

definition reads :: "('w \<Rightarrow> 'a) \<Rightarrow> ('w, 'a) io" where
  "reads f = State (\<lambda>w. (f w, w))"

definition on_part :: "('w \<Rightarrow> 's) \<Rightarrow> ('s \<Rightarrow> 'w \<Rightarrow> 'w) \<Rightarrow> ('s \<Rightarrow> 'a \<times> 's) \<Rightarrow> ('w, 'a) io" where
  "on_part part put f = State (\<lambda>w. case f (part w) of (a, s) \<Rightarrow> (a, put s w))"

lemma run_reads [simp, go_io]: "run_state (reads f) w = (f w, w)"
  by (simp add: reads_def)

lemma run_on_part [simp, go_io]:
  "run_state (on_part part put f) w = (fst (f (part w)), put (snd (f (part w))) w)"
  by (simp add: on_part_def case_prod_beta)

lemma run_bind [simp, go_io]:
  "run_state (m \<bind> f) w = run_state (f (fst (run_state m w))) (snd (run_state m w))"
  by (simp add: case_prod_beta)

declare run_state_bind [simp del]

section \<open>Fallible computations\<close>

text \<open>
  A function that returns a value and an error returns \<open>Inl e\<close> or \<open>Inr v\<close>; \<open>ebind\<close> is the early
  return on an error.
\<close>

definition ebind :: "'e + 'a \<Rightarrow> ('a \<Rightarrow> 'e + 'b) \<Rightarrow> 'e + 'b" where
  "ebind m f = (case m of Inl e \<Rightarrow> Inl e | Inr x \<Rightarrow> f x)"

definition check :: "bool \<Rightarrow> 'e \<Rightarrow> 'e + unit" where
  "check ok e = (if ok then Inr () else Inl e)"

lemma ebind_simps [simp]: "ebind (Inl e) f = Inl e" "ebind (Inr x) f = f x"
  by (simp_all add: ebind_def)

lemma ebind_Inr_iff [simp]: "ebind m f = Inr y \<longleftrightarrow> (\<exists>x. m = Inr x \<and> f x = Inr y)"
  by (simp add: ebind_def split: sum.split)

lemma check_Inr_iff [simp]: "check ok e = Inr u \<longleftrightarrow> ok"
  by (simp add: check_def)

lemma check_simps [simp]: "check True e = Inr ()" "check False e = Inl e"
  by (simp_all add: check_def)

end
