(* ===== verification/Queue_Url.thy ===== *)
theory Queue_Url
  imports Go_Prelude
begin

text \<open>
  Package \<^verbatim>\<open>pkg/queueurl\<close>: which strings are accepted as playback URLs, and the filter that the
  control handler applies to a submitted queue.
\<close>

definition IsPlaybackURL :: "string \<Rightarrow> bool" where
  "IsPlaybackURL s0 =
     (let s = TrimSpace s0 in
      if s = [] then False
      else if HasPrefix s ''//'' then length s > 2
      else HasPrefix s ''http://'' \<or> HasPrefix s ''https://'')"

fun FilterPlaybackURLs :: "string list \<Rightarrow> string list" where
  "FilterPlaybackURLs [] = []"
| "FilterPlaybackURLs (item # queue) =
     (if IsPlaybackURL item then TrimSpace item # FilterPlaybackURLs queue
      else FilterPlaybackURLs queue)"

lemma IsPlaybackURL_TrimSpace [simp]: "IsPlaybackURL (TrimSpace s) = IsPlaybackURL s"
  by (simp add: IsPlaybackURL_def)

lemma FilterPlaybackURLs_eq: "FilterPlaybackURLs queue = map TrimSpace (filter IsPlaybackURL queue)"
  by (induction queue) simp_all

lemma FilterPlaybackURLs_id:
  "(\<And>u. u \<in> set queue \<Longrightarrow> IsPlaybackURL u \<and> TrimSpace u = u) \<Longrightarrow> FilterPlaybackURLs queue = queue"
  by (induction queue) simp_all

lemma playback_urls_of_filter: "set (FilterPlaybackURLs queue) = TrimSpace ` {u \<in> set queue. IsPlaybackURL u}"
  by (simp add: FilterPlaybackURLs_eq)

text \<open>
  The filter keeps exactly the trimmed playback URLs of the submitted queue, in their order;
  filtering again changes nothing, so a queue that came out of the filter holds trimmed playback URLs only.
\<close>

theorem FilterPlaybackURLs_spec:
  "FilterPlaybackURLs queue = map TrimSpace (filter IsPlaybackURL queue) \<and>
   FilterPlaybackURLs (FilterPlaybackURLs queue) = FilterPlaybackURLs queue \<and>
   list_all (\<lambda>u. IsPlaybackURL u \<and> TrimSpace u = u) (FilterPlaybackURLs queue)"
proof (intro conjI)
  show "FilterPlaybackURLs (FilterPlaybackURLs queue) = FilterPlaybackURLs queue"
    by (rule FilterPlaybackURLs_id) (auto simp: playback_urls_of_filter)
  show "list_all (\<lambda>u. IsPlaybackURL u \<and> TrimSpace u = u) (FilterPlaybackURLs queue)"
    by (auto simp: list_all_iff playback_urls_of_filter)
qed (rule FilterPlaybackURLs_eq)

end
