(* ===== verification/Go_Float64.thy ===== *)
theory Go_Float64
  imports Go_Prelude Complex_Main "HOL-Library.Log_Nat"
begin

text \<open>
  The finite values of Go's \<open>float64\<close>, as rational numbers, with the rounding of IEEE 754 binary64
  (round to nearest, ties to even, 53-bit significand, least exponent \<open>-1074\<close>).  Positions and
  durations of a video arrive as JSON numbers, so they are finite; adding at most \<open>2 ^ 63\<close>
  nanoseconds to a finite value cannot overflow, so no infinity arises in the code modelled here.
\<close>

section \<open>Rounding\<close>

type_synonym float64 = rat

definition round_even :: "rat \<Rightarrow> int" where
  "round_even x =
     (let f = \<lfloor>x\<rfloor>; d = x - of_int f
      in if d < 1 / 2 then f else if d > 1 / 2 then f + 1 else if even f then f else f + 1)"

text \<open>The exponent \<open>e\<close> of a positive \<open>x\<close>: \<open>2 ^ e \<le> x < 2 ^ (e + 1)\<close>.\<close>

definition exponent2 :: "rat \<Rightarrow> int" where
  "exponent2 x =
     (case quotient_of x of (p, q) \<Rightarrow>
        let e = bitlen p - bitlen q in if 2 powi e \<le> x then e else e - 1)"

definition quantum :: "rat \<Rightarrow> int" where
  "quantum x = max (exponent2 x - 52) (- 1074)"

definition rnd_pos :: "rat \<Rightarrow> float64" where
  "rnd_pos x = of_int (round_even (x / 2 powi quantum x)) * 2 powi quantum x"

definition rnd64 :: "rat \<Rightarrow> float64" where
  "rnd64 x = (if x = 0 then 0 else if x < 0 then - rnd_pos (- x) else rnd_pos x)"

definition is_float64 :: "rat \<Rightarrow> bool" where
  "is_float64 x \<longleftrightarrow> rnd64 x = x"

subsection \<open>Rounding to an integer\<close>

lemma round_even_of_int [simp]: "round_even (of_int n) = n"
  by (simp add: round_even_def)

lemma round_even_mono: "x \<le> y \<Longrightarrow> round_even x \<le> round_even y"
proof -
  assume le: "x \<le> y"
  then have fl: "\<lfloor>x\<rfloor> \<le> \<lfloor>y\<rfloor>" by (rule floor_mono)
  show ?thesis
  proof (cases "\<lfloor>x\<rfloor> = \<lfloor>y\<rfloor>")
    case True
    with le show ?thesis by (auto simp: round_even_def Let_def)
  next
    case False
    with fl have "\<lfloor>x\<rfloor> + 1 \<le> \<lfloor>y\<rfloor>" by simp
    moreover have "round_even x \<le> \<lfloor>x\<rfloor> + 1" and "\<lfloor>y\<rfloor> \<le> round_even y"
      by (simp_all add: round_even_def Let_def)
    ultimately show ?thesis by linarith
  qed
qed

subsection \<open>Binades\<close>

lemma pow2_pos [simp]: "0 < (2::rat) powi e"
  by (simp add: zero_less_power_int)

lemma pow2_mono: "m \<le> n \<Longrightarrow> (2::rat) powi m \<le> 2 powi n"
  by (rule power_int_increasing) simp_all

lemma bitlen_rat_bounds:
  assumes "0 < n"
  shows "2 powi (bitlen n - 1) \<le> (of_int n :: rat)" and "(of_int n :: rat) < 2 powi bitlen n"
proof -
  have b: "0 < bitlen n"
    using assms bitlen_nonneg [of n] bitlen_eq_zero_iff [of n] by linarith
  have "2 ^ nat (bitlen n - 1) \<le> n" and "n < 2 ^ nat (bitlen n)"
    using bitlen_bounds [OF assms] by auto
  then have "of_int (2 ^ nat (bitlen n - 1)) \<le> (of_int n :: rat)"
    and "(of_int n :: rat) < of_int (2 ^ nat (bitlen n))"
    by (simp_all only: of_int_le_iff of_int_less_iff)
  then show "2 powi (bitlen n - 1) \<le> (of_int n :: rat)" "(of_int n :: rat) < 2 powi bitlen n"
    using b by (simp_all add: power_int_def)
qed

lemma exponent2_bounds:
  assumes "0 < x"
  shows "2 powi exponent2 x \<le> x \<and> x < 2 powi (exponent2 x + 1)"
proof -
  obtain p q where pq: "quotient_of x = (p, q)" by (cases "quotient_of x")
  then have x: "x = of_int p / of_int q" and q: "0 < q"
    by (auto dest: quotient_of_div quotient_of_denom_pos)
  with assms have p: "0 < p" by (simp add: zero_less_divide_iff)
  let ?e = "bitlen p - bitlen q"
  have "x < 2 powi bitlen p / 2 powi (bitlen q - 1)"
    unfolding x using bitlen_rat_bounds [OF p] bitlen_rat_bounds [OF q] p
    by (intro frac_less) (auto intro: less_imp_le)
  also have "\<dots> = 2 powi (?e + 1)"
    by (simp add: power_int_diff [symmetric] algebra_simps)
  finally have hi: "x < 2 powi (?e + 1)" .
  have "2 powi (?e - 1) = 2 powi (bitlen p - 1) / (2 powi bitlen q :: rat)"
    by (simp add: power_int_diff [symmetric] algebra_simps)
  also have "\<dots> \<le> x"
    unfolding x using bitlen_rat_bounds [OF p] bitlen_rat_bounds [OF q] p q
    by (intro frac_le) auto
  finally have lo: "2 powi (?e - 1) \<le> x" .
  from hi lo show ?thesis by (auto simp: exponent2_def pq Let_def)
qed

lemma exponent2_mono:
  assumes "0 < x" and "x \<le> y"
  shows "exponent2 x \<le> exponent2 y"
proof (rule ccontr)
  assume "\<not> ?thesis"
  then have "(2::rat) powi (exponent2 y + 1) \<le> 2 powi exponent2 x" by (intro pow2_mono) simp
  with exponent2_bounds [of x] exponent2_bounds [of y] assms show False by linarith
qed

text \<open>A multiple of the quantum is a bound that rounding keeps.\<close>

lemma pow2_multiple:
  assumes "q \<le> e"
  shows "\<exists>n. (2::rat) powi e / 2 powi q = of_int n"
proof
  have "(2::rat) powi e / 2 powi q = 2 powi (e - q)" by (simp add: power_int_diff)
  then show "(2::rat) powi e / 2 powi q = of_int (2 ^ nat (e - q))"
    using assms by (simp add: power_int_nonneg_exp)
qed

lemma rnd_pos_le_pow2:
  assumes "x \<le> 2 powi e" and "quantum x \<le> e"
  shows "rnd_pos x \<le> 2 powi e"
proof -
  obtain n where n: "(2::rat) powi e / 2 powi quantum x = of_int n"
    using pow2_multiple [OF assms(2)] by blast
  have "x / 2 powi quantum x \<le> 2 powi e / 2 powi quantum x"
    using assms(1) by (simp add: divide_right_mono)
  then have "round_even (x / 2 powi quantum x) \<le> n"
    unfolding n using round_even_mono [of "x / 2 powi quantum x" "of_int n"] by simp
  then have "rnd_pos x \<le> of_int n * 2 powi quantum x" by (simp add: rnd_pos_def)
  also have "\<dots> = 2 powi e" by (simp add: n [symmetric])
  finally show ?thesis .
qed

lemma pow2_le_rnd_pos:
  assumes "2 powi e \<le> x" and "quantum x \<le> e"
  shows "2 powi e \<le> rnd_pos x"
proof -
  obtain n where n: "(2::rat) powi e / 2 powi quantum x = of_int n"
    using pow2_multiple [OF assms(2)] by blast
  have "2 powi e / 2 powi quantum x \<le> x / 2 powi quantum x"
    using assms(1) by (simp add: divide_right_mono)
  then have "n \<le> round_even (x / 2 powi quantum x)"
    unfolding n using round_even_mono [of "of_int n" "x / 2 powi quantum x"] by simp
  then have "of_int n * 2 powi quantum x \<le> rnd_pos x" by (simp add: rnd_pos_def)
  then show ?thesis by (simp add: n [symmetric])
qed

lemma rnd_pos_mono:
  assumes "0 < x" and "x \<le> y"
  shows "rnd_pos x \<le> rnd_pos y"
proof (cases "quantum x = quantum y")
  case True
  have "round_even (x / 2 powi quantum x) \<le> round_even (y / 2 powi quantum x)"
    by (intro round_even_mono divide_right_mono) (use assms in auto)
  with True show ?thesis by (simp add: rnd_pos_def)
next
  case False
  from exponent2_mono [OF assms] have e: "exponent2 x \<le> exponent2 y" .
  with False have q: "quantum y = exponent2 y - 52" "exponent2 x < exponent2 y"
    "quantum x \<le> exponent2 y" "quantum y \<le> exponent2 y"
    by (auto simp: quantum_def max_def split: if_splits)
  have "x \<le> 2 powi (exponent2 x + 1)" using exponent2_bounds [OF assms(1)] by simp
  also have "\<dots> \<le> 2 powi exponent2 y" using q by (intro pow2_mono) simp
  finally have "rnd_pos x \<le> 2 powi exponent2 y" using q by (intro rnd_pos_le_pow2)
  also have "\<dots> \<le> rnd_pos y"
    using q exponent2_bounds [of y] assms by (intro pow2_le_rnd_pos) auto
  finally show ?thesis .
qed

lemma rnd_pos_nonneg: "0 < x \<Longrightarrow> 0 \<le> rnd_pos x"
proof -
  assume "0 < x"
  then have "round_even 0 \<le> round_even (x / 2 powi quantum x)"
    by (intro round_even_mono) simp
  then show ?thesis using round_even_of_int [of 0] by (simp add: rnd_pos_def)
qed

lemma rnd64_zero [simp]: "rnd64 0 = 0"
  by (simp add: rnd64_def)

lemma rnd64_mono: "x \<le> y \<Longrightarrow> rnd64 x \<le> rnd64 y"
proof -
  assume le: "x \<le> y"
  consider "0 < x" | "x \<le> 0" "0 \<le> y" | "y < 0" by linarith
  then show ?thesis
  proof cases
    case 1
    with le show ?thesis by (simp add: rnd64_def rnd_pos_mono)
  next
    case 2
    then have "rnd64 x \<le> 0" and "0 \<le> rnd64 y"
      using rnd_pos_nonneg [of "- x"] rnd_pos_nonneg [of y] by (auto simp: rnd64_def)
    then show ?thesis by linarith
  next
    case 3
    with le show ?thesis by (simp add: rnd64_def rnd_pos_mono)
  qed
qed

text \<open>Integers of at most 53 bits are exact.\<close>

lemma rnd_pos_of_int:
  assumes "0 < n" and "n < 2 ^ 53"
  shows "rnd_pos (of_int n) = of_int n"
proof -
  have x: "0 < (of_int n :: rat)" using assms by simp
  have "of_int n < (of_int (2 ^ 53) :: rat)" using assms(2) by (simp only: of_int_less_iff)
  then have "(2::rat) powi exponent2 (of_int n) < 2 powi 53"
    using exponent2_bounds [OF x] by simp
  then have "exponent2 (of_int n) < 53" by (rule power_int_le_imp_less_exp [rotated]) simp_all
  then have q: "quantum (of_int n) \<le> 0" by (simp add: quantum_def)
  obtain m where m: "(2::rat) powi 0 / 2 powi quantum (of_int n) = of_int m"
    using pow2_multiple [OF q] by blast
  have "of_int n / 2 powi quantum (of_int n) = (of_int (n * m) :: rat)"
    using m by (simp add: field_simps)
  then have "rnd_pos (of_int n) = of_int (n * m) * 2 powi quantum (of_int n)"
    by (simp only: rnd_pos_def round_even_of_int)
  also have "\<dots> = of_int n" using m by (simp add: field_simps)
  finally show ?thesis .
qed

lemma rnd64_of_int: "\<bar>n\<bar> < 2 ^ 53 \<Longrightarrow> rnd64 (of_int n) = of_int n"
  using rnd_pos_of_int [of n] rnd_pos_of_int [of "- n"]
  by (cases n "0 :: int" rule: linorder_cases) (auto simp: rnd64_def)

lemma rnd64_nonneg: "0 \<le> x \<Longrightarrow> 0 \<le> rnd64 x"
  using rnd64_mono [of 0 x] by simp

subsection \<open>Rounding twice\<close>

lemma rnd_pos_multiple:
  assumes "x / 2 powi quantum x = of_int n"
  shows "rnd_pos x = x"
proof -
  have "rnd_pos x = x / 2 powi quantum x * 2 powi quantum x"
    by (simp only: rnd_pos_def assms round_even_of_int)
  then show ?thesis by simp
qed

lemma exponent2_pow2: "exponent2 (2 powi k) = k"
proof (rule antisym)
  have "0 < (2::rat) powi k" by simp
  note b = exponent2_bounds [OF this]
  show "exponent2 (2 powi k) \<le> k"
  proof (rule ccontr)
    assume "\<not> ?thesis"
    then have "(2::rat) powi k < 2 powi exponent2 (2 powi k)"
      by (intro power_int_strict_increasing) simp_all
    with b show False by simp
  qed
  show "k \<le> exponent2 (2 powi k)"
  proof (rule ccontr)
    assume "\<not> ?thesis"
    then have "(2::rat) powi (exponent2 (2 powi k) + 1) \<le> 2 powi k" by (intro pow2_mono) simp
    with b show False by simp
  qed
qed

lemma rnd_pos_idem:
  assumes x: "0 < x" and y: "0 < rnd_pos x"
  shows "rnd_pos (rnd_pos x) = rnd_pos x"
proof (cases "quantum (rnd_pos x) \<le> quantum x")
  case True
  then obtain n where "(2::rat) powi quantum x / 2 powi quantum (rnd_pos x) = of_int n"
    using pow2_multiple by blast
  then have "rnd_pos x / 2 powi quantum (rnd_pos x)
      = of_int (round_even (x / 2 powi quantum x) * n)"
    by (subst (1) rnd_pos_def) (simp add: field_simps)
  then show ?thesis by (rule rnd_pos_multiple)
next
  case False
  then have e: "exponent2 x + 1 \<le> exponent2 (rnd_pos x)" and big: "- 1022 < exponent2 (rnd_pos x)"
    by (auto simp: quantum_def max_def split: if_splits)
  have lo: "2 powi exponent2 (rnd_pos x) \<le> rnd_pos x" using exponent2_bounds [OF y] by simp
  have q: "quantum x \<le> exponent2 (rnd_pos x)"
    using e big by (auto simp: quantum_def max_def)
  have "x \<le> 2 powi (exponent2 x + 1)" using exponent2_bounds [OF x] by simp
  also have "\<dots> \<le> 2 powi exponent2 (rnd_pos x)" using e by (rule pow2_mono)
  finally have "rnd_pos x \<le> 2 powi exponent2 (rnd_pos x)" using q by (rule rnd_pos_le_pow2)
  with lo have eq: "rnd_pos x = 2 powi exponent2 (rnd_pos x)" by simp
  have "quantum (rnd_pos x) \<le> exponent2 (rnd_pos x)" using big by (simp add: quantum_def)
  then obtain n where "(2::rat) powi exponent2 (rnd_pos x) / 2 powi quantum (rnd_pos x) = of_int n"
    using pow2_multiple by blast
  with eq have "rnd_pos x / 2 powi quantum (rnd_pos x) = of_int n" by simp
  then show ?thesis by (rule rnd_pos_multiple)
qed

lemma rnd64_idem [simp]: "rnd64 (rnd64 x) = rnd64 x"
proof -
  have pos: "rnd64 (rnd_pos z) = rnd_pos z" if "0 < z" for z
  proof (cases "rnd_pos z = 0")
    case False
    with rnd_pos_nonneg [OF that] have "0 < rnd_pos z" by simp
    with rnd_pos_idem [OF that this] show ?thesis by (simp add: rnd64_def)
  qed simp
  have neg: "rnd64 (- z) = - rnd64 z" for z by (simp add: rnd64_def)
  show ?thesis
    using pos [of x] pos [of "- x"] by (cases x "0 :: rat" rule: linorder_cases)
      (simp_all add: rnd64_def [of x] neg)
qed

lemma is_float64_rnd64 [simp]: "is_float64 (rnd64 x)"
  by (simp add: is_float64_def)

lemma is_float64_zero [simp]: "is_float64 0"
  by (simp add: is_float64_def)

lemma is_float64_of_int: "\<bar>n\<bar> < 2 ^ 53 \<Longrightarrow> is_float64 (of_int n)"
  by (simp add: is_float64_def rnd64_of_int)

section \<open>Seconds of a duration\<close>

text \<open>
  \<open>Duration.Seconds\<close> converts the whole seconds and the rest separately, dividing with truncation:
  \<open>float64(d/Second) + float64(d%Second)/1e9\<close>.
\<close>

definition Seconds :: "duration \<Rightarrow> float64" where
  "Seconds d = rnd64 (rnd64 (of_int (d sdiv Second)) + rnd64 (rnd64 (of_int (d smod Second)) / 1000000000))"

lemma Seconds_zero [simp]: "Seconds 0 = 0"
  by (simp add: Seconds_def)

lemma Seconds_nonpos:
  assumes "d \<le> 0"
  shows "Seconds d \<le> 0"
proof -
  have "d sdiv Second \<le> 0" and "d smod Second \<le> 0"
    using assms by (auto simp: signed_divide_int_def signed_modulo_int_def Second_def sgn_if)
  then have "rnd64 (of_int (d sdiv Second)) \<le> 0" and "rnd64 (of_int (d smod Second)) \<le> 0"
    using rnd64_mono [of "of_int (d sdiv Second)" 0] rnd64_mono [of "of_int (d smod Second)" 0]
    by simp_all
  moreover from this(2) have "rnd64 (rnd64 (of_int (d smod Second)) / 1000000000) \<le> 0"
    using rnd64_mono [of "rnd64 (of_int (d smod Second)) / 1000000000" 0] by simp
  ultimately show ?thesis
    unfolding Seconds_def
    using rnd64_mono [of "rnd64 (of_int (d sdiv Second)) + rnd64 (rnd64 (of_int (d smod Second)) / 1000000000)" 0]
    by simp
qed

lemma Seconds_nonneg_eq:
  assumes "0 \<le> d" and "is_int64 d"
  shows "Seconds d = rnd64 (of_int (d div Second) + rnd64 (of_int (d mod Second) / 1000000000))"
proof -
  have "d sdiv Second = d div Second" and "d smod Second = d mod Second"
    using assms by (auto simp: signed_divide_int_def signed_modulo_int_def Second_def sgn_if)
  moreover have "\<bar>d div Second\<bar> < 2 ^ 53"
  proof -
    have "d div Second \<le> maxInt64 div Second"
      using assms by (intro zdiv_mono1) (auto simp: is_int64_def Second_def)
    moreover have "maxInt64 div Second < 2 ^ 53" and "0 \<le> d div Second"
      using assms by (simp_all add: maxInt64_def Second_def)
    ultimately show ?thesis by linarith
  qed
  moreover have "\<bar>d mod Second\<bar> < 2 ^ 53"
  proof -
    have "0 \<le> d mod 10 ^ 9" and "d mod 10 ^ 9 < (10 ^ 9 :: int)" by simp_all
    then show ?thesis by (simp add: Second_def)
  qed
  ultimately show ?thesis by (simp add: Seconds_def rnd64_of_int)
qed

lemma Seconds_mono_nonneg:
  assumes "0 \<le> d" and "d \<le> d'" and "is_int64 d'"
  shows "Seconds d \<le> Seconds d'"
proof -
  define r where "r = (\<lambda>x::duration. rnd64 (of_int (x mod Second) / 1000000000))"
  have S: "0 \<le> x mod Second" "x mod Second < Second" for x by (simp_all add: Second_def)
  have r0: "0 \<le> r x" for x
    unfolding r_def using S [of x] by (intro rnd64_nonneg) simp
  have r1: "r x \<le> 1" for x
  proof -
    have "of_int (x mod Second) \<le> (of_int Second :: rat)"
      using S [of x] by (simp only: of_int_le_iff)
    then have "r x \<le> rnd64 (of_int 1)"
      unfolding r_def by (intro rnd64_mono) (simp add: Second_def)
    then show ?thesis using rnd64_of_int [of 1] by simp
  qed
  have "of_int (d div Second) + r d \<le> of_int (d' div Second) + r d'"
  proof (cases "d div Second = d' div Second")
    case True
    then have "d mod Second \<le> d' mod Second"
      using assms(2) div_mult_mod_eq [of d Second] div_mult_mod_eq [of d' Second]
      by (metis add_le_cancel_left)
    then have "r d \<le> r d'" unfolding r_def by (intro rnd64_mono) (simp add: divide_right_mono)
    with True show ?thesis by simp
  next
    case False
    have "d div Second \<le> d' div Second" using assms(2) by (simp add: zdiv_mono1 Second_def)
    with False have "d div Second + 1 \<le> d' div Second" by simp
    then have "of_int (d div Second + 1) \<le> (of_int (d' div Second) :: rat)"
      by (simp only: of_int_le_iff)
    with r1 [of d] r0 [of d'] show ?thesis by simp
  qed
  then have "rnd64 (of_int (d div Second) + r d) \<le> rnd64 (of_int (d' div Second) + r d')"
    by (rule rnd64_mono)
  moreover have "is_int64 d" using assms by (simp add: is_int64_def minInt64_def)
  ultimately show ?thesis
    using assms by (simp add: Seconds_nonneg_eq r_def)
qed

lemma Seconds_nonneg: "0 \<le> d \<Longrightarrow> is_int64 d \<Longrightarrow> 0 \<le> Seconds d"
  using Seconds_mono_nonneg [of 0 d] by simp

lemma Seconds_max0_mono:
  assumes "d \<le> d'" and "is_int64 d'"
  shows "max 0 (Seconds d) \<le> max 0 (Seconds d')"
proof (cases "0 \<le> d")
  case True
  with assms show ?thesis using Seconds_mono_nonneg [of d d'] by (auto simp: max_def)
next
  case False
  then show ?thesis using Seconds_nonpos [of d] by (auto simp: max_def)
qed

text \<open>Whole seconds convert exactly.\<close>

lemma Seconds_whole:
  assumes "0 \<le> n" and "is_int64 (n * Second)"
  shows "Seconds (n * Second) = of_int n"
proof -
  have "n * Second div Second = n" and "n * Second mod Second = 0" by (simp_all add: Second_def)
  moreover have "\<bar>n\<bar> < 2 ^ 53"
    using assms by (simp add: is_int64_def maxInt64_def Second_def)
  ultimately show ?thesis
    using assms by (simp add: Seconds_nonneg_eq Second_def rnd64_of_int)
qed

end
