(* ===== verification/Model.thy ===== *)
theory Model
  imports Go_Float64
begin

text \<open>
  The data of the server: the types of \<^verbatim>\<open>internal/model/model.go\<close> and the error values of the
  packages.  A Go struct is a record whose field names carry a short prefix (\<open>u_\<close> for \<open>User\<close>,
  \<open>rm_\<close> for \<open>Room\<close>, \<open>rs_\<close> for \<open>RoomState\<close>, \<open>qi_\<close> for \<open>QueueItemRef\<close>); the named string types of
  the package keep every string as a value, as Go does, with the package's constants as definitions.
\<close>

section \<open>Errors\<close>

text \<open>
  One constructor per sentinel error of the packages; an error that wraps a sentinel, so that
  \<open>errors.Is\<close> finds it, is that sentinel.  \<open>ErrCooldown\<close> carries the \<open>RetryAfter\<close> of a
  \<open>CooldownError\<close>; \<open>OtherError\<close> is any error no branch of the code tells apart.
\<close>

datatype error =
    ErrNotFound | ErrConflict
  | ErrForbidden | ErrStaleControl
  | ErrChatRequiresRedis | ErrChatPendingFull | ErrChatTextEmpty | ErrChatTextTooLong
  | ErrChatPayloadTooLarge | ErrChatRateLimited
  | ErrInvalidCredentials | ErrInvalidToken | ErrInvalidEmail | ErrWeakPassword
  | ErrInvalidUsername
  | ErrCooldown duration | ErrDailyLimit | ErrInvalidCode | ErrExpired | ErrMaxAttempts
  | ErrRootKeyRequired | ErrDisabled | ErrRedisNil
  | OtherError string

section \<open>Users and rooms\<close>

type_synonym UserRole = string

definition UserRoleAdmin :: UserRole where [simp]: "UserRoleAdmin = ''admin''"
definition UserRoleUser :: UserRole where [simp]: "UserRoleUser = ''user''"

record User =
  u_ID :: string
  u_Email :: string
  u_Username :: string
  u_PasswordHash :: string
  u_Nickname :: string
  u_AvatarURL :: string
  u_Role :: UserRole
  u_CreatedAt :: gotime
  u_UpdatedAt :: gotime

type_synonym RoomVisibility = string

definition RoomVisibilityPublic :: RoomVisibility where [simp]: "RoomVisibilityPublic = ''public''"
definition RoomVisibilityPrivate :: RoomVisibility where [simp]: "RoomVisibilityPrivate = ''private''"

record Room =
  rm_ID :: string
  rm_Name :: string
  rm_OwnerID :: string
  rm_Visibility :: RoomVisibility
  rm_PasswordHash :: string
  rm_CurrentVideo :: string
  rm_CreatedAt :: gotime
  rm_UpdatedAt :: gotime

section \<open>Playback\<close>

type_synonym PlaybackAction = string

definition PlaybackActionPlay :: PlaybackAction where [simp]: "PlaybackActionPlay = ''play''"
definition PlaybackActionPause :: PlaybackAction where [simp]: "PlaybackActionPause = ''pause''"
definition PlaybackActionSeek :: PlaybackAction where [simp]: "PlaybackActionSeek = ''seek''"
definition PlaybackActionNext :: PlaybackAction where [simp]: "PlaybackActionNext = ''next''"
definition PlaybackActionSwitch :: PlaybackAction where [simp]: "PlaybackActionSwitch = ''switch''"

type_synonym PlaybackMode = string

definition PlaybackModeSequential :: PlaybackMode where [simp]: "PlaybackModeSequential = ''sequential''"
definition PlaybackModeLoop :: PlaybackMode where [simp]: "PlaybackModeLoop = ''loop''"

record QueueItemRef =
  qi_ID :: string
  qi_VideoID :: string
  qi_Position :: int

record RoomState =
  rs_RoomID :: string
  rs_VideoID :: string
  rs_Queue :: "string list"
  rs_QueueMeta :: "QueueItemRef list"
  rs_Action :: PlaybackAction
  rs_Position :: float64
  rs_PlaybackMode :: PlaybackMode
  rs_VideoDuration :: float64
  rs_ControlVersion :: int
  rs_UpdatedBy :: string
  rs_UpdatedAt :: gotime
  rs_BaseUpdatedAt :: gotime

end
