(* ===== verification/Room_Interfaces.thy ===== *)
theory Room_Interfaces
  imports Model
begin

text \<open>
  The interfaces between the room service and its backends.  A Go interface (of
  \<^verbatim>\<open>internal/cache\<close>, \<^verbatim>\<open>internal/store\<close>, \<^verbatim>\<open>internal/realtime\<close>) is a record of effectful
  operations over a world \<open>'w\<close>; the contract behind it is a locale over such a record, stated by
  means of an abstraction function from the world to one abstract room database.  The room service
  is verified against the contracts; the memory backends and the Postgres store discharge them.
\<close>

section \<open>Messages of package room\<close>

record HubUser =
  hu_ID :: string
  hu_Username :: string
  hu_Nickname :: string
  hu_Role :: UserRole
  hu_IsOwner :: bool

definition HubUser0 :: HubUser where
  "HubUser0 = \<lparr>hu_ID = [], hu_Username = [], hu_Nickname = [], hu_Role = [], hu_IsOwner = False\<rparr>"

text \<open>The \<open>Payload\<close> field of \<open>Message\<close> is left out: no message of the server sets it.\<close>

record Message =
  ms_Type :: string
  ms_Action :: PlaybackAction
  ms_Event :: string
  ms_Position :: float64
  ms_VideoID :: string
  ms_Queue :: "string list"
  ms_Timestamp :: int
  ms_ControlVersion :: int
  ms_PlaybackMode :: PlaybackMode
  ms_UpdatedAt :: int
  ms_User :: "HubUser option"

definition Message0 :: Message where
  "Message0 = \<lparr>ms_Type = [], ms_Action = [], ms_Event = [], ms_Position = 0, ms_VideoID = [],
     ms_Queue = [], ms_Timestamp = 0, ms_ControlVersion = 0, ms_PlaybackMode = [], ms_UpdatedAt = 0,
     ms_User = None\<rparr>"

record ChatMessage =
  cm_Type :: string
  cm_Seq :: int
  cm_StreamID :: string
  cm_RoomID :: string
  cm_User :: HubUser
  cm_Text :: string
  cm_SentAt :: int

text \<open>What is handed to the publisher: a message, or the JSON text of a chat message.\<close>

datatype pub_data = PubMessage Message | PubRaw string

section \<open>The interfaces\<close>

record RoomMember =
  mb_UserID :: string
  mb_Username :: string

record 'w RoomStateCache =
  SetRoomState :: "string \<Rightarrow> RoomState \<Rightarrow> ('w, error option) io"
  GetRoomState :: "string \<Rightarrow> ('w, error + RoomState) io"
  DeleteRoomState :: "string \<Rightarrow> ('w, error option) io"

record 'w RoomPresence =
  JoinRoom :: "string \<Rightarrow> string \<Rightarrow> string \<Rightarrow> ('w, error + string) io"
  LeaveRoom :: "string \<Rightarrow> string \<Rightarrow> ('w, error option) io"
  RemoveMember :: "string \<Rightarrow> string \<Rightarrow> ('w, error option) io"
  ListMembers :: "string \<Rightarrow> ('w, error + RoomMember list) io"
  MemberCount :: "string \<Rightarrow> ('w, error + int) io"
  GetUserRoom :: "string \<Rightarrow> ('w, error + string) io"
  DeleteRoomPresence :: "string \<Rightarrow> ('w, error option) io"
  PendingEmptyRooms :: "('w, error + string list) io"
  ClearPendingEmpty :: "string \<Rightarrow> ('w, error option) io"
  GetLastRoomCleanupAt :: "('w, error + gotime) io"
  SetLastRoomCleanupAt :: "gotime \<Rightarrow> ('w, error option) io"
  TryAcquireCleanupLock :: "duration \<Rightarrow> ('w, error + bool) io"
  ReleaseCleanupLock :: "('w, error option) io"
  ListRoomsWithMembers :: "('w, error + string list) io"

record 'w RoomAccessCache =
  GrantRoomAccess :: "string \<Rightarrow> string \<Rightarrow> ('w, error option) io"
  HasRoomAccess :: "string \<Rightarrow> string \<Rightarrow> ('w, error + bool) io"
  DeleteRoomAccess :: "string \<Rightarrow> ('w, error option) io"

record ListRoomsOpts =
  lo_Limit :: int
  lo_Offset :: int
  lo_Query :: string
  lo_OwnerID :: string

record 'w RoomStore =
  RoomStore_Create :: "Room \<Rightarrow> ('w, error + Room) io"
    \<comment> \<open>the room as the call leaves it behind its pointer argument\<close>
  RoomStore_GetByID :: "string \<Rightarrow> ('w, error + Room) io"
  RoomStore_List :: "ListRoomsOpts \<Rightarrow> ('w, error + (Room list \<times> int)) io"
  RoomStore_Update :: "Room \<Rightarrow> ('w, error option) io"
  RoomStore_Delete :: "string \<Rightarrow> ('w, error option) io"

record 'w Publisher =
  PublishRoomMessage :: "string \<Rightarrow> string \<Rightarrow> pub_data \<Rightarrow> ('w, error option) io"

record RoomChatMessage =
  rc_StreamID :: string
  rc_Seq :: int
  rc_Payload :: string

record 'w RoomChat =
  PendingCount :: "string \<Rightarrow> ('w, error + int) io"
  NextSeq :: "string \<Rightarrow> ('w, error + int) io"
  AppendMessage :: "string \<Rightarrow> int \<Rightarrow> string \<Rightarrow> int \<Rightarrow> ('w, error + string) io"
  ListMessagesRev :: "string \<Rightarrow> string \<Rightarrow> int \<Rightarrow> ('w, error + RoomChatMessage list) io"
  GetPayload :: "string \<Rightarrow> string \<Rightarrow> ('w, error + string) io"
  EnqueuePending :: "string \<Rightarrow> string \<Rightarrow> ('w, error option) io"
  RemovePending :: "string \<Rightarrow> string \<Rightarrow> ('w, error option) io"
  PendingStreamIDs :: "string \<Rightarrow> int \<Rightarrow> ('w, error + string list) io"
  ChatDeleteRoom :: "string \<Rightarrow> ('w, error option) io"
  AllowChatSend :: "string \<Rightarrow> string \<Rightarrow> int \<Rightarrow> ('w, error + bool) io"
  ScanPendingRooms :: "int \<Rightarrow> int \<Rightarrow> ('w, error + (string list \<times> int)) io"

section \<open>The abstract room database\<close>

text \<open>
  A seating plan gives each user at most one room.  The abstract database holds the playback
  state of each room, the seating plan, the rooms waiting for teardown, the cleanup lock and the time
  of the last cleanup, the grants for private rooms, the stored rooms, the rooms with chat history,
  the messages published so far, and the last clock reading.
\<close>

type_synonym seating = "string \<Rightarrow> (string \<times> string) option"

definition occupants :: "seating \<Rightarrow> string \<Rightarrow> string set" where
  "occupants st r = {u. \<exists>n. st u = Some (r, n)}"

record room_abs =
  ab_states :: "string \<Rightarrow> RoomState option"
  ab_seat :: seating
  ab_pending :: "string set"
  ab_lock :: bool
  ab_lastCleanup :: gotime
  ab_access :: "(string \<times> string) set"
  ab_rooms :: "string \<Rightarrow> Room option"
  ab_chat :: "string set"
  ab_log :: "(string \<times> string \<times> pub_data) list"
  ab_now :: gotime

text \<open>What joining, leaving and closing mean for the seating plan and the waiting rooms.\<close>

definition room_left :: "seating \<Rightarrow> string \<Rightarrow> string \<Rightarrow> string option" where
  "room_left st r u = (case st u of Some (r', _) \<Rightarrow> if r' \<noteq> r then Some r' else None | None \<Rightarrow> None)"

definition abs_leave :: "string \<Rightarrow> string \<Rightarrow> room_abs \<Rightarrow> room_abs" where
  "abs_leave r u a =
     (if u \<in> occupants (ab_seat a) r then
        a\<lparr>ab_seat := (ab_seat a)(u := None),
          ab_pending := (if occupants (ab_seat a) r = {u} then insert r (ab_pending a) else ab_pending a)\<rparr>
      else a)"

definition abs_join :: "string \<Rightarrow> string \<Rightarrow> string \<Rightarrow> room_abs \<Rightarrow> room_abs" where
  "abs_join r u n a =
     (let a1 = (case room_left (ab_seat a) r u of Some r' \<Rightarrow> abs_leave r' u a | None \<Rightarrow> a)
      in a1\<lparr>ab_seat := (ab_seat a1)(u \<mapsto> (r, n)), ab_pending := ab_pending a1 - {r}\<rparr>)"

definition vacate :: "string \<Rightarrow> seating \<Rightarrow> seating" where
  "vacate r st = (\<lambda>u. if u \<in> occupants st r then None else st u)"

lemma occupants_upd:
  "occupants (st(u := x)) r = (if \<exists>n. x = Some (r, n) then insert u (occupants st r) else occupants st r - {u})"
  by (auto simp: occupants_def)

lemma occupants_vacate: "occupants (vacate r st) r' = (if r' = r then {} else occupants st r')"
  by (auto simp: occupants_def vacate_def)

text \<open>A user sits in one room only.\<close>

lemma occupants_disjoint: "u \<in> occupants st r \<Longrightarrow> u \<in> occupants st r' \<Longrightarrow> r = r'"
  by (auto simp: occupants_def)

lemma room_left_occupied: "room_left st r u = Some r' \<Longrightarrow> u \<in> occupants st r'"
  by (auto simp: room_left_def occupants_def split: option.splits if_splits)

lemma abs_join_seat: "ab_seat (abs_join r u n a) = (ab_seat a)(u \<mapsto> (r, n))"
  by (auto simp: abs_join_def abs_leave_def split: option.split)

lemma abs_join_pending:
  "ab_pending (abs_join r u n a) =
     (ab_pending a \<union> {r'. room_left (ab_seat a) r u = Some r' \<and> occupants (ab_seat a) r' = {u}}) - {r}"
  by (auto simp: abs_join_def abs_leave_def room_left_occupied split: option.splits)

section \<open>Programs against the abstract database\<close>

text \<open>
  \<open>ensures live A m a Q\<close>: started in any live world that stands for the abstract database \<open>a\<close>, the
  program \<open>m\<close> ends in a live world and returns a result \<open>x\<close> such that \<open>Q x a'\<close> holds for the
  abstract database \<open>a'\<close> it leaves behind.
\<close>

definition ensures ::
  "('w \<Rightarrow> bool) \<Rightarrow> ('w \<Rightarrow> 'a) \<Rightarrow> ('w, 'x) io \<Rightarrow> 'a \<Rightarrow> ('x \<Rightarrow> 'a \<Rightarrow> bool) \<Rightarrow> bool" where
  "ensures live A m a Q \<longleftrightarrow>
     (\<forall>w. live w \<longrightarrow> A w = a \<longrightarrow>
        live (snd (run_state m w)) \<and> Q (fst (run_state m w)) (A (snd (run_state m w))))"

lemma ensuresI:
  "(\<And>w. live w \<Longrightarrow> A w = a \<Longrightarrow>
      live (snd (run_state m w)) \<and> Q (fst (run_state m w)) (A (snd (run_state m w)))) \<Longrightarrow>
    ensures live A m a Q"
  by (simp add: ensures_def)

lemma ensuresD:
  "ensures live A m (A w) Q \<Longrightarrow> live w \<Longrightarrow>
    live (snd (run_state m w)) \<and> Q (fst (run_state m w)) (A (snd (run_state m w)))"
  by (simp add: ensures_def)

lemma ensures_return [intro]: "Q x a \<Longrightarrow> ensures live A (State_Monad.return x) a Q"
  by (simp add: ensures_def)

lemma ensures_bind:
  "ensures live A m a (\<lambda>x a'. ensures live A (f x) a' Q) \<Longrightarrow> ensures live A (m \<bind> f) a Q"
  by (simp add: ensures_def case_prod_beta)

lemma ensures_mono:
  "ensures live A m a Q \<Longrightarrow> (\<And>x a'. Q x a' \<Longrightarrow> Q' x a') \<Longrightarrow> ensures live A m a Q'"
  by (simp add: ensures_def)

lemma ensures_conj:
  "ensures live A m a Q \<Longrightarrow> ensures live A m a R \<Longrightarrow> ensures live A m a (\<lambda>x a'. Q x a' \<and> R x a')"
  by (simp add: ensures_def)

lemma ensures_all:
  "(\<And>z. ensures live A m a (Q z)) \<Longrightarrow> ensures live A m a (\<lambda>x a'. \<forall>z. Q z x a')"
  by (simp add: ensures_def)

lemma ensures_imp:
  "(P \<Longrightarrow> ensures live A m a Q) \<Longrightarrow> ensures live A m a (\<lambda>_ _. True) \<Longrightarrow> ensures live A m a (\<lambda>x a'. P \<longrightarrow> Q x a')"
  by (auto simp: ensures_def)

lemma ensures_live:
  "(\<And>w. live w \<Longrightarrow> A w = a \<Longrightarrow> ensures live A m a Q) \<Longrightarrow> ensures live A m a Q"
  by (auto simp: ensures_def)

lemma ensures_step:
  "ensures live A m a R \<Longrightarrow> (\<And>x a'. R x a' \<Longrightarrow> ensures live A (f x) a' Q) \<Longrightarrow>
    ensures live A (m \<bind> f) a Q"
  by (rule ensures_bind) (rule ensures_mono)

text \<open>Branching: one rule per control structure of the programs.\<close>

lemma ensures_if:
  "(b \<Longrightarrow> ensures live A m a Q) \<Longrightarrow> (\<not> b \<Longrightarrow> ensures live A n a Q) \<Longrightarrow> ensures live A (if b then m else n) a Q"
  by simp

lemma ensures_option:
  "(x = None \<Longrightarrow> ensures live A m a Q) \<Longrightarrow> (\<And>y. x = Some y \<Longrightarrow> ensures live A (f y) a Q) \<Longrightarrow>
    ensures live A (case x of None \<Rightarrow> m | Some y \<Rightarrow> f y) a Q"
  by (cases x) simp_all

lemma ensures_sum:
  "(\<And>e. x = Inl e \<Longrightarrow> ensures live A (f e) a Q) \<Longrightarrow> (\<And>y. x = Inr y \<Longrightarrow> ensures live A (g y) a Q) \<Longrightarrow>
    ensures live A (case x of Inl e \<Rightarrow> f e | Inr y \<Rightarrow> g y) a Q"
  by (cases x) simp_all

lemma ensures_prod:
  "(\<And>y z. x = (y, z) \<Longrightarrow> ensures live A (f y z) a Q) \<Longrightarrow> ensures live A (case x of (y, z) \<Rightarrow> f y z) a Q"
  by (cases x) simp

lemmas ensures_branch = ensures_if ensures_option ensures_sum ensures_prod

section \<open>Contracts\<close>

text \<open>
  Each contract says what every operation returns and how it changes the abstract database; since
  it gives the whole new database, it also says what the operation leaves alone.
\<close>

locale state_cache =
  fixes sc :: "'w RoomStateCache" and A :: "'w \<Rightarrow> room_abs" and live :: "'w \<Rightarrow> bool"
  assumes get_state: "ensures live A (GetRoomState sc r) a
      (\<lambda>x a'. a' = a \<and> x = (case ab_states a r of None \<Rightarrow> Inl ErrNotFound | Some s \<Rightarrow> Inr s))"
    and set_state: "\<not> IsZero (rs_UpdatedAt s) \<Longrightarrow> ensures live A (SetRoomState sc r s) a
      (\<lambda>x a'. x = None \<and> a' = a\<lparr>ab_states := (ab_states a)(r \<mapsto> s\<lparr>rs_RoomID := r\<rparr>)\<rparr>)"
    and delete_state: "ensures live A (DeleteRoomState sc r) a
      (\<lambda>x a'. x = None \<and> a' = a\<lparr>ab_states := (ab_states a)(r := None)\<rparr>)"

locale presence_store =
  fixes pr :: "'w RoomPresence" and A :: "'w \<Rightarrow> room_abs" and live :: "'w \<Rightarrow> bool"
  assumes finite_seats: "live w \<Longrightarrow> finite (dom (ab_seat (A w)))"
    and join_room: "ensures live A (JoinRoom pr r u n) a
      (\<lambda>x a'. x = Inr (case room_left (ab_seat a) r u of Some r' \<Rightarrow> r' | None \<Rightarrow> []) \<and>
         a' = abs_join r u n a)"
    and leave_room: "ensures live A (LeaveRoom pr r u) a (\<lambda>x a'. x = None \<and> a' = abs_leave r u a)"
    and remove_member: "ensures live A (RemoveMember pr r u) a
      (\<lambda>x a'. x = None \<and> a' = abs_leave r u a)"
    and list_members: "ensures live A (ListMembers pr r) a
      (\<lambda>x a'. a' = a \<and> (\<exists>l. x = Inr l \<and> distinct l \<and>
         set l = {\<lparr>mb_UserID = u, mb_Username = n\<rparr> | u n. ab_seat a u = Some (r, n)}))"
    and member_count: "ensures live A (MemberCount pr r) a
      (\<lambda>x a'. a' = a \<and> x = Inr (int (card (occupants (ab_seat a) r))))"
    and get_user_room: "ensures live A (GetUserRoom pr u) a
      (\<lambda>x a'. a' = a \<and> x = Inr (case ab_seat a u of Some (r, _) \<Rightarrow> r | None \<Rightarrow> []))"
    and delete_presence: "ensures live A (DeleteRoomPresence pr r) a
      (\<lambda>x a'. x = None \<and> (\<exists>P. P - {r} = ab_pending a - {r} \<and>
         a' = a\<lparr>ab_seat := vacate r (ab_seat a), ab_pending := P\<rparr>))"
    and pending_rooms: "ensures live A (PendingEmptyRooms pr) a
      (\<lambda>x a'. a' = a \<and> (\<exists>l. x = Inr l \<and> set l = ab_pending a))"
    and clear_pending: "ensures live A (ClearPendingEmpty pr r) a
      (\<lambda>x a'. x = None \<and> a' = a\<lparr>ab_pending := ab_pending a - {r}\<rparr>)"
    and active_rooms: "ensures live A (ListRoomsWithMembers pr) a
      (\<lambda>x a'. a' = a \<and> (\<exists>l. x = Inr l \<and> set l = {r. occupants (ab_seat a) r \<noteq> {}}))"
    and get_last_cleanup: "ensures live A (GetLastRoomCleanupAt pr) a
      (\<lambda>x a'. a' = a \<and> x = Inr (ab_lastCleanup a))"
    and set_last_cleanup: "ensures live A (SetLastRoomCleanupAt pr t) a
      (\<lambda>x a'. x = None \<and> (\<exists>t'. t' \<le> t \<and> t < t' + 1000000 \<and> a' = a\<lparr>ab_lastCleanup := t'\<rparr>))"
    and acquire_lock: "ensures live A (TryAcquireCleanupLock pr ttl) a
      (\<lambda>x a'. x = Inr (\<not> ab_lock a) \<and> a' = a\<lparr>ab_lock := True\<rparr>)"
    and release_lock: "ensures live A (ReleaseCleanupLock pr) a
      (\<lambda>x a'. x = None \<and> a' = a\<lparr>ab_lock := False\<rparr>)"

locale access_cache =
  fixes acc :: "'w RoomAccessCache" and A :: "'w \<Rightarrow> room_abs" and live :: "'w \<Rightarrow> bool"
  assumes grant_access: "ensures live A (GrantRoomAccess acc r u) a
      (\<lambda>x a'. x = None \<and>
         a' = (if r = [] \<or> u = [] then a else a\<lparr>ab_access := insert (r, u) (ab_access a)\<rparr>))"
    and has_access: "ensures live A (HasRoomAccess acc r u) a
      (\<lambda>x a'. a' = a \<and> x = Inr (r \<noteq> [] \<and> u \<noteq> [] \<and> (r, u) \<in> ab_access a))"
    and delete_access: "ensures live A (DeleteRoomAccess acc r) a
      (\<lambda>x a'. x = None \<and> a' = a\<lparr>ab_access := {(r', u). (r', u) \<in> ab_access a \<and> r' \<noteq> r}\<rparr>)"

text \<open>
  \<open>page\<close> is the number of rows the store really returns at most for a requested limit.
\<close>

locale room_store =
  fixes rst :: "'w RoomStore" and A :: "'w \<Rightarrow> room_abs" and live :: "'w \<Rightarrow> bool"
    and page :: "int \<Rightarrow> nat"
  assumes room_keys: "live w \<Longrightarrow> ab_rooms (A w) r = Some rm \<Longrightarrow> rm_ID rm = r"
    and finite_rooms: "live w \<Longrightarrow> finite (dom (ab_rooms (A w)))"
    and get_room: "ensures live A (RoomStore_GetByID rst r) a
      (\<lambda>x a'. a' = a \<and> x = (case ab_rooms a r of None \<Rightarrow> Inl ErrNotFound | Some rm \<Rightarrow> Inr rm))"
    and delete_room: "ensures live A (RoomStore_Delete rst r) a
      (\<lambda>x a'. x = (if ab_rooms a r = None then Some ErrNotFound else None) \<and>
         a' = a\<lparr>ab_rooms := (ab_rooms a)(r := None)\<rparr>)"
    and list_rooms: "0 \<le> lo_Offset opts \<Longrightarrow> 0 < lo_Limit opts \<Longrightarrow> ensures live A (RoomStore_List rst opts) a
      (\<lambda>x a'. a' = a \<and> (\<exists>l t. x = Inr (l, t) \<and> set l \<subseteq> ran (ab_rooms a) \<and> length l \<le> page (lo_Limit opts) \<and>
         (lo_Offset opts = 0 \<and> lo_Query opts = [] \<and> lo_OwnerID opts = [] \<and>
            card (dom (ab_rooms a)) \<le> page (lo_Limit opts) \<longrightarrow> set l = ran (ab_rooms a))))"

locale room_publisher =
  fixes pub :: "'w Publisher" and A :: "'w \<Rightarrow> room_abs" and live :: "'w \<Rightarrow> bool"
  assumes publish: "ensures live A (PublishRoomMessage pub r name data) a
      (\<lambda>x a'. a' = (if x = None then a\<lparr>ab_log := ab_log a @ [(r, name, data)]\<rparr> else a))"

text \<open>A clock reading is no earlier than the one before.\<close>

locale clock =
  fixes clk :: "('w, gotime) io" and A :: "'w \<Rightarrow> room_abs" and live :: "'w \<Rightarrow> bool"
  assumes read_clock: "ensures live A clk a (\<lambda>t a'. ab_now a \<le> t \<and> a' = a\<lparr>ab_now := t\<rparr>)"
    and clock_set: "live w \<Longrightarrow> 0 < ab_now (A w)"

text \<open>Everything the room service relies on.\<close>

locale room_backend =
  state_cache sc A live + presence_store pr A live + access_cache acc A live +
  room_store rst A live page + room_publisher pub A live + clock clk A live
  for sc :: "'w RoomStateCache" and pr :: "'w RoomPresence" and acc :: "'w RoomAccessCache"
    and rst :: "'w RoomStore" and pub :: "'w Publisher" and clk :: "('w, gotime) io"
    and A :: "'w \<Rightarrow> room_abs" and live :: "'w \<Rightarrow> bool" and page :: "int \<Rightarrow> nat" +
  fixes ch :: "'w RoomChat option"
  assumes chat_delete: "ch = Some c \<Longrightarrow> ensures live A (ChatDeleteRoom c r) a
      (\<lambda>x a'. a' = a\<lparr>ab_chat := ab_chat a - {r}\<rparr>)"

section \<open>The contracts as rewrite rules\<close>

text \<open>
  For a live world, each law gives the result of a call and the database after it, so that the simplifier
  runs a program of the service call by call.
\<close>

context state_cache
begin

lemma get_state_run [simp]:
  assumes "live w"
  shows "live (snd (run_state (GetRoomState sc r) w))" and "A (snd (run_state (GetRoomState sc r) w)) = A w"
    and "fst (run_state (GetRoomState sc r) w) =
      (case ab_states (A w) r of None \<Rightarrow> Inl ErrNotFound | Some s \<Rightarrow> Inr s)"
  using ensuresD [OF get_state assms] by auto

lemma set_state_run [simp]:
  assumes "live w" and "\<not> IsZero (rs_UpdatedAt s)"
  shows "live (snd (run_state (SetRoomState sc r s) w))" and "fst (run_state (SetRoomState sc r s) w) = None"
    and "A (snd (run_state (SetRoomState sc r s) w)) =
      (A w)\<lparr>ab_states := (ab_states (A w))(r \<mapsto> s\<lparr>rs_RoomID := r\<rparr>)\<rparr>"
  using ensuresD [OF set_state assms(1)] assms(2) by auto

lemma delete_state_run [simp]:
  assumes "live w"
  shows "live (snd (run_state (DeleteRoomState sc r) w))" and "fst (run_state (DeleteRoomState sc r) w) = None"
    and "A (snd (run_state (DeleteRoomState sc r) w)) = (A w)\<lparr>ab_states := (ab_states (A w))(r := None)\<rparr>"
  using ensuresD [OF delete_state assms] by auto

end

context presence_store
begin

lemma join_room_run [simp]:
  assumes "live w"
  shows "live (snd (run_state (JoinRoom pr r u n) w))"
    and "fst (run_state (JoinRoom pr r u n) w) =
      Inr (case room_left (ab_seat (A w)) r u of Some r' \<Rightarrow> r' | None \<Rightarrow> [])"
    and "A (snd (run_state (JoinRoom pr r u n) w)) = abs_join r u n (A w)"
  using ensuresD [OF join_room assms] by auto

lemma leave_room_run [simp]:
  assumes "live w"
  shows "live (snd (run_state (LeaveRoom pr r u) w))" and "fst (run_state (LeaveRoom pr r u) w) = None"
    and "A (snd (run_state (LeaveRoom pr r u) w)) = abs_leave r u (A w)"
  using ensuresD [OF leave_room assms] by auto

lemma remove_member_run [simp]:
  assumes "live w"
  shows "live (snd (run_state (RemoveMember pr r u) w))" and "fst (run_state (RemoveMember pr r u) w) = None"
    and "A (snd (run_state (RemoveMember pr r u) w)) = abs_leave r u (A w)"
  using ensuresD [OF remove_member assms] by auto

lemma member_count_run [simp]:
  assumes "live w"
  shows "live (snd (run_state (MemberCount pr r) w))" and "A (snd (run_state (MemberCount pr r) w)) = A w"
    and "fst (run_state (MemberCount pr r) w) = Inr (int (card (occupants (ab_seat (A w)) r)))"
  using ensuresD [OF member_count assms] by auto

lemma get_user_room_run [simp]:
  assumes "live w"
  shows "live (snd (run_state (GetUserRoom pr u) w))" and "A (snd (run_state (GetUserRoom pr u) w)) = A w"
    and "fst (run_state (GetUserRoom pr u) w) = Inr (case ab_seat (A w) u of Some (r, _) \<Rightarrow> r | None \<Rightarrow> [])"
  using ensuresD [OF get_user_room assms] by auto

lemma delete_presence_run [simp]:
  assumes "live w"
  shows "live (snd (run_state (DeleteRoomPresence pr r) w))"
    and "fst (run_state (DeleteRoomPresence pr r) w) = None"
  using ensuresD [OF delete_presence assms] by auto

lemma delete_presence_abs:
  assumes "live w"
  obtains P where "P - {r} = ab_pending (A w) - {r}"
    and "A (snd (run_state (DeleteRoomPresence pr r) w)) =
      (A w)\<lparr>ab_seat := vacate r (ab_seat (A w)), ab_pending := P\<rparr>"
  using ensuresD [OF delete_presence assms] by auto

lemma pending_rooms_run [simp]:
  assumes "live w"
  shows "live (snd (run_state (PendingEmptyRooms pr) w))" and "A (snd (run_state (PendingEmptyRooms pr) w)) = A w"
  using ensuresD [OF pending_rooms assms] by auto

lemma pending_rooms_result:
  assumes "live w"
  obtains l where "fst (run_state (PendingEmptyRooms pr) w) = Inr l" and "set l = ab_pending (A w)"
  using ensuresD [OF pending_rooms assms] by auto

lemma active_rooms_run [simp]:
  assumes "live w"
  shows "live (snd (run_state (ListRoomsWithMembers pr) w))"
    and "A (snd (run_state (ListRoomsWithMembers pr) w)) = A w"
  using ensuresD [OF active_rooms assms] by auto

lemma active_rooms_result:
  assumes "live w"
  obtains l where "fst (run_state (ListRoomsWithMembers pr) w) = Inr l"
    and "set l = {r. occupants (ab_seat (A w)) r \<noteq> {}}"
  using ensuresD [OF active_rooms assms] by auto

lemma clear_pending_run [simp]:
  assumes "live w"
  shows "live (snd (run_state (ClearPendingEmpty pr r) w))"
    and "fst (run_state (ClearPendingEmpty pr r) w) = None"
    and "A (snd (run_state (ClearPendingEmpty pr r) w)) = (A w)\<lparr>ab_pending := ab_pending (A w) - {r}\<rparr>"
  using ensuresD [OF clear_pending assms] by auto

lemma get_last_cleanup_run [simp]:
  assumes "live w"
  shows "live (snd (run_state (GetLastRoomCleanupAt pr) w))"
    and "A (snd (run_state (GetLastRoomCleanupAt pr) w)) = A w"
    and "fst (run_state (GetLastRoomCleanupAt pr) w) = Inr (ab_lastCleanup (A w))"
  using ensuresD [OF get_last_cleanup assms] by auto

lemma set_last_cleanup_run [simp]:
  assumes "live w"
  shows "live (snd (run_state (SetLastRoomCleanupAt pr t) w))"
    and "fst (run_state (SetLastRoomCleanupAt pr t) w) = None"
  using ensuresD [OF set_last_cleanup assms] by auto

lemma set_last_cleanup_abs:
  assumes "live w"
  obtains t' where "t' \<le> t" and "t < t' + 1000000"
    and "A (snd (run_state (SetLastRoomCleanupAt pr t) w)) = (A w)\<lparr>ab_lastCleanup := t'\<rparr>"
  using ensuresD [OF set_last_cleanup assms] by auto

lemma acquire_lock_run [simp]:
  assumes "live w"
  shows "live (snd (run_state (TryAcquireCleanupLock pr ttl) w))"
    and "fst (run_state (TryAcquireCleanupLock pr ttl) w) = Inr (\<not> ab_lock (A w))"
    and "A (snd (run_state (TryAcquireCleanupLock pr ttl) w)) = (A w)\<lparr>ab_lock := True\<rparr>"
  using ensuresD [OF acquire_lock assms] by auto

lemma release_lock_run [simp]:
  assumes "live w"
  shows "live (snd (run_state (ReleaseCleanupLock pr) w))"
    and "fst (run_state (ReleaseCleanupLock pr) w) = None"
    and "A (snd (run_state (ReleaseCleanupLock pr) w)) = (A w)\<lparr>ab_lock := False\<rparr>"
  using ensuresD [OF release_lock assms] by auto

text \<open>A count of 0 is an empty room.\<close>

lemma finite_occupants: "live w \<Longrightarrow> finite (occupants (ab_seat (A w)) r)"
  by (rule finite_subset [OF _ finite_seats]) (auto simp: occupants_def)

lemma card_occupants [simp]: "live w \<Longrightarrow> card (occupants (ab_seat (A w)) r) = 0 \<longleftrightarrow> occupants (ab_seat (A w)) r = {}"
  using finite_occupants by simp

end

context access_cache
begin

lemma grant_access_run [simp]:
  assumes "live w"
  shows "live (snd (run_state (GrantRoomAccess acc r u) w))" and "fst (run_state (GrantRoomAccess acc r u) w) = None"
    and "A (snd (run_state (GrantRoomAccess acc r u) w)) =
      (if r = [] \<or> u = [] then A w else (A w)\<lparr>ab_access := insert (r, u) (ab_access (A w))\<rparr>)"
  using ensuresD [OF grant_access assms] by auto

lemma has_access_run [simp]:
  assumes "live w"
  shows "live (snd (run_state (HasRoomAccess acc r u) w))" and "A (snd (run_state (HasRoomAccess acc r u) w)) = A w"
    and "fst (run_state (HasRoomAccess acc r u) w) = Inr (r \<noteq> [] \<and> u \<noteq> [] \<and> (r, u) \<in> ab_access (A w))"
  using ensuresD [OF has_access assms] by auto

lemma delete_access_run [simp]:
  assumes "live w"
  shows "live (snd (run_state (DeleteRoomAccess acc r) w))" and "fst (run_state (DeleteRoomAccess acc r) w) = None"
    and "A (snd (run_state (DeleteRoomAccess acc r) w)) =
      (A w)\<lparr>ab_access := {(r', u). (r', u) \<in> ab_access (A w) \<and> r' \<noteq> r}\<rparr>"
  using ensuresD [OF delete_access assms] by auto

end

context room_store
begin

lemma get_room_run [simp]:
  assumes "live w"
  shows "live (snd (run_state (RoomStore_GetByID rst r) w))" and "A (snd (run_state (RoomStore_GetByID rst r) w)) = A w"
    and "fst (run_state (RoomStore_GetByID rst r) w) =
      (case ab_rooms (A w) r of None \<Rightarrow> Inl ErrNotFound | Some rm \<Rightarrow> Inr rm)"
  using ensuresD [OF get_room assms] by auto

lemma delete_room_run [simp]:
  assumes "live w"
  shows "live (snd (run_state (RoomStore_Delete rst r) w))"
    and "fst (run_state (RoomStore_Delete rst r) w) = (if ab_rooms (A w) r = None then Some ErrNotFound else None)"
    and "A (snd (run_state (RoomStore_Delete rst r) w)) = (A w)\<lparr>ab_rooms := (ab_rooms (A w))(r := None)\<rparr>"
  using ensuresD [OF delete_room assms] by auto

lemma list_rooms_run [simp]:
  assumes "live w" and "0 \<le> lo_Offset opts" and "0 < lo_Limit opts"
  shows "live (snd (run_state (RoomStore_List rst opts) w))" and "A (snd (run_state (RoomStore_List rst opts) w)) = A w"
  using ensuresD [OF list_rooms assms(1)] assms(2,3) by auto

lemma list_rooms_result:
  assumes "live w" and "0 \<le> lo_Offset opts" and "0 < lo_Limit opts"
  obtains l t where "fst (run_state (RoomStore_List rst opts) w) = Inr (l, t)"
    and "set l \<subseteq> ran (ab_rooms (A w))" and "length l \<le> page (lo_Limit opts)"
    and "lo_Offset opts = 0 \<and> lo_Query opts = [] \<and> lo_OwnerID opts = [] \<and>
      card (dom (ab_rooms (A w))) \<le> page (lo_Limit opts) \<longrightarrow> set l = ran (ab_rooms (A w))"
  using ensuresD [OF list_rooms [OF assms(2,3)] assms(1)] by blast

end

context room_publisher
begin

lemma publish_run [simp]:
  assumes "live w"
  shows "live (snd (run_state (PublishRoomMessage pub r name data) w))"
    and "A (snd (run_state (PublishRoomMessage pub r name data) w)) =
      (if fst (run_state (PublishRoomMessage pub r name data) w) = None
       then (A w)\<lparr>ab_log := ab_log (A w) @ [(r, name, data)]\<rparr> else A w)"
  using ensuresD [OF publish assms] by auto

end

context clock
begin

lemma clock_run [simp]:
  assumes "live w"
  shows "live (snd (run_state clk w))" and "A (snd (run_state clk w)) = (A w)\<lparr>ab_now := fst (run_state clk w)\<rparr>"
    and "ab_now (A w) \<le> fst (run_state clk w)" and "\<not> IsZero (fst (run_state clk w))"
  using ensuresD [OF read_clock assms] clock_set [OF assms] by (auto simp: IsZero_def)

end

end
