(* ===== verification/Presence_Memory.thy ===== *)
theory Presence_Memory
  imports Room_Interfaces
begin

text \<open>
  The in-process room presence, \<^verbatim>\<open>internal/cache/memory/room_presence.go\<close>: who is in which room, the
  reverse index from users to rooms, the rooms with members, the rooms waiting for teardown, and the
  cleanup lock.  Every operation starts with a look at \<open>ctx.Err()\<close>, here the argument \<open>ctx\<close>
  (\<open>None\<close> for a live context), and runs under one mutex, so it is one atomic step.

  The abstract view of a presence is a seating plan: a partial map from users to the one room they
  sit in, with their user name.  The theory shows that the five maps of the implementation always
  agree with each other, and that each operation does to the seating plan what it promises.
\<close>

section \<open>State\<close>

record MemPresence =
  mp_members :: "(string, (string, string) gomap) gomap"
  mp_userRoom :: "(string, string) gomap"
  mp_activeRooms :: "string goset"
  mp_pendingEmpty :: "string goset"
  mp_lastCleanupAt :: gotime
  mp_cleanupLock :: bool
  mp_timers :: "gotime list"
    \<comment> \<open>wake-up times of the goroutines that \<open>TryAcquireCleanupLock\<close> has started\<close>

definition NewRoomPresence :: MemPresence where
  "NewRoomPresence = \<lparr>mp_members = [], mp_userRoom = [], mp_activeRooms = [], mp_pendingEmpty = [],
     mp_lastCleanupAt = 0, mp_cleanupLock = False, mp_timers = []\<rparr>"

text \<open>Reading a missing key of a \<open>map[string]string\<close> gives the empty string.\<close>

definition lookup0 :: "(string, string) gomap \<Rightarrow> string \<Rightarrow> string" where
  "lookup0 m k = (case map_of m k of None \<Rightarrow> [] | Some v \<Rightarrow> v)"

section \<open>Operations\<close>

definition removeMemberLocked :: "string \<Rightarrow> string \<Rightarrow> MemPresence \<Rightarrow> MemPresence" where
  "removeMemberLocked roomID userID p =
     (case map_of (mp_members p) roomID of
        None \<Rightarrow> p
      | Some m0 \<Rightarrow>
          let m = mdelete userID m0;
              p1 = (if length m = 0 then
                      p\<lparr>mp_members := mdelete roomID (mp_members p),
                        mp_activeRooms := mdelete roomID (mp_activeRooms p),
                        mp_pendingEmpty := mput roomID () (mp_pendingEmpty p)\<rparr>
                    else p\<lparr>mp_members := mput roomID m (mp_members p)\<rparr>)
          in if lookup0 (mp_userRoom p1) userID = roomID
             then p1\<lparr>mp_userRoom := mdelete userID (mp_userRoom p1)\<rparr> else p1)"

definition mem_JoinRoom ::
  "error option \<Rightarrow> string \<Rightarrow> string \<Rightarrow> string \<Rightarrow> MemPresence \<Rightarrow> (error + string) \<times> MemPresence" where
  "mem_JoinRoom ctx roomID userID username p =
     (case ctx of
        Some err \<Rightarrow> (Inl err, p)
      | None \<Rightarrow>
          let (leftRoomID, p1) =
                (case map_of (mp_userRoom p) userID of
                   Some prev \<Rightarrow>
                     if prev \<noteq> roomID then (prev, removeMemberLocked prev userID p) else ([], p)
                 | None \<Rightarrow> ([], p));
              m = (case map_of (mp_members p1) roomID of None \<Rightarrow> [] | Some m \<Rightarrow> m)
          in (Inr leftRoomID,
              p1\<lparr>mp_members := mput roomID (mput userID username m) (mp_members p1),
                 mp_userRoom := mput userID roomID (mp_userRoom p1),
                 mp_activeRooms := mput roomID () (mp_activeRooms p1),
                 mp_pendingEmpty := mdelete roomID (mp_pendingEmpty p1)\<rparr>))"

definition mem_LeaveRoom ::
  "error option \<Rightarrow> string \<Rightarrow> string \<Rightarrow> MemPresence \<Rightarrow> error option \<times> MemPresence" where
  "mem_LeaveRoom ctx roomID userID p =
     (case ctx of Some err \<Rightarrow> (Some err, p) | None \<Rightarrow> (None, removeMemberLocked roomID userID p))"

definition mem_RemoveMember ::
  "error option \<Rightarrow> string \<Rightarrow> string \<Rightarrow> MemPresence \<Rightarrow> error option \<times> MemPresence" where
  "mem_RemoveMember ctx roomID userID p = mem_LeaveRoom ctx roomID userID p"

definition mem_ListMembers ::
  "error option \<Rightarrow> string \<Rightarrow> MemPresence \<Rightarrow> (error + RoomMember list) \<times> MemPresence" where
  "mem_ListMembers ctx roomID p =
     (case ctx of
        Some err \<Rightarrow> (Inl err, p)
      | None \<Rightarrow>
          (case map_of (mp_members p) roomID of
             None \<Rightarrow> (Inr [], p)
           | Some m \<Rightarrow> (Inr (map (\<lambda>(uid, name). \<lparr>mb_UserID = uid, mb_Username = name\<rparr>) m), p)))"

definition mem_MemberCount ::
  "error option \<Rightarrow> string \<Rightarrow> MemPresence \<Rightarrow> (error + int) \<times> MemPresence" where
  "mem_MemberCount ctx roomID p =
     (case ctx of
        Some err \<Rightarrow> (Inl err, p)
      | None \<Rightarrow>
          (case map_of (mp_members p) roomID of
             Some m \<Rightarrow> (Inr (int (length m)), p)
           | None \<Rightarrow> (Inr 0, p)))"

definition mem_GetUserRoom ::
  "error option \<Rightarrow> string \<Rightarrow> MemPresence \<Rightarrow> (error + string) \<times> MemPresence" where
  "mem_GetUserRoom ctx userID p =
     (case ctx of Some err \<Rightarrow> (Inl err, p) | None \<Rightarrow> (Inr (lookup0 (mp_userRoom p) userID), p))"

fun forget_users :: "string \<Rightarrow> string list \<Rightarrow> (string, string) gomap \<Rightarrow> (string, string) gomap" where
  "forget_users roomID [] ur = ur"
| "forget_users roomID (uid # uids) ur =
     forget_users roomID uids (if lookup0 ur uid = roomID then mdelete uid ur else ur)"

definition mem_DeleteRoomPresence ::
  "error option \<Rightarrow> string \<Rightarrow> MemPresence \<Rightarrow> error option \<times> MemPresence" where
  "mem_DeleteRoomPresence ctx roomID p =
     (case ctx of
        Some err \<Rightarrow> (Some err, p)
      | None \<Rightarrow>
          (case map_of (mp_members p) roomID of
             None \<Rightarrow> (None, p)
           | Some m \<Rightarrow>
               (None,
                p\<lparr>mp_userRoom := forget_users roomID (mkeys m) (mp_userRoom p),
                  mp_members := mdelete roomID (mp_members p),
                  mp_activeRooms := mdelete roomID (mp_activeRooms p),
                  mp_pendingEmpty := mdelete roomID (mp_pendingEmpty p)\<rparr>)))"

definition mem_PendingEmptyRooms ::
  "error option \<Rightarrow> MemPresence \<Rightarrow> (error + string list) \<times> MemPresence" where
  "mem_PendingEmptyRooms ctx p =
     (case ctx of Some err \<Rightarrow> (Inl err, p) | None \<Rightarrow> (Inr (mkeys (mp_pendingEmpty p)), p))"

definition mem_ClearPendingEmpty ::
  "error option \<Rightarrow> string \<Rightarrow> MemPresence \<Rightarrow> error option \<times> MemPresence" where
  "mem_ClearPendingEmpty ctx roomID p =
     (case ctx of
        Some err \<Rightarrow> (Some err, p)
      | None \<Rightarrow> (None, p\<lparr>mp_pendingEmpty := mdelete roomID (mp_pendingEmpty p)\<rparr>))"

definition mem_GetLastRoomCleanupAt ::
  "error option \<Rightarrow> MemPresence \<Rightarrow> (error + gotime) \<times> MemPresence" where
  "mem_GetLastRoomCleanupAt ctx p =
     (case ctx of Some err \<Rightarrow> (Inl err, p) | None \<Rightarrow> (Inr (mp_lastCleanupAt p), p))"

definition mem_SetLastRoomCleanupAt ::
  "error option \<Rightarrow> gotime \<Rightarrow> MemPresence \<Rightarrow> error option \<times> MemPresence" where
  "mem_SetLastRoomCleanupAt ctx t p =
     (case ctx of Some err \<Rightarrow> (Some err, p) | None \<Rightarrow> (None, p\<lparr>mp_lastCleanupAt := t\<rparr>))"

text \<open>Acquiring at time \<open>now\<close> starts a goroutine that clears the lock \<open>ttl\<close> later.\<close>

definition mem_TryAcquireCleanupLock ::
  "error option \<Rightarrow> gotime \<Rightarrow> duration \<Rightarrow> MemPresence \<Rightarrow> (error + bool) \<times> MemPresence" where
  "mem_TryAcquireCleanupLock ctx now ttl p =
     (case ctx of
        Some err \<Rightarrow> (Inl err, p)
      | None \<Rightarrow>
          if mp_cleanupLock p then (Inr False, p)
          else (Inr True, p\<lparr>mp_cleanupLock := True, mp_timers := (now + ttl) # mp_timers p\<rparr>))"

definition cleanup_timer_fires :: "gotime \<Rightarrow> MemPresence \<Rightarrow> MemPresence" where
  "cleanup_timer_fires t p = p\<lparr>mp_cleanupLock := False, mp_timers := remove1 t (mp_timers p)\<rparr>"

definition mem_ReleaseCleanupLock :: "error option \<Rightarrow> MemPresence \<Rightarrow> error option \<times> MemPresence" where
  "mem_ReleaseCleanupLock ctx p =
     (case ctx of Some err \<Rightarrow> (Some err, p) | None \<Rightarrow> (None, p\<lparr>mp_cleanupLock := False\<rparr>))"

definition mem_ListRoomsWithMembers ::
  "error option \<Rightarrow> MemPresence \<Rightarrow> (error + string list) \<times> MemPresence" where
  "mem_ListRoomsWithMembers ctx p =
     (case ctx of Some err \<Rightarrow> (Inl err, p) | None \<Rightarrow> (Inr (mkeys (mp_activeRooms p)), p))"

section \<open>The invariant\<close>

text \<open>The name under which a user sits in a room, by the member maps alone.\<close>

definition name_of :: "MemPresence \<Rightarrow> string \<Rightarrow> string \<Rightarrow> string option" where
  "name_of p roomID userID =
     (case map_of (mp_members p) roomID of None \<Rightarrow> None | Some m \<Rightarrow> map_of m userID)"

definition presence_inv :: "MemPresence \<Rightarrow> bool" where
  "presence_inv p \<longleftrightarrow>
     wf_map (mp_members p) \<and> wf_map (mp_userRoom p) \<and> wf_map (mp_activeRooms p) \<and>
     wf_map (mp_pendingEmpty p) \<and>
     (\<forall>r m. map_of (mp_members p) r = Some m \<longrightarrow> wf_map m \<and> m \<noteq> []) \<and>
     (\<forall>r u. name_of p r u \<noteq> None \<longleftrightarrow> map_of (mp_userRoom p) u = Some r) \<and>
     dom (map_of (mp_activeRooms p)) = dom (map_of (mp_members p)) \<and>
     dom (map_of (mp_pendingEmpty p)) \<inter> dom (map_of (mp_members p)) = {}"

text \<open>The seating plan.\<close>

definition seat :: "MemPresence \<Rightarrow> string \<Rightarrow> (string \<times> string) option" where
  "seat p userID =
     (case map_of (mp_userRoom p) userID of
        None \<Rightarrow> None
      | Some r \<Rightarrow> map_option (Pair r) (name_of p r userID))"

lemma presence_inv_members:
  "presence_inv p \<Longrightarrow> map_of (mp_members p) r = Some m \<Longrightarrow> wf_map m \<and> m \<noteq> []"
  by (simp add: presence_inv_def)

lemma presence_inv_index:
  "presence_inv p \<Longrightarrow> name_of p r u \<noteq> None \<longleftrightarrow> map_of (mp_userRoom p) u = Some r"
  by (simp add: presence_inv_def)

lemma presence_inv_wf:
  assumes "presence_inv p"
  shows "wf_map (mp_members p)" "wf_map (mp_userRoom p)" "wf_map (mp_activeRooms p)"
    "wf_map (mp_pendingEmpty p)" "dom (map_of (mp_activeRooms p)) = dom (map_of (mp_members p))"
    "dom (map_of (mp_pendingEmpty p)) \<inter> dom (map_of (mp_members p)) = {}"
  using assms by (simp_all add: presence_inv_def)

lemma seat_Some_iff:
  assumes "presence_inv p"
  shows "seat p u = Some (r, n) \<longleftrightarrow> name_of p r u = Some n"
  using presence_inv_index [OF assms, of r u]
  by (auto simp: seat_def split: option.splits)

lemma seat_None_iff:
  assumes "presence_inv p"
  shows "seat p u = None \<longleftrightarrow> map_of (mp_userRoom p) u = None"
  using presence_inv_index [OF assms] by (auto simp: seat_def split: option.splits)

subsection \<open>Removing a member\<close>

lemma name_of_remove:
  "name_of (removeMemberLocked r u p) r' u' = (if r' = r \<and> u' = u then None else name_of p r' u')"
proof (cases "map_of (mp_members p) r")
  case None
  then show ?thesis by (simp add: removeMemberLocked_def name_of_def)
next
  case (Some m)
  show ?thesis
  proof (cases "mdelete u m = []")
    case True
    then have "dom (map_of m) \<subseteq> {u}" by (simp add: mdelete_Nil_iff)
    then have "u' \<noteq> u \<Longrightarrow> map_of m u' = None" by auto
    with True Some show ?thesis
      by (auto simp: removeMemberLocked_def name_of_def Let_def delete_conv')
  next
    case False
    with Some show ?thesis
      by (auto simp: removeMemberLocked_def name_of_def Let_def delete_conv' update_conv')
  qed
qed

lemma userRoom_remove:
  assumes "presence_inv p"
  shows "map_of (mp_userRoom (removeMemberLocked r u p)) =
    (if map_of (mp_userRoom p) u = Some r then (map_of (mp_userRoom p))(u := None)
     else map_of (mp_userRoom p))"
  using presence_inv_index [OF assms, of r u]
  by (auto simp: removeMemberLocked_def lookup0_def name_of_def Let_def delete_conv' fun_eq_iff
      split: option.splits)

lemma members_remove:
  "dom (map_of (mp_members (removeMemberLocked r u p))) =
     (if \<exists>m. map_of (mp_members p) r = Some m \<and> mdelete u m = [] then dom (map_of (mp_members p)) - {r}
      else dom (map_of (mp_members p)))"
  by (auto simp: removeMemberLocked_def Let_def delete_conv' update_conv' split: option.splits if_splits)

lemma presence_inv_remove:
  assumes inv: "presence_inv p"
  shows "presence_inv (removeMemberLocked r u p)"
proof (cases "map_of (mp_members p) r")
  case None
  with inv show ?thesis by (simp add: removeMemberLocked_def)
next
  case (Some m)
  note m = presence_inv_members [OF inv Some]
  have ix: "name_of (removeMemberLocked r u p) r' u' \<noteq> None \<longleftrightarrow>
      map_of (mp_userRoom (removeMemberLocked r u p)) u' = Some r'" for r' u'
    unfolding name_of_remove userRoom_remove [OF inv]
    using presence_inv_index [OF inv, of r' u'] presence_inv_index [OF inv, of r u] by auto
  show ?thesis
    unfolding presence_inv_def
  proof (intro conjI allI impI)
    fix r' u'
    show "name_of (removeMemberLocked r u p) r' u' \<noteq> None \<longleftrightarrow>
      map_of (mp_userRoom (removeMemberLocked r u p)) u' = Some r'" by (rule ix)
  next
    fix r' m'
    assume "map_of (mp_members (removeMemberLocked r u p)) r' = Some m'"
    with m show "wf_map m'" "m' \<noteq> []"
      using presence_inv_members [OF inv, of r' m'] Some
      by (auto simp: removeMemberLocked_def Let_def delete_conv' update_conv' distinct_delete
          split: if_splits)
  qed (use presence_inv_wf [OF inv] Some in
      \<open>auto simp: removeMemberLocked_def Let_def delete_conv' update_conv' distinct_delete distinct_update\<close>)
qed

lemma seat_remove:
  assumes "presence_inv p"
  shows "seat (removeMemberLocked r u p) =
    (if map_option fst (seat p u) = Some r then (seat p)(u := None) else seat p)"
proof
  fix u'
  have ix: "map_option fst (seat p u) = Some r \<longleftrightarrow> map_of (mp_userRoom p) u = Some r"
    using presence_inv_index [OF assms, of r u] presence_inv_index [OF assms, of _ u]
    by (auto simp: seat_def split: option.splits)
  show "seat (removeMemberLocked r u p) u' =
    (if map_option fst (seat p u) = Some r then (seat p)(u := None) else seat p) u'"
    unfolding ix by (auto simp: seat_def userRoom_remove [OF assms] name_of_remove split: option.splits)
qed

subsection \<open>Who sits in a room\<close>

lemma occupants_seat:
  assumes "presence_inv p"
  shows "occupants (seat p) r = (case map_of (mp_members p) r of None \<Rightarrow> {} | Some m \<Rightarrow> dom (map_of m))"
  by (auto simp: occupants_def seat_Some_iff [OF assms] name_of_def split: option.splits)

lemma occupants_nonempty:
  assumes "presence_inv p"
  shows "occupants (seat p) r \<noteq> {} \<longleftrightarrow> r \<in> dom (map_of (mp_members p))"
  using presence_inv_members [OF assms, of r]
  by (auto simp: occupants_seat [OF assms] dom_def map_of_Nil_iff [symmetric] fun_eq_iff
      split: option.splits) fastforce

lemma count_occupants:
  assumes "presence_inv p" and "map_of (mp_members p) r = Some m"
  shows "length m = card (occupants (seat p) r)"
  using presence_inv_members [OF assms] assms by (simp add: occupants_seat length_wf_map)

lemma pending_remove:
  assumes "presence_inv p"
  shows "dom (map_of (mp_pendingEmpty (removeMemberLocked r u p))) =
    (if occupants (seat p) r = {u} then insert r (dom (map_of (mp_pendingEmpty p)))
     else dom (map_of (mp_pendingEmpty p)))"
proof (cases "map_of (mp_members p) r")
  case None
  then show ?thesis by (simp add: removeMemberLocked_def occupants_seat [OF assms])
next
  case (Some m)
  have "dom (map_of m) \<noteq> {}"
    using presence_inv_members [OF assms Some] by (simp add: dom_map_of_conv_image_fst)
  then have "mdelete u m = [] \<longleftrightarrow> dom (map_of m) = {u}"
    by (auto simp: mdelete_Nil_iff subset_singleton_iff)
  then show ?thesis
    using Some by (auto simp: removeMemberLocked_def occupants_seat [OF assms] Let_def update_conv')
qed

subsection \<open>Adding a member\<close>

text \<open>The second half of \<open>JoinRoom\<close>, when the user sits nowhere else.\<close>

definition addMember :: "string \<Rightarrow> string \<Rightarrow> string \<Rightarrow> MemPresence \<Rightarrow> MemPresence" where
  "addMember r u n p =
     p\<lparr>mp_members := mput r (mput u n (case map_of (mp_members p) r of None \<Rightarrow> [] | Some m \<Rightarrow> m)) (mp_members p),
       mp_userRoom := mput u r (mp_userRoom p),
       mp_activeRooms := mput r () (mp_activeRooms p),
       mp_pendingEmpty := mdelete r (mp_pendingEmpty p)\<rparr>"

lemma name_of_addMember:
  "name_of (addMember r u n p) r' u' = (if r' = r \<and> u' = u then Some n else name_of p r' u')"
  by (auto simp: name_of_def addMember_def update_conv' split: option.splits)

lemma presence_inv_addMember:
  assumes inv: "presence_inv p" and free: "map_of (mp_userRoom p) u = None \<or> map_of (mp_userRoom p) u = Some r"
  shows "presence_inv (addMember r u n p)"
proof -
  have wf: "wf_map (case map_of (mp_members p) r of None \<Rightarrow> [] | Some m \<Rightarrow> m)"
    using presence_inv_members [OF inv, of r] by (auto split: option.splits)
  have ix: "name_of (addMember r u n p) r' u' \<noteq> None \<longleftrightarrow> map_of (mp_userRoom (addMember r u n p)) u' = Some r'"
    for r' u'
    unfolding name_of_addMember
    using presence_inv_index [OF inv, of r' u'] free by (auto simp: addMember_def update_conv')
  show ?thesis
    unfolding presence_inv_def
  proof (intro conjI allI impI)
    fix r' u'
    show "name_of (addMember r u n p) r' u' \<noteq> None \<longleftrightarrow>
      map_of (mp_userRoom (addMember r u n p)) u' = Some r'" by (rule ix)
  next
    fix r' m'
    assume "map_of (mp_members (addMember r u n p)) r' = Some m'"
    with wf show "wf_map m'" "m' \<noteq> []"
      using presence_inv_members [OF inv, of r' m']
      by (auto simp: addMember_def update_conv' distinct_update split: if_splits)
  qed (use presence_inv_wf [OF inv] in
      \<open>auto simp: addMember_def delete_conv' update_conv' distinct_delete distinct_update\<close>)
qed

lemma seat_addMember: "seat (addMember r u n p) = (seat p)(u \<mapsto> (r, n))"
proof
  fix u'
  show "seat (addMember r u n p) u' = ((seat p)(u \<mapsto> (r, n))) u'"
    unfolding seat_def name_of_addMember
    by (auto simp: addMember_def update_conv' split: option.splits)
qed

section \<open>Refinement of the seating plan\<close>

text \<open>The presence as a part of the abstract room database.\<close>

definition pres_abs :: "MemPresence \<Rightarrow> room_abs \<Rightarrow> room_abs" where
  "pres_abs p a = a\<lparr>ab_seat := seat p, ab_pending := dom (map_of (mp_pendingEmpty p)),
     ab_lock := mp_cleanupLock p, ab_lastCleanup := mp_lastCleanupAt p\<rparr>"

lemma pres_abs_parts:
  "ab_seat (pres_abs p a) = seat p" "ab_pending (pres_abs p a) = dom (map_of (mp_pendingEmpty p))"
  "ab_lock (pres_abs p a) = mp_cleanupLock p" "ab_lastCleanup (pres_abs p a) = mp_lastCleanupAt p"
  by (simp_all add: pres_abs_def)

lemma remove_frame:
  "mp_cleanupLock (removeMemberLocked r u p) = mp_cleanupLock p"
  "mp_lastCleanupAt (removeMemberLocked r u p) = mp_lastCleanupAt p"
  by (simp_all add: removeMemberLocked_def Let_def split: option.split)

lemma pres_abs_remove:
  assumes "presence_inv p"
  shows "pres_abs (removeMemberLocked r u p) a = abs_leave r u (pres_abs p a)"
proof -
  have "map_option fst (seat p u) = Some r \<longleftrightarrow> u \<in> occupants (seat p) r"
    by (auto simp: occupants_def)
  then show ?thesis
    by (auto simp: pres_abs_def abs_leave_def seat_remove [OF assms] pending_remove [OF assms] remove_frame)
qed

lemma mem_JoinRoom_eq:
  assumes "presence_inv p"
  shows "mem_JoinRoom None r u n p =
    (Inr (case room_left (seat p) r u of Some r' \<Rightarrow> r' | None \<Rightarrow> []),
     addMember r u n (case room_left (seat p) r u of Some r' \<Rightarrow> removeMemberLocked r' u p | None \<Rightarrow> p))"
proof (cases "map_of (mp_userRoom p) u")
  case None
  then show ?thesis
    by (simp add: mem_JoinRoom_def room_left_def seat_def addMember_def Let_def)
next
  case (Some prev)
  then obtain m where "name_of p prev u = Some m"
    using presence_inv_index [OF assms, of prev u] by auto
  with Some show ?thesis
    by (simp add: mem_JoinRoom_def room_left_def seat_def addMember_def Let_def)
qed

lemma userRoom_after_leave:
  assumes "presence_inv p" and "room_left (seat p) r u = x"
  shows "let p' = (case x of Some r' \<Rightarrow> removeMemberLocked r' u p | None \<Rightarrow> p)
    in map_of (mp_userRoom p') u = None \<or> map_of (mp_userRoom p') u = Some r"
proof (cases "map_of (mp_userRoom p) u")
  case None
  with assms show ?thesis by (auto simp: room_left_def seat_def)
next
  case (Some prev)
  then obtain m where "name_of p prev u = Some m"
    using presence_inv_index [OF assms(1), of prev u] by auto
  with Some assms show ?thesis
    by (auto simp: room_left_def seat_def userRoom_remove Let_def)
qed

lemma pres_abs_addMember:
  "pres_abs (addMember r u n p) a =
     (pres_abs p a)\<lparr>ab_seat := (seat p)(u \<mapsto> (r, n)), ab_pending := dom (map_of (mp_pendingEmpty p)) - {r}\<rparr>"
  by (simp add: pres_abs_def seat_addMember) (auto simp: addMember_def delete_conv')

lemma presence_inv_JoinRoom:
  assumes "presence_inv p"
  shows "presence_inv (snd (mem_JoinRoom ctx r u n p))"
proof (cases ctx)
  case None
  let ?p = "case room_left (seat p) r u of Some r' \<Rightarrow> removeMemberLocked r' u p | None \<Rightarrow> p"
  have "presence_inv ?p" using assms by (auto split: option.split intro: presence_inv_remove)
  with userRoom_after_leave [OF assms refl, where r = r and u = u] show ?thesis
    unfolding None mem_JoinRoom_eq [OF assms] by (auto simp: Let_def intro: presence_inv_addMember)
qed (use assms in \<open>simp add: mem_JoinRoom_def\<close>)

lemma pres_abs_JoinRoom:
  assumes "presence_inv p"
  shows "fst (mem_JoinRoom None r u n p) = Inr (case room_left (seat p) r u of Some r' \<Rightarrow> r' | None \<Rightarrow> []) \<and>
    pres_abs (snd (mem_JoinRoom None r u n p)) a = abs_join r u n (pres_abs p a)"
proof -
  have pa: "ab_seat (pres_abs p a) = seat p" for p by (simp add: pres_abs_def)
  show ?thesis
  proof (cases "room_left (seat p) r u")
    case None
    then show ?thesis
      unfolding mem_JoinRoom_eq [OF assms]
      by (simp add: pres_abs_addMember abs_join_def pa) (simp add: pres_abs_def)
  next
    case (Some r')
    have "pres_abs (addMember r u n (removeMemberLocked r' u p)) a =
        (let a1 = abs_leave r' u (pres_abs p a)
         in a1\<lparr>ab_seat := (ab_seat a1)(u \<mapsto> (r, n)), ab_pending := ab_pending a1 - {r}\<rparr>)"
      unfolding pres_abs_remove [OF assms, symmetric] pres_abs_addMember
      by (simp add: pres_abs_def)
    with Some show ?thesis
      unfolding mem_JoinRoom_eq [OF assms] by (simp add: abs_join_def pa)
  qed
qed

lemma map_of_forget_users:
  "map_of (forget_users r us ur) u = (if u \<in> set us \<and> map_of ur u = Some r then None else map_of ur u)"
  by (induction us arbitrary: ur) (auto simp: lookup0_def delete_conv' split: option.splits)

lemma wf_forget_users: "wf_map ur \<Longrightarrow> wf_map (forget_users r us ur)"
  by (induction us arbitrary: ur) (simp_all add: distinct_delete)

lemma DeleteRoomPresence_cases:
  "mem_DeleteRoomPresence None r p =
     (None, if map_of (mp_members p) r = None then p
            else p\<lparr>mp_userRoom := forget_users r (mkeys (the (map_of (mp_members p) r))) (mp_userRoom p),
                   mp_members := mdelete r (mp_members p),
                   mp_activeRooms := mdelete r (mp_activeRooms p),
                   mp_pendingEmpty := mdelete r (mp_pendingEmpty p)\<rparr>)"
  by (simp add: mem_DeleteRoomPresence_def split: option.split)

lemma name_of_delete:
  "name_of (snd (mem_DeleteRoomPresence None r p)) r' u = (if r' = r then None else name_of p r' u)"
  by (auto simp: DeleteRoomPresence_cases name_of_def delete_conv')

lemma userRoom_delete:
  assumes "presence_inv p"
  shows "map_of (mp_userRoom (snd (mem_DeleteRoomPresence None r p))) u =
    (if map_of (mp_userRoom p) u = Some r then None else map_of (mp_userRoom p) u)"
proof (cases "map_of (mp_members p) r")
  case None
  then show ?thesis
    using presence_inv_index [OF assms, of r u] by (auto simp: DeleteRoomPresence_cases name_of_def)
next
  case (Some m)
  then have "map_of (mp_userRoom p) u = Some r \<longleftrightarrow> u \<in> dom (map_of m)"
    using presence_inv_index [OF assms, of r u] by (auto simp: name_of_def)
  with Some show ?thesis
    by (auto simp: DeleteRoomPresence_cases map_of_forget_users set_mkeys simp del: set_map)
qed

lemma presence_inv_delete:
  assumes inv: "presence_inv p"
  shows "presence_inv (snd (mem_DeleteRoomPresence ctx r p))"
proof (cases ctx)
  case None
  have ix: "name_of (snd (mem_DeleteRoomPresence None r p)) r' u' \<noteq> None \<longleftrightarrow>
      map_of (mp_userRoom (snd (mem_DeleteRoomPresence None r p))) u' = Some r'" for r' u'
    unfolding name_of_delete userRoom_delete [OF inv]
    using presence_inv_index [OF inv, of r' u'] by auto
  show ?thesis
    unfolding None presence_inv_def
  proof (intro conjI allI impI)
    fix r' u'
    show "name_of (snd (mem_DeleteRoomPresence None r p)) r' u' \<noteq> None \<longleftrightarrow>
      map_of (mp_userRoom (snd (mem_DeleteRoomPresence None r p))) u' = Some r'" by (rule ix)
  next
    fix r' m'
    assume "map_of (mp_members (snd (mem_DeleteRoomPresence None r p))) r' = Some m'"
    then show "wf_map m'" "m' \<noteq> []"
      using presence_inv_members [OF inv, of r' m']
      by (auto simp: DeleteRoomPresence_cases delete_conv' split: if_splits)
  qed (use presence_inv_wf [OF inv] in
      \<open>auto simp: DeleteRoomPresence_cases delete_conv' distinct_delete wf_forget_users\<close>)
qed (use inv in \<open>simp add: mem_DeleteRoomPresence_def\<close>)

lemma seat_delete:
  assumes "presence_inv p"
  shows "seat (snd (mem_DeleteRoomPresence None r p)) = vacate r (seat p)"
proof
  fix u
  show "seat (snd (mem_DeleteRoomPresence None r p)) u = vacate r (seat p) u"
    unfolding seat_def [of "snd (mem_DeleteRoomPresence None r p)"] userRoom_delete [OF assms] name_of_delete
    using presence_inv_index [OF assms, of _ u]
    by (auto simp: vacate_def occupants_def seat_def split: option.splits)
qed

lemma pres_abs_delete:
  assumes "presence_inv p"
  shows "\<exists>P. P - {r} = ab_pending (pres_abs p a) - {r} \<and>
    pres_abs (snd (mem_DeleteRoomPresence None r p)) a =
      (pres_abs p a)\<lparr>ab_seat := vacate r (ab_seat (pres_abs p a)), ab_pending := P\<rparr>"
proof -
  let ?p = "snd (mem_DeleteRoomPresence None r p)"
  have "dom (map_of (mp_pendingEmpty ?p)) - {r} = dom (map_of (mp_pendingEmpty p)) - {r}"
    by (auto simp: DeleteRoomPresence_cases delete_conv')
  moreover have "mp_cleanupLock ?p = mp_cleanupLock p" "mp_lastCleanupAt ?p = mp_lastCleanupAt p"
    by (simp_all add: DeleteRoomPresence_cases)
  ultimately show ?thesis
    by (intro exI [of _ "dom (map_of (mp_pendingEmpty ?p))"]) (simp add: pres_abs_def seat_delete [OF assms])
qed

section \<open>Reachable presences\<close>

text \<open>Every operation that writes, with any context, and the firing of a lock timer.\<close>

inductive presence_step :: "MemPresence \<Rightarrow> MemPresence \<Rightarrow> bool" where
  step_join: "presence_step p (snd (mem_JoinRoom ctx r u n p))"
| step_leave: "presence_step p (snd (mem_LeaveRoom ctx r u p))"
| step_remove: "presence_step p (snd (mem_RemoveMember ctx r u p))"
| step_delete: "presence_step p (snd (mem_DeleteRoomPresence ctx r p))"
| step_clear: "presence_step p (snd (mem_ClearPendingEmpty ctx r p))"
| step_set_last: "presence_step p (snd (mem_SetLastRoomCleanupAt ctx t p))"
| step_acquire: "presence_step p (snd (mem_TryAcquireCleanupLock ctx now ttl p))"
| step_timer: "t \<in> set (mp_timers p) \<Longrightarrow> presence_step p (cleanup_timer_fires t p)"
| step_release: "presence_step p (snd (mem_ReleaseCleanupLock ctx p))"

inductive presence_reachable :: "MemPresence \<Rightarrow> bool" where
  reach_new: "presence_reachable NewRoomPresence"
| reach_step: "presence_reachable p \<Longrightarrow> presence_step p q \<Longrightarrow> presence_reachable q"

text \<open>Steps that leave the five maps alone keep the invariant.\<close>

lemma presence_inv_cong:
  assumes "presence_inv p" and "mp_members q = mp_members p" and "mp_userRoom q = mp_userRoom p"
    and "mp_activeRooms q = mp_activeRooms p"
    and "mp_pendingEmpty q = mp_pendingEmpty p \<or> (\<exists>r. mp_pendingEmpty q = mdelete r (mp_pendingEmpty p))"
  shows "presence_inv q"
proof -
  have "wf_map (mp_pendingEmpty q)" and "dom (map_of (mp_pendingEmpty q)) \<subseteq> dom (map_of (mp_pendingEmpty p))"
    using assms(5) presence_inv_wf [OF assms(1)]
    by (auto simp: delete_conv' distinct_delete dom_def split: if_splits)
  with assms(1-4) show ?thesis
    unfolding presence_inv_def name_of_def by (simp only:) blast
qed

lemma presence_inv_step: "presence_step p q \<Longrightarrow> presence_inv p \<Longrightarrow> presence_inv q"
proof (induction rule: presence_step.induct)
  case (step_join p ctx r u n)
  then show ?case by (rule presence_inv_JoinRoom)
next
  case (step_leave p ctx r u)
  then show ?case by (auto simp: mem_LeaveRoom_def presence_inv_remove split: option.split)
next
  case (step_remove p ctx r u)
  then show ?case
    by (auto simp: mem_RemoveMember_def mem_LeaveRoom_def presence_inv_remove split: option.split)
next
  case (step_delete p ctx r)
  then show ?case by (rule presence_inv_delete)
next
  case (step_clear p ctx r)
  then show ?case
    by (rule presence_inv_cong) (auto simp: mem_ClearPendingEmpty_def split: option.split)
next
  case (step_set_last p ctx t)
  then show ?case
    by (rule presence_inv_cong) (auto simp: mem_SetLastRoomCleanupAt_def split: option.split)
next
  case (step_acquire p ctx now ttl)
  then show ?case
    by (rule presence_inv_cong) (auto simp: mem_TryAcquireCleanupLock_def split: option.split)
next
  case (step_timer t p)
  from step_timer.prems show ?case
    by (rule presence_inv_cong) (auto simp: cleanup_timer_fires_def)
next
  case (step_release p ctx)
  then show ?case
    by (rule presence_inv_cong) (auto simp: mem_ReleaseCleanupLock_def split: option.split)
qed

lemma presence_inv_new: "presence_inv NewRoomPresence"
  by (simp add: presence_inv_def NewRoomPresence_def name_of_def)

lemma presence_reachable_inv: "presence_reachable p \<Longrightarrow> presence_inv p"
  by (induction rule: presence_reachable.induct) (auto intro: presence_inv_new presence_inv_step)

section \<open>Properties\<close>

text \<open>A presence with two users in one room, reached by two joins.\<close>

definition sample_presence :: MemPresence where
  "sample_presence =
     snd (mem_JoinRoom None ''r1'' ''u2'' ''bob'' (snd (mem_JoinRoom None ''r1'' ''u1'' ''ann'' NewRoomPresence)))"

lemma sample_presence_reachable: "presence_reachable sample_presence"
  unfolding sample_presence_def by (intro reach_step [OF _ step_join] reach_new)

lemma sample_presence_eq:
  "sample_presence = \<lparr>mp_members = [(''r1'', [(''u1'', ''ann''), (''u2'', ''bob'')])],
     mp_userRoom = [(''u1'', ''r1''), (''u2'', ''r1'')], mp_activeRooms = [(''r1'', ())], mp_pendingEmpty = [],
     mp_lastCleanupAt = 0, mp_cleanupLock = False, mp_timers = []\<rparr>"
  by (simp add: sample_presence_def mem_JoinRoom_def NewRoomPresence_def)

lemma sample_seat: "seat sample_presence = [''u1'' \<mapsto> (''r1'', ''ann''), ''u2'' \<mapsto> (''r1'', ''bob'')]"
  by (rule ext) (simp add: sample_presence_eq seat_def name_of_def)

text \<open>The member list of a room of a consistent presence.\<close>

lemma ListMembers_seat:
  assumes "presence_inv p"
  obtains l where "mem_ListMembers None r p = (Inr l, p)" "distinct l"
    "set l = {\<lparr>mb_UserID = u, mb_Username = n\<rparr> | u n. seat p u = Some (r, n)}"
proof (cases "map_of (mp_members p) r")
  case None
  then have "{\<lparr>mb_UserID = u, mb_Username = n\<rparr> | u n. seat p u = Some (r, n)} = {}"
    by (simp add: seat_Some_iff [OF assms] name_of_def)
  with None show thesis by (intro that [of "[]"]) (auto simp: mem_ListMembers_def)
next
  case (Some m)
  note wf = presence_inv_members [OF assms Some, THEN conjunct1]
  let ?mk = "\<lambda>(uid, name). \<lparr>mb_UserID = uid, mb_Username = name\<rparr>"
  have "distinct (map ?mk m)"
    using wf by (auto simp: distinct_map inj_on_def)
  moreover have "set (map ?mk m) = {\<lparr>mb_UserID = u, mb_Username = n\<rparr> | u n. seat p u = Some (r, n)}"
    using Some wf by (auto simp: seat_Some_iff [OF assms] name_of_def map_of_eq_Some_iff image_iff)
  ultimately show thesis
    using Some by (intro that [of "map ?mk m"]) (simp_all add: mem_ListMembers_def)
qed

lemma ListMembers_member:
  assumes "presence_inv p" and "mem_ListMembers None r p = (Inr l, p)" and "m \<in> set l"
  shows "seat p (mb_UserID m) = Some (r, mb_Username m)"
proof -
  obtain l' where "mem_ListMembers None r p = (Inr l', p)"
    and l': "set l' = {\<lparr>mb_UserID = u, mb_Username = n\<rparr> | u n. seat p u = Some (r, n)}"
    by (rule ListMembers_seat [OF assms(1), of r])
  with assms(2) have "l' = l" by simp
  with l' assms(3) show ?thesis by auto
qed

lemma MemberCount_occupants:
  "presence_inv p \<Longrightarrow> mem_MemberCount None r p = (Inr (int (card (occupants (seat p) r))), p)"
  by (auto simp: mem_MemberCount_def count_occupants occupants_seat split: option.split)

lemma GetUserRoom_seat:
  assumes "presence_inv p"
  shows "mem_GetUserRoom None u p = (Inr (case seat p u of Some (r, _) \<Rightarrow> r | None \<Rightarrow> []), p)"
proof (cases "map_of (mp_userRoom p) u")
  case (Some r)
  then obtain n where "name_of p r u = Some n" using presence_inv_index [OF assms, of r u] by auto
  with Some show ?thesis by (simp add: mem_GetUserRoom_def lookup0_def seat_def)
qed (simp add: mem_GetUserRoom_def lookup0_def seat_def)

text \<open>
  C17: in every presence that any sequence of calls (with live or cancelled contexts) and lock
  timers can reach, a user who is listed as a member of a room is listed in no other room, under one
  name only, and \<open>GetUserRoom\<close> names that room.
\<close>

theorem user_in_one_room:
  assumes "presence_reachable p"
    and "mem_ListMembers None r p = (Inr l, p)" and "m \<in> set l"
    and "mem_ListMembers None r' p = (Inr l', p)" and "m' \<in> set l'"
    and "mb_UserID m' = mb_UserID m"
  shows "r' = r \<and> m' = m \<and> mem_GetUserRoom None (mb_UserID m) p = (Inr r, p)"
proof -
  note inv = presence_reachable_inv [OF assms(1)]
  note m = ListMembers_member [OF inv assms(2,3)] and m' = ListMembers_member [OF inv assms(4,5)]
  with assms(6) have "r' = r" "mb_Username m' = mb_Username m" by simp_all
  moreover have "m' = m" using calculation assms(6) by (intro RoomMember.equality) simp_all
  ultimately show ?thesis using m by (simp add: GetUserRoom_seat [OF inv])
qed

theorem user_in_one_room_witness:
  "mem_GetUserRoom None ''u1'' sample_presence = (Inr ''r1'', sample_presence)"
  using user_in_one_room [OF sample_presence_reachable, of "''r1''" _ "\<lparr>mb_UserID = ''u1'', mb_Username = ''ann''\<rparr>"
      "''r1''" _ "\<lparr>mb_UserID = ''u1'', mb_Username = ''ann''\<rparr>"]
  by (simp add: mem_ListMembers_def sample_presence_eq)

text \<open>
  C18: joining a room implements the seating plan.  In a reachable presence \<open>JoinRoom\<close> seats the user in
  the room, reports the other room the user sat in before (or none), takes the user out of that room, marks
  that room as waiting for teardown exactly when the user was the last one there, and takes the joined room
  off the waiting list; nobody else moves.
\<close>

theorem JoinRoom_refines:
  assumes "presence_reachable p" and "mem_JoinRoom None r u n p = (x, p')"
  shows "x = Inr (case room_left (seat p) r u of Some r' \<Rightarrow> r' | None \<Rightarrow> []) \<and>
    seat p' = (seat p)(u \<mapsto> (r, n)) \<and>
    dom (map_of (mp_pendingEmpty p')) =
      (dom (map_of (mp_pendingEmpty p)) \<union> {r'. room_left (seat p) r u = Some r' \<and> occupants (seat p) r' = {u}}) - {r} \<and>
    presence_inv p'"
proof -
  note inv = presence_reachable_inv [OF assms(1)]
  have p': "p' = snd (mem_JoinRoom None r u n p)" using assms(2) by simp
  let ?a = "pres_abs p undefined" and ?b = "pres_abs p' undefined"
  have b: "?b = abs_join r u n ?a" and x: "x = Inr (case room_left (seat p) r u of Some r' \<Rightarrow> r' | None \<Rightarrow> [])"
    using pres_abs_JoinRoom [OF inv, of r u n undefined] assms(2) by simp_all
  note join = abs_join_seat [of r u n ?a] abs_join_pending [of r u n ?a]
  have "seat p' = (seat p)(u \<mapsto> (r, n))"
    using join(1) unfolding b [symmetric] by (simp add: pres_abs_parts)
  moreover have "dom (map_of (mp_pendingEmpty p')) = (dom (map_of (mp_pendingEmpty p)) \<union>
      {r'. room_left (seat p) r u = Some r' \<and> occupants (seat p) r' = {u}}) - {r}"
    using join(2) unfolding b [symmetric] by (simp add: pres_abs_parts)
  moreover have "presence_inv p'" unfolding p' by (rule presence_inv_JoinRoom [OF inv])
  ultimately show ?thesis using x by blast
qed

theorem JoinRoom_refines_witness:
  "seat (snd (mem_JoinRoom None ''r2'' ''u1'' ''ann'' sample_presence)) =
     [''u1'' \<mapsto> (''r2'', ''ann''), ''u2'' \<mapsto> (''r1'', ''bob'')]"
  using JoinRoom_refines [OF sample_presence_reachable prod.collapse [symmetric], of "''r2''" "''u1''" "''ann''"]
  by (simp add: sample_seat fun_upd_twist)

text \<open>
  Leaving, removal by a moderator and deletion of a presence implement the seating plan: the
  first two empty the seat of the given user if it is in the given room, and put the room on
  the waiting list exactly when the user was the last one there; deletion empties the seats of the given
  room only.
\<close>

theorem Leave_Delete_refine:
  assumes "presence_reachable p"
  shows "mem_LeaveRoom None r u p = (None, removeMemberLocked r u p) \<and>
    mem_RemoveMember None r u p = (None, removeMemberLocked r u p) \<and>
    seat (removeMemberLocked r u p) = (if u \<in> occupants (seat p) r then (seat p)(u := None) else seat p) \<and>
    dom (map_of (mp_pendingEmpty (removeMemberLocked r u p))) =
      dom (map_of (mp_pendingEmpty p)) \<union> {r'. r' = r \<and> occupants (seat p) r = {u}} \<and>
    (\<exists>q. mem_DeleteRoomPresence None r p = (None, q) \<and> seat q = vacate r (seat p) \<and> presence_inv q)"
proof -
  note inv = presence_reachable_inv [OF assms]
  have occ: "map_option fst (seat p u) = Some r \<longleftrightarrow> u \<in> occupants (seat p) r"
    by (auto simp: occupants_def)
  have "mem_DeleteRoomPresence None r p = (None, snd (mem_DeleteRoomPresence None r p))"
    by (simp add: DeleteRoomPresence_cases)
  then have "\<exists>q. mem_DeleteRoomPresence None r p = (None, q) \<and> seat q = vacate r (seat p) \<and> presence_inv q"
    using seat_delete [OF inv] presence_inv_delete [OF inv] by blast
  then show ?thesis
    unfolding mem_LeaveRoom_def mem_RemoveMember_def seat_remove [OF inv] pending_remove [OF inv] occ
    by simp
qed

theorem Leave_Delete_refine_witness:
  "seat (removeMemberLocked ''r1'' ''u2'' sample_presence) = [''u1'' \<mapsto> (''r1'', ''ann'')]"
  using Leave_Delete_refine [OF sample_presence_reachable, of "''r1''" "''u2''"]
  by (auto simp: sample_seat occupants_def fun_eq_iff)

end
