(* ===== verification/Go_Text.thy ===== *)
theory Go_Text
  imports Go_Float64
begin

text \<open>
  More of Go's standard library on text: \<open>strings.ToLower\<close>, \<open>Split\<close>, \<open>Index\<close> and suffixes, the UTF-8
  rune count, \<open>strconv.Atoi\<close> and \<open>FormatInt\<close>, and \<open>time.ParseDuration\<close>.
\<close>

section \<open>Package strings\<close>

text \<open>
  \<open>ToLower\<close> maps ASCII strings byte by byte; the Unicode case tables that it uses for every other
  string are the parameter \<open>lowU\<close>.
\<close>

definition byte :: "char \<Rightarrow> int" where
  "byte c = int (of_char c)"

definition lower_byte :: "char \<Rightarrow> char" where
  "lower_byte c = (if 65 \<le> byte c \<and> byte c \<le> 90 then char_of (of_char c + (32 :: nat)) else c)"

definition is_ascii :: "string \<Rightarrow> bool" where
  "is_ascii s = list_all (\<lambda>c. byte c < 128) s"

definition ToLower :: "(string \<Rightarrow> string) \<Rightarrow> string \<Rightarrow> string" where
  "ToLower lowU s = (if is_ascii s then map lower_byte s else lowU s)"

definition HasSuffix :: "string \<Rightarrow> string \<Rightarrow> bool" where
  "HasSuffix s p \<longleftrightarrow> length p \<le> length s \<and> drop (length s - length p) s = p"

definition TrimSuffix :: "string \<Rightarrow> string \<Rightarrow> string" where
  "TrimSuffix s p = (if HasSuffix s p then take (length s - length p) s else s)"

text \<open>\<open>strings.Split\<close> and \<open>strings.Index\<close> for a separator of one byte.\<close>

fun SplitByte :: "char \<Rightarrow> string \<Rightarrow> string list" where
  "SplitByte sep [] = [[]]"
| "SplitByte sep (c # s) =
     (if c = sep then [] # SplitByte sep s
      else case SplitByte sep s of [] \<Rightarrow> [[c]] | p # ps \<Rightarrow> (c # p) # ps)"

fun IndexByte_from :: "int \<Rightarrow> string \<Rightarrow> char \<Rightarrow> int" where
  "IndexByte_from i [] c = - 1"
| "IndexByte_from i (x # s) c = (if x = c then i else IndexByte_from (i + 1) s c)"

definition IndexByte :: "string \<Rightarrow> char \<Rightarrow> int" where
  "IndexByte s c = IndexByte_from 0 s c"

lemma SplitByte_not_Nil [simp]: "SplitByte sep s \<noteq> []"
  by (induction s) (auto split: list.split)

fun joinByte :: "char \<Rightarrow> string list \<Rightarrow> string" where
  "joinByte sep [] = []"
| "joinByte sep [p] = p"
| "joinByte sep (p # q # ps) = p @ sep # joinByte sep (q # ps)"

lemma joinByte_SplitByte [simp]: "joinByte sep (SplitByte sep s) = s"
proof (induction s)
  case (Cons c s)
  then show ?case by (cases "SplitByte sep s"; cases "tl (SplitByte sep s)") auto
qed simp

lemma sep_notin_SplitByte: "p \<in> set (SplitByte sep s) \<Longrightarrow> sep \<notin> set p"
  by (induction s arbitrary: p) (auto split: if_splits list.splits)

lemma IndexByte_from_append:
  "c \<notin> set s \<Longrightarrow> IndexByte_from i (s @ c # t) c = i + int (length s)"
  by (induction s arbitrary: i) auto

lemma IndexByte_from_absent: "c \<notin> set s \<Longrightarrow> IndexByte_from i s c = - 1"
  by (induction s arbitrary: i) auto

lemma IndexByte_cases:
  obtains "IndexByte s c = - 1" "c \<notin> set s"
  | a b where "s = a @ c # b" "c \<notin> set a" "IndexByte s c = int (length a)"
proof (cases "c \<in> set s")
  case True
  then obtain a b where "s = a @ c # b" "c \<notin> set a" by (meson split_list_first)
  then show thesis by (intro that(2)) (auto simp: IndexByte_def IndexByte_from_append)
qed (auto simp: IndexByte_def IndexByte_from_absent intro: that(1))

section \<open>Runes\<close>

text \<open>
  \<open>rune_len s\<close> is the width of the first rune of a non-empty string: the length of a well-formed UTF-8
  sequence, or 1 for a byte that starts none.
\<close>

definition cont :: "char \<Rightarrow> bool" where
  "cont c \<longleftrightarrow> 128 \<le> byte c \<and> byte c \<le> 191"

definition second_ok :: "char \<Rightarrow> char \<Rightarrow> bool" where
  "second_ok c d \<longleftrightarrow>
     (if byte c = 224 then 160 \<le> byte d \<and> byte d \<le> 191
      else if byte c = 237 then 128 \<le> byte d \<and> byte d \<le> 159
      else if byte c = 240 then 144 \<le> byte d \<and> byte d \<le> 191
      else if byte c = 244 then 128 \<le> byte d \<and> byte d \<le> 143
      else cont d)"

fun rune_len :: "string \<Rightarrow> nat" where
  "rune_len (c # d # e # f # s) =
     (if byte c < 128 then 1
      else if 194 \<le> byte c \<and> byte c \<le> 223 \<and> second_ok c d then 2
      else if 224 \<le> byte c \<and> byte c \<le> 239 \<and> second_ok c d \<and> cont e then 3
      else if 240 \<le> byte c \<and> byte c \<le> 244 \<and> second_ok c d \<and> cont e \<and> cont f then 4
      else 1)"
| "rune_len [c, d, e] =
     (if 194 \<le> byte c \<and> byte c \<le> 223 \<and> second_ok c d then 2
      else if 224 \<le> byte c \<and> byte c \<le> 239 \<and> second_ok c d \<and> cont e then 3
      else 1)"
| "rune_len [c, d] = (if 194 \<le> byte c \<and> byte c \<le> 223 \<and> second_ok c d then 2 else 1)"
| "rune_len s = 1"

lemma rune_len_pos [simp]: "0 < rune_len s"
  by (cases s rule: rune_len.cases) auto

lemma rune_len_le: "s \<noteq> [] \<Longrightarrow> rune_len s \<le> length s"
  by (cases s rule: rune_len.cases) auto

function RuneCount :: "string \<Rightarrow> nat" where
  "RuneCount s = (if s = [] then 0 else Suc (RuneCount (drop (rune_len s) s)))"
  by pat_completeness auto
termination by (relation "measure length") auto

declare RuneCount.simps [simp del]

lemma RuneCount_Nil [simp]: "RuneCount [] = 0"
  by (simp add: RuneCount.simps)

lemma RuneCount_le: "RuneCount s \<le> length s"
proof (induction s rule: RuneCount.induct)
  case (1 s)
  show ?case
  proof (cases "s = []")
    case False
    then have "RuneCount (drop (rune_len s) s) \<le> length s - rune_len s"
      using 1 by simp
    moreover have "rune_len s \<le> length s" "0 < rune_len s" using rune_len_le [OF False] by simp_all
    ultimately have "Suc (RuneCount (drop (rune_len s) s)) \<le> length s" by linarith
    with False show ?thesis by (simp add: RuneCount.simps [of s])
  qed simp
qed

section \<open>Package strconv\<close>

definition is_digit :: "char \<Rightarrow> bool" where
  "is_digit c \<longleftrightarrow> 48 \<le> byte c \<and> byte c \<le> 57"

fun digits_val :: "int \<Rightarrow> string \<Rightarrow> int" where
  "digits_val acc [] = acc"
| "digits_val acc (c # s) = digits_val (10 * acc + (byte c - 48)) s"

definition Atoi :: "string \<Rightarrow> int option" where
  "Atoi s =
     (let neg = (s \<noteq> [] \<and> hd s = CHR ''-'');
          ds = (if s \<noteq> [] \<and> (hd s = CHR ''-'' \<or> hd s = CHR ''+'') then tl s else s);
          v = (if neg then - digits_val 0 ds else digits_val 0 ds)
      in if ds = [] \<or> \<not> list_all is_digit ds \<or> \<not> is_int64 v then None else Some v)"

fun nat_digits :: "nat \<Rightarrow> nat \<Rightarrow> string" where
  "nat_digits 0 n = []"
| "nat_digits (Suc k) n =
     (if n < 10 then [char_of (48 + n)] else nat_digits k (n div 10) @ [char_of (48 + n mod 10)])"

definition FormatInt :: "int \<Rightarrow> string" where
  "FormatInt i = (if i < 0 then CHR ''-'' # nat_digits (Suc (nat (- i))) (nat (- i))
                  else nat_digits (Suc (nat i)) (nat i))"

lemma byte_char_of: "n < 256 \<Longrightarrow> byte (char_of n) = int n" for n :: nat
  by (simp add: byte_def)

lemma is_digit_char_of [simp]: "n < 10 \<Longrightarrow> is_digit (char_of (48 + n))" for n :: nat
  using byte_char_of [of "48 + n"] by (simp add: is_digit_def)

lemma digits_val_append: "digits_val acc (s @ t) = digits_val (digits_val acc s) t"
  by (induction s arbitrary: acc) auto

lemma nat_digits_ok: "n < k \<Longrightarrow> nat_digits k n \<noteq> [] \<and> list_all is_digit (nat_digits k n) \<and>
    digits_val 0 (nat_digits k n) = int n"
proof (induction k arbitrary: n)
  case (Suc k)
  show ?case
  proof (cases "n < 10")
    case True
    then show ?thesis using byte_char_of [of "48 + n"] by simp
  next
    case False
    then have "n div 10 < k" using Suc.prems by simp
    note IH = Suc.IH [OF this]
    have "n mod 10 < 10" "10 * int (n div 10) + int (n mod 10) = int n" by simp_all presburger
    with IH False show ?thesis
      using byte_char_of [of "48 + n mod 10"] by (simp add: digits_val_append)
  qed
qed simp

lemma is_digit_sign: "is_digit c \<Longrightarrow> c \<noteq> CHR ''-'' \<and> c \<noteq> CHR ''+''"
  by (auto simp: is_digit_def byte_def)

text \<open>Printing and reading back a 64-bit integer.\<close>

lemma Atoi_FormatInt [simp]: "is_int64 i \<Longrightarrow> Atoi (FormatInt i) = Some i"
proof (cases "i < 0")
  case True
  then show "is_int64 i \<Longrightarrow> ?thesis"
    using nat_digits_ok [of "nat (- i)" "Suc (nat (- i))"]
    by (simp add: Atoi_def FormatInt_def Let_def del: nat_digits.simps)
next
  case False
  let ?s = "nat_digits (Suc (nat i)) (nat i)"
  have ok: "?s \<noteq> [] \<and> list_all is_digit ?s \<and> digits_val 0 ?s = i"
    using nat_digits_ok [of "nat i" "Suc (nat i)"] False by (simp del: nat_digits.simps)
  then have "hd ?s \<noteq> CHR ''-'' \<and> hd ?s \<noteq> CHR ''+''"
    using is_digit_sign by (cases ?s) (auto simp del: nat_digits.simps)
  with ok False show "is_int64 i \<Longrightarrow> ?thesis"
    by (simp add: Atoi_def FormatInt_def Let_def del: nat_digits.simps)
qed

section \<open>time.ParseDuration\<close>

text \<open>
  \<open>leadingInt\<close> and \<open>leadingFraction\<close> read the longest prefix of digits; the first fails when the number
  passes \<open>2^63\<close>, the second ignores the digits that would, and returns the scale as a power of ten.  The
  accumulators are \<open>uint64\<close>.
\<close>

fun leadingInt :: "int \<Rightarrow> string \<Rightarrow> (int \<times> string) option" where
  "leadingInt x [] = Some (x, [])"
| "leadingInt x (c # s) =
     (if \<not> is_digit c then Some (x, c # s)
      else if x > 2 ^ 63 div 10 then None
      else let y = x * 10 + (byte c - 48) in if y > 2 ^ 63 then None else leadingInt y s)"

fun leadingFraction :: "int \<Rightarrow> rat \<Rightarrow> bool \<Rightarrow> string \<Rightarrow> int \<times> rat \<times> string" where
  "leadingFraction x scale over [] = (x, scale, [])"
| "leadingFraction x scale over (c # s) =
     (if \<not> is_digit c then (x, scale, c # s)
      else if over then leadingFraction x scale over s
      else if x > (2 ^ 63 - 1) div 10 then leadingFraction x scale True s
      else let y = x * 10 + (byte c - 48) in
        if y > 2 ^ 63 then leadingFraction x scale True s
        else leadingFraction y (rnd64 (scale * 10)) over s)"

definition unitMap :: "string \<Rightarrow> int option" where
  "unitMap u =
     (if u = ''ns'' then Some 1
      else if u = ''us'' \<or> u = [CHR 0xC2, CHR 0xB5, CHR ''s''] \<or> u = [CHR 0xCE, CHR 0xBC, CHR ''s''] then Some 1000
      else if u = ''ms'' then Some 1000000
      else if u = ''s'' then Some Second
      else if u = ''m'' then Some Minute
      else if u = ''h'' then Some Hour
      else None)"

definition unit_char :: "char \<Rightarrow> bool" where
  "unit_char c \<longleftrightarrow> \<not> (c = CHR ''.'' \<or> is_digit c)"

text \<open>One \<open>number unit\<close> group: its value in nanoseconds and the rest of the text.\<close>

definition duration_group :: "string \<Rightarrow> (int \<times> string) option" where
  "duration_group s =
     (if s = [] \<or> \<not> (hd s = CHR ''.'' \<or> is_digit (hd s)) then None
      else case leadingInt 0 s of
        None \<Rightarrow> None
      | Some (v, s1) \<Rightarrow>
          let pre = length s1 \<noteq> length s;
              dot = (s1 \<noteq> [] \<and> hd s1 = CHR ''.'');
              (f, scale, s2) = (if dot then leadingFraction 0 1 False (tl s1) else (0, 1, s1));
              post = (dot \<and> length s2 \<noteq> length (tl s1))
          in if \<not> pre \<and> \<not> post then None
             else
               let u = takeWhile unit_char s2; s3 = dropWhile unit_char s2
               in if u = [] then None
                  else case unitMap u of
                    None \<Rightarrow> None
                  | Some unit \<Rightarrow>
                      if v > 2 ^ 63 div unit then None
                      else if f > 0 then
                        (let v2 = v * unit + \<lfloor>rnd64 (rnd64 (of_int f) * rnd64 (of_int unit / scale))\<rfloor>
                         in if v2 > 2 ^ 63 then None else Some (v2, s3))
                      else Some (v * unit, s3))"

lemma leadingInt_suffix: "leadingInt x s = Some (v, t) \<Longrightarrow> suffix t s"
  by (induction x s rule: leadingInt.induct) (auto simp: Let_def suffix_Cons split: if_splits)

lemma leadingFraction_suffix: "leadingFraction x sc ov s = (f, sc', t) \<Longrightarrow> suffix t s"
  by (induction x sc ov s rule: leadingFraction.induct) (auto simp: Let_def suffix_Cons split: if_splits)

lemma duration_group_shorter:
  assumes "duration_group s = Some (v, t)"
  shows "length t < length s"
proof -
  obtain v1 s1 where s1: "leadingInt 0 s = Some (v1, s1)"
    using assms by (auto simp: duration_group_def split: if_splits option.splits)
  define r where "r = (if s1 \<noteq> [] \<and> hd s1 = CHR ''.'' then leadingFraction 0 1 False (tl s1) else (0, 1, s1))"
  obtain f sc s2 where r2: "r = (f, sc, s2)" by (cases r) auto
  have "suffix s2 s1"
  proof (cases "s1 \<noteq> [] \<and> hd s1 = CHR ''.''")
    case True
    then have "suffix s2 (tl s1)" using r2 by (intro leadingFraction_suffix) (simp add: r_def)
    then show ?thesis by (metis suffix_order.trans suffix_tl)
  qed (use r2 r_def in auto)
  with leadingInt_suffix [OF s1] have le: "length s2 \<le> length s"
    by (meson suffix_length_le suffix_order.trans)
  have u: "takeWhile unit_char s2 \<noteq> [] \<and> t = dropWhile unit_char s2"
    using assms s1 r2 unfolding duration_group_def r_def
    by (auto simp: Let_def split: if_splits option.splits)
  then have "length t < length s2"
    by (metis append_Nil length_append less_add_same_cancel2 length_greater_0_conv takeWhile_dropWhile_id)
  with le show ?thesis by simp
qed

function duration_groups :: "int \<Rightarrow> string \<Rightarrow> int option" where
  "duration_groups d s =
     (if s = [] then Some d
      else case duration_group s of
        None \<Rightarrow> None
      | Some (v, t) \<Rightarrow>
          let d' = (d + v) mod 2 ^ 64 in if d' > 2 ^ 63 then None else duration_groups d' t)"
  by pat_completeness auto
termination by (relation "measure (length \<circ> snd)") (auto simp: duration_group_shorter)

declare duration_groups.simps [simp del]

definition ParseDuration :: "string \<Rightarrow> duration option" where
  "ParseDuration s0 =
     (let neg = (s0 \<noteq> [] \<and> hd s0 = CHR ''-'');
          s = (if s0 \<noteq> [] \<and> (hd s0 = CHR ''-'' \<or> hd s0 = CHR ''+'') then tl s0 else s0)
      in if s = ''0'' then Some 0
         else if s = [] then None
         else case duration_groups 0 s of
           None \<Rightarrow> None
         | Some d \<Rightarrow>
             if neg then Some (wrap64 (- wrap64 d)) else if d > 2 ^ 63 - 1 then None else Some d)"

end
