(* ===== verification/Room_Chat.thy ===== *)
theory Room_Chat
  imports Room_Interfaces Config
begin

text \<open>
  The room service (\<^verbatim>\<open>type Service\<close> of \<^verbatim>\<open>internal/room/hub.go\<close>) as a record of its backends, and the chat
  part of it, \<^verbatim>\<open>internal/room/chat.go\<close>: sending with a bounded number of publish attempts, listing, and the
  redelivery of messages that could not be published.
\<close>

section \<open>Limits\<close>

record ChatLimits =
  cl_StreamMaxLen :: int
  cl_AblyPublishRetry :: int
  cl_AblyPublishTimeout :: duration
  cl_AblyPendingMax :: int
  cl_MaxPayloadBytes :: int
  cl_MaxTextRunes :: int
  cl_RatePerSecond :: int

definition nonzero :: "int \<Rightarrow> int \<Rightarrow> int" where
  "nonzero v def = (if v \<le> 0 then def else v)"

definition ChatLimitsFromConfig :: "Config \<Rightarrow> ChatLimits" where
  "ChatLimitsFromConfig c =
     (let to = (if cf_ChatAblyPublishTimeout c \<le> 0 then 10 * Second else cf_ChatAblyPublishTimeout c);
          retry = (if cf_ChatAblyPublishRetry c < 0 then 0 else cf_ChatAblyPublishRetry c)
      in \<lparr>cl_StreamMaxLen = nonzero (cf_ChatStreamMaxLen c) 2000,
          cl_AblyPublishRetry = retry,
          cl_AblyPublishTimeout = to,
          cl_AblyPendingMax = nonzero (cf_ChatAblyPendingMax c) 500,
          cl_MaxPayloadBytes = nonzero (cf_ChatMaxPayloadBytes c) 61440,
          cl_MaxTextRunes = nonzero (cf_ChatMaxTextRunes c) 2000,
          cl_RatePerSecond = nonzero (cf_ChatRatePerSecond c) 10\<rparr>)"

section \<open>The service\<close>

text \<open>
  What a handler needs of the Go runtime: \<open>rt_ctxErr d\<close> is \<open>Err\<close> of a context derived from the request's with
  deadline \<open>d\<close>, \<open>rt_wait d b\<close> is the \<open>select\<close> between \<open>time.After(b)\<close> and the end of such a context, and
  \<open>rt_IntN\<close> the random source.  \<open>marshalChat\<close> and \<open>unmarshalChat\<close> are \<open>json.Marshal\<close> and \<open>json.Unmarshal\<close>
  at type \<open>ChatMessage\<close>.
\<close>

record 'w Runtime =
  rt_ctxErr :: "gotime \<Rightarrow> ('w, error option) io"
  rt_wait :: "gotime \<Rightarrow> duration \<Rightarrow> ('w, error option) io"
  rt_IntN :: "int \<Rightarrow> ('w, int) io"
  marshalChat :: "ChatMessage \<Rightarrow> error + string"
  unmarshalChat :: "string \<Rightarrow> error + ChatMessage"

text \<open>
  The backends that the code tests against \<open>nil\<close> are options.  The state cache is not: every caller of
  \<open>NewService\<close> passes one.
\<close>

record 'w Service =
  sv_states :: "'w RoomStateCache"
  sv_presence :: "'w RoomPresence option"
  sv_rooms :: "'w RoomStore option"
  sv_roomAccess :: "'w RoomAccessCache option"
  sv_publisher :: "'w Publisher option"
  sv_roomChat :: "'w RoomChat option"
  sv_chat :: ChatLimits
  sv_now :: "('w, gotime) io"
  sv_rt :: "'w Runtime"

definition NewService ::
  "('w, gotime) io \<Rightarrow> 'w Runtime \<Rightarrow> 'w RoomStateCache \<Rightarrow> 'w RoomPresence option \<Rightarrow> 'w RoomStore option \<Rightarrow>
   'w RoomAccessCache option \<Rightarrow> 'w Publisher option \<Rightarrow> 'w RoomChat option \<Rightarrow> ChatLimits \<Rightarrow> 'w Service" where
  "NewService timeNow rt states presence rooms roomAccess publisher roomChat chat =
     \<lparr>sv_states = states, sv_presence = presence, sv_rooms = rooms, sv_roomAccess = roomAccess,
      sv_publisher = publisher, sv_roomChat = roomChat, sv_chat = chat, sv_now = timeNow, sv_rt = rt\<rparr>"

section \<open>Chat\<close>

definition MessageRoomChat :: string where "MessageRoomChat = ''room.chat''"

record ChatSendResult =
  cr_Message :: ChatMessage
  cr_Realtime :: string

definition deleteRoomChat :: "'w Service \<Rightarrow> string \<Rightarrow> ('w, unit) io" where
  "deleteRoomChat s roomID =
     (case sv_roomChat s of
        None \<Rightarrow> State_Monad.return ()
      | Some c \<Rightarrow> do { _ \<leftarrow> ChatDeleteRoom c roomID; State_Monad.return () })"

text \<open>
  The pause after attempt \<open>i\<close>: 64-bit arithmetic throughout, so the shift and the products wrap around.
\<close>

definition backoff :: "nat \<Rightarrow> int \<Rightarrow> duration" where
  "backoff i jitter =
     (let b = wrap64 (wrap64 (wrap64 (40 * wrap64 (2 ^ i)) + jitter) * 1000000)
      in if b > 1500 * 1000000 then 1500 * 1000000 else b)"

fun publish_attempts ::
  "'w Runtime \<Rightarrow> 'w Publisher \<Rightarrow> string \<Rightarrow> pub_data \<Rightarrow> gotime \<Rightarrow> nat \<Rightarrow> nat \<Rightarrow> error option \<Rightarrow> ('w, error option) io" where
  "publish_attempts rt pub roomID data deadline i 0 lastErr = State_Monad.return lastErr"
| "publish_attempts rt pub roomID data deadline i (Suc left) lastErr = do {
     e \<leftarrow> rt_ctxErr rt deadline;
     case e of
       Some err \<Rightarrow> State_Monad.return (Some err)
     | None \<Rightarrow> do {
         r \<leftarrow> PublishRoomMessage pub roomID MessageRoomChat data;
         case r of
           None \<Rightarrow> State_Monad.return None
         | Some err \<Rightarrow>
             if left > 0 then do {
               jitter \<leftarrow> rt_IntN rt 80;
               d \<leftarrow> rt_wait rt deadline (backoff i jitter);
               case d of
                 None \<Rightarrow> publish_attempts rt pub roomID data deadline (Suc i) left (Some err)
               | Some done \<Rightarrow> State_Monad.return (Some done)
             }
             else State_Monad.return (Some err)
       }
   }"

definition publishAblyChat :: "'w Service \<Rightarrow> string \<Rightarrow> pub_data \<Rightarrow> ('w, error option) io" where
  "publishAblyChat s roomID data =
     (case sv_publisher s of
        None \<Rightarrow> State_Monad.return None
      | Some pub \<Rightarrow>
          let attempts0 = wrap64 (1 + cl_AblyPublishRetry (sv_chat s));
              attempts = (if attempts0 < 1 then 1 else attempts0);
              timeout0 = cl_AblyPublishTimeout (sv_chat s);
              timeout = (if timeout0 \<le> 0 then 10 * Second else timeout0)
          in do {
            start \<leftarrow> sv_now s;
            publish_attempts (sv_rt s) pub roomID data (start + timeout) 0 (nat attempts) None
          })"

definition SendChat :: "'w Service \<Rightarrow> string \<Rightarrow> HubUser \<Rightarrow> string \<Rightarrow> ('w, error + ChatSendResult) io" where
  "SendChat s roomID sender plain0 =
     (case sv_roomChat s of
        None \<Rightarrow> State_Monad.return (Inl ErrChatRequiresRedis)
      | Some chat \<Rightarrow>
          let plain = TrimSpace plain0 in
          if plain = [] then State_Monad.return (Inl ErrChatTextEmpty)
          else if int (RuneCount plain) > cl_MaxTextRunes (sv_chat s) then State_Monad.return (Inl ErrChatTextTooLong)
          else do {
            n \<leftarrow> PendingCount chat roomID;
            case n of
              Inl err \<Rightarrow> State_Monad.return (Inl err)
            | Inr npend \<Rightarrow>
                if npend \<ge> cl_AblyPendingMax (sv_chat s) then State_Monad.return (Inl ErrChatPendingFull)
                else do {
            a \<leftarrow> AllowChatSend chat roomID (hu_ID sender) (cl_RatePerSecond (sv_chat s));
            case a of
              Inl err \<Rightarrow> State_Monad.return (Inl err)
            | Inr ok \<Rightarrow>
                if \<not> ok then State_Monad.return (Inl ErrChatRateLimited)
                else do {
            q \<leftarrow> NextSeq chat roomID;
            case q of
              Inl err \<Rightarrow> State_Monad.return (Inl err)
            | Inr seq \<Rightarrow> do {
            now \<leftarrow> sv_now s;
            let base = \<lparr>cm_Type = ''chat'', cm_Seq = seq, cm_StreamID = [], cm_RoomID = roomID,
                        cm_User = sender, cm_Text = plain, cm_SentAt = Unix now\<rparr> in
            case marshalChat (sv_rt s) base of
              Inl err \<Rightarrow> State_Monad.return (Inl err)
            | Inr payload \<Rightarrow>
                if int (length payload) > cl_MaxPayloadBytes (sv_chat s) then State_Monad.return (Inl ErrChatPayloadTooLarge)
                else do {
            sid \<leftarrow> AppendMessage chat roomID seq payload (cl_StreamMaxLen (sv_chat s));
            case sid of
              Inl err \<Rightarrow> State_Monad.return (Inl err)
            | Inr streamID \<Rightarrow>
                let out = base\<lparr>cm_StreamID := streamID\<rparr> in
                case marshalChat (sv_rt s) out of
                  Inl err \<Rightarrow> State_Monad.return (Inl err)
                | Inr ablyPayload \<Rightarrow>
                    if int (length ablyPayload) > cl_MaxPayloadBytes (sv_chat s) then do {
                      _ \<leftarrow> EnqueuePending chat roomID streamID;
                      State_Monad.return (Inr \<lparr>cr_Message = out, cr_Realtime = ''deferred''\<rparr>)
                    }
                    else do {
            pubErr \<leftarrow> publishAblyChat s roomID (PubRaw ablyPayload);
            case pubErr of
              None \<Rightarrow> State_Monad.return (Inr \<lparr>cr_Message = out, cr_Realtime = ''ok''\<rparr>)
            | Some _ \<Rightarrow> do {
                e \<leftarrow> EnqueuePending chat roomID streamID;
                case e of
                  Some err \<Rightarrow> State_Monad.return (Inl err)
                | None \<Rightarrow> State_Monad.return (Inr \<lparr>cr_Message = out, cr_Realtime = ''deferred''\<rparr>)
              } } } } } } })"

fun decode_chat :: "(string \<Rightarrow> error + ChatMessage) \<Rightarrow> RoomChatMessage list \<Rightarrow> ChatMessage list" where
  "decode_chat unm [] = []"
| "decode_chat unm (m # raw) =
     (case unm (rc_Payload m) of
        Inl _ \<Rightarrow> decode_chat unm raw
      | Inr w \<Rightarrow> w\<lparr>cm_StreamID := rc_StreamID m\<rparr> # decode_chat unm raw)"

definition ListChat :: "'w Service \<Rightarrow> string \<Rightarrow> string \<Rightarrow> int \<Rightarrow> ('w, error + (ChatMessage list \<times> bool)) io" where
  "ListChat s roomID beforeID limit0 =
     (case sv_roomChat s of
        None \<Rightarrow> State_Monad.return (Inl ErrChatRequiresRedis)
      | Some chat \<Rightarrow>
          let limit1 = (if limit0 \<le> 0 then 50 else limit0);
              limit = (if limit1 > 200 then 200 else limit1)
          in do {
            r \<leftarrow> ListMessagesRev chat roomID beforeID (limit + 1);
            State_Monad.return
              (case r of
                 Inl err \<Rightarrow> Inl err
               | Inr raw0 \<Rightarrow>
                   let hasMore = int (length raw0) > limit;
                       raw = (if hasMore then take (nat limit) raw0 else raw0)
                   in Inr (decode_chat (unmarshalChat (sv_rt s)) raw, hasMore))
          })"

definition ParseRoomChatPendingKey :: "string \<Rightarrow> string \<times> bool" where
  "ParseRoomChatPendingKey key =
     (if \<not> HasPrefix key ''room:chat:ably_pending:'' then ([], False)
      else (TrimPrefix key ''room:chat:ably_pending:'', True))"

fun drain_ids :: "'w Service \<Rightarrow> 'w RoomChat \<Rightarrow> string \<Rightarrow> string list \<Rightarrow> ('w, unit) io" where
  "drain_ids s chat roomID [] = State_Monad.return ()"
| "drain_ids s chat roomID (sid # ids) = do {
     p \<leftarrow> GetPayload chat roomID sid;
     _ \<leftarrow> (case p of
        Inl _ \<Rightarrow> do { _ \<leftarrow> RemovePending chat roomID sid; State_Monad.return () }
      | Inr payload \<Rightarrow>
          if TrimSpace payload = [] then do { _ \<leftarrow> RemovePending chat roomID sid; State_Monad.return () }
          else case unmarshalChat (sv_rt s) payload of
            Inl _ \<Rightarrow> do { _ \<leftarrow> RemovePending chat roomID sid; State_Monad.return () }
          | Inr w \<Rightarrow>
              (case marshalChat (sv_rt s) (w\<lparr>cm_StreamID := sid\<rparr>) of
                 Inl _ \<Rightarrow> State_Monad.return ()
               | Inr ablyPayload \<Rightarrow>
                   if int (length ablyPayload) > cl_MaxPayloadBytes (sv_chat s) then State_Monad.return ()
                   else do {
                     e \<leftarrow> publishAblyChat s roomID (PubRaw ablyPayload);
                     case e of
                       Some _ \<Rightarrow> State_Monad.return ()
                     | None \<Rightarrow> do { _ \<leftarrow> RemovePending chat roomID sid; State_Monad.return () }
                   }));
     drain_ids s chat roomID ids
   }"

definition drainRoomPending :: "'w Service \<Rightarrow> 'w RoomChat \<Rightarrow> string \<Rightarrow> ('w, error option) io" where
  "drainRoomPending s chat roomID = do {
     r \<leftarrow> PendingStreamIDs chat roomID 30;
     case r of
       Inl err \<Rightarrow> State_Monad.return (Some err)
     | Inr ids \<Rightarrow>
         if length ids = 0 then State_Monad.return None
         else do { _ \<leftarrow> drain_ids s chat roomID ids; State_Monad.return None }
   }"

fun drain_keys :: "'w Service \<Rightarrow> 'w RoomChat \<Rightarrow> string list \<Rightarrow> ('w, unit) io" where
  "drain_keys s chat [] = State_Monad.return ()"
| "drain_keys s chat (key # keys) =
     (case ParseRoomChatPendingKey key of
        (rid, ok) \<Rightarrow>
          if \<not> ok then drain_keys s chat keys
          else do { _ \<leftarrow> drainRoomPending s chat rid; drain_keys s chat keys })"

text \<open>
  The scan loop ends when the cursor comes back to 0, which is up to Redis; it carries fuel, and \<open>None\<close> means
  that the loop did not end within it.
\<close>

fun scan_pending :: "nat \<Rightarrow> 'w Service \<Rightarrow> 'w RoomChat \<Rightarrow> int \<Rightarrow> ('w, error option option) io" where
  "scan_pending 0 s chat cursor = State_Monad.return None"
| "scan_pending (Suc fuel) s chat cursor = do {
     r \<leftarrow> ScanPendingRooms chat cursor 40;
     case r of
       Inl err \<Rightarrow> State_Monad.return (Some (Some err))
     | Inr (keys, nxt) \<Rightarrow> do {
         _ \<leftarrow> drain_keys s chat keys;
         if nxt = 0 then State_Monad.return (Some None) else scan_pending fuel s chat nxt
       }
   }"

definition ProcessGlobalChatPending :: "nat \<Rightarrow> 'w Service \<Rightarrow> ('w, error option option) io" where
  "ProcessGlobalChatPending fuel s =
     (case sv_roomChat s of
        None \<Rightarrow> State_Monad.return (Some None)
      | Some chat \<Rightarrow>
          (case sv_publisher s of
             None \<Rightarrow> State_Monad.return (Some None)
           | Some _ \<Rightarrow> scan_pending fuel s chat 0))"

end
