(* ===== verification/Playback.thy ===== *)
theory Playback
  imports Model
begin

text \<open>
  Progress projection and queue order: \<^verbatim>\<open>internal/room/project.go\<close>, and from
  \<^verbatim>\<open>internal/room/hub.go\<close> the functions \<open>projectState\<close>, \<open>resolveControlDuration\<close> and
  \<open>nextInQueue\<close>.  The clock reading is an argument.
\<close>

section \<open>project.go\<close>

fun indexOf_from :: "int \<Rightarrow> string list \<Rightarrow> string \<Rightarrow> int" where
  "indexOf_from i [] v = - 1"
| "indexOf_from i (s # slice) v = (if s = v then i else indexOf_from (i + 1) slice v)"

definition indexOf :: "string list \<Rightarrow> string \<Rightarrow> int" where
  "indexOf slice v = indexOf_from 0 slice v"

definition clampPos :: "float64 \<Rightarrow> float64 \<Rightarrow> float64" where
  "clampPos pos dur = (if pos < 0 then 0 else if dur > 0 \<and> pos > dur then dur else pos)"

definition ProjectedPlayback :: "RoomState option \<Rightarrow> gotime \<Rightarrow> float64 \<Rightarrow> float64 \<times> bool" where
  "ProjectedPlayback st now dur =
     (case st of
        None \<Rightarrow> (0, False)
      | Some state \<Rightarrow>
          if rs_Action state \<noteq> PlaybackActionPlay then (clampPos (rs_Position state) dur, False)
          else
            let elapsed0 = Seconds (Sub now (rs_UpdatedAt state));
                elapsed = (if elapsed0 < 0 then 0 else elapsed0);
                pos = rnd64 (rs_Position state + elapsed)
            in if dur > 0 \<and> pos \<ge> dur then (dur, True) else (clampPos pos dur, False))"

definition NextVideoAfterEnd :: "string \<Rightarrow> string list \<Rightarrow> PlaybackMode \<Rightarrow> string \<times> bool" where
  "NextVideoAfterEnd current queue mode =
     (if length queue = 0 then ([], False)
      else
        let idx = indexOf queue current in
        if idx < 0 then ([], False)
        else if mode = PlaybackModeLoop then
          (let next0 = idx + 1; next = (if next0 \<ge> int (length queue) then 0 else next0)
           in (queue ! nat next, True))
        else if idx + 1 \<ge> int (length queue) then ([], False)
        else (queue ! nat (idx + 1), True))"

section \<open>hub.go: projection and queue order\<close>

definition projectState :: "gotime \<Rightarrow> RoomState option \<Rightarrow> RoomState option" where
  "projectState now b =
     (case b of
        None \<Rightarrow> None
      | Some base \<Rightarrow>
          let duration = rs_VideoDuration base;
              (pos, atEnd) = ProjectedPlayback (Some base) now duration;
              out = base\<lparr>rs_Position := pos, rs_UpdatedAt := now,
                rs_BaseUpdatedAt := rs_UpdatedAt base\<rparr>
          in if atEnd \<and> duration > 0 then
               (let mode = (if rs_PlaybackMode out = [] then PlaybackModeSequential
                            else rs_PlaybackMode out);
                    (nextID, ok) = NextVideoAfterEnd (rs_VideoID base) (rs_Queue out) mode
                in if ok then
                     Some (out\<lparr>rs_VideoID := nextID, rs_Position := 0,
                       rs_Action := PlaybackActionPause, rs_VideoDuration := 0\<rparr>)
                   else Some (out\<lparr>rs_Action := PlaybackActionPause, rs_Position := duration\<rparr>))
             else Some out)"

definition nextInQueue :: "string \<Rightarrow> string list \<Rightarrow> PlaybackMode \<Rightarrow> string \<times> bool" where
  "nextInQueue current queue mode =
     (if length queue = 0 then ([], False)
      else
        let idx = indexOf queue current in
        if idx < 0 then (queue ! 0, True)
        else if mode = PlaybackModeLoop then
          (let next0 = idx + 1; next = (if next0 \<ge> int (length queue) then 0 else next0)
           in (queue ! nat next, True))
        else if idx + 1 \<ge> int (length queue) then ([], False)
        else (queue ! nat (idx + 1), True))"

section \<open>indexOf\<close>

lemma indexOf_from_absent: "v \<notin> set slice \<Longrightarrow> indexOf_from i slice v = - 1"
  by (induction slice arbitrary: i) auto

lemma indexOf_from_nth:
  "k < length slice \<Longrightarrow> slice ! k = v \<Longrightarrow> (\<And>j. j < k \<Longrightarrow> slice ! j \<noteq> v) \<Longrightarrow>
    indexOf_from i slice v = i + int k"
proof (induction slice arbitrary: i k)
  case (Cons s slice)
  show ?case
  proof (cases k)
    case 0
    with Cons.prems show ?thesis by simp
  next
    case (Suc m)
    have "s \<noteq> v" using Cons.prems(3) [of 0] Suc by simp
    moreover have "indexOf_from (i + 1) slice v = (i + 1) + int m"
      using Cons.prems Suc by (intro Cons.IH) force+
    ultimately show ?thesis using Suc by simp
  qed
qed simp

lemma indexOf_absent: "v \<notin> set slice \<Longrightarrow> indexOf slice v = - 1"
  by (simp add: indexOf_def indexOf_from_absent)

lemma indexOf_first:
  assumes "v \<in> set slice"
  obtains k where "indexOf slice v = int k" "k < length slice" "slice ! k = v"
proof -
  from assms obtain ys zs where yz: "slice = ys @ v # zs" "v \<notin> set ys"
    by (meson split_list_first)
  have "indexOf_from 0 slice v = 0 + int (length ys)"
    using yz by (intro indexOf_from_nth) (auto simp: nth_append)
  with yz show thesis by (intro that [of "length ys"]) (auto simp: indexOf_def)
qed

lemma indexOf_distinct:
  assumes "distinct queue" and "i < length queue"
  shows "indexOf queue (queue ! i) = int i"
  using assms by (simp add: indexOf_def indexOf_from_nth nth_eq_iff_index_eq)

section \<open>Projection of the position\<close>

definition elapsed_seconds :: "RoomState \<Rightarrow> gotime \<Rightarrow> float64" where
  "elapsed_seconds st now = max 0 (Seconds (Sub now (rs_UpdatedAt st)))"

lemma ProjectedPlayback_play:
  assumes "rs_Action st = PlaybackActionPlay"
  shows "ProjectedPlayback (Some st) now dur =
    (let pos = rnd64 (rs_Position st + elapsed_seconds st now)
     in if 0 < dur \<and> dur \<le> pos then (dur, True) else (clampPos pos dur, False))"
proof -
  have "(if e < 0 then 0 else e) = max 0 e" for e :: float64 by (simp add: max_def)
  with assms show ?thesis by (simp add: ProjectedPlayback_def elapsed_seconds_def Let_def)
qed

lemma ProjectedPlayback_idle:
  "rs_Action st \<noteq> PlaybackActionPlay \<Longrightarrow>
    ProjectedPlayback (Some st) now dur = (clampPos (rs_Position st) dur, False)"
  by (simp add: ProjectedPlayback_def)

lemma ProjectedPlayback_ended:
  "snd (ProjectedPlayback (Some st) now dur) \<Longrightarrow> rs_Action st = PlaybackActionPlay \<and> 0 < dur"
  by (cases "rs_Action st = PlaybackActionPlay")
    (auto simp: ProjectedPlayback_play ProjectedPlayback_idle Let_def split: if_splits)

lemmas ProjectedPlayback_simps = ProjectedPlayback_play ProjectedPlayback_idle

lemma clampPos_bounds: "0 \<le> clampPos pos dur" "0 < dur \<Longrightarrow> clampPos pos dur \<le> dur"
  by (auto simp: clampPos_def)

lemma clampPos_mono: "pos \<le> pos' \<Longrightarrow> clampPos pos dur \<le> clampPos pos' dur"
  by (auto simp: clampPos_def)

lemma clampPos_idem [simp]: "clampPos (clampPos pos dur) dur = clampPos pos dur"
  by (auto simp: clampPos_def)

lemma elapsed_mono: "now \<le> now' \<Longrightarrow> elapsed_seconds st now \<le> elapsed_seconds st now'"
  unfolding elapsed_seconds_def by (intro Seconds_max0_mono Sub_mono is_int64_Sub)

text \<open>A sample state for the witnesses: at position 10 of a playing video of a three-item queue.\<close>

definition sample_now :: gotime where
  "sample_now = 63902000000 * Second"

definition sample_playing :: RoomState where
  "sample_playing = \<lparr>rs_RoomID = ''room-1'', rs_VideoID = ''https://v/a'',
     rs_Queue = [''https://v/a'', ''https://v/b'', ''https://v/c''], rs_QueueMeta = [],
     rs_Action = PlaybackActionPlay, rs_Position = 10, rs_PlaybackMode = PlaybackModeSequential,
     rs_VideoDuration = 30, rs_ControlVersion = 4, rs_UpdatedBy = ''owner'',
     rs_UpdatedAt = sample_now, rs_BaseUpdatedAt = 0\<rparr>"

text \<open>
  C36: The projected position is never negative, never beyond a known duration, and the end flag is
  raised exactly when a playing video has run to its known duration; the position is then the duration.
\<close>
theorem ProjectedPlayback_bounds:
  "case ProjectedPlayback (Some st) now dur of (pos, atEnd) \<Rightarrow>
     0 \<le> pos \<and> (0 < dur \<longrightarrow> pos \<le> dur) \<and>
     (atEnd \<longleftrightarrow> rs_Action st = PlaybackActionPlay \<and> 0 < dur \<and>
        dur \<le> rnd64 (rs_Position st + elapsed_seconds st now)) \<and>
     (atEnd \<longrightarrow> pos = dur)"
  by (cases "rs_Action st = PlaybackActionPlay")
    (auto simp: ProjectedPlayback_simps Let_def clampPos_bounds)

theorem ProjectedPlayback_bounds_witness:
  "case ProjectedPlayback (Some sample_playing) (sample_now + 25 * Second) 30 of (pos, atEnd) \<Rightarrow>
     pos \<le> 30 \<and> atEnd \<and> pos = 30"
proof -
  have "ProjectedPlayback (Some sample_playing) (sample_now + 25 * Second) 30 = (30, True)"
    by code_simp
  then show ?thesis
    using ProjectedPlayback_bounds [where st = sample_playing and
        now = "sample_now + 25 * Second" and dur = 30] by simp
qed

text \<open>
  While nobody touches the controls, the projected position never moves backwards as time passes,
  and a video that has ended stays ended.
\<close>
theorem ProjectedPlayback_mono:
  assumes "now \<le> now'"
  shows "fst (ProjectedPlayback (Some st) now dur) \<le> fst (ProjectedPlayback (Some st) now' dur) \<and>
    (snd (ProjectedPlayback (Some st) now dur) \<longrightarrow> snd (ProjectedPlayback (Some st) now' dur))"
proof -
  have "rnd64 (rs_Position st + elapsed_seconds st now) \<le> rnd64 (rs_Position st + elapsed_seconds st now')"
    using elapsed_mono [OF assms] by (intro rnd64_mono) simp
  then show ?thesis
    by (cases "rs_Action st = PlaybackActionPlay")
      (auto simp: ProjectedPlayback_simps Let_def clampPos_mono clampPos_bounds)
qed

theorem ProjectedPlayback_mono_witness:
  "fst (ProjectedPlayback (Some sample_playing) sample_now 30)
     \<le> fst (ProjectedPlayback (Some sample_playing) (sample_now + 7 * Second) 30)"
  using ProjectedPlayback_mono [where now = sample_now and now' = "sample_now + 7 * Second" and
      st = sample_playing and dur = 30]
  by (simp add: Second_def)

text \<open>
  For a position of whole seconds the projection is exact: \<open>k\<close> seconds after the control was
  written, a playing video with no known end within reach stands at the written position plus \<open>k\<close>.
\<close>
theorem ProjectedPlayback_exact:
  assumes "rs_Action st = PlaybackActionPlay" and "rs_Position st = of_int p"
    and "now = rs_UpdatedAt st + k * Second" and "0 \<le> p" and "0 \<le> k" and "is_int64 (k * Second)"
    and "p + k < 2 ^ 53" and "dur \<le> 0 \<or> of_int (p + k) < dur"
  shows "ProjectedPlayback (Some st) now dur = (of_int (p + k), False)"
proof -
  have "Sub now (rs_UpdatedAt st) = k * Second"
    using assms(3,6) by (simp add: Sub_def is_int64_def)
  then have "elapsed_seconds st now = of_int k"
    using assms(5,6) Seconds_whole [of k] by (simp add: elapsed_seconds_def)
  moreover have "rnd64 (of_int p + of_int k) = (of_int (p + k) :: rat)"
    using rnd64_of_int [of "p + k"] assms(4,5,7) by simp
  moreover have "0 \<le> (of_int (p + k) :: rat)" using assms(4,5) by simp
  ultimately show ?thesis
    using assms(1,2,8) by (auto simp: ProjectedPlayback_play Let_def clampPos_def)
qed

theorem ProjectedPlayback_exact_witness:
  "ProjectedPlayback (Some sample_playing) (sample_now + 7 * Second) 30 = (of_int (10 + 7), False)"
  by (rule ProjectedPlayback_exact)
    (simp_all add: sample_playing_def is_int64_def minInt64_def maxInt64_def Second_def)

section \<open>Queue order\<close>

text \<open>\<open>advance mode queue n v\<close> presses "next" \<open>n\<close> times from video \<open>v\<close>.\<close>

fun advance :: "PlaybackMode \<Rightarrow> string list \<Rightarrow> nat \<Rightarrow> string \<Rightarrow> string option" where
  "advance mode queue 0 v = Some v"
| "advance mode queue (Suc n) v =
     (case nextInQueue v queue mode of (u, ok) \<Rightarrow> if ok then advance mode queue n u else None)"

lemma nextInQueue_nth:
  assumes "distinct queue" and "i < length queue"
  shows "nextInQueue (queue ! i) queue mode =
    (if mode = PlaybackModeLoop then (queue ! (Suc i mod length queue), True)
     else if Suc i < length queue then (queue ! Suc i, True) else ([], False))"
proof -
  have "nat (int i + 1) = Suc i" by simp
  moreover have "Suc i mod length queue = (if Suc i < length queue then Suc i else 0)"
    using assms(2) by (metis less_Suc_eq mod_less mod_self not_less_eq)
  ultimately show ?thesis
    using assms by (auto simp: nextInQueue_def indexOf_distinct Let_def)
qed

text \<open>
  In a queue without repetitions, loop mode runs through the queue cyclically and for ever, and
  every other mode runs to the last video and then stops: pressing "next" \<open>n\<close> times from item \<open>i\<close>
  leads to item \<open>(i + n) mod length\<close>, and to item \<open>i + n\<close> as long as there is one.
\<close>
theorem advance_nth:
  assumes "distinct queue" and "i < length queue"
  shows "advance PlaybackModeLoop queue n (queue ! i) = Some (queue ! ((i + n) mod length queue)) \<and>
    (mode \<noteq> PlaybackModeLoop \<longrightarrow>
       advance mode queue n (queue ! i) = (if i + n < length queue then Some (queue ! (i + n)) else None))"
proof -
  have loop: "advance PlaybackModeLoop queue n (queue ! j) = Some (queue ! ((j + n) mod length queue))"
    if "j < length queue" for j
    using that
  proof (induction n arbitrary: j)
    case (Suc n)
    have "Suc j mod length queue < length queue" using Suc.prems by (intro mod_less_divisor) auto
    from Suc.IH [OF this] Suc.prems show ?case
      by (simp add: nextInQueue_nth [OF assms(1)] mod_simps)
  qed simp
  have seq: "advance mode queue n (queue ! j) = (if j + n < length queue then Some (queue ! (j + n)) else None)"
    if "j < length queue" "mode \<noteq> PlaybackModeLoop" for j
    using that(1)
  proof (induction n arbitrary: j)
    case (Suc n)
    with that(2) show ?case by (auto simp: nextInQueue_nth [OF assms(1)])
  qed simp
  from loop [OF assms(2)] seq [OF assms(2)] show ?thesis by simp
qed

theorem advance_nth_witness:
  "advance PlaybackModeLoop [''a'', ''b'', ''c''] 4 ''b'' = Some ''c'' \<and>
   advance PlaybackModeSequential [''a'', ''b'', ''c''] 2 ''b'' = None"
  using advance_nth [of "[''a'', ''b'', ''c'']" 1 4 PlaybackModeSequential]
    advance_nth [of "[''a'', ''b'', ''c'']" 1 2 PlaybackModeSequential] by simp

text \<open>
  C37: The two definitions of the successor agree on every video of the queue; off the queue, the
  control path starts the queue from its head while the projection reports no successor.
\<close>
theorem nextInQueue_NextVideoAfterEnd:
  "nextInQueue current queue mode =
     (if current \<in> set queue \<or> queue = [] then NextVideoAfterEnd current queue mode else (hd queue, True))"
proof (cases "current \<in> set queue")
  case True
  then obtain k where "indexOf queue current = int k" by (rule indexOf_first)
  with True show ?thesis by (simp add: nextInQueue_def NextVideoAfterEnd_def Let_def)
next
  case False
  then show ?thesis
    by (auto simp: nextInQueue_def NextVideoAfterEnd_def indexOf_absent hd_conv_nth)
qed

section \<open>Projection of a room state\<close>

lemma projectState_Some:
  "projectState now (Some base) = Some (
     let pos = fst (ProjectedPlayback (Some base) now (rs_VideoDuration base));
         out = base\<lparr>rs_Position := pos, rs_UpdatedAt := now, rs_BaseUpdatedAt := rs_UpdatedAt base\<rparr>;
         mode = (if rs_PlaybackMode base = [] then PlaybackModeSequential else rs_PlaybackMode base);
         nxt = NextVideoAfterEnd (rs_VideoID base) (rs_Queue base) mode
     in if snd (ProjectedPlayback (Some base) now (rs_VideoDuration base)) then
          (if snd nxt then
             out\<lparr>rs_VideoID := fst nxt, rs_Position := 0, rs_Action := PlaybackActionPause, rs_VideoDuration := 0\<rparr>
           else out\<lparr>rs_Action := PlaybackActionPause, rs_Position := rs_VideoDuration base\<rparr>)
        else out)"
proof -
  have "snd (ProjectedPlayback (Some base) now (rs_VideoDuration base)) \<Longrightarrow> 0 < rs_VideoDuration base"
    by (simp add: ProjectedPlayback_ended)
  then show ?thesis by (auto simp: projectState_def Let_def case_prod_beta)
qed

lemma ProjectedPlayback_running:
  assumes "rs_Action st = PlaybackActionPlay" and "\<not> snd (ProjectedPlayback (Some st) now dur)"
  shows "is_float64 (fst (ProjectedPlayback (Some st) now dur)) \<and>
    (0 < dur \<longrightarrow> fst (ProjectedPlayback (Some st) now dur) < dur)"
  using assms by (auto simp: ProjectedPlayback_play Let_def clampPos_def split: if_splits)

text \<open>
  What a projected state reports: the control fields are those of the stored state, the stored
  write time is kept as the base time, the position lies within a known duration, and a state that
  still plays has not reached the end of its video.
\<close>
theorem projectState_sound:
  assumes "projectState now (Some base) = Some out"
  shows "rs_RoomID out = rs_RoomID base \<and> rs_Queue out = rs_Queue base \<and>
    rs_QueueMeta out = rs_QueueMeta base \<and> rs_PlaybackMode out = rs_PlaybackMode base \<and>
    rs_ControlVersion out = rs_ControlVersion base \<and> rs_UpdatedBy out = rs_UpdatedBy base \<and>
    rs_UpdatedAt out = now \<and> rs_BaseUpdatedAt out = rs_UpdatedAt base \<and>
    0 \<le> rs_Position out \<and>
    (0 < rs_VideoDuration out \<longrightarrow> rs_Position out \<le> rs_VideoDuration out) \<and>
    (rs_Action out = PlaybackActionPlay \<longrightarrow>
       rs_Action base = PlaybackActionPlay \<and> rs_VideoID out = rs_VideoID base \<and>
       (0 < rs_VideoDuration out \<longrightarrow> rs_Position out < rs_VideoDuration out))"
proof -
  define P where "P = ProjectedPlayback (Some base) now (rs_VideoDuration base)"
  have b: "0 \<le> fst P" "0 < rs_VideoDuration base \<Longrightarrow> fst P \<le> rs_VideoDuration base"
    "snd P \<Longrightarrow> 0 < rs_VideoDuration base"
    by (cases "rs_Action base = PlaybackActionPlay";
        auto simp: P_def ProjectedPlayback_simps Let_def clampPos_bounds split: if_splits)+
  have r: "\<not> snd P \<Longrightarrow> rs_Action base = PlaybackActionPlay \<Longrightarrow> 0 < rs_VideoDuration base \<Longrightarrow>
      fst P < rs_VideoDuration base"
    using ProjectedPlayback_running [of base now "rs_VideoDuration base"] by (simp add: P_def)
  show ?thesis
    using assms b r unfolding projectState_Some P_def [symmetric] Let_def
    by (auto split: if_splits)
qed

theorem projectState_sound_witness:
  "\<exists>out. projectState (sample_now + 7 * Second) (Some sample_playing) = Some out \<and>
     rs_Action out = PlaybackActionPlay \<and> rs_Position out < 30 \<and> rs_ControlVersion out = 4"
proof -
  obtain out where out: "projectState (sample_now + 7 * Second) (Some sample_playing) = Some out"
    by (simp add: projectState_Some)
  have "map_option rs_Action (projectState (sample_now + 7 * Second) (Some sample_playing))
      = Some PlaybackActionPlay \<and>
    map_option rs_VideoDuration (projectState (sample_now + 7 * Second) (Some sample_playing)) = Some 30"
    by code_simp
  with out projectState_sound [OF out] show ?thesis
    by (auto simp: sample_playing_def)
qed

text \<open>
  Projecting twice at the same instant changes nothing but the recorded base time, so two
  snapshots taken at one time agree.
\<close>
theorem projectState_idem:
  "projectState now (projectState now b) = map_option (\<lambda>s. s\<lparr>rs_BaseUpdatedAt := now\<rparr>) (projectState now b)"
proof (cases b)
  case None
  then show ?thesis by (simp add: projectState_def)
next
  case (Some base)
  define P where "P = ProjectedPlayback (Some base) now (rs_VideoDuration base)"
  show ?thesis
  proof (cases "snd P")
    case True
    then have "0 < rs_VideoDuration base" "rs_Action base = PlaybackActionPlay"
      using ProjectedPlayback_ended [of base now "rs_VideoDuration base"] by (simp_all add: P_def)
    with True show ?thesis
      unfolding Some projectState_Some P_def [symmetric]
      by (auto simp: Let_def projectState_Some ProjectedPlayback_idle clampPos_def)
  next
    case False
    show ?thesis
    proof (cases "rs_Action base = PlaybackActionPlay")
      case True
      then have f: "is_float64 (fst P)" "0 < rs_VideoDuration base \<Longrightarrow> fst P < rs_VideoDuration base"
        using ProjectedPlayback_running [of base now "rs_VideoDuration base"] False
        by (simp_all add: P_def)
      have "0 \<le> fst P" using True
        by (simp add: P_def ProjectedPlayback_play Let_def clampPos_bounds)
      with f True False show ?thesis
        unfolding Some projectState_Some P_def [symmetric]
        by (auto simp: Let_def projectState_Some ProjectedPlayback_play elapsed_seconds_def
            is_float64_def clampPos_def)
    next
      case idle: False
      then show ?thesis
        unfolding Some projectState_Some
        by (simp add: Let_def projectState_Some ProjectedPlayback_idle)
    qed
  qed
qed

text \<open>
  When a playing video of a queue without repetitions has run out, the projection pauses it: in
  loop mode at the start of the next video, cyclically; in sequential mode (also when no mode was
  stored) at the start of the next video if there is one, and else at the end of the last video.
\<close>
theorem projectState_at_end:
  assumes "rs_Action base = PlaybackActionPlay" and "0 < rs_VideoDuration base"
    and "rs_VideoDuration base \<le> rnd64 (rs_Position base + elapsed_seconds base now)"
    and "distinct (rs_Queue base)" and "i < length (rs_Queue base)"
    and "rs_VideoID base = rs_Queue base ! i"
  shows "\<exists>out. projectState now (Some base) = Some out \<and> rs_Action out = PlaybackActionPause \<and>
    (let n = length (rs_Queue base) in
     if rs_PlaybackMode base = PlaybackModeLoop \<or> Suc i < n
     then rs_VideoID out = rs_Queue base ! (Suc i mod n) \<and> rs_Position out = 0 \<and> rs_VideoDuration out = 0
     else rs_VideoID out = rs_VideoID base \<and> rs_Position out = rs_VideoDuration base)"
proof -
  have "snd (ProjectedPlayback (Some base) now (rs_VideoDuration base))"
    using assms(1-3) by (simp add: ProjectedPlayback_play Let_def)
  moreover have "NextVideoAfterEnd (rs_VideoID base) (rs_Queue base) mode =
      nextInQueue (rs_Queue base ! i) (rs_Queue base) mode" for mode
    using assms(5,6) indexOf_distinct [OF assms(4,5)]
    by (auto simp: NextVideoAfterEnd_def nextInQueue_def Let_def)
  ultimately show ?thesis
    unfolding projectState_Some
    by (auto simp: Let_def nextInQueue_nth [OF assms(4,5)])
qed

theorem projectState_at_end_witness:
  "\<exists>out. projectState (sample_now + 25 * Second) (Some sample_playing) = Some out \<and>
     rs_Action out = PlaybackActionPause \<and> rs_VideoID out = ''https://v/b'' \<and> rs_Position out = 0"
proof -
  have "rs_VideoDuration sample_playing \<le>
      rnd64 (rs_Position sample_playing + elapsed_seconds sample_playing (sample_now + 25 * Second))"
    by code_simp
  then show ?thesis
    using projectState_at_end [of sample_playing "sample_now + 25 * Second" 0]
    by (simp add: sample_playing_def Let_def) blast
qed

section \<open>Duration carried over by a control\<close>

definition resolveControlDuration :: "float64 \<Rightarrow> RoomState option \<Rightarrow> string \<Rightarrow> float64" where
  "resolveControlDuration msgDuration prev videoID =
     (if msgDuration > 0 then msgDuration
      else case prev of
        None \<Rightarrow> 0
      | Some p \<Rightarrow>
          if videoID \<noteq> [] \<and> videoID = rs_VideoID p \<and> rs_VideoDuration p > 0
          then rs_VideoDuration p else 0)"

lemma resolveControlDuration_nonneg [simp]: "0 \<le> resolveControlDuration d prev videoID"
  by (simp add: resolveControlDuration_def split: option.split)

end
