(* ===== verification/Room_Service.thy ===== *)
theory Room_Service
  imports Room_Chat Playback
begin

text \<open>
  The room service, \<^verbatim>\<open>internal/room/hub.go\<close>: snapshots, joining and leaving, playback controls, closing
  a room, and the cleanup of empty rooms.  Every operation is a program over the backends of a \<open>Service\<close>; a
  result with an error next to it is a pair, as in the source, where both parts are used.  The log lines of
  the cleanup are left out.
\<close>

section \<open>Snapshots and membership\<close>

record Snapshot =
  sn_RoomID :: string
  sn_State :: "RoomState option"
  sn_Queue :: "string list"
  sn_ViewerCount :: int

definition memberCount :: "'w Service \<Rightarrow> string \<Rightarrow> ('w, int) io" where
  "memberCount s roomID =
     (case sv_presence s of
        None \<Rightarrow> State_Monad.return 0
      | Some p \<Rightarrow> do {
          r \<leftarrow> MemberCount p roomID;
          State_Monad.return (case r of Inl _ \<Rightarrow> 0 | Inr n \<Rightarrow> n)
        })"

definition ProjectedRoomState :: "'w Service \<Rightarrow> string \<Rightarrow> ('w, error + RoomState) io" where
  "ProjectedRoomState s roomID = do {
     r \<leftarrow> GetRoomState (sv_states s) roomID;
     case r of
       Inl err \<Rightarrow> State_Monad.return (Inl err)
     | Inr state \<Rightarrow> do {
         now \<leftarrow> sv_now s;
         State_Monad.return (Inr (the (projectState now (Some state))))
       }
   }"

definition TakeSnapshot :: "'w Service \<Rightarrow> string \<Rightarrow> ('w, Snapshot) io" where
  "TakeSnapshot s roomID = do {
     r \<leftarrow> ProjectedRoomState s roomID;
     n \<leftarrow> memberCount s roomID;
     State_Monad.return
       (case r of
          Inl _ \<Rightarrow> \<lparr>sn_RoomID = roomID, sn_State = None, sn_Queue = [], sn_ViewerCount = n\<rparr>
        | Inr state \<Rightarrow>
            \<lparr>sn_RoomID = roomID, sn_State = Some state,
             sn_Queue = (if length (rs_Queue state) = 0 \<and> rs_VideoID state \<noteq> [] then [rs_VideoID state]
                         else rs_Queue state),
             sn_ViewerCount = n\<rparr>)
   }"

definition Join :: "'w Service \<Rightarrow> string \<Rightarrow> HubUser \<Rightarrow> ('w, error + string) io" where
  "Join s roomID user =
     (case sv_presence s of
        None \<Rightarrow> State_Monad.return (Inr [])
      | Some p \<Rightarrow> JoinRoom p roomID (hu_ID user) (hu_Username user))"

definition Leave :: "'w Service \<Rightarrow> string \<Rightarrow> string \<Rightarrow> ('w, error option) io" where
  "Leave s roomID userID =
     (case sv_presence s of
        None \<Rightarrow> State_Monad.return None
      | Some p \<Rightarrow> LeaveRoom p roomID userID)"

section \<open>Playback controls\<close>

record ControlInput =
  ci_Action :: PlaybackAction
  ci_Position :: float64
  ci_VideoID :: string
  ci_Queue :: "string list"
  ci_PlaybackMode :: PlaybackMode
  ci_ClientVersion :: int
  ci_VideoDuration :: float64

text \<open>
  The part of \<open>ApplyControl\<close> between reading the previous state and writing the new one: the state that a
  control leads to.
\<close>

definition control_mode :: "ControlInput \<Rightarrow> RoomState option \<Rightarrow> PlaybackMode" where
  "control_mode msg prev =
     (let mode = (case prev of
                    Some p \<Rightarrow> if rs_PlaybackMode p \<noteq> [] then rs_PlaybackMode p else PlaybackModeSequential
                  | None \<Rightarrow> PlaybackModeSequential)
      in if ci_PlaybackMode msg = PlaybackModeSequential \<or> ci_PlaybackMode msg = PlaybackModeLoop
         then ci_PlaybackMode msg else mode)"

text \<open>The \<open>switch\<close> on the action: queue, video, position and action after it.\<close>

definition control_switch ::
  "ControlInput \<Rightarrow> RoomState option \<Rightarrow> string list \<times> string \<times> float64 \<times> PlaybackAction" where
  "control_switch msg prev =
     (let queue0 = ci_Queue msg;
          videoID0 = TrimSpace (ci_VideoID msg);
          mode = control_mode msg prev
      in if ci_Action msg = PlaybackActionNext then
           (let baseVID = (if videoID0 = [] then (case prev of Some p \<Rightarrow> rs_VideoID p | None \<Rightarrow> videoID0) else videoID0);
                queue = (if length queue0 = 0 then (case prev of Some p \<Rightarrow> queue0 @ rs_Queue p | None \<Rightarrow> queue0) else queue0);
                (nextID, ok) = nextInQueue baseVID queue mode
            in if ok then (queue, nextID, 0, PlaybackActionPause)
               else (queue, videoID0, ci_Position msg, ci_Action msg))
         else if ci_Action msg = PlaybackActionSwitch then
           (queue0, if videoID0 = [] \<and> length queue0 > 0 then queue0 ! 0 else videoID0, ci_Position msg, ci_Action msg)
         else (queue0, videoID0, ci_Position msg, ci_Action msg))"

definition control_state ::
  "string \<Rightarrow> HubUser \<Rightarrow> ControlInput \<Rightarrow> RoomState option \<Rightarrow> gotime \<Rightarrow> RoomState" where
  "control_state roomID user msg prev now =
     (let (queue1, videoID, position, action) = control_switch msg prev;
          queue = (if length queue1 = 0 \<and> videoID \<noteq> [] then [videoID] else queue1);
          cv = (case prev of Some p \<Rightarrow> wrap64 (rs_ControlVersion p + 1) | None \<Rightarrow> 1);
          duration = resolveControlDuration (ci_VideoDuration msg) prev videoID
      in \<lparr>rs_RoomID = roomID, rs_VideoID = videoID, rs_Queue = queue, rs_QueueMeta = [], rs_Action = action,
          rs_Position = position, rs_PlaybackMode = control_mode msg prev, rs_VideoDuration = duration,
          rs_ControlVersion = cv, rs_UpdatedBy = hu_ID user, rs_UpdatedAt = now, rs_BaseUpdatedAt = 0\<rparr>)"

definition sync_message :: "HubUser \<Rightarrow> RoomState \<Rightarrow> Message" where
  "sync_message user state =
     Message0\<lparr>ms_Type := ''sync'', ms_Action := rs_Action state, ms_Position := rs_Position state,
       ms_VideoID := rs_VideoID state, ms_Queue := rs_Queue state, ms_Timestamp := Unix (rs_UpdatedAt state),
       ms_ControlVersion := rs_ControlVersion state, ms_PlaybackMode := rs_PlaybackMode state,
       ms_UpdatedAt := Unix (rs_UpdatedAt state), ms_User := Some user\<rparr>"

definition may_control :: "HubUser \<Rightarrow> bool" where
  "may_control user \<longleftrightarrow> hu_Role user = UserRoleAdmin \<or> hu_IsOwner user"

definition stale :: "ControlInput \<Rightarrow> RoomState option \<Rightarrow> bool" where
  "stale msg prev \<longleftrightarrow>
     (case prev of
        None \<Rightarrow> False
      | Some p \<Rightarrow> ci_ClientVersion msg > 0 \<and> ci_ClientVersion msg < rs_ControlVersion p)"

text \<open>An error other than \<open>store.ErrNotFound\<close>.\<close>

definition read_error :: "error + 'a \<Rightarrow> error option" where
  "read_error r = (case r of Inl err \<Rightarrow> if err \<noteq> ErrNotFound then Some err else None | Inr _ \<Rightarrow> None)"

definition ApplyControl ::
  "'w Service \<Rightarrow> string \<Rightarrow> HubUser \<Rightarrow> ControlInput \<Rightarrow> ('w, Message \<times> error option) io" where
  "ApplyControl s roomID user msg =
     (if \<not> may_control user then State_Monad.return (Message0, Some ErrForbidden)
      else do {
        now \<leftarrow> sv_now s;
        r \<leftarrow> GetRoomState (sv_states s) roomID;
        case read_error r of
          Some err \<Rightarrow> State_Monad.return (Message0, Some err)
        | None \<Rightarrow>
          let prev = (case r of Inl _ \<Rightarrow> None | Inr p \<Rightarrow> Some p) in
          if stale msg prev then State_Monad.return (Message0, Some ErrStaleControl)
          else
            let state = control_state roomID user msg prev now in do {
              e \<leftarrow> SetRoomState (sv_states s) roomID state;
              case e of
                Some err \<Rightarrow> State_Monad.return (Message0, Some err)
              | None \<Rightarrow>
                  (case sv_publisher s of
                     None \<Rightarrow> State_Monad.return (sync_message user state, None)
                   | Some pub \<Rightarrow> do {
                       pe \<leftarrow> PublishRoomMessage pub roomID ''room.sync'' (PubMessage (sync_message user state));
                       State_Monad.return (sync_message user state, pe)
                     })
            }
      })"

section \<open>Closing rooms\<close>

definition PublishRoomEvent ::
  "'w Service \<Rightarrow> string \<Rightarrow> string \<Rightarrow> HubUser option \<Rightarrow> ('w, error option) io" where
  "PublishRoomEvent s roomID event user =
     (case sv_publisher s of
        None \<Rightarrow> State_Monad.return None
      | Some pub \<Rightarrow>
          PublishRoomMessage pub roomID ''room.event''
            (PubMessage (Message0\<lparr>ms_Type := ''room_event'', ms_Event := event, ms_User := user\<rparr>)))"

text \<open>The three best-effort deletions that closing a room has in common.\<close>

definition drop_presence :: "'w Service \<Rightarrow> string \<Rightarrow> ('w, unit) io" where
  "drop_presence s roomID =
     (case sv_presence s of
        None \<Rightarrow> State_Monad.return ()
      | Some p \<Rightarrow> do { _ \<leftarrow> DeleteRoomPresence p roomID; State_Monad.return () })"

definition drop_access :: "'w Service \<Rightarrow> string \<Rightarrow> ('w, unit) io" where
  "drop_access s roomID =
     (case sv_roomAccess s of
        None \<Rightarrow> State_Monad.return ()
      | Some c \<Rightarrow> do { _ \<leftarrow> DeleteRoomAccess c roomID; State_Monad.return () })"

definition CloseRoom :: "'w Service \<Rightarrow> string \<Rightarrow> HubUser option \<Rightarrow> ('w, error option) io" where
  "CloseRoom s roomID user = do {
     e \<leftarrow> DeleteRoomState (sv_states s) roomID;
     case e of
       Some err \<Rightarrow> State_Monad.return (Some err)
     | None \<Rightarrow> do {
         _ \<leftarrow> drop_presence s roomID;
         _ \<leftarrow> drop_access s roomID;
         _ \<leftarrow> deleteRoomChat s roomID;
         PublishRoomEvent s roomID ''room_closed'' user
       }
   }"

definition Destroy :: "'w Service \<Rightarrow> string \<Rightarrow> HubUser option \<Rightarrow> ('w, error option) io" where
  "Destroy s roomID user = CloseRoom s roomID user"

definition KickMember :: "'w Service \<Rightarrow> string \<Rightarrow> string \<Rightarrow> HubUser option \<Rightarrow> ('w, error option) io" where
  "KickMember s roomID targetUserID actor = do {
     e \<leftarrow> (case sv_presence s of
             None \<Rightarrow> State_Monad.return None
           | Some p \<Rightarrow> RemoveMember p roomID targetUserID);
     case e of
       Some err \<Rightarrow> State_Monad.return (Some err)
     | None \<Rightarrow> PublishRoomEvent s roomID ''user_kicked'' (Some (HubUser0\<lparr>hu_ID := targetUserID\<rparr>))
   }"

definition closeEmptyRoom :: "'w Service \<Rightarrow> 'w RoomStore \<Rightarrow> string \<Rightarrow> ('w, error option) io" where
  "closeEmptyRoom s rooms roomID = do {
     e \<leftarrow> RoomStore_Delete rooms roomID;
     if e \<noteq> None \<and> e \<noteq> Some ErrNotFound then State_Monad.return e
     else do {
       _ \<leftarrow> DeleteRoomState (sv_states s) roomID;
       _ \<leftarrow> drop_presence s roomID;
       _ \<leftarrow> drop_access s roomID;
       _ \<leftarrow> deleteRoomChat s roomID;
       PublishRoomEvent s roomID ''room_closed'' None
     }
   }"

section \<open>Cleanup of empty rooms\<close>

fun merge_part :: "string list \<Rightarrow> string list \<Rightarrow> string list \<Rightarrow> string list \<times> string list" where
  "merge_part seen out [] = (seen, out)"
| "merge_part seen out (id0 # part) =
     (let i = TrimSpace id0 in
      if i = [] then merge_part seen out part
      else if i \<in> set seen then merge_part seen out part
      else merge_part (i # seen) (out @ [i]) part)"

fun merge_parts :: "string list \<Rightarrow> string list \<Rightarrow> string list list \<Rightarrow> string list" where
  "merge_parts seen out [] = out"
| "merge_parts seen out (part # parts) =
     (case merge_part seen out part of (seen', out') \<Rightarrow> merge_parts seen' out' parts)"

definition mergeUniqueRoomIDs :: "string list list \<Rightarrow> string list" where
  "mergeUniqueRoomIDs parts = merge_parts [] [] parts"

text \<open>The loop over the candidates; it stops at the first room that cannot be closed.\<close>

fun cleanup_rooms ::
  "'w Service \<Rightarrow> 'w RoomPresence \<Rightarrow> 'w RoomStore \<Rightarrow> string list \<Rightarrow> ('w, error option) io" where
  "cleanup_rooms s p rooms [] = State_Monad.return None"
| "cleanup_rooms s p rooms (roomID # candidates) = do {
     r \<leftarrow> MemberCount p roomID;
     case r of
       Inl _ \<Rightarrow> cleanup_rooms s p rooms candidates
     | Inr n \<Rightarrow>
         if n \<noteq> 0 then do {
           _ \<leftarrow> ClearPendingEmpty p roomID;
           cleanup_rooms s p rooms candidates
         }
         else do {
           e \<leftarrow> closeEmptyRoom s rooms roomID;
           case e of
             Some err \<Rightarrow> State_Monad.return (Some err)
           | None \<Rightarrow> do {
               _ \<leftarrow> ClearPendingEmpty p roomID;
               cleanup_rooms s p rooms candidates
             }
         }
   }"

definition RunEmptyRoomCleanup :: "'w Service \<Rightarrow> ('w, error option) io" where
  "RunEmptyRoomCleanup s =
     (case sv_presence s of
        None \<Rightarrow> State_Monad.return None
      | Some p \<Rightarrow>
     (case sv_rooms s of
        None \<Rightarrow> State_Monad.return None
      | Some rooms \<Rightarrow> do {
          pr \<leftarrow> PendingEmptyRooms p;
          case pr of
            Inl err \<Rightarrow> State_Monad.return (Some err)
          | Inr pending \<Rightarrow> do {
          ar \<leftarrow> ListRoomsWithMembers p;
          case ar of
            Inl err \<Rightarrow> State_Monad.return (Some err)
          | Inr active \<Rightarrow> do {
          lr \<leftarrow> RoomStore_List rooms \<lparr>lo_Limit = 500, lo_Offset = 0, lo_Query = [], lo_OwnerID = []\<rparr>;
          case lr of
            Inl err \<Rightarrow> State_Monad.return (Some err)
          | Inr (dbRooms, count) \<Rightarrow> do {
              now \<leftarrow> sv_now s;
              cleanup_rooms s p rooms (mergeUniqueRoomIDs [pending, active, map rm_ID dbRooms])
            } } } }))"

definition loginCleanupInterval :: duration where
  "loginCleanupInterval = 5 * Minute"

text \<open>The result \<open>None\<close> says that the chat scan did not end within the fuel.\<close>

definition cleanup_locked :: "nat \<Rightarrow> 'w Service \<Rightarrow> 'w RoomPresence \<Rightarrow> ('w, error option option) io" where
  "cleanup_locked fuel s p = do {
     e \<leftarrow> RunEmptyRoomCleanup s;
     case e of
       Some err \<Rightarrow> State_Monad.return (Some (Some err))
     | None \<Rightarrow> do {
         c \<leftarrow> ProcessGlobalChatPending fuel s;
         case c of
           None \<Rightarrow> State_Monad.return None
         | Some _ \<Rightarrow> do {
             now \<leftarrow> sv_now s;
             e2 \<leftarrow> SetLastRoomCleanupAt p now;
             State_Monad.return (Some e2)
           }
       }
   }"

definition MaybeRunGlobalCleanup :: "nat \<Rightarrow> 'w Service \<Rightarrow> ('w, error option option) io" where
  "MaybeRunGlobalCleanup fuel s =
     (case sv_presence s of
        None \<Rightarrow> State_Monad.return (Some None)
      | Some p \<Rightarrow>
     (case sv_rooms s of
        None \<Rightarrow> State_Monad.return (Some None)
      | Some rooms \<Rightarrow> do {
          lr \<leftarrow> GetLastRoomCleanupAt p;
          case lr of
            Inl err \<Rightarrow> State_Monad.return (Some (Some err))
          | Inr lst \<Rightarrow> do {
          early \<leftarrow> (if IsZero lst then State_Monad.return False
                    else do { now \<leftarrow> sv_now s; State_Monad.return (Sub now lst < loginCleanupInterval) });
          if early then State_Monad.return (Some None)
          else do {
          lk \<leftarrow> TryAcquireCleanupLock p (2 * Minute);
          case lk of
            Inl err \<Rightarrow> State_Monad.return (Some (Some err))
          | Inr ok \<Rightarrow>
              if \<not> ok then State_Monad.return (Some None)
              else do {
                age \<leftarrow> (if IsZero lst then State_Monad.return 0 else sv_now s);
                res \<leftarrow> cleanup_locked fuel s p;
                case res of
                  None \<Rightarrow> State_Monad.return None
                | Some e \<Rightarrow> do {
                    _ \<leftarrow> ReleaseCleanupLock p;
                    State_Monad.return (Some e)
                  }
              } } } }))"

definition EnrichRoomFromCache :: "'w Service \<Rightarrow> Room option \<Rightarrow> ('w, Room option) io" where
  "EnrichRoomFromCache s room =
     (case room of
        None \<Rightarrow> State_Monad.return None
      | Some rm \<Rightarrow> do {
          r \<leftarrow> GetRoomState (sv_states s) (rm_ID rm);
          State_Monad.return
            (Some (case r of
               Inl _ \<Rightarrow> rm
             | Inr st \<Rightarrow> if rs_VideoID st \<noteq> [] then rm\<lparr>rm_CurrentVideo := rs_VideoID st\<rparr> else rm))
        })"

section \<open>Merging candidate lists\<close>

definition trimmed_ids :: "string list list \<Rightarrow> string list" where
  "trimmed_ids parts = filter (\<lambda>i. i \<noteq> []) (map TrimSpace (concat parts))"

definition add_new :: "string \<Rightarrow> string list \<Rightarrow> string list" where
  "add_new i out = (if i \<in> set out then out else out @ [i])"

lemma fold_add_new: "fold add_new xs [] = rev (remdups (rev xs))"
  by (induction xs rule: rev_induct) (simp_all add: add_new_def)

lemma merge_part_fold:
  assumes "set seen = set out"
  shows "case merge_part seen out part of (seen', out') \<Rightarrow>
    set seen' = set out' \<and> out' = fold add_new (trimmed_ids [part]) out"
  using assms
  by (induction seen out part rule: merge_part.induct)
    (auto simp: trimmed_ids_def add_new_def Let_def split: prod.splits)

lemma merge_parts_fold:
  assumes "set seen = set out"
  shows "merge_parts seen out parts = fold add_new (trimmed_ids parts) out"
  using assms
proof (induction seen out parts rule: merge_parts.induct)
  case (2 seen out part parts)
  obtain seen' out' where m: "merge_part seen out part = (seen', out')" by (cases "merge_part seen out part") blast
  with merge_part_fold [OF 2(2), of part] 2(1) [OF m [symmetric]] show ?case
    by (simp add: trimmed_ids_def)
qed (simp add: trimmed_ids_def)

text \<open>
  The candidates of the cleanup are the trimmed identifiers of the given lists in the order of their
  first occurrence, without the empty one and without repetitions.
\<close>

theorem mergeUniqueRoomIDs_spec:
  "mergeUniqueRoomIDs parts = rev (remdups (rev (trimmed_ids parts))) \<and>
   distinct (mergeUniqueRoomIDs parts) \<and> set (mergeUniqueRoomIDs parts) = set (trimmed_ids parts)"
  using merge_parts_fold [of "[]" "[]" parts] by (simp add: mergeUniqueRoomIDs_def fold_add_new)

lemma set_mergeUniqueRoomIDs: "set (mergeUniqueRoomIDs parts) = TrimSpace ` \<Union> (set ` set parts) - {[]}"
  and distinct_mergeUniqueRoomIDs: "distinct (mergeUniqueRoomIDs parts)"
  using merge_parts_fold [of "[]" "[]" parts]
  by (auto simp: mergeUniqueRoomIDs_def fold_add_new trimmed_ids_def)

section \<open>The service against the contracts\<close>

definition backed_by ::
  "'w Service \<Rightarrow> 'w RoomStateCache \<Rightarrow> 'w RoomPresence \<Rightarrow> 'w RoomAccessCache \<Rightarrow> 'w RoomStore \<Rightarrow>
   'w Publisher \<Rightarrow> ('w, gotime) io \<Rightarrow> 'w RoomChat option \<Rightarrow> bool" where
  "backed_by s sc pr acc rst pub clk ch \<longleftrightarrow>
     sv_states s = sc \<and> sv_presence s = Some pr \<and> sv_rooms s = Some rst \<and> sv_roomAccess s = Some acc \<and>
     sv_publisher s = Some pub \<and> sv_now s = clk \<and> sv_roomChat s = ch"

definition published :: "error option \<Rightarrow> string \<Rightarrow> string \<Rightarrow> Message \<Rightarrow> room_abs \<Rightarrow> room_abs" where
  "published e r name m a = (if e = None then a\<lparr>ab_log := ab_log a @ [(r, name, PubMessage m)]\<rparr> else a)"

text \<open>What a control does to the abstract database at time \<open>t\<close>.\<close>

definition abs_control ::
  "string \<Rightarrow> HubUser \<Rightarrow> ControlInput \<Rightarrow> gotime \<Rightarrow> Message \<Rightarrow> error option \<Rightarrow> room_abs \<Rightarrow> room_abs \<Rightarrow> bool" where
  "abs_control r user msg t m e a a' \<longleftrightarrow>
     (if stale msg (ab_states a r) then m = Message0 \<and> e = Some ErrStaleControl \<and> a' = a\<lparr>ab_now := t\<rparr>
      else
        let st = control_state r user msg (ab_states a r) t in
        m = sync_message user st \<and>
        a' = published e r ''room.sync'' m (a\<lparr>ab_now := t, ab_states := (ab_states a)(r \<mapsto> st)\<rparr>))"

text \<open>
  What closing a room does to the abstract database, once its playback state (and, in the cleanup, its stored
  room) is deleted: its seats, its grants and its chat history go, nothing else changes, and the clients are
  told unless publishing fails.
\<close>

definition closed_message :: "HubUser option \<Rightarrow> Message" where
  "closed_message user = Message0\<lparr>ms_Type := ''room_event'', ms_Event := ''room_closed'', ms_User := user\<rparr>"

definition tail_closed ::
  "bool \<Rightarrow> string \<Rightarrow> HubUser option \<Rightarrow> error option \<Rightarrow> room_abs \<Rightarrow> room_abs \<Rightarrow> bool" where
  "tail_closed chat r user e a a' \<longleftrightarrow>
     (\<exists>P. P - {r} = ab_pending a - {r} \<and>
        a' = published e r ''room.event'' (closed_message user)
          (a\<lparr>ab_seat := vacate r (ab_seat a), ab_pending := P,
             ab_access := {(r', u). (r', u) \<in> ab_access a \<and> r' \<noteq> r},
             ab_chat := (if chat then ab_chat a - {r} else ab_chat a)\<rparr>))"

lemma control_state_parts [simp]:
  "rs_RoomID (control_state r user msg prev t) = r" "rs_UpdatedAt (control_state r user msg prev t) = t"
  "rs_UpdatedBy (control_state r user msg prev t) = hu_ID user"
  "rs_ControlVersion (control_state r user msg prev t) =
     (case prev of Some p \<Rightarrow> wrap64 (rs_ControlVersion p + 1) | None \<Rightarrow> 1)"
  "rs_PlaybackMode (control_state r user msg prev t) = control_mode msg prev"
  by (simp_all add: control_state_def Let_def case_prod_beta)

lemma vacate_empty: "occupants st r = {} \<Longrightarrow> vacate r st = st"
  by (simp add: vacate_def)

lemma tail_closed_fields:
  assumes "tail_closed chat r user e a a'"
  shows "ab_states a' = ab_states a" "ab_rooms a' = ab_rooms a" "ab_seat a' = vacate r (ab_seat a)"
    "ab_access a' = {(r', u). (r', u) \<in> ab_access a \<and> r' \<noteq> r}"
    "ab_chat a' = (if chat then ab_chat a - {r} else ab_chat a)"
    "ab_lock a' = ab_lock a" "ab_lastCleanup a' = ab_lastCleanup a" "ab_now a' = ab_now a"
    "ab_pending a' - {r} = ab_pending a - {r}"
    "ab_log a' = ab_log a @ (if e = None then [(r, ''room.event'', PubMessage (closed_message user))] else [])"
proof -
  from assms obtain P where P: "P - {r} = ab_pending a - {r}"
    and a': "a' = published e r ''room.event'' (closed_message user)
      (a\<lparr>ab_seat := vacate r (ab_seat a), ab_pending := P,
         ab_access := {(r', u). (r', u) \<in> ab_access a \<and> r' \<noteq> r},
         ab_chat := (if chat then ab_chat a - {r} else ab_chat a)\<rparr>)"
    unfolding tail_closed_def by blast
  show "ab_states a' = ab_states a" "ab_rooms a' = ab_rooms a" "ab_seat a' = vacate r (ab_seat a)"
    "ab_access a' = {(r', u). (r', u) \<in> ab_access a \<and> r' \<noteq> r}"
    "ab_chat a' = (if chat then ab_chat a - {r} else ab_chat a)"
    "ab_lock a' = ab_lock a" "ab_lastCleanup a' = ab_lastCleanup a" "ab_now a' = ab_now a"
    "ab_pending a' - {r} = ab_pending a - {r}"
    "ab_log a' = ab_log a @ (if e = None then [(r, ''room.event'', PubMessage (closed_message user))] else [])"
    unfolding a' using P by (simp_all add: published_def)
qed

text \<open>
  A sweep over candidate rooms \<open>cs\<close>: of the rooms \<open>D\<close> that it closes, each was empty; on success it closes
  all empty candidates, tells their clients in order, and takes every candidate off the waiting list.
\<close>

definition swept :: "bool \<Rightarrow> string list \<Rightarrow> error option \<Rightarrow> room_abs \<Rightarrow> room_abs \<Rightarrow> bool" where
  "swept chat cs e a a' \<longleftrightarrow>
     (\<exists>D \<subseteq> {r \<in> set cs. occupants (ab_seat a) r = {}}.
        ab_states a' = ab_states a |` (- D) \<and> ab_rooms a' = ab_rooms a |` (- D) \<and> ab_seat a' = ab_seat a \<and>
        ab_access a' = {(r, u). (r, u) \<in> ab_access a \<and> r \<notin> D} \<and>
        ab_chat a' = (if chat then ab_chat a - D else ab_chat a) \<and>
        ab_lock a' = ab_lock a \<and> ab_lastCleanup a' = ab_lastCleanup a \<and> ab_now a' = ab_now a \<and>
        (e = None \<longrightarrow> D = {r \<in> set cs. occupants (ab_seat a) r = {}} \<and> ab_pending a' = ab_pending a - set cs \<and>
           ab_log a' = ab_log a @ map (\<lambda>r. (r, ''room.event'', PubMessage (closed_message None)))
             (filter (\<lambda>r. occupants (ab_seat a) r = {}) cs)))"

lemma swept_Nil: "swept chat [] None a a"
  by (auto simp: swept_def)

lemma swept_skip:
  assumes "occupants (ab_seat a) r \<noteq> {}" and "swept chat cs e (a\<lparr>ab_pending := ab_pending a - {r}\<rparr>) a'"
  shows "swept chat (r # cs) e a a'"
proof -
  have "{r' \<in> set (r # cs). occupants (ab_seat a) r' = {}} = {r' \<in> set cs. occupants (ab_seat a) r' = {}}"
    using assms(1) by auto
  with assms show ?thesis unfolding swept_def by simp (elim exE, rule_tac x = D in exI, auto)
qed

lemma swept_fail:
  assumes "occupants (ab_seat a) r = {}"
    and "tail_closed chat r None (Some err) (a\<lparr>ab_rooms := (ab_rooms a)(r := None), ab_states := (ab_states a)(r := None)\<rparr>) a'"
  shows "swept chat (r # cs) (Some err) a a'"
  unfolding swept_def using tail_closed_fields [OF assms(2)] assms(1)
  by (intro exI [of _ "{r}"]) (auto simp: vacate_empty restrict_map_def fun_eq_iff)

lemma swept_close:
  assumes "occupants (ab_seat a) r = {}"
    and t: "tail_closed chat r None None (a\<lparr>ab_rooms := (ab_rooms a)(r := None), ab_states := (ab_states a)(r := None)\<rparr>) a1"
    and "swept chat cs e (a1\<lparr>ab_pending := ab_pending a1 - {r}\<rparr>) a'"
  shows "swept chat (r # cs) e a a'"
proof -
  note f = tail_closed_fields [OF t]
  have seat: "ab_seat a1 = ab_seat a" using f(3) assms(1) by (simp add: vacate_empty)
  obtain D where D: "D \<subseteq> {r \<in> set cs. occupants (ab_seat a) r = {}}"
    "ab_states a' = ab_states a1 |` (- D)" "ab_rooms a' = ab_rooms a1 |` (- D)" "ab_seat a' = ab_seat a"
    "ab_access a' = {(r, u). (r, u) \<in> ab_access a1 \<and> r \<notin> D}"
    "ab_chat a' = (if chat then ab_chat a1 - D else ab_chat a1)"
    "ab_lock a' = ab_lock a1" "ab_lastCleanup a' = ab_lastCleanup a1" "ab_now a' = ab_now a1"
    and n: "e = None \<Longrightarrow> D = {r \<in> set cs. occupants (ab_seat a) r = {}} \<and>
      ab_pending a' = ab_pending a1 - {r} - set cs \<and>
      ab_log a' = ab_log a1 @ map (\<lambda>r. (r, ''room.event'', PubMessage (closed_message None)))
        (filter (\<lambda>r. occupants (ab_seat a) r = {}) cs)"
    using assms(3) unfolding swept_def by (elim exE conjE) (rule that, simp_all add: seat)
  show ?thesis
    unfolding swept_def
  proof (intro exI [of _ "insert r D"] conjI)
    show "e = None \<longrightarrow> insert r D = {r' \<in> set (r # cs). occupants (ab_seat a) r' = {}} \<and>
        ab_pending a' = ab_pending a - set (r # cs) \<and>
        ab_log a' = ab_log a @ map (\<lambda>r. (r, ''room.event'', PubMessage (closed_message None)))
          (filter (\<lambda>r. occupants (ab_seat a) r = {}) (r # cs))"
      using n f(9,10) assms(1) by auto
    show "ab_states a' = ab_states a |` (- insert r D)" "ab_rooms a' = ab_rooms a |` (- insert r D)"
      unfolding D(2,3) f(1,2) by (auto simp: restrict_map_def fun_eq_iff)
    show "ab_access a' = {(r', u). (r', u) \<in> ab_access a \<and> r' \<notin> insert r D}"
      unfolding D(5) f(4) by auto
    show "ab_chat a' = (if chat then ab_chat a - insert r D else ab_chat a)"
      unfolding D(6) f(5) by auto
  qed (use D f(6-8) assms(1) in auto)
qed

text \<open>
  The rooms a cleanup looks at: the waiting rooms and the occupied ones, and of the stored rooms all those
  that fit on the page (\<open>n\<close> rows) the store returns.
\<close>

definition cleanup_candidates :: "nat \<Rightarrow> room_abs \<Rightarrow> string list \<Rightarrow> bool" where
  "cleanup_candidates n a cs \<longleftrightarrow>
     distinct cs \<and> TrimSpace ` ab_pending a - {[]} \<subseteq> set cs \<and>
     set cs \<subseteq> TrimSpace ` (ab_pending a \<union> {r. occupants (ab_seat a) r \<noteq> {}} \<union> dom (ab_rooms a)) - {[]} \<and>
     (card (dom (ab_rooms a)) \<le> n \<longrightarrow> TrimSpace ` dom (ab_rooms a) - {[]} \<subseteq> set cs)"

text \<open>
  A call of the global cleanup either does nothing but look at the clock (the last one is too recent, or
  another one holds the lock), or it sweeps under the lock and gives the lock back, and on success it notes the
  time (to the millisecond at least).
\<close>

definition noted :: "gotime \<Rightarrow> error option \<Rightarrow> room_abs \<Rightarrow> room_abs \<Rightarrow> bool" where
  "noted u e a a' \<longleftrightarrow>
     (if e = None
      then \<exists>t1 t2. u \<le> t1 \<and> t2 \<le> t1 \<and> t1 < t2 + 1000000 \<and> a' = a\<lparr>ab_now := t1, ab_lastCleanup := t2\<rparr>
      else a' = a)"

lemma noted_ok:
  "u \<le> t1 \<Longrightarrow> t2 \<le> t1 \<Longrightarrow> t1 < t2 + 1000000 \<Longrightarrow> noted u None a (a\<lparr>ab_now := t1, ab_lastCleanup := t2\<rparr>)"
  by (auto simp: noted_def)

definition too_early :: "gotime \<Rightarrow> room_abs \<Rightarrow> bool" where
  "too_early t a \<longleftrightarrow> \<not> IsZero (ab_lastCleanup a) \<and> Sub t (ab_lastCleanup a) < loginCleanupInterval"

definition cleanup_done :: "nat \<Rightarrow> error option \<Rightarrow> room_abs \<Rightarrow> room_abs \<Rightarrow> bool" where
  "cleanup_done n e a a' \<longleftrightarrow>
     (\<exists>t\<ge>ab_now a.
        if too_early t a \<or> ab_lock a then e = None \<and> a' = a\<lparr>ab_now := t\<rparr>
        else \<exists>cs u a1 a2. cleanup_candidates n a cs \<and> t \<le> u \<and>
          swept False cs e (a\<lparr>ab_lock := True, ab_now := u\<rparr>) a1 \<and> noted u e a1 a2 \<and> a' = a2\<lparr>ab_lock := False\<rparr>)"

lemma cleanup_done_lock: "cleanup_done n e a a' \<Longrightarrow> ab_lock a' = ab_lock a"
proof -
  assume "cleanup_done n e a a'"
  then obtain t where "if too_early t a \<or> ab_lock a then e = None \<and> a' = a\<lparr>ab_now := t\<rparr>
      else \<exists>cs u a1 a2. cleanup_candidates n a cs \<and> t \<le> u \<and>
        swept False cs e (a\<lparr>ab_lock := True, ab_now := u\<rparr>) a1 \<and> noted u e a1 a2 \<and> a' = a2\<lparr>ab_lock := False\<rparr>"
    unfolding cleanup_done_def by blast
  then show ?thesis by (cases "too_early t a \<or> ab_lock a") auto
qed

context room_backend
begin

lemma ApplyControl_run:
  assumes "backed_by s sc pr acc rst pub clk ch" and "live w"
    and "run_state (ApplyControl s r user msg) w = ((m, e), w')"
  shows "live w' \<and> (if \<not> may_control user then m = Message0 \<and> e = Some ErrForbidden \<and> w' = w
     else \<exists>t\<ge>ab_now (A w). abs_control r user msg t m e (A w) (A w'))"
proof (cases "may_control user")
  case False
  with assms show ?thesis by (simp add: ApplyControl_def)
next
  case True
  define t where "t = fst (run_state clk w)"
  have st: "(control_state r user msg prev t)\<lparr>rs_RoomID := r\<rparr> = control_state r user msg prev t" for prev
    by (rule RoomState.equality) simp_all
  note s = assms(1) [unfolded backed_by_def]
  have t: "\<not> IsZero t" using assms(2) by (simp add: t_def)
  have "live w' \<and> abs_control r user msg t m e (A w) (A w')"
    using assms(2,3) True
    by (cases "ab_states (A w) r")
      (auto simp: ApplyControl_def s read_error_def Let_def abs_control_def published_def st t
        t_def [symmetric] split: if_splits)
  moreover have "ab_now (A w) \<le> t" using assms(2) by (simp add: t_def)
  ultimately show ?thesis using True by auto
qed

text \<open>The part of the database that closing a room takes away, besides the stored room.\<close>

lemma drop_presence_run:
  assumes "backed_by s sc pr acc rst pub clk ch" and "live w"
  obtains P where "P - {r} = ab_pending (A w) - {r}" and "live (snd (run_state (drop_presence s r) w))"
    and "A (snd (run_state (drop_presence s r) w)) = (A w)\<lparr>ab_seat := vacate r (ab_seat (A w)), ab_pending := P\<rparr>"
  using delete_presence_abs [OF assms(2), of r] assms
  by (auto simp: drop_presence_def backed_by_def)

lemma drop_access_run [simp]:
  assumes "backed_by s sc pr acc rst pub clk ch" and "live w"
  shows "live (snd (run_state (drop_access s r) w))"
    and "A (snd (run_state (drop_access s r) w)) =
      (A w)\<lparr>ab_access := {(r', u). (r', u) \<in> ab_access (A w) \<and> r' \<noteq> r}\<rparr>"
  using assms(2) by (simp_all add: drop_access_def assms(1) [unfolded backed_by_def])

lemma deleteRoomChat_run [simp]:
  assumes "backed_by s sc pr acc rst pub clk ch" and "live w"
  shows "live (snd (run_state (deleteRoomChat s r) w))"
    and "A (snd (run_state (deleteRoomChat s r) w)) =
      (A w)\<lparr>ab_chat := (if ch = None then ab_chat (A w) else ab_chat (A w) - {r})\<rparr>"
  using assms(2) ensuresD [OF chat_delete assms(2)]
  by (cases ch; simp add: deleteRoomChat_def assms(1) [unfolded backed_by_def])+

lemma PublishRoomEvent_run [simp]:
  assumes "backed_by s sc pr acc rst pub clk ch" and "live w"
  shows "live (snd (run_state (PublishRoomEvent s r event user) w))"
    and "A (snd (run_state (PublishRoomEvent s r event user) w)) =
      published (fst (run_state (PublishRoomEvent s r event user) w)) r ''room.event''
        (Message0\<lparr>ms_Type := ''room_event'', ms_Event := event, ms_User := user\<rparr>) (A w)"
  using assms(2) by (simp_all add: PublishRoomEvent_def published_def assms(1) [unfolded backed_by_def])

lemma close_tail_run:
  assumes b: "backed_by s sc pr acc rst pub clk ch" and w: "live w"
    and run: "run_state (do { _ \<leftarrow> drop_presence s r; _ \<leftarrow> drop_access s r; _ \<leftarrow> deleteRoomChat s r;
      PublishRoomEvent s r ''room_closed'' user }) w = (e, w')"
  shows "live w' \<and> tail_closed (ch \<noteq> None) r user e (A w) (A w')"
proof -
  define w1 where "w1 = snd (run_state (drop_presence s r) w)"
  define w2 where "w2 = snd (run_state (drop_access s r) w1)"
  define w3 where "w3 = snd (run_state (deleteRoomChat s r) w2)"
  obtain P where P: "P - {r} = ab_pending (A w) - {r}" and l1: "live w1"
    and a1: "A w1 = (A w)\<lparr>ab_seat := vacate r (ab_seat (A w)), ab_pending := P\<rparr>"
    unfolding w1_def by (rule drop_presence_run [OF b w])
  have l2: "live w2" and a2: "A w2 = (A w1)\<lparr>ab_access := {(r', u). (r', u) \<in> ab_access (A w1) \<and> r' \<noteq> r}\<rparr>"
    unfolding w2_def by (simp_all only: drop_access_run [OF b l1])
  have l3: "live w3"
    and a3: "A w3 = (A w2)\<lparr>ab_chat := (if ch = None then ab_chat (A w2) else ab_chat (A w2) - {r})\<rparr>"
    unfolding w3_def by (simp_all only: deleteRoomChat_run [OF b l2])
  have "run_state (PublishRoomEvent s r ''room_closed'' user) w3 = (e, w')"
    using run by (simp add: w1_def w2_def w3_def)
  with PublishRoomEvent_run [OF b l3, of r "''room_closed''" user]
  have "live w'" "A w' = published e r ''room.event'' (closed_message user) (A w3)"
    by (simp_all add: closed_message_def)
  moreover have "A w3 = (A w)\<lparr>ab_seat := vacate r (ab_seat (A w)), ab_pending := P,
      ab_access := {(r', u). (r', u) \<in> ab_access (A w) \<and> r' \<noteq> r},
      ab_chat := (if ch \<noteq> None then ab_chat (A w) - {r} else ab_chat (A w))\<rparr>"
    unfolding a3 a2 a1 by simp
  ultimately show ?thesis
    unfolding tail_closed_def using P by (intro conjI exI [of _ P]) (simp_all only:)
qed

lemma CloseRoom_run:
  assumes "backed_by s sc pr acc rst pub clk ch" and "live w"
    and "run_state (CloseRoom s r user) w = (e, w')"
  shows "live w' \<and> tail_closed (ch \<noteq> None) r user e ((A w)\<lparr>ab_states := (ab_states (A w))(r := None)\<rparr>) (A w')"
proof -
  define w1 where "w1 = snd (run_state (DeleteRoomState sc r) w)"
  have w1: "live w1" "A w1 = (A w)\<lparr>ab_states := (ab_states (A w))(r := None)\<rparr>"
    using assms(2) by (simp_all add: w1_def)
  have "run_state (do { _ \<leftarrow> drop_presence s r; _ \<leftarrow> drop_access s r; _ \<leftarrow> deleteRoomChat s r;
      PublishRoomEvent s r ''room_closed'' user }) w1 = (e, w')"
    using assms(2,3) by (simp add: CloseRoom_def assms(1) [unfolded backed_by_def] w1_def)
  from close_tail_run [OF assms(1) w1(1) this] show ?thesis unfolding w1(2) .
qed

lemma closeEmptyRoom_run:
  assumes "backed_by s sc pr acc rst pub clk ch" and "live w"
    and "run_state (closeEmptyRoom s rst r) w = (e, w')"
  shows "live w' \<and> tail_closed (ch \<noteq> None) r None e
    ((A w)\<lparr>ab_rooms := (ab_rooms (A w))(r := None), ab_states := (ab_states (A w))(r := None)\<rparr>) (A w')"
proof -
  define w1 where "w1 = snd (run_state (DeleteRoomState sc r) (snd (run_state (RoomStore_Delete rst r) w)))"
  have w1: "live w1" "A w1 = (A w)\<lparr>ab_rooms := (ab_rooms (A w))(r := None), ab_states := (ab_states (A w))(r := None)\<rparr>"
    using assms(2) by (simp_all add: w1_def)
  have "run_state (do { _ \<leftarrow> drop_presence s r; _ \<leftarrow> drop_access s r; _ \<leftarrow> deleteRoomChat s r;
      PublishRoomEvent s r ''room_closed'' None }) w1 = (e, w')"
    using assms(2,3) by (auto simp: closeEmptyRoom_def assms(1) [unfolded backed_by_def] w1_def split: if_splits)
  from close_tail_run [OF assms(1) w1(1) this] show ?thesis unfolding w1(2) .
qed

lemma cleanup_rooms_run:
  assumes b: "backed_by s sc pr acc rst pub clk ch" and "live w"
    and "run_state (cleanup_rooms s pr rst cs) w = (e, w')"
  shows "live w' \<and> swept (ch \<noteq> None) cs e (A w) (A w')"
  using assms(2,3)
proof (induction cs arbitrary: w)
  case Nil
  then show ?case by (simp add: swept_Nil)
next
  case (Cons r cs)
  define w1 where "w1 = snd (run_state (MemberCount pr r) w)"
  have l1: "live w1" and a1: "A w1 = A w" using Cons.prems(1) by (simp_all add: w1_def)
  show ?case
  proof (cases "occupants (ab_seat (A w)) r = {}")
    case False
    define w2 where "w2 = snd (run_state (ClearPendingEmpty pr r) w1)"
    have l2: "live w2" and a2: "A w2 = (A w)\<lparr>ab_pending := ab_pending (A w) - {r}\<rparr>"
      using l1 by (simp_all add: w2_def a1)
    have "run_state (cleanup_rooms s pr rst cs) w2 = (e, w')"
      using Cons.prems False finite_occupants [OF Cons.prems(1)] by (simp add: w1_def w2_def)
    from Cons.IH [OF l2 this] False show ?thesis unfolding a2 by (auto intro: swept_skip)
  next
    case True
    obtain e2 w2 where c: "run_state (closeEmptyRoom s rst r) w1 = (e2, w2)" by (cases "run_state (closeEmptyRoom s rst r) w1")
    note cl = closeEmptyRoom_run [OF b l1 c, unfolded a1]
    show ?thesis
    proof (cases e2)
      case (Some err)
      then have "e = Some err" "w' = w2"
        using Cons.prems True c by (simp_all add: w1_def)
      with cl True Some show ?thesis by (auto intro: swept_fail)
    next
      case None
      define w3 where "w3 = snd (run_state (ClearPendingEmpty pr r) w2)"
      have l3: "live w3" and a3: "A w3 = (A w2)\<lparr>ab_pending := ab_pending (A w2) - {r}\<rparr>"
        using cl by (simp_all add: w3_def)
      have "run_state (cleanup_rooms s pr rst cs) w3 = (e, w')"
        using Cons.prems True None c by (simp add: w1_def w3_def)
      from Cons.IH [OF l3 this] True None cl show ?thesis unfolding a3 by (auto intro: swept_close)
    qed
  qed
qed

lemma room_ids_of_list:
  assumes "live w" and "set l \<subseteq> ran (ab_rooms (A w))"
  shows "rm_ID ` set l \<subseteq> dom (ab_rooms (A w))"
    and "set l = ran (ab_rooms (A w)) \<Longrightarrow> rm_ID ` set l = dom (ab_rooms (A w))"
proof -
  show "rm_ID ` set l \<subseteq> dom (ab_rooms (A w))"
    using assms(2) room_keys [OF assms(1)] by (fastforce simp: ran_def)
  show "rm_ID ` set l = dom (ab_rooms (A w))" if "set l = ran (ab_rooms (A w))"
    unfolding that using room_keys [OF assms(1)] by (force simp: ran_def image_iff)
qed

lemma RunEmptyRoomCleanup_run:
  assumes b: "backed_by s sc pr acc rst pub clk ch" and w: "live w"
    and run: "run_state (RunEmptyRoomCleanup s) w = (e, w')"
  shows "live w' \<and> (\<exists>cs t. cleanup_candidates (page 500) (A w) cs \<and> ab_now (A w) \<le> t \<and>
    swept (ch \<noteq> None) cs e ((A w)\<lparr>ab_now := t\<rparr>) (A w'))"
proof -
  let ?o = "\<lparr>lo_Limit = 500, lo_Offset = 0, lo_Query = [], lo_OwnerID = []\<rparr>"
  define w1 where "w1 = snd (run_state (PendingEmptyRooms pr) w)"
  define w2 where "w2 = snd (run_state (ListRoomsWithMembers pr) w1)"
  define w3 where "w3 = snd (run_state (RoomStore_List rst ?o) w2)"
  define w4 where "w4 = snd (run_state clk w3)"
  have l1: "live w1" and a1: "A w1 = A w" using w by (simp_all add: w1_def)
  have l2: "live w2" and a2: "A w2 = A w" using l1 a1 by (simp_all add: w2_def)
  have l3: "live w3" and a3: "A w3 = A w" using l2 a2 by (simp_all add: w3_def)
  have l4: "live w4" and a4: "A w4 = (A w)\<lparr>ab_now := fst (run_state clk w3)\<rparr>"
    and t: "ab_now (A w) \<le> fst (run_state clk w3)"
    using l3 clock_run(3) [OF l3] by (simp_all add: w4_def a3)
  obtain p where p: "fst (run_state (PendingEmptyRooms pr) w) = Inr p" "set p = ab_pending (A w)"
    by (rule pending_rooms_result [OF w])
  obtain q where q: "fst (run_state (ListRoomsWithMembers pr) w1) = Inr q"
    "set q = {r. occupants (ab_seat (A w)) r \<noteq> {}}"
    by (rule active_rooms_result [OF l1]) (simp add: a1)
  obtain l n where l: "fst (run_state (RoomStore_List rst ?o) w2) = Inr (l, n)"
    "set l \<subseteq> ran (ab_rooms (A w))" "card (dom (ab_rooms (A w))) \<le> page 500 \<longrightarrow> set l = ran (ab_rooms (A w))"
    by (rule list_rooms_result [OF l2, of ?o]) (simp_all add: a2)
  let ?cs = "mergeUniqueRoomIDs [p, q, map rm_ID l]"
  have "run_state (cleanup_rooms s pr rst ?cs) w4 = (e, w')"
    using run p(1) q(1) l(1)
    by (simp add: RunEmptyRoomCleanup_def b [unfolded backed_by_def] w1_def w2_def w3_def w4_def)
  from cleanup_rooms_run [OF b l4 this]
  have "live w' \<and> swept (ch \<noteq> None) ?cs e ((A w)\<lparr>ab_now := fst (run_state clk w3)\<rparr>) (A w')" by (simp add: a4)
  moreover have "cleanup_candidates (page 500) (A w) ?cs"
  proof -
    let ?occ = "{r. occupants (ab_seat (A w)) r \<noteq> {}}"
    have cs: "set ?cs = TrimSpace ` (ab_pending (A w) \<union> ?occ \<union> rm_ID ` set l) - {[]}"
      unfolding set_mergeUniqueRoomIDs by (simp add: p(2) q(2) image_Un Un_assoc)
    have sub: "ab_pending (A w) \<union> ?occ \<union> rm_ID ` set l \<subseteq> ab_pending (A w) \<union> ?occ \<union> dom (ab_rooms (A w))"
      using room_ids_of_list(1) [OF w l(2)] by blast
    show ?thesis
      unfolding cleanup_candidates_def
    proof (intro conjI impI)
      show "set ?cs \<subseteq> TrimSpace ` (ab_pending (A w) \<union> ?occ \<union> dom (ab_rooms (A w))) - {[]}"
        unfolding cs using image_mono [OF sub, of TrimSpace] by blast
      assume "card (dom (ab_rooms (A w))) \<le> page 500"
      with l(3) room_ids_of_list(2) [OF w l(2)] show "TrimSpace ` dom (ab_rooms (A w)) - {[]} \<subseteq> set ?cs"
        unfolding cs by blast
    qed (auto simp: cs distinct_mergeUniqueRoomIDs)
  qed
  ultimately show ?thesis using t by blast
qed

lemma cleanup_locked_run:
  assumes b: "backed_by s sc pr acc rst pub clk ch" and no_chat: "ch = None" and w: "live w"
    and run: "run_state (cleanup_locked fuel s pr) w = (x, w')"
  shows "\<exists>e. x = Some e \<and> live w' \<and> (\<exists>cs t a1. cleanup_candidates (page 500) (A w) cs \<and> ab_now (A w) \<le> t \<and>
    swept False cs e ((A w)\<lparr>ab_now := t\<rparr>) a1 \<and> noted t e a1 (A w'))"
proof -
  note s = b [unfolded backed_by_def]
  obtain e w1 where r: "run_state (RunEmptyRoomCleanup s) w = (e, w1)" by (cases "run_state (RunEmptyRoomCleanup s) w")
  then obtain cs t where l1: "live w1" and cs: "cleanup_candidates (page 500) (A w) cs" "ab_now (A w) \<le> t"
    "swept False cs e ((A w)\<lparr>ab_now := t\<rparr>) (A w1)"
    using RunEmptyRoomCleanup_run [OF b w r] no_chat by auto
  show ?thesis
  proof (cases e)
    case (Some err)
    with run r have "x = Some e" "w' = w1" by (simp_all add: cleanup_locked_def)
    moreover from this Some have "noted t e (A w1) (A w')" by (simp add: noted_def)
    ultimately show ?thesis using cs l1 by blast
  next
    case None
    define w2 where "w2 = snd (run_state clk w1)"
    have l2: "live w2" and a2: "A w2 = (A w1)\<lparr>ab_now := fst (run_state clk w1)\<rparr>"
      and t2: "ab_now (A w1) \<le> fst (run_state clk w1)"
      using l1 by (simp_all add: w2_def)
    have n: "ab_now (A w1) = t" using cs(3) by (auto simp: swept_def)
    obtain t' where t': "t' \<le> fst (run_state clk w1)" "fst (run_state clk w1) < t' + 1000000"
      "A (snd (run_state (SetLastRoomCleanupAt pr (fst (run_state clk w1))) w2)) = (A w2)\<lparr>ab_lastCleanup := t'\<rparr>"
      by (rule set_last_cleanup_abs [OF l2])
    have "x = Some None" "w' = snd (run_state (SetLastRoomCleanupAt pr (fst (run_state clk w1))) w2)"
      using run r None l2 by (simp_all add: cleanup_locked_def ProcessGlobalChatPending_def s no_chat w2_def)
    moreover from this(2) l2 None t'(3) a2 have "A w' = (A w1)\<lparr>ab_now := fst (run_state clk w1), ab_lastCleanup := t'\<rparr>"
      "live w'" by simp_all
    moreover from this(1) noted_ok [OF _ t'(1,2)] t2 n None have "noted t e (A w1) (A w')" by simp
    ultimately show ?thesis using cs None by blast
  qed
qed

lemma MaybeRunGlobalCleanup_run:
  assumes b: "backed_by s sc pr acc rst pub clk ch" and no_chat: "ch = None" and w: "live w"
    and run: "run_state (MaybeRunGlobalCleanup fuel s) w = (x, w')"
  shows "\<exists>e. x = Some e \<and> live w' \<and> cleanup_done (page 500) e (A w) (A w')"
proof -
  note s = b [unfolded backed_by_def]
  let ?l = "ab_lastCleanup (A w)"
  define w1 where "w1 = snd (run_state (GetLastRoomCleanupAt pr) w)"
  define w2 where "w2 = (if IsZero ?l then w1 else snd (run_state clk w1))"
  define t where "t = (if IsZero ?l then ab_now (A w) else fst (run_state clk w1))"
  have l1: "live w1" and a1: "A w1 = A w" using w by (simp_all add: w1_def)
  have l2: "live w2" and a2: "A w2 = (A w)\<lparr>ab_now := t\<rparr>" and t: "ab_now (A w) \<le> t"
    using l1 a1 clock_run(3) [OF l1] by (simp_all add: w2_def t_def)
  show ?thesis
  proof (cases "too_early t (A w) \<or> ab_lock (A w)")
    case True
    have lk: "A (snd (run_state (TryAcquireCleanupLock pr (2 * Minute)) w2)) = A w2" if "ab_lock (A w)"
      using l2 a2 that by simp
    have "x = Some None" "A w' = (A w)\<lparr>ab_now := t\<rparr>" "live w'"
      using run w True l1 l2 lk a2
      by (auto simp: MaybeRunGlobalCleanup_def s w1_def [symmetric] w2_def t_def too_early_def split: if_splits)
    with True t show ?thesis
      by (intro exI [of _ None]) (auto simp: cleanup_done_def intro!: exI [of _ t])
  next
    case False
    define w3 where "w3 = snd (run_state (TryAcquireCleanupLock pr (2 * Minute)) w2)"
    define w4 where "w4 = (if IsZero ?l then w3 else snd (run_state clk w3))"
    define t4 where "t4 = (if IsZero ?l then t else fst (run_state clk w3))"
    have l3: "live w3" and a3: "A w3 = (A w)\<lparr>ab_now := t, ab_lock := True\<rparr>" using l2 a2 by (simp_all add: w3_def)
    have l4: "live w4" and a4: "A w4 = (A w)\<lparr>ab_now := t4, ab_lock := True\<rparr>" and t4: "t \<le> t4"
      using l3 a3 clock_run(3) [OF l3] by (simp_all add: w4_def t4_def)
    obtain y w5 where c: "run_state (cleanup_locked fuel s pr) w4 = (y, w5)" by (cases "run_state (cleanup_locked fuel s pr) w4")
    from cleanup_locked_run [OF b no_chat l4 c] obtain e cs u a1 where y: "y = Some e" and l5: "live w5"
      and sw: "cleanup_candidates (page 500) (A w4) cs" "ab_now (A w4) \<le> u"
        "swept False cs e ((A w4)\<lparr>ab_now := u\<rparr>) a1" "noted u e a1 (A w5)" by blast
    have xe: "x = Some e" and w': "w' = snd (run_state (ReleaseCleanupLock pr) w5)"
      using run w False l1 l2 c y a2
      by (auto simp: MaybeRunGlobalCleanup_def s w1_def [symmetric] w2_def t_def too_early_def w3_def w4_def
          t4_def split: if_splits)
    have lw: "live w'" and aw: "A w' = (A w5)\<lparr>ab_lock := False\<rparr>" using l5 by (simp_all add: w')
    have cc: "cleanup_candidates (page 500) (A w) cs" using sw(1) by (simp add: a4 cleanup_candidates_def)
    have sw3: "swept False cs e ((A w)\<lparr>ab_lock := True, ab_now := u\<rparr>) a1" using sw(3) by (simp add: a4)
    have "t \<le> u" using sw(2) t4 by (simp add: a4)
    with cc sw3 sw(4) aw False t have "cleanup_done (page 500) e (A w) (A w')"
      unfolding cleanup_done_def by (intro exI [of _ t]) auto
    with xe lw show ?thesis by blast
  qed
qed

end

end
