(* ===== verification/Session_Memory.thy ===== *)
theory Session_Memory
  imports Model
begin

text \<open>
  The session cache: its interface (\<^verbatim>\<open>SessionCache\<close> of \<^verbatim>\<open>internal/cache/cache.go\<close>) and the in-process
  implementation, \<^verbatim>\<open>internal/cache/memory/session_cache.go\<close>: one refresh token per user, and the blacklist of
  revoked token identifiers, both with an expiry.  The clock reading \<open>now\<close> is an argument of each operation.
\<close>

section \<open>Interface\<close>

record 'w SessionCache =
  SetRefreshToken :: "string \<Rightarrow> string \<Rightarrow> duration \<Rightarrow> ('w, error option) io"
  GetRefreshToken :: "string \<Rightarrow> ('w, error + string) io"
  DeleteRefreshToken :: "string \<Rightarrow> ('w, error option) io"
  BlacklistToken :: "string \<Rightarrow> duration \<Rightarrow> ('w, error option) io"
  IsBlacklisted :: "string \<Rightarrow> ('w, error + bool) io"

section \<open>Implementation\<close>

record sessionEntry =
  se_value :: string
  se_expiresAt :: gotime

record MemSessions =
  sm_refreshTokens :: "(string, sessionEntry) gomap"
  sm_blacklist :: "(string, gotime) gomap"

definition NewSessionCache :: MemSessions where
  "NewSessionCache = \<lparr>sm_refreshTokens = [], sm_blacklist = []\<rparr>"

definition After :: "gotime \<Rightarrow> gotime \<Rightarrow> bool" where
  "After t u \<longleftrightarrow> t > u"

definition mem_SetRefreshToken ::
  "error option \<Rightarrow> gotime \<Rightarrow> string \<Rightarrow> string \<Rightarrow> duration \<Rightarrow> MemSessions \<Rightarrow> error option \<times> MemSessions" where
  "mem_SetRefreshToken ctx now userID token ttl c =
     (case ctx of
        Some err \<Rightarrow> (Some err, c)
      | None \<Rightarrow>
          (None, c\<lparr>sm_refreshTokens :=
             mput userID \<lparr>se_value = token, se_expiresAt = now + ttl\<rparr> (sm_refreshTokens c)\<rparr>))"

definition mem_GetRefreshToken ::
  "error option \<Rightarrow> gotime \<Rightarrow> string \<Rightarrow> MemSessions \<Rightarrow> (error + string) \<times> MemSessions" where
  "mem_GetRefreshToken ctx now userID c =
     (case ctx of
        Some err \<Rightarrow> (Inl err, c)
      | None \<Rightarrow>
          (case map_of (sm_refreshTokens c) userID of
             None \<Rightarrow> (Inr [], c)
           | Some entry \<Rightarrow>
               if \<not> IsZero (se_expiresAt entry) \<and> \<not> After (se_expiresAt entry) now
               then (Inr [], c\<lparr>sm_refreshTokens := mdelete userID (sm_refreshTokens c)\<rparr>)
               else (Inr (se_value entry), c)))"

definition mem_DeleteRefreshToken ::
  "error option \<Rightarrow> string \<Rightarrow> MemSessions \<Rightarrow> error option \<times> MemSessions" where
  "mem_DeleteRefreshToken ctx userID c =
     (case ctx of
        Some err \<Rightarrow> (Some err, c)
      | None \<Rightarrow> (None, c\<lparr>sm_refreshTokens := mdelete userID (sm_refreshTokens c)\<rparr>))"

definition mem_BlacklistToken ::
  "error option \<Rightarrow> gotime \<Rightarrow> string \<Rightarrow> duration \<Rightarrow> MemSessions \<Rightarrow> error option \<times> MemSessions" where
  "mem_BlacklistToken ctx now jti ttl c =
     (case ctx of
        Some err \<Rightarrow> (Some err, c)
      | None \<Rightarrow> (None, c\<lparr>sm_blacklist := mput jti (now + ttl) (sm_blacklist c)\<rparr>))"

definition mem_IsBlacklisted ::
  "error option \<Rightarrow> gotime \<Rightarrow> string \<Rightarrow> MemSessions \<Rightarrow> (error + bool) \<times> MemSessions" where
  "mem_IsBlacklisted ctx now jti c =
     (case ctx of
        Some err \<Rightarrow> (Inl err, c)
      | None \<Rightarrow>
          (case map_of (sm_blacklist c) jti of
             None \<Rightarrow> (Inr False, c)
           | Some expiresAt \<Rightarrow>
               if \<not> IsZero expiresAt \<and> \<not> After expiresAt now
               then (Inr False, c\<lparr>sm_blacklist := mdelete jti (sm_blacklist c)\<rparr>)
               else (Inr True, c)))"

section \<open>What the cache holds at a time\<close>

text \<open>
  The abstract view at time \<open>now\<close>: the refresh token of each user that has one, and the blacklisted identifiers.
  Entries past their expiry count as absent, whether or not they have been dropped already.
\<close>

definition live_token :: "gotime \<Rightarrow> MemSessions \<Rightarrow> string \<Rightarrow> string option" where
  "live_token now c userID =
     (case map_of (sm_refreshTokens c) userID of
        None \<Rightarrow> None
      | Some entry \<Rightarrow> if now < se_expiresAt entry then Some (se_value entry) else None)"

definition blacklisted :: "gotime \<Rightarrow> MemSessions \<Rightarrow> string set" where
  "blacklisted now c = {jti. \<exists>t. map_of (sm_blacklist c) jti = Some t \<and> now < t}"

text \<open>Expiry times are not the zero time.\<close>

definition sessions_inv :: "MemSessions \<Rightarrow> bool" where
  "sessions_inv c \<longleftrightarrow>
     (\<forall>u e. map_of (sm_refreshTokens c) u = Some e \<longrightarrow> 0 < se_expiresAt e) \<and>
     (\<forall>j t. map_of (sm_blacklist c) j = Some t \<longrightarrow> 0 < t)"

lemma sessions_inv_new: "sessions_inv NewSessionCache"
  by (simp add: sessions_inv_def NewSessionCache_def)

lemma SetRefreshToken_abs:
  assumes "sessions_inv c" and "0 < now" and "0 \<le> ttl"
  shows "fst (mem_SetRefreshToken None now u tok ttl c) = None"
    and "sessions_inv (snd (mem_SetRefreshToken None now u tok ttl c))"
    and "live_token t (snd (mem_SetRefreshToken None now u tok ttl c)) =
      (live_token t c)(u := if t < now + ttl then Some tok else None)"
    and "blacklisted t (snd (mem_SetRefreshToken None now u tok ttl c)) = blacklisted t c"
  using assms
  by (auto simp: mem_SetRefreshToken_def sessions_inv_def live_token_def blacklisted_def update_conv' fun_eq_iff)

lemma GetRefreshToken_abs:
  assumes "sessions_inv c"
  shows "fst (mem_GetRefreshToken None now u c) = Inr (case live_token now c u of None \<Rightarrow> [] | Some tok \<Rightarrow> tok)"
    and "sessions_inv (snd (mem_GetRefreshToken None now u c))"
    and "now \<le> t \<Longrightarrow> live_token t (snd (mem_GetRefreshToken None now u c)) = live_token t c"
  using assms
  by (fastforce simp: mem_GetRefreshToken_def sessions_inv_def live_token_def blacklisted_def delete_conv' fun_eq_iff
      After_def IsZero_def split: option.splits)+

lemma GetRefreshToken_blacklist:
  "blacklisted t (snd (mem_GetRefreshToken ctx now u c)) = blacklisted t c"
  by (auto simp: mem_GetRefreshToken_def blacklisted_def split: option.splits)

lemma DeleteRefreshToken_abs:
  assumes "sessions_inv c"
  shows "fst (mem_DeleteRefreshToken None u c) = None" and "sessions_inv (snd (mem_DeleteRefreshToken None u c))"
    and "live_token t (snd (mem_DeleteRefreshToken None u c)) = (live_token t c)(u := None)"
    and "blacklisted t (snd (mem_DeleteRefreshToken None u c)) = blacklisted t c"
  using assms
  by (auto simp: mem_DeleteRefreshToken_def sessions_inv_def live_token_def blacklisted_def delete_conv' fun_eq_iff)

lemma BlacklistToken_abs:
  assumes "sessions_inv c" and "0 < now" and "0 \<le> ttl"
  shows "fst (mem_BlacklistToken None now j ttl c) = None" and "sessions_inv (snd (mem_BlacklistToken None now j ttl c))"
    and "live_token t (snd (mem_BlacklistToken None now j ttl c)) = live_token t c"
    and "blacklisted t (snd (mem_BlacklistToken None now j ttl c)) =
      (if t < now + ttl then insert j (blacklisted t c) else blacklisted t c - {j})"
  using assms
  by (auto simp: mem_BlacklistToken_def sessions_inv_def live_token_def blacklisted_def update_conv' fun_eq_iff)

lemma IsBlacklisted_abs:
  assumes "sessions_inv c"
  shows "fst (mem_IsBlacklisted None now j c) = Inr (j \<in> blacklisted now c)"
    and "sessions_inv (snd (mem_IsBlacklisted None now j c))"
    and "live_token t (snd (mem_IsBlacklisted None now j c)) = live_token t c"
  using assms
  by (fastforce simp: mem_IsBlacklisted_def sessions_inv_def live_token_def blacklisted_def delete_conv' fun_eq_iff
      After_def IsZero_def split: option.splits)+

lemma IsBlacklisted_blacklist:
  assumes "now \<le> t"
  shows "blacklisted t (snd (mem_IsBlacklisted None now j c)) = blacklisted t c"
  using assms
  by (auto simp: mem_IsBlacklisted_def blacklisted_def delete_conv' After_def split: option.splits if_splits)

end
