(* ===== verification/Email_Code.thy ===== *)
theory Email_Code
  imports Model Go_Text
begin

text \<open>
  Verification codes sent by e-mail, \<^verbatim>\<open>internal/emailcode/store.go\<close> with its in-process state (\<open>redis == nil\<close>):
  the send limits (cooldown and daily quota), the stored hash with its expiry and its failed attempts, and the
  code generator; and \<open>redactEmail\<close> of \<^verbatim>\<open>internal/email/email.go\<close>.  The bcrypt package is not part of the
  repository: the outcome of \<open>GenerateFromPassword\<close> is an argument, \<open>CompareHashAndPassword\<close> the parameter \<open>cmp\<close>.
  A calendar day is identified by its number, \<open>None\<close> standing for the empty string of a new entry.
\<close>

section \<open>Definitions\<close>

record memEntry =
  me_hash :: string
  me_expiresAt :: gotime
  me_attempts :: int
  me_coolUntil :: gotime
  me_dailyDay :: "int option"
  me_dailyCount :: int

definition memEntry0 :: memEntry where
  "memEntry0 = \<lparr>me_hash = [], me_expiresAt = 0, me_attempts = 0, me_coolUntil = 0, me_dailyDay = None, me_dailyCount = 0\<rparr>"

type_synonym MemCodes = "(string, memEntry) gomap"

definition NewStore :: MemCodes where
  "NewStore = []"

definition code_key :: "string \<Rightarrow> string \<Rightarrow> string" where
  "code_key purpose email = purpose @ ''|'' @ email"

definition utcDay :: "gotime \<Rightarrow> int" where
  "utcDay t = t div (24 * Hour)"

definition secondsUntilUTCEndOfDay :: "gotime \<Rightarrow> duration" where
  "secondsUntilUTCEndOfDay now = (utcDay now + 1) * (24 * Hour) - now"

definition precheckSendMem ::
  "string \<Rightarrow> string \<Rightarrow> int \<Rightarrow> gotime \<Rightarrow> MemCodes \<Rightarrow> error option \<times> MemCodes" where
  "precheckSendMem email purpose dailyLimit now s =
     (let k = code_key purpose email;
          day = utcDay now;
          e = (case map_of s k of None \<Rightarrow> memEntry0 | Some e \<Rightarrow> e)
      in if now < me_coolUntil e then (Some (ErrCooldown (Sub (me_coolUntil e) now)), mput k e s)
         else
           let e1 = (if me_dailyDay e \<noteq> Some day then e\<lparr>me_dailyDay := Some day, me_dailyCount := 0\<rparr> else e)
           in if me_dailyCount e1 \<ge> dailyLimit then (Some ErrDailyLimit, mput k e1 s)
              else (None, mput k (e1\<lparr>me_dailyCount := me_dailyCount e1 + 1\<rparr>) s))"

definition PrecheckSend ::
  "(string \<Rightarrow> string) \<Rightarrow> string \<Rightarrow> string \<Rightarrow> int \<Rightarrow> gotime \<Rightarrow> MemCodes \<Rightarrow> error option \<times> MemCodes" where
  "PrecheckSend lowU email0 purpose dailyLimit now s =
     (let email = ToLower lowU (TrimSpace email0) in
      if email = [] \<or> purpose = [] then (Some (OtherError ''emailcode: empty email or purpose''), s)
      else precheckSendMem email purpose dailyLimit now s)"

definition RollbackPrecheck ::
  "(string \<Rightarrow> string) \<Rightarrow> string \<Rightarrow> string \<Rightarrow> MemCodes \<Rightarrow> error option \<times> MemCodes" where
  "RollbackPrecheck lowU email0 purpose s =
     (let k = code_key purpose (ToLower lowU (TrimSpace email0)) in
      case map_of s k of
        None \<Rightarrow> (None, s)
      | Some e \<Rightarrow>
          (None, if me_dailyCount e > 0 then mput k (e\<lparr>me_dailyCount := me_dailyCount e - 1\<rparr>) s else s))"

definition commitSendMem ::
  "string \<Rightarrow> string \<Rightarrow> string \<Rightarrow> duration \<Rightarrow> duration \<Rightarrow> gotime \<Rightarrow> MemCodes \<Rightarrow> error option \<times> MemCodes" where
  "commitSendMem email purpose codeHash codeHashTTL cooldown now s =
     (let k = code_key purpose email;
          e = (case map_of s k of None \<Rightarrow> memEntry0 | Some e \<Rightarrow> e)
      in (None, mput k (e\<lparr>me_hash := codeHash, me_expiresAt := now + codeHashTTL, me_attempts := 0,
            me_coolUntil := now + cooldown\<rparr>) s))"

definition CommitSend ::
  "(string \<Rightarrow> string) \<Rightarrow> error + string \<Rightarrow> string \<Rightarrow> string \<Rightarrow> duration \<Rightarrow> duration \<Rightarrow> gotime \<Rightarrow> MemCodes \<Rightarrow>
   error option \<times> MemCodes" where
  "CommitSend lowU hashed email purpose codeHashTTL cooldown now s =
     (case hashed of
        Inl err \<Rightarrow> (Some err, s)
      | Inr hash \<Rightarrow> commitSendMem (ToLower lowU (TrimSpace email)) purpose hash codeHashTTL cooldown now s)"

definition verifyMem ::
  "(string \<Rightarrow> string \<Rightarrow> bool) \<Rightarrow> string \<Rightarrow> string \<Rightarrow> string \<Rightarrow> int \<Rightarrow> gotime \<Rightarrow> MemCodes \<Rightarrow> error option \<times> MemCodes" where
  "verifyMem cmp email purpose plain maxAttempts now s =
     (let k = code_key purpose email in
      case map_of s k of
        None \<Rightarrow> (Some ErrInvalidCode, s)
      | Some e \<Rightarrow>
          if me_hash e = [] then (Some ErrInvalidCode, s)
          else if now > me_expiresAt e then (Some ErrExpired, mput k (e\<lparr>me_hash := []\<rparr>) s)
          else if \<not> cmp (me_hash e) (TrimSpace plain) then
            (let e1 = e\<lparr>me_attempts := me_attempts e + 1\<rparr> in
             if me_attempts e1 \<ge> maxAttempts then (Some ErrMaxAttempts, mput k (e1\<lparr>me_hash := []\<rparr>) s)
             else (Some ErrInvalidCode, mput k e1 s))
          else (None, mput k (e\<lparr>me_hash := []\<rparr>) s))"

definition Verify ::
  "(string \<Rightarrow> string) \<Rightarrow> (string \<Rightarrow> string \<Rightarrow> bool) \<Rightarrow> string \<Rightarrow> string \<Rightarrow> string \<Rightarrow> int \<Rightarrow> gotime \<Rightarrow> MemCodes \<Rightarrow>
   error option \<times> MemCodes" where
  "Verify lowU cmp email purpose plain maxAttempts now s =
     verifyMem cmp (ToLower lowU (TrimSpace email)) purpose plain maxAttempts now s"

text \<open>
  \<open>rnd i\<close> is the outcome of the \<open>i\<close>-th \<open>rand.Read\<close> of one byte, and \<open>dc\<close> the fixed code that tests may set.
\<close>

fun random_digits :: "(nat \<Rightarrow> error + nat) \<Rightarrow> nat \<Rightarrow> nat \<Rightarrow> error + string" where
  "random_digits rnd i 0 = Inr []"
| "random_digits rnd i (Suc n) =
     ebind (rnd i) (\<lambda>b. ebind (random_digits rnd (Suc i) n) (\<lambda>s. Inr (''0123456789'' ! (b mod 10) # s)))"

definition GenerateNumericCode :: "string \<Rightarrow> (nat \<Rightarrow> error + nat) \<Rightarrow> int \<Rightarrow> error + string" where
  "GenerateNumericCode dc rnd n =
     (if dc \<noteq> [] then
        (if int (length dc) \<noteq> n then Inl (OtherError ''emailcode: deterministic code length mismatch'') else Inr dc)
      else if n \<le> 0 \<or> n > 12 then Inl (OtherError ''emailcode: invalid length'')
      else random_digits rnd 0 (nat n))"

definition redactEmail :: "string \<Rightarrow> string" where
  "redactEmail e0 =
     (let e = TrimSpace e0 in
      if e = [] then ''(empty)''
      else
        let i = IndexByte e (CHR ''@'') in
        if i \<le> 0 then ''***'' else take 1 e @ ''***@'' @ drop (nat i + 1) e)"

section \<open>Codes\<close>

lemma verifyMem_entry:
  "map_of (snd (verifyMem cmp email purpose plain maxAttempts now s)) k' =
     (if k' = code_key purpose email then
        map_option (\<lambda>e. if me_hash e = [] then e
          else if now > me_expiresAt e then e\<lparr>me_hash := []\<rparr>
          else if cmp (me_hash e) (TrimSpace plain) then e\<lparr>me_hash := []\<rparr>
          else if me_attempts e + 1 \<ge> maxAttempts then e\<lparr>me_attempts := me_attempts e + 1, me_hash := []\<rparr>
          else e\<lparr>me_attempts := me_attempts e + 1\<rparr>) (map_of s k')
      else map_of s k')"
  by (auto simp: verifyMem_def Let_def update_conv' split: option.splits)

lemma verifyMem_none:
  "fst (verifyMem cmp email purpose plain maxAttempts now s) = None \<longleftrightarrow>
     (\<exists>e. map_of s (code_key purpose email) = Some e \<and> me_hash e \<noteq> [] \<and> now \<le> me_expiresAt e \<and>
        cmp (me_hash e) (TrimSpace plain))"
  by (auto simp: verifyMem_def Let_def split: option.splits)

text \<open>
  A code is good for one use: after a successful verification, every further attempt for the same address and
  purpose fails, whatever is presented and whenever, until a new code is sent.
\<close>

theorem code_used_once:
  assumes "Verify lowU cmp email purpose plain maxAttempts now s = (None, s')"
  shows "Verify lowU cmp email purpose plain' maxAttempts' now' s' = (Some ErrInvalidCode, s')"
proof -
  let ?k = "code_key purpose (ToLower lowU (TrimSpace email))"
  have "fst (verifyMem cmp (ToLower lowU (TrimSpace email)) purpose plain maxAttempts now s) = None"
    and s': "s' = snd (verifyMem cmp (ToLower lowU (TrimSpace email)) purpose plain maxAttempts now s)"
    using assms by (simp_all add: Verify_def)
  then obtain e where "map_of s' ?k = Some (e\<lparr>me_hash := []\<rparr>)"
    by (auto simp: verifyMem_none s' verifyMem_entry)
  then show ?thesis by (simp add: Verify_def verifyMem_def)
qed

text \<open>A store after a code with the hash \<open>123456\<close> was sent to one address, with an equality test in the place of bcrypt.\<close>

definition sample_codes :: MemCodes where
  "sample_codes = snd (CommitSend (\<lambda>s. s) (Inr ''123456'') ''ann@x.org'' ''register'' (10 * Minute) (60 * Second) 1 NewStore)"

theorem code_used_once_witness:
  "\<exists>s'. Verify (\<lambda>s. s) (=) ''ann@x.org'' ''register'' ''123456'' 5 2 sample_codes = (None, s') \<and>
     Verify (\<lambda>s. s) (=) ''ann@x.org'' ''register'' ''123456'' 5 3 s' = (Some ErrInvalidCode, s')"
proof -
  have "fst (Verify (\<lambda>s. s) (=) ''ann@x.org'' ''register'' ''123456'' 5 2 sample_codes) = None" by code_simp
  then obtain s' where "Verify (\<lambda>s. s) (=) ''ann@x.org'' ''register'' ''123456'' 5 2 sample_codes = (None, s')"
    by (metis prod.collapse)
  with code_used_once [OF this] show ?thesis by blast
qed

text \<open>Guessing: verification attempts one after the other.\<close>

fun guesses ::
  "(string \<Rightarrow> string \<Rightarrow> bool) \<Rightarrow> string \<Rightarrow> string \<Rightarrow> int \<Rightarrow> (string \<times> gotime) list \<Rightarrow> MemCodes \<Rightarrow> MemCodes" where
  "guesses cmp email purpose maxAttempts [] s = s"
| "guesses cmp email purpose maxAttempts ((plain, now) # gs) s =
     guesses cmp email purpose maxAttempts gs (snd (verifyMem cmp email purpose plain maxAttempts now s))"

lemma guesses_entry:
  assumes "map_of s (code_key purpose email) = Some e"
    and "me_hash e = [] \<or> me_hash e = h \<and> me_attempts e = n \<and> (0 < n \<longrightarrow> n < maxAttempts)" and "0 \<le> n"
    and "\<And>plain now. (plain, now) \<in> set gs \<Longrightarrow> \<not> cmp h (TrimSpace plain)"
  shows "\<exists>e'. map_of (guesses cmp email purpose maxAttempts gs s) (code_key purpose email) = Some e' \<and>
    (me_hash e' = [] \<or> me_hash e' = h \<and> (0 < n + int (length gs) \<longrightarrow> n + int (length gs) < maxAttempts))"
  using assms
proof (induction gs arbitrary: s e n)
  case (Cons g gs)
  obtain plain now where g: "g = (plain, now)" by (cases g)
  let ?s = "snd (verifyMem cmp email purpose plain maxAttempts now s)"
  have "\<not> cmp h (TrimSpace plain)" using Cons.prems(4) [of plain now] g by simp
  with Cons.prems(1,2,3) obtain e1 where "map_of ?s (code_key purpose email) = Some e1"
    "me_hash e1 = [] \<or> me_hash e1 = h \<and> me_attempts e1 = n + 1 \<and> (0 < n + 1 \<longrightarrow> n + 1 < maxAttempts)"
    by (auto simp: verifyMem_entry)
  from Cons.IH [OF this] Cons.prems(3) Cons.prems(4) [OF list.set_intros(2)] show ?case
    by (simp add: g ac_simps)
qed auto

text \<open>
  Guessing is bounded.  After a code is sent, a run of \<open>maxAttempts\<close> wrong guesses (at whatever times) destroys
  it: then the right code is refused as well.
\<close>

theorem guessing_bounded:
  assumes "0 < maxAttempts" and "int (length gs) = maxAttempts"
    and "\<And>plain now. (plain, now) \<in> set gs \<Longrightarrow> \<not> cmp h (TrimSpace plain)"
  shows "fst (verifyMem cmp email purpose plain maxAttempts now
    (guesses cmp email purpose maxAttempts gs (snd (commitSendMem email purpose h ttl cooldown t0 s)))) =
      Some ErrInvalidCode"
proof -
  let ?s = "snd (commitSendMem email purpose h ttl cooldown t0 s)"
  obtain e where e: "map_of ?s (code_key purpose email) = Some e" "me_hash e = h" "me_attempts e = 0"
    by (simp add: commitSendMem_def update_conv' Let_def)
  obtain e' where e': "map_of (guesses cmp email purpose maxAttempts gs ?s) (code_key purpose email) = Some e'"
    "me_hash e' = [] \<or> me_hash e' = h \<and> (0 < int (length gs) \<longrightarrow> int (length gs) < maxAttempts)"
    using guesses_entry [OF e(1), where h = h and n = 0 and gs = gs and cmp = cmp and maxAttempts = maxAttempts]
      e(2,3) assms(3) by auto
  with assms(1,2) have "me_hash e' = []" by simp
  with e'(1) show ?thesis by (simp add: verifyMem_def)
qed

theorem guessing_bounded_witness:
  "fst (verifyMem (=) ''ann@x.org'' ''register'' ''123456'' 2 9
    (guesses (=) ''ann@x.org'' ''register'' 2 [(''000000'', 3), (''111111'', 4)]
      (snd (commitSendMem ''ann@x.org'' ''register'' ''123456'' (10 * Minute) (60 * Second) 1 NewStore)))) =
    Some ErrInvalidCode"
proof -
  have "TrimSpace ''000000'' = ''000000''" "TrimSpace ''111111'' = ''111111''" by code_simp+
  then show ?thesis by (intro guessing_bounded) auto
qed

section \<open>Send limits\<close>

text \<open>
  The cooldown: for \<open>cooldown\<close> after a code was sent, a further request for the same address and purpose is
  refused with the remaining time, and takes nothing from the daily quota.
\<close>

theorem cooldown_refuses:
  assumes "t0 \<le> now" and "now < t0 + cooldown" and "is_int64 cooldown"
  shows "precheckSendMem email purpose dailyLimit now (snd (commitSendMem email purpose h ttl cooldown t0 s)) =
    (Some (ErrCooldown (t0 + cooldown - now)), snd (commitSendMem email purpose h ttl cooldown t0 s))"
proof -
  have "Sub (t0 + cooldown) now = t0 + cooldown - now"
    using assms by (simp add: Sub_def is_int64_def minInt64_def)
  moreover have "mput k v (mput k v s) = mput k v s" for k and v :: memEntry
    by (induction s) auto
  ultimately show ?thesis
    using assms(2) by (simp add: precheckSendMem_def commitSendMem_def Let_def update_conv')
qed

theorem cooldown_refuses_witness:
  "fst (precheckSendMem ''ann@x.org'' ''register'' 5 (31 * Second)
     (snd (commitSendMem ''ann@x.org'' ''register'' ''123456'' (10 * Minute) (60 * Second) Second NewStore))) =
   Some (ErrCooldown (30 * Second))"
  using cooldown_refuses [of Second "31 * Second" "60 * Second"]
  by (simp add: Second_def is_int64_def minInt64_def maxInt64_def)

text \<open>Requests for codes one after the other: how many are let through.\<close>

fun accepted_sends :: "string \<Rightarrow> string \<Rightarrow> int \<Rightarrow> gotime list \<Rightarrow> MemCodes \<Rightarrow> nat" where
  "accepted_sends email purpose dailyLimit [] s = 0"
| "accepted_sends email purpose dailyLimit (now # ts) s =
     (case precheckSendMem email purpose dailyLimit now s of
        (err, s') \<Rightarrow> (if err = None then 1 else 0) + accepted_sends email purpose dailyLimit ts s')"

definition used_today :: "string \<Rightarrow> string \<Rightarrow> int \<Rightarrow> MemCodes \<Rightarrow> int" where
  "used_today email purpose day s =
     (case map_of s (code_key purpose email) of
        None \<Rightarrow> 0
      | Some e \<Rightarrow> if me_dailyDay e = Some day then me_dailyCount e else 0)"

lemma precheck_used:
  "used_today email purpose (utcDay now) (snd (precheckSendMem email purpose dailyLimit now s)) =
     used_today email purpose (utcDay now) s +
       (if fst (precheckSendMem email purpose dailyLimit now s) = None then 1 else 0) \<and>
   (fst (precheckSendMem email purpose dailyLimit now s) = None \<longrightarrow>
     used_today email purpose (utcDay now) s < dailyLimit)"
  by (auto simp: precheckSendMem_def used_today_def Let_def update_conv' memEntry0_def split: option.splits)

lemma accepted_sends_bound:
  assumes "\<And>t. t \<in> set ts \<Longrightarrow> utcDay t = day"
  shows "int (accepted_sends email purpose dailyLimit ts s) \<le> max 0 (dailyLimit - used_today email purpose day s)"
  using assms
proof (induction ts arbitrary: s)
  case (Cons now ts)
  obtain err s' where p: "precheckSendMem email purpose dailyLimit now s = (err, s')"
    by (cases "precheckSendMem email purpose dailyLimit now s")
  have "utcDay now = day" using Cons.prems by simp
  with precheck_used [of email purpose now dailyLimit s] p
  have "used_today email purpose day s' = used_today email purpose day s + (if err = None then 1 else 0)"
    "err = None \<longrightarrow> used_today email purpose day s < dailyLimit" by auto
  with Cons.IH [of s'] Cons.prems p show ?case by auto
qed simp

text \<open>
  The daily quota: of all requests for one address and purpose on one UTC day, no more are let through than the
  quota leaves, in whatever state the day starts.
\<close>

theorem daily_quota:
  assumes "\<And>t. t \<in> set ts \<Longrightarrow> utcDay t = day" and "0 \<le> dailyLimit" and "used_today email purpose day s \<ge> 0"
  shows "int (accepted_sends email purpose dailyLimit ts s) \<le> dailyLimit"
  using accepted_sends_bound [OF assms(1), of ts email purpose dailyLimit s] assms(2,3) by linarith

theorem daily_quota_witness:
  "int (accepted_sends ''ann@x.org'' ''register'' 2 [1, 2, 3, 4] NewStore) \<le> 2 \<and>
   accepted_sends ''ann@x.org'' ''register'' 2 [1, 2, 3, 4] NewStore = 2"
proof
  have "utcDay t = 0" if "t \<in> set [1, 2, 3, 4]" for t
    using that by (auto simp: utcDay_def Hour_def Minute_def Second_def)
  then show "int (accepted_sends ''ann@x.org'' ''register'' 2 [1, 2, 3, 4] NewStore) \<le> 2"
    by (rule daily_quota) (simp_all add: used_today_def NewStore_def)
  show "accepted_sends ''ann@x.org'' ''register'' 2 [1, 2, 3, 4] NewStore = 2" by code_simp
qed

section \<open>Generator and redaction\<close>

lemma random_digits_shape:
  "random_digits rnd i n = Inr s \<Longrightarrow> length s = n \<and> list_all is_digit s"
proof (induction rnd i n arbitrary: s rule: random_digits.induct)
  case (2 rnd i n)
  then obtain b s' where b: "s = ''0123456789'' ! (b mod 10) # s'" "random_digits rnd (Suc i) n = Inr s'" by auto
  have "is_digit (''0123456789'' ! d)" if "d < 10" for d :: nat
  proof -
    have "d \<in> {0, 1, 2, 3, 4, 5, 6, 7, 8, 9}" using that by auto
    then show ?thesis by (elim insertE) (simp_all add: is_digit_def byte_def)
  qed
  with 2 b show ?case by auto
qed simp

text \<open>
  A generated code has the configured number of digits; the generator returns for every length from 1 to 12
  unless the random source fails.
\<close>

theorem GenerateNumericCode_shape:
  assumes "GenerateNumericCode [] rnd n = Inr s"
  shows "int (length s) = n \<and> list_all is_digit s \<and> 1 \<le> n \<and> n \<le> 12"
  using assms random_digits_shape [of rnd 0 "nat n" s] by (auto simp: GenerateNumericCode_def split: if_splits)

theorem GenerateNumericCode_shape_witness:
  "GenerateNumericCode [] (\<lambda>i. Inr (37 * i)) 6 = Inr ''074185'' \<and> list_all is_digit ''074185''"
proof -
  have r: "GenerateNumericCode [] (\<lambda>i. Inr (37 * i)) 6 = Inr ''074185''" by code_simp
  from GenerateNumericCode_shape [OF this] r show ?thesis by blast
qed

end
