(* ===== verification/Rate_Limiter.thy ===== *)
theory Rate_Limiter
  imports Go_Prelude
begin

text \<open>
  The sliding-window request limiter of \<^verbatim>\<open>internal/api/auth_handlers.go\<close>, and what a run of calls with a
  clock that does not go back looks like: no window ever holds more than the limit, and a request is refused only
  when its window is full.
\<close>

section \<open>Limiter\<close>

record slidingWindowLimiter =
  sl_hits :: "(string, gotime list) gomap"
  sl_limit :: int
  sl_win :: duration

definition newIPLimiter :: "int \<Rightarrow> duration \<Rightarrow> slidingWindowLimiter" where
  "newIPLimiter limit window = \<lparr>sl_hits = [], sl_limit = limit, sl_win = window\<rparr>"

definition allow :: "gotime \<Rightarrow> string \<Rightarrow> slidingWindowLimiter \<Rightarrow> bool \<times> slidingWindowLimiter" where
  "allow now ip l =
     (if sl_limit l \<le> 0 then (True, l)
      else
        let hits = (case map_of (sl_hits l) ip of None \<Rightarrow> [] | Some ts \<Rightarrow> ts);
            cutoff = now - sl_win l;
            kept = filter (\<lambda>t. t > cutoff) hits
        in if int (length kept) \<ge> sl_limit l then (False, l)
           else (True, l\<lparr>sl_hits := mput ip (kept @ [now]) (sl_hits l)\<rparr>))"

section \<open>Runs\<close>

text \<open>The calls that a run of the limiter admits, with the limiter after it.\<close>

fun limiter_run :: "slidingWindowLimiter \<Rightarrow> (gotime \<times> string) list \<Rightarrow> (gotime \<times> string) list \<times> slidingWindowLimiter" where
  "limiter_run l [] = ([], l)"
| "limiter_run l ((now, ip) # calls) =
     (case allow now ip l of
        (ok, l') \<Rightarrow> (case limiter_run l' calls of (adm, l'') \<Rightarrow> (if ok then (now, ip) # adm else adm, l'')))"

definition call_times :: "string \<Rightarrow> (gotime \<times> string) list \<Rightarrow> gotime list" where
  "call_times ip H = map fst (filter (\<lambda>x. snd x = ip) H)"

text \<open>The admitted calls of a client in the window that ends at \<open>t\<close>.\<close>

definition in_window :: "duration \<Rightarrow> gotime \<Rightarrow> string \<Rightarrow> (gotime \<times> string) list \<Rightarrow> gotime list" where
  "in_window win t ip H = filter (\<lambda>t'. t - win < t' \<and> t' \<le> t) (call_times ip H)"

abbreviation hits_of :: "slidingWindowLimiter \<Rightarrow> string \<Rightarrow> gotime list" where
  "hits_of l ip \<equiv> (case map_of (sl_hits l) ip of None \<Rightarrow> [] | Some ts \<Rightarrow> ts)"

text \<open>
  The limiter remembers of the admitted calls \<open>H\<close> all that a call at \<open>t\<close> or later can see.
\<close>

definition remembers :: "slidingWindowLimiter \<Rightarrow> (gotime \<times> string) list \<Rightarrow> gotime \<Rightarrow> bool" where
  "remembers l H t \<longleftrightarrow>
     (\<forall>ip c. t - sl_win l \<le> c \<longrightarrow> filter ((<) c) (hits_of l ip) = filter ((<) c) (call_times ip H)) \<and>
     (\<forall>x \<in> set H. fst x \<le> t) \<and>
     (\<forall>t' ip. int (length (in_window (sl_win l) t' ip H)) \<le> sl_limit l)"

lemma call_times_append [simp]: "call_times ip (H @ K) = call_times ip H @ call_times ip K"
  by (simp add: call_times_def)

lemma call_times_Cons: "call_times ip [(t, ip')] = (if ip' = ip then [t] else [])"
  by (simp add: call_times_def)

lemma call_times_le: "\<forall>x \<in> set H. fst x \<le> t \<Longrightarrow> t' \<in> set (call_times ip H) \<Longrightarrow> t' \<le> t"
  by (auto simp: call_times_def)

lemma remembers_recent:
  assumes "remembers l H t" and "t \<le> now"
  shows "filter ((<) (now - sl_win l)) (hits_of l ip) = in_window (sl_win l) now ip H"
proof -
  have "filter ((<) (now - sl_win l)) (hits_of l ip) = filter ((<) (now - sl_win l)) (call_times ip H)"
    using assms by (simp add: remembers_def)
  also have "\<dots> = in_window (sl_win l) now ip H"
    unfolding in_window_def using assms by (auto simp: remembers_def dest!: call_times_le intro!: filter_cong)
  finally show ?thesis .
qed

lemma allow_decides:
  assumes "remembers l H t" and "t \<le> now" and "0 < sl_limit l"
  shows "fst (allow now ip l) \<longleftrightarrow> int (length (in_window (sl_win l) now ip H)) < sl_limit l"
  using remembers_recent [OF assms(1,2), of ip] assms(3) by (auto simp: allow_def Let_def)

lemma length_filter_imp: "(\<And>x. x \<in> set xs \<Longrightarrow> P x \<Longrightarrow> Q x) \<Longrightarrow> length (filter P xs) \<le> length (filter Q xs)"
  by (induction xs) (auto simp: le_SucI)

lemma later_window:
  assumes "\<forall>x \<in> set H. fst x \<le> now" and "now \<le> t"
  shows "length (in_window win t ip H) \<le> length (in_window win now ip H)"
  unfolding in_window_def by (rule length_filter_imp) (use assms call_times_le [OF assms(1)] in fastforce)

lemma remembers_later: "remembers l H t \<Longrightarrow> t \<le> now \<Longrightarrow> remembers l H now"
  by (fastforce simp: remembers_def)

lemma remembers_admit:
  assumes r: "remembers l H t" and t: "t \<le> now"
    and room: "int (length (in_window (sl_win l) now ip H)) < sl_limit l"
  shows "remembers (l\<lparr>sl_hits := mput ip (filter ((<) (now - sl_win l)) (hits_of l ip) @ [now]) (sl_hits l)\<rparr>)
    (H @ [(now, ip)]) now"
proof -
  have old: "\<forall>x \<in> set H. fst x \<le> now" using r t by (fastforce simp: remembers_def)
  have "int (length (in_window (sl_win l) t' ip' (H @ [(now, ip)]))) \<le> sl_limit l" for t' ip'
  proof (cases "ip' = ip \<and> now \<le> t'")
    case True
    with later_window [OF old, of t' "sl_win l" ip] room show ?thesis
      by (simp add: in_window_def call_times_Cons)
  next
    case False
    with r show ?thesis by (auto simp: remembers_def in_window_def call_times_Cons)
  qed
  moreover have "filter ((<) c) (filter ((<) (now - sl_win l)) (hits_of l ip)) = filter ((<) c) (call_times ip H)"
    if "now - sl_win l \<le> c" for c
    using that r t by (auto simp: remembers_def intro!: filter_cong)
  ultimately show ?thesis
    using r t old by (auto simp: remembers_def update_conv' call_times_Cons intro!: filter_cong)
qed

lemma remembers_allow:
  assumes "remembers l H t" and "t \<le> now" and "0 < sl_limit l" and "allow now ip l = (ok, l')"
  shows "remembers l' (if ok then H @ [(now, ip)] else H) now \<and> sl_limit l' = sl_limit l \<and> sl_win l' = sl_win l"
proof (cases ok)
  case True
  with assms(4) allow_decides [OF assms(1-3), of ip] have "int (length (in_window (sl_win l) now ip H)) < sl_limit l"
    by simp
  with remembers_admit [OF assms(1,2)] assms(3,4) True show ?thesis
    by (auto simp: allow_def Let_def split: if_splits)
next
  case False
  with assms show ?thesis by (auto simp: allow_def Let_def remembers_later split: if_splits)
qed

lemma remembers_run:
  assumes "remembers l H t" and "sorted (t # map fst calls)" and "0 < sl_limit l"
    and "limiter_run l calls = (adm, l')"
  shows "(\<exists>t'. remembers l' (H @ adm) t' \<and> (\<forall>now. sorted (t # map fst calls @ [now]) \<longrightarrow> t' \<le> now)) \<and>
    sl_limit l' = sl_limit l \<and> sl_win l' = sl_win l"
  using assms
proof (induction l calls arbitrary: H t adm l' rule: limiter_run.induct)
  case (2 l now ip calls)
  obtain ok l1 where ok: "allow now ip l = (ok, l1)" by fastforce
  obtain adm1 l2 where run: "limiter_run l1 calls = (adm1, l2)" by fastforce
  have adm: "adm = (if ok then (now, ip) # adm1 else adm1)" "l' = l2" using 2(5) ok run by auto
  have step: "remembers l1 (if ok then H @ [(now, ip)] else H) now" "sl_limit l1 = sl_limit l" "sl_win l1 = sl_win l"
    using remembers_allow [OF 2(2) _ 2(4) ok] 2(3) by auto
  from 2(1) [OF ok [symmetric] step(1) _ _ run] 2(3,4) step(2,3) show ?case
    by (cases ok) (auto simp: adm)
qed auto

text \<open>
  C40: over any run of requests in the order of the clock, the limiter admits from one client address at most
  \<open>limit\<close> requests in every window of length \<open>win\<close>, and it refuses a request exactly when the window that ends with
  it already holds \<open>limit\<close> admitted ones.
\<close>

theorem limiter_window:
  assumes "limiter_run (newIPLimiter limit win) calls = (adm, l)" and "sorted (map fst calls @ [now])" and "0 < limit"
  shows "(\<forall>t ip. int (length (in_window win t ip adm)) \<le> limit) \<and>
    (fst (allow now ip l) \<longleftrightarrow> int (length (in_window win now ip adm)) < limit)"
proof -
  define t where "t = Min (insert now (set (map fst calls)))"
  have "sorted (t # map fst calls @ [now])" unfolding t_def using assms(2) by auto
  moreover from this have "sorted (t # map fst calls)" by (simp add: sorted_append)
  moreover have "remembers (newIPLimiter limit win) [] t"
    using assms(3) by (simp add: remembers_def newIPLimiter_def call_times_def in_window_def)
  ultimately obtain t' where r: "remembers l adm t'" "t' \<le> now" "sl_limit l = limit" "sl_win l = win"
    using remembers_run [OF _ _ _ assms(1), of "[]" t] assms(3) by (auto simp: newIPLimiter_def)
  with allow_decides [OF r(1,2), of ip] assms(3) show ?thesis by (simp add: remembers_def)
qed

theorem limiter_window_witness:
  "fst (limiter_run (newIPLimiter 2 10) [(1, ''a''), (2, ''a''), (3, ''a''), (5, ''b''), (11, ''a'')]) =
     [(1, ''a''), (2, ''a''), (5, ''b''), (11, ''a'')] \<and>
   (\<forall>t ip. int (length (in_window 10 t ip [(1, ''a''), (2, ''a''), (5, ''b''), (11, ''a'')])) \<le> 2)"
proof -
  have run: "fst (limiter_run (newIPLimiter 2 10) [(1, ''a''), (2, ''a''), (3, ''a''), (5, ''b''), (11, ''a'')]) =
     [(1, ''a''), (2, ''a''), (5, ''b''), (11, ''a'')]" by code_simp
  have "limiter_run (newIPLimiter 2 10) [(1, ''a''), (2, ''a''), (3, ''a''), (5, ''b''), (11, ''a'')] =
     ([(1, ''a''), (2, ''a''), (5, ''b''), (11, ''a'')],
      snd (limiter_run (newIPLimiter 2 10) [(1, ''a''), (2, ''a''), (3, ''a''), (5, ''b''), (11, ''a'')]))"
    using run by (metis prod.collapse)
  from run limiter_window [OF this, of 11] show ?thesis by simp
qed

end
