(* ===== verification/Memory_Backend.thy ===== *)
theory Memory_Backend
  imports Presence_Memory Room_Service Session_Memory Email_Code Rate_Limiter
begin

text \<open>
  The in-process backends: the playback-state cache (\<^verbatim>\<open>internal/cache/memory/room_state_cache.go\<close>), the access
  cache (\<^verbatim>\<open>internal/cache/memory/room_access.go\<close>), the room store and the realtime double of the API tests
  (\<^verbatim>\<open>internal/api/test_stores_test.go\<close>, \<^verbatim>\<open>internal/api/router_test.go\<close>), and the presence of theory
  \<open>Presence_Memory\<close>.  Put together in one world they satisfy every contract of theory \<open>Room_Interfaces\<close>, so
  that the lemmas about the room service hold of the service that runs on them.
\<close>

section \<open>Playback-state cache\<close>

type_synonym MemStates = "(string, RoomState) gomap"

definition NewRoomStateCache :: MemStates where
  "NewRoomStateCache = []"

definition mem_SetRoomState ::
  "error option \<Rightarrow> gotime \<Rightarrow> string \<Rightarrow> RoomState \<Rightarrow> MemStates \<Rightarrow> error option \<times> MemStates" where
  "mem_SetRoomState ctx now roomID state c =
     (case ctx of
        Some err \<Rightarrow> (Some err, c)
      | None \<Rightarrow>
          let copy1 = (if IsZero (rs_UpdatedAt state) then state\<lparr>rs_UpdatedAt := now\<rparr> else state)
          in (None, mput roomID (copy1\<lparr>rs_RoomID := roomID\<rparr>) c))"

definition mem_GetRoomState ::
  "error option \<Rightarrow> string \<Rightarrow> MemStates \<Rightarrow> (error + RoomState) \<times> MemStates" where
  "mem_GetRoomState ctx roomID c =
     (case ctx of
        Some err \<Rightarrow> (Inl err, c)
      | None \<Rightarrow> (case map_of c roomID of None \<Rightarrow> (Inl ErrNotFound, c) | Some state \<Rightarrow> (Inr state, c)))"

definition mem_DeleteRoomState :: "error option \<Rightarrow> string \<Rightarrow> MemStates \<Rightarrow> error option \<times> MemStates" where
  "mem_DeleteRoomState ctx roomID c =
     (case ctx of Some err \<Rightarrow> (Some err, c) | None \<Rightarrow> (None, mdelete roomID c))"

section \<open>Access cache\<close>

type_synonym MemAccess = "(string, string goset) gomap"

definition NewRoomAccess :: MemAccess where
  "NewRoomAccess = []"

definition mem_GrantRoomAccess :: "error option \<Rightarrow> string \<Rightarrow> string \<Rightarrow> MemAccess \<Rightarrow> error option \<times> MemAccess" where
  "mem_GrantRoomAccess ctx roomID userID c =
     (case ctx of
        Some err \<Rightarrow> (Some err, c)
      | None \<Rightarrow>
          if roomID = [] \<or> userID = [] then (None, c)
          else
            let m = (case map_of c roomID of None \<Rightarrow> [] | Some m \<Rightarrow> m)
            in (None, mput roomID (mput userID () m) c))"

definition mem_HasRoomAccess ::
  "error option \<Rightarrow> string \<Rightarrow> string \<Rightarrow> MemAccess \<Rightarrow> (error + bool) \<times> MemAccess" where
  "mem_HasRoomAccess ctx roomID userID c =
     (case ctx of
        Some err \<Rightarrow> (Inl err, c)
      | None \<Rightarrow>
          if roomID = [] \<or> userID = [] then (Inr False, c)
          else
            (case map_of c roomID of
               None \<Rightarrow> (Inr False, c)
             | Some m \<Rightarrow> (Inr (map_of m userID \<noteq> None), c)))"

definition mem_DeleteRoomAccess :: "error option \<Rightarrow> string \<Rightarrow> MemAccess \<Rightarrow> error option \<times> MemAccess" where
  "mem_DeleteRoomAccess ctx roomID c =
     (case ctx of Some err \<Rightarrow> (Some err, c) | None \<Rightarrow> (None, mdelete roomID c))"

definition granted :: "MemAccess \<Rightarrow> (string \<times> string) set" where
  "granted c = {(r, u). \<exists>m. map_of c r = Some m \<and> map_of m u \<noteq> None}"

section \<open>Room store\<close>

text \<open>
  The calls do not look at the context.  \<open>newID\<close> stands for the identifier that \<open>uuid.NewString\<close> returns, and
  \<open>lowU\<close> for the Unicode case tables.
\<close>

type_synonym MemRooms = "(string, Room) gomap"

definition mem_CreateRoom :: "gotime \<Rightarrow> string \<Rightarrow> Room \<Rightarrow> MemRooms \<Rightarrow> Room \<times> MemRooms" where
  "mem_CreateRoom now newID room0 c =
     (let room1 = (if rm_ID room0 = [] then room0\<lparr>rm_ID := newID\<rparr> else room0);
          room2 = (if rm_Visibility room1 = [] then room1\<lparr>rm_Visibility := RoomVisibilityPublic\<rparr> else room1);
          room3 = (if IsZero (rm_CreatedAt room2) then room2\<lparr>rm_CreatedAt := now\<rparr> else room2);
          room = room3\<lparr>rm_UpdatedAt := now\<rparr>
      in (room, mput (rm_ID room) room c))"

definition mem_GetRoomByID :: "string \<Rightarrow> MemRooms \<Rightarrow> (error + Room) \<times> MemRooms" where
  "mem_GetRoomByID i c = ((case map_of c i of None \<Rightarrow> Inl ErrNotFound | Some room \<Rightarrow> Inr room), c)"

fun Contains :: "string \<Rightarrow> string \<Rightarrow> bool" where
  "Contains [] sub = (sub = [])"
| "Contains (c # s) sub = (HasPrefix (c # s) sub \<or> Contains s sub)"

text \<open>A negative offset makes the slice expression panic.\<close>

definition mem_ListRooms ::
  "(string \<Rightarrow> string) \<Rightarrow> ListRoomsOpts \<Rightarrow> MemRooms \<Rightarrow> (error + (Room list \<times> int)) \<times> MemRooms" where
  "mem_ListRooms lowU opts c =
     (let query = ToLower lowU (TrimSpace (lo_Query opts));
          rooms = filter (\<lambda>room. \<not> (lo_OwnerID opts \<noteq> [] \<and> rm_OwnerID room \<noteq> lo_OwnerID opts) \<and>
            \<not> (query \<noteq> [] \<and> \<not> Contains (ToLower lowU (rm_Name room)) query)) (map snd c);
          n = int (length rooms);
          offset = (if lo_Offset opts > n then n else lo_Offset opts);
          limit = (if lo_Limit opts \<le> 0 \<or> offset + lo_Limit opts > n then n - offset else lo_Limit opts)
      in (if offset < 0 then Inl (OtherError ''panic: slice bounds out of range'')
          else Inr (take (nat limit) (drop (nat offset) rooms), n), c))"

definition mem_UpdateRoom :: "gotime \<Rightarrow> Room \<Rightarrow> MemRooms \<Rightarrow> error option \<times> MemRooms" where
  "mem_UpdateRoom now room c =
     (if map_of c (rm_ID room) = None then (Some ErrNotFound, c)
      else (None, mput (rm_ID room) (room\<lparr>rm_UpdatedAt := now\<rparr>) c))"

definition mem_DeleteRoom :: "string \<Rightarrow> MemRooms \<Rightarrow> error option \<times> MemRooms" where
  "mem_DeleteRoom i c = (if map_of c i = None then (Some ErrNotFound, c) else (None, mdelete i c))"

section \<open>The world\<close>

text \<open>
  The world holds the state of every backend (those of the account service, theory \<open>Account_Memory\<close>, too), the
  \<open>Err\<close> of the request's context, the clock with the delays between its future readings, how many identifiers and
  password salts have been drawn, and the answers that the realtime service will give to publications
  (\<open>None\<close> once they are used up); for the endpoints of theory \<open>Api_Memory\<close>, the random draws so far, the variables of
  the account handler, and the answers and the log of the mail service.
\<close>

record MemWorld =
  mw_ctx :: "error option"
  mw_now :: gotime
  mw_delays :: "int list"
  mw_states :: MemStates
  mw_presence :: MemPresence
  mw_access :: MemAccess
  mw_rooms :: MemRooms
  mw_users :: "(string, User) gomap"
  mw_sessions :: MemSessions
  mw_codes :: MemCodes
  mw_ids :: nat
  mw_salts :: nat
  mw_answers :: "error option list"
  mw_log :: "(string \<times> string \<times> pub_data) list"
  mw_draws :: nat
  mw_limiter :: slidingWindowLimiter
  mw_regLastHit :: "(string, gotime) gomap"
  mw_mailAnswers :: "error option list"
  mw_outbox :: "(string \<times> string \<times> string) list"

definition mem_clock :: "(MemWorld, gotime) io" where
  "mem_clock = State (\<lambda>w. case mw_delays w of
     [] \<Rightarrow> (mw_now w, w)
   | d # ds \<Rightarrow> (mw_now w + max 0 d, w\<lparr>mw_now := mw_now w + max 0 d, mw_delays := ds\<rparr>))"

definition on_states :: "(error option \<Rightarrow> gotime \<Rightarrow> MemStates \<Rightarrow> 'a \<times> MemStates) \<Rightarrow> (MemWorld, 'a) io" where
  "on_states f = State (\<lambda>w. case f (mw_ctx w) (mw_now w) (mw_states w) of (x, c) \<Rightarrow> (x, w\<lparr>mw_states := c\<rparr>))"

definition on_presence :: "(error option \<Rightarrow> gotime \<Rightarrow> MemPresence \<Rightarrow> 'a \<times> MemPresence) \<Rightarrow> (MemWorld, 'a) io" where
  "on_presence f = State (\<lambda>w. case f (mw_ctx w) (mw_now w) (mw_presence w) of (x, p) \<Rightarrow> (x, w\<lparr>mw_presence := p\<rparr>))"

definition on_access :: "(error option \<Rightarrow> MemAccess \<Rightarrow> 'a \<times> MemAccess) \<Rightarrow> (MemWorld, 'a) io" where
  "on_access f = State (\<lambda>w. case f (mw_ctx w) (mw_access w) of (x, c) \<Rightarrow> (x, w\<lparr>mw_access := c\<rparr>))"

definition on_rooms :: "(gotime \<Rightarrow> MemRooms \<Rightarrow> 'a \<times> MemRooms) \<Rightarrow> (MemWorld, 'a) io" where
  "on_rooms f = State (\<lambda>w. case f (mw_now w) (mw_rooms w) of (x, c) \<Rightarrow> (x, w\<lparr>mw_rooms := c\<rparr>))"

definition mem_sc :: "MemWorld RoomStateCache" where
  "mem_sc = \<lparr>SetRoomState = \<lambda>r s. on_states (\<lambda>ctx now. mem_SetRoomState ctx now r s),
     GetRoomState = \<lambda>r. on_states (\<lambda>ctx now. mem_GetRoomState ctx r),
     DeleteRoomState = \<lambda>r. on_states (\<lambda>ctx now. mem_DeleteRoomState ctx r)\<rparr>"

definition mem_pr :: "MemWorld RoomPresence" where
  "mem_pr = \<lparr>JoinRoom = \<lambda>r u n. on_presence (\<lambda>ctx now. mem_JoinRoom ctx r u n),
     LeaveRoom = \<lambda>r u. on_presence (\<lambda>ctx now. mem_LeaveRoom ctx r u),
     RemoveMember = \<lambda>r u. on_presence (\<lambda>ctx now. mem_RemoveMember ctx r u),
     ListMembers = \<lambda>r. on_presence (\<lambda>ctx now. mem_ListMembers ctx r),
     MemberCount = \<lambda>r. on_presence (\<lambda>ctx now. mem_MemberCount ctx r),
     GetUserRoom = \<lambda>u. on_presence (\<lambda>ctx now. mem_GetUserRoom ctx u),
     DeleteRoomPresence = \<lambda>r. on_presence (\<lambda>ctx now. mem_DeleteRoomPresence ctx r),
     PendingEmptyRooms = on_presence (\<lambda>ctx now. mem_PendingEmptyRooms ctx),
     ClearPendingEmpty = \<lambda>r. on_presence (\<lambda>ctx now. mem_ClearPendingEmpty ctx r),
     GetLastRoomCleanupAt = on_presence (\<lambda>ctx now. mem_GetLastRoomCleanupAt ctx),
     SetLastRoomCleanupAt = \<lambda>t. on_presence (\<lambda>ctx now. mem_SetLastRoomCleanupAt ctx t),
     TryAcquireCleanupLock = \<lambda>ttl. on_presence (\<lambda>ctx now. mem_TryAcquireCleanupLock ctx now ttl),
     ReleaseCleanupLock = on_presence (\<lambda>ctx now. mem_ReleaseCleanupLock ctx),
     ListRoomsWithMembers = on_presence (\<lambda>ctx now. mem_ListRoomsWithMembers ctx)\<rparr>"

definition mem_acc :: "MemWorld RoomAccessCache" where
  "mem_acc = \<lparr>GrantRoomAccess = \<lambda>r u. on_access (\<lambda>ctx. mem_GrantRoomAccess ctx r u),
     HasRoomAccess = \<lambda>r u. on_access (\<lambda>ctx. mem_HasRoomAccess ctx r u),
     DeleteRoomAccess = \<lambda>r. on_access (\<lambda>ctx. mem_DeleteRoomAccess ctx r)\<rparr>"

definition mem_rst :: "(nat \<Rightarrow> string) \<Rightarrow> (string \<Rightarrow> string) \<Rightarrow> MemWorld RoomStore" where
  "mem_rst uuid lowU = \<lparr>
     RoomStore_Create = \<lambda>room. State (\<lambda>w.
       case mem_CreateRoom (mw_now w) (uuid (mw_ids w)) room (mw_rooms w) of
         (room', c) \<Rightarrow> (Inr room', w\<lparr>mw_rooms := c, mw_ids := Suc (mw_ids w)\<rparr>)),
     RoomStore_GetByID = \<lambda>i. on_rooms (\<lambda>now. mem_GetRoomByID i),
     RoomStore_List = \<lambda>opts. on_rooms (\<lambda>now. mem_ListRooms lowU opts),
     RoomStore_Update = \<lambda>room. on_rooms (\<lambda>now. mem_UpdateRoom now room),
     RoomStore_Delete = \<lambda>i. on_rooms (\<lambda>now. mem_DeleteRoom i)\<rparr>"

definition mem_PublishRoomMessage :: "string \<Rightarrow> string \<Rightarrow> pub_data \<Rightarrow> (MemWorld, error option) io" where
  "mem_PublishRoomMessage roomID name data = State (\<lambda>w.
     case mw_answers w of
       Some err # as \<Rightarrow> (Some err, w\<lparr>mw_answers := as\<rparr>)
     | None # as \<Rightarrow> (None, w\<lparr>mw_answers := as, mw_log := mw_log w @ [(roomID, name, data)]\<rparr>)
     | [] \<Rightarrow> (None, w\<lparr>mw_log := mw_log w @ [(roomID, name, data)]\<rparr>))"

definition mem_pub :: "MemWorld Publisher" where
  "mem_pub = \<lparr>PublishRoomMessage = mem_PublishRoomMessage\<rparr>"

section \<open>The contracts hold\<close>

definition mem_abs :: "MemWorld \<Rightarrow> room_abs" where
  "mem_abs w = \<lparr>ab_states = map_of (mw_states w), ab_seat = seat (mw_presence w),
     ab_pending = dom (map_of (mp_pendingEmpty (mw_presence w))),
     ab_lock = mp_cleanupLock (mw_presence w), ab_lastCleanup = mp_lastCleanupAt (mw_presence w),
     ab_access = granted (mw_access w), ab_rooms = map_of (mw_rooms w), ab_chat = {},
     ab_log = mw_log w, ab_now = mw_now w\<rparr>"

definition rooms_inv :: "MemRooms \<Rightarrow> bool" where
  "rooms_inv c \<longleftrightarrow> wf_map c \<and> (\<forall>r rm. map_of c r = Some rm \<longrightarrow> rm_ID rm = r)"

definition mem_live :: "MemWorld \<Rightarrow> bool" where
  "mem_live w \<longleftrightarrow> mw_ctx w = None \<and> 0 < mw_now w \<and> presence_inv (mw_presence w) \<and> rooms_inv (mw_rooms w)"

definition mem_page :: "int \<Rightarrow> nat" where
  "mem_page limit = nat limit"

lemma run_on_states [simp]:
  "run_state (on_states f) w =
     (fst (f (mw_ctx w) (mw_now w) (mw_states w)), w\<lparr>mw_states := snd (f (mw_ctx w) (mw_now w) (mw_states w))\<rparr>)"
  by (simp add: on_states_def case_prod_beta)

lemma run_on_presence [simp]:
  "run_state (on_presence f) w =
     (fst (f (mw_ctx w) (mw_now w) (mw_presence w)), w\<lparr>mw_presence := snd (f (mw_ctx w) (mw_now w) (mw_presence w))\<rparr>)"
  by (simp add: on_presence_def case_prod_beta)

lemma run_on_access [simp]:
  "run_state (on_access f) w =
     (fst (f (mw_ctx w) (mw_access w)), w\<lparr>mw_access := snd (f (mw_ctx w) (mw_access w))\<rparr>)"
  by (simp add: on_access_def case_prod_beta)

lemma run_on_rooms [simp]:
  "run_state (on_rooms f) w = (fst (f (mw_now w) (mw_rooms w)), w\<lparr>mw_rooms := snd (f (mw_now w) (mw_rooms w))\<rparr>)"
  by (simp add: on_rooms_def case_prod_beta)

interpretation mem_states: state_cache mem_sc mem_abs mem_live
proof
  fix r a
  show "ensures mem_live mem_abs (GetRoomState mem_sc r) a
      (\<lambda>x a'. a' = a \<and> x = (case ab_states a r of None \<Rightarrow> Inl ErrNotFound | Some s \<Rightarrow> Inr s))"
    by (rule ensuresI) (auto simp: mem_sc_def mem_GetRoomState_def mem_live_def mem_abs_def split: option.splits)
  show "ensures mem_live mem_abs (SetRoomState mem_sc r s) a
      (\<lambda>x a'. x = None \<and> a' = a\<lparr>ab_states := (ab_states a)(r \<mapsto> s\<lparr>rs_RoomID := r\<rparr>)\<rparr>)"
    if "\<not> IsZero (rs_UpdatedAt s)" for s
    by (rule ensuresI) (use that in \<open>auto simp: mem_sc_def mem_SetRoomState_def mem_live_def mem_abs_def update_conv'\<close>)
  show "ensures mem_live mem_abs (DeleteRoomState mem_sc r) a
      (\<lambda>x a'. x = None \<and> a' = a\<lparr>ab_states := (ab_states a)(r := None)\<rparr>)"
    by (rule ensuresI) (auto simp: mem_sc_def mem_DeleteRoomState_def mem_live_def mem_abs_def delete_conv')
qed

lemma mem_abs_presence: "mem_abs (w\<lparr>mw_presence := p\<rparr>) = pres_abs p (mem_abs w)"
  by (simp add: mem_abs_def pres_abs_def)

lemma pres_abs_id: "pres_abs (mw_presence w) (mem_abs w) = mem_abs w"
  by (simp add: mem_abs_def pres_abs_def)

lemma mem_live_presence: "mem_live w \<Longrightarrow> presence_inv p \<Longrightarrow> mem_live (w\<lparr>mw_presence := p\<rparr>)"
  by (simp add: mem_live_def)

lemma mem_liveD:
  assumes "mem_live w"
  shows "mw_ctx w = None" "presence_inv (mw_presence w)" "rooms_inv (mw_rooms w)" "0 < mw_now w"
  using assms by (simp_all add: mem_live_def)

text \<open>A presence operation that refines a change of the seating plan meets its contract.\<close>

lemma ensures_on_presence:
  assumes "\<And>p ctx now. presence_inv p \<Longrightarrow> presence_inv (snd (f ctx now p))"
    and "\<And>p now. presence_inv p \<Longrightarrow> pres_abs p a = a \<Longrightarrow> Q (fst (f None now p)) (pres_abs (snd (f None now p)) a)"
  shows "ensures mem_live mem_abs (on_presence f) a Q"
proof (rule ensuresI)
  fix w
  assume w: "mem_live w" "mem_abs w = a"
  note inv = mem_liveD [OF w(1)]
  from assms(1) [OF inv(2)] assms(2) [OF inv(2)] w inv pres_abs_id [of w]
  show "mem_live (snd (run_state (on_presence f) w)) \<and>
      Q (fst (run_state (on_presence f) w)) (mem_abs (snd (run_state (on_presence f) w)))"
    by (simp add: mem_abs_presence mem_live_presence)
qed

lemma finite_seat: "presence_inv p \<Longrightarrow> finite (dom (seat p))"
  by (rule finite_subset [OF _ finite_dom_map_of [of "mp_userRoom p"]])
    (auto simp: seat_def split: option.splits)

lemma seat_of_pres_abs: "pres_abs p a = a \<Longrightarrow> ab_seat a = seat p \<and> ab_pending a = dom (map_of (mp_pendingEmpty p)) \<and>
    ab_lock a = mp_cleanupLock p \<and> ab_lastCleanup a = mp_lastCleanupAt p"
  by (metis pres_abs_parts)

lemma pres_abs_cong:
  "seat q = seat p \<Longrightarrow> pres_abs p a = a \<Longrightarrow> pres_abs q a =
     a\<lparr>ab_pending := dom (map_of (mp_pendingEmpty q)), ab_lock := mp_cleanupLock q, ab_lastCleanup := mp_lastCleanupAt q\<rparr>"
  by (drule seat_of_pres_abs) (simp add: pres_abs_def)

lemma seat_cong: "mp_members q = mp_members p \<Longrightarrow> mp_userRoom q = mp_userRoom p \<Longrightarrow> seat q = seat p"
  by (rule ext) (simp add: seat_def name_of_def split: option.split)

lemma active_occupied:
  assumes "presence_inv p"
  shows "set (mkeys (mp_activeRooms p)) = {r. occupants (seat p) r \<noteq> {}}"
  using presence_inv_wf(5) [OF assms] by (simp add: set_mkeys occupants_nonempty [OF assms] del: set_map)

lemmas mem_presence_steps =
  presence_inv_step [OF step_join] presence_inv_step [OF step_leave] presence_inv_step [OF step_remove]
  presence_inv_step [OF step_delete] presence_inv_step [OF step_clear] presence_inv_step [OF step_set_last]
  presence_inv_step [OF step_acquire] presence_inv_step [OF step_release]

interpretation mem_presence: presence_store mem_pr mem_abs mem_live
proof
  fix w
  assume "mem_live w"
  then show "finite (dom (ab_seat (mem_abs w)))" by (simp add: mem_live_def mem_abs_def finite_seat)
next
  fix r u n a
  show "ensures mem_live mem_abs (JoinRoom mem_pr r u n) a
      (\<lambda>x a'. x = Inr (case room_left (ab_seat a) r u of Some r' \<Rightarrow> r' | None \<Rightarrow> []) \<and> a' = abs_join r u n a)"
    unfolding mem_pr_def RoomPresence.simps
  proof (rule ensures_on_presence, erule mem_presence_steps)
    fix p
    assume p: "presence_inv p" "pres_abs p a = a"
    from pres_abs_JoinRoom [OF p(1), of r u n a] p(2) seat_of_pres_abs [OF p(2)]
    show "fst (mem_JoinRoom None r u n p) = Inr (case room_left (ab_seat a) r u of Some r' \<Rightarrow> r' | None \<Rightarrow> []) \<and>
        pres_abs (snd (mem_JoinRoom None r u n p)) a = abs_join r u n a" by simp
  qed
next
  fix r u a
  show "ensures mem_live mem_abs (LeaveRoom mem_pr r u) a (\<lambda>x a'. x = None \<and> a' = abs_leave r u a)"
    unfolding mem_pr_def RoomPresence.simps
    by (rule ensures_on_presence, erule mem_presence_steps) (simp add: mem_LeaveRoom_def pres_abs_remove)
  show "ensures mem_live mem_abs (RemoveMember mem_pr r u) a (\<lambda>x a'. x = None \<and> a' = abs_leave r u a)"
    unfolding mem_pr_def RoomPresence.simps
    by (rule ensures_on_presence, erule mem_presence_steps)
      (simp add: mem_RemoveMember_def mem_LeaveRoom_def pres_abs_remove)
next
  fix r a
  show "ensures mem_live mem_abs (ListMembers mem_pr r) a
      (\<lambda>x a'. a' = a \<and> (\<exists>l. x = Inr l \<and> distinct l \<and>
         set l = {\<lparr>mb_UserID = u, mb_Username = n\<rparr> | u n. ab_seat a u = Some (r, n)}))"
    unfolding mem_pr_def RoomPresence.simps
  proof (rule ensures_on_presence)
    fix p
    assume p: "presence_inv p" "pres_abs p a = a"
    obtain l where "mem_ListMembers None r p = (Inr l, p)" "distinct l"
      "set l = {\<lparr>mb_UserID = u, mb_Username = n\<rparr> | u n. seat p u = Some (r, n)}"
      by (rule ListMembers_seat [OF p(1)])
    with p(2) seat_of_pres_abs [OF p(2)]
    show "pres_abs (snd (mem_ListMembers None r p)) a = a \<and> (\<exists>l. fst (mem_ListMembers None r p) = Inr l \<and> distinct l \<and>
         set l = {\<lparr>mb_UserID = u, mb_Username = n\<rparr> | u n. ab_seat a u = Some (r, n)})" by simp
  qed (auto simp: mem_ListMembers_def split: option.split)
  show "ensures mem_live mem_abs (MemberCount mem_pr r) a
      (\<lambda>x a'. a' = a \<and> x = Inr (int (card (occupants (ab_seat a) r))))"
    unfolding mem_pr_def RoomPresence.simps
    by (rule ensures_on_presence, simp add: mem_MemberCount_def split: option.split)
      (simp add: MemberCount_occupants seat_of_pres_abs)
  show "ensures mem_live mem_abs (DeleteRoomPresence mem_pr r) a
      (\<lambda>x a'. x = None \<and> (\<exists>P. P - {r} = ab_pending a - {r} \<and>
         a' = a\<lparr>ab_seat := vacate r (ab_seat a), ab_pending := P\<rparr>))"
    unfolding mem_pr_def RoomPresence.simps
  proof (rule ensures_on_presence, erule mem_presence_steps)
    fix p
    assume p: "presence_inv p" "pres_abs p a = a"
    from pres_abs_delete [OF p(1), of r a] p(2)
    show "fst (mem_DeleteRoomPresence None r p) = None \<and> (\<exists>P. P - {r} = ab_pending a - {r} \<and>
        pres_abs (snd (mem_DeleteRoomPresence None r p)) a = a\<lparr>ab_seat := vacate r (ab_seat a), ab_pending := P\<rparr>)"
      by (simp add: DeleteRoomPresence_cases)
  qed
  show "ensures mem_live mem_abs (ClearPendingEmpty mem_pr r) a
      (\<lambda>x a'. x = None \<and> a' = a\<lparr>ab_pending := ab_pending a - {r}\<rparr>)"
    unfolding mem_pr_def RoomPresence.simps
  proof (rule ensures_on_presence, erule mem_presence_steps)
    fix p
    assume p: "presence_inv p" "pres_abs p a = a"
    show "fst (mem_ClearPendingEmpty None r p) = None \<and>
        pres_abs (snd (mem_ClearPendingEmpty None r p)) a = a\<lparr>ab_pending := ab_pending a - {r}\<rparr>"
      using pres_abs_cong [OF seat_cong p(2), of "snd (mem_ClearPendingEmpty None r p)"] seat_of_pres_abs [OF p(2)]
      by (auto simp: mem_ClearPendingEmpty_def delete_conv')
  qed
next
  fix u a
  show "ensures mem_live mem_abs (GetUserRoom mem_pr u) a
      (\<lambda>x a'. a' = a \<and> x = Inr (case ab_seat a u of Some (r, _) \<Rightarrow> r | None \<Rightarrow> []))"
    unfolding mem_pr_def RoomPresence.simps
    by (rule ensures_on_presence, simp add: mem_GetUserRoom_def split: option.split)
      (simp add: GetUserRoom_seat seat_of_pres_abs)
next
  fix a
  show "ensures mem_live mem_abs (PendingEmptyRooms mem_pr) a
      (\<lambda>x a'. a' = a \<and> (\<exists>l. x = Inr l \<and> set l = ab_pending a))"
    unfolding mem_pr_def RoomPresence.simps
    by (rule ensures_on_presence)
      (auto simp: mem_PendingEmptyRooms_def seat_of_pres_abs dom_map_of_conv_image_fst split: option.split)
  show "ensures mem_live mem_abs (ListRoomsWithMembers mem_pr) a
      (\<lambda>x a'. a' = a \<and> (\<exists>l. x = Inr l \<and> set l = {r. occupants (ab_seat a) r \<noteq> {}}))"
    unfolding mem_pr_def RoomPresence.simps
    by (rule ensures_on_presence)
      (auto simp: mem_ListRoomsWithMembers_def seat_of_pres_abs active_occupied simp del: set_map split: option.split)
  show "ensures mem_live mem_abs (GetLastRoomCleanupAt mem_pr) a (\<lambda>x a'. a' = a \<and> x = Inr (ab_lastCleanup a))"
    unfolding mem_pr_def RoomPresence.simps
    by (rule ensures_on_presence) (auto simp: mem_GetLastRoomCleanupAt_def seat_of_pres_abs split: option.split)
  show "ensures mem_live mem_abs (ReleaseCleanupLock mem_pr) a (\<lambda>x a'. x = None \<and> a' = a\<lparr>ab_lock := False\<rparr>)"
    unfolding mem_pr_def RoomPresence.simps
  proof (rule ensures_on_presence, erule mem_presence_steps)
    fix p
    assume p: "presence_inv p" "pres_abs p a = a"
    show "fst (mem_ReleaseCleanupLock None p) = None \<and>
        pres_abs (snd (mem_ReleaseCleanupLock None p)) a = a\<lparr>ab_lock := False\<rparr>"
      using pres_abs_cong [OF seat_cong p(2), of "snd (mem_ReleaseCleanupLock None p)"] seat_of_pres_abs [OF p(2)]
      by (simp add: mem_ReleaseCleanupLock_def)
  qed
next
  fix t a
  show "ensures mem_live mem_abs (SetLastRoomCleanupAt mem_pr t) a
      (\<lambda>x a'. x = None \<and> (\<exists>t'. t' \<le> t \<and> t < t' + 1000000 \<and> a' = a\<lparr>ab_lastCleanup := t'\<rparr>))"
    unfolding mem_pr_def RoomPresence.simps
  proof (rule ensures_on_presence, erule mem_presence_steps)
    fix p
    assume p: "presence_inv p" "pres_abs p a = a"
    have "pres_abs (snd (mem_SetLastRoomCleanupAt None t p)) a = a\<lparr>ab_lastCleanup := t\<rparr>"
      using pres_abs_cong [OF seat_cong p(2), of "snd (mem_SetLastRoomCleanupAt None t p)"] seat_of_pres_abs [OF p(2)]
      by (simp add: mem_SetLastRoomCleanupAt_def)
    then show "fst (mem_SetLastRoomCleanupAt None t p) = None \<and> (\<exists>t'. t' \<le> t \<and> t < t' + 1000000 \<and>
        pres_abs (snd (mem_SetLastRoomCleanupAt None t p)) a = a\<lparr>ab_lastCleanup := t'\<rparr>)"
      by (intro conjI exI [of _ t]) (simp_all add: mem_SetLastRoomCleanupAt_def)
  qed
next
  fix ttl a
  show "ensures mem_live mem_abs (TryAcquireCleanupLock mem_pr ttl) a
      (\<lambda>x a'. x = Inr (\<not> ab_lock a) \<and> a' = a\<lparr>ab_lock := True\<rparr>)"
    unfolding mem_pr_def RoomPresence.simps
  proof (rule ensures_on_presence, erule mem_presence_steps)
    fix p now
    assume p: "presence_inv p" "pres_abs p a = a"
    show "fst (mem_TryAcquireCleanupLock None now ttl p) = Inr (\<not> ab_lock a) \<and>
        pres_abs (snd (mem_TryAcquireCleanupLock None now ttl p)) a = a\<lparr>ab_lock := True\<rparr>"
      using pres_abs_cong [OF seat_cong p(2), of "snd (mem_TryAcquireCleanupLock None now ttl p)"] seat_of_pres_abs [OF p(2)]
      by (auto simp: mem_TryAcquireCleanupLock_def split: if_splits)
  qed
qed

lemma granted_grant:
  "granted (mput r (mput u () (case map_of c r of None \<Rightarrow> [] | Some m \<Rightarrow> m)) c) = insert (r, u) (granted c)"
  by (auto simp: granted_def update_conv' split: option.splits if_splits)

lemma granted_delete: "granted (mdelete r c) = {(r', u). (r', u) \<in> granted c \<and> r' \<noteq> r}"
  by (auto simp: granted_def delete_conv' split: if_splits)

interpretation mem_access: access_cache mem_acc mem_abs mem_live
proof
  fix r u a
  show "ensures mem_live mem_abs (GrantRoomAccess mem_acc r u) a
      (\<lambda>x a'. x = None \<and> a' = (if r = [] \<or> u = [] then a else a\<lparr>ab_access := insert (r, u) (ab_access a)\<rparr>))"
    by (rule ensuresI) (auto simp: mem_acc_def mem_GrantRoomAccess_def mem_live_def mem_abs_def granted_grant)
  show "ensures mem_live mem_abs (HasRoomAccess mem_acc r u) a
      (\<lambda>x a'. a' = a \<and> x = Inr (r \<noteq> [] \<and> u \<noteq> [] \<and> (r, u) \<in> ab_access a))"
    by (rule ensuresI)
      (auto simp: mem_acc_def mem_HasRoomAccess_def mem_live_def mem_abs_def granted_def split: option.splits)
next
  fix r a
  show "ensures mem_live mem_abs (DeleteRoomAccess mem_acc r) a
      (\<lambda>x a'. x = None \<and> a' = a\<lparr>ab_access := {(r', u). (r', u) \<in> ab_access a \<and> r' \<noteq> r}\<rparr>)"
    by (rule ensuresI) (auto simp: mem_acc_def mem_DeleteRoomAccess_def mem_live_def mem_abs_def granted_delete)
qed

lemma rooms_inv_delete: "rooms_inv c \<Longrightarrow> rooms_inv (mdelete r c)"
  by (auto simp: rooms_inv_def delete_conv' distinct_delete split: if_splits)

lemma ran_wf_map: "wf_map c \<Longrightarrow> ran (map_of c) = set (map snd c)"
  by (simp add: ran_distinct)

lemma mem_ListRooms_spec:
  assumes "rooms_inv c" and "0 \<le> lo_Offset opts" and "0 < lo_Limit opts"
  shows "snd (mem_ListRooms lowU opts c) = c \<and>
    (\<exists>l t. fst (mem_ListRooms lowU opts c) = Inr (l, t) \<and> set l \<subseteq> ran (map_of c) \<and>
      length l \<le> mem_page (lo_Limit opts) \<and>
      (lo_Offset opts = 0 \<and> lo_Query opts = [] \<and> lo_OwnerID opts = [] \<and>
         card (dom (map_of c)) \<le> mem_page (lo_Limit opts) \<longrightarrow> set l = ran (map_of c)))"
proof -
  have wf: "wf_map c" using assms(1) by (simp add: rooms_inv_def)
  define query where "query = ToLower lowU (TrimSpace (lo_Query opts))"
  define rooms where "rooms = filter (\<lambda>room. \<not> (lo_OwnerID opts \<noteq> [] \<and> rm_OwnerID room \<noteq> lo_OwnerID opts) \<and>
            \<not> (query \<noteq> [] \<and> \<not> Contains (ToLower lowU (rm_Name room)) query)) (map snd c)"
  define offset where "offset = (if lo_Offset opts > int (length rooms) then int (length rooms) else lo_Offset opts)"
  define limit where "limit = (if lo_Limit opts \<le> 0 \<or> offset + lo_Limit opts > int (length rooms)
    then int (length rooms) - offset else lo_Limit opts)"
  let ?l = "take (nat limit) (drop (nat offset) rooms)"
  have run: "mem_ListRooms lowU opts c = (Inr (?l, int (length rooms)), c)"
    using assms(2) by (simp add: mem_ListRooms_def query_def rooms_def offset_def limit_def Let_def)
  have "set ?l \<subseteq> set rooms" by (meson order_trans set_drop_subset set_take_subset)
  also have "\<dots> \<subseteq> ran (map_of c)" by (auto simp: ran_wf_map [OF wf] rooms_def)
  finally have sub: "set ?l \<subseteq> ran (map_of c)" .
  have len: "length ?l \<le> mem_page (lo_Limit opts)"
    using assms(3) by (auto simp: mem_page_def limit_def min_def)
  have all: "set ?l = ran (map_of c)"
    if "lo_Offset opts = 0" "lo_Query opts = []" "lo_OwnerID opts = []" "card (dom (map_of c)) \<le> mem_page (lo_Limit opts)"
  proof -
    have rooms: "rooms = map snd c"
      using that by (simp add: rooms_def query_def ToLower_def is_ascii_def)
    have "int (length c) \<le> lo_Limit opts"
      using that(4) assms(3) length_wf_map [OF wf] by (simp add: mem_page_def)
    then have "nat limit = length c" "offset = 0"
      using that(1) assms(3) by (auto simp: limit_def offset_def rooms)
    then show ?thesis by (simp add: rooms ran_wf_map [OF wf])
  qed
  from run sub len all show ?thesis by simp
qed

interpretation mem_rooms: room_store "mem_rst uuid lowU" mem_abs mem_live mem_page
proof
  show "ab_rooms (mem_abs w) r = Some rm \<Longrightarrow> rm_ID rm = r" if "mem_live w" for w r rm
    using that by (simp add: mem_live_def mem_abs_def rooms_inv_def)
  show "finite (dom (ab_rooms (mem_abs w)))" if "mem_live w" for w
    by (simp add: mem_abs_def finite_dom_map_of)
next
  fix r a
  show "ensures mem_live mem_abs (RoomStore_GetByID (mem_rst uuid lowU) r) a
      (\<lambda>x a'. a' = a \<and> x = (case ab_rooms a r of None \<Rightarrow> Inl ErrNotFound | Some rm \<Rightarrow> Inr rm))"
    by (rule ensuresI) (auto simp: mem_rst_def mem_GetRoomByID_def mem_live_def mem_abs_def)
  show "ensures mem_live mem_abs (RoomStore_Delete (mem_rst uuid lowU) r) a
      (\<lambda>x a'. x = (if ab_rooms a r = None then Some ErrNotFound else None) \<and>
         a' = a\<lparr>ab_rooms := (ab_rooms a)(r := None)\<rparr>)"
    by (rule ensuresI)
      (auto simp: mem_rst_def mem_DeleteRoom_def mem_live_def mem_abs_def rooms_inv_delete delete_conv' fun_upd_idem)
next
  fix opts :: ListRoomsOpts and a
  assume o: "0 \<le> lo_Offset opts" "0 < lo_Limit opts"
  show "ensures mem_live mem_abs (RoomStore_List (mem_rst uuid lowU) opts) a
      (\<lambda>x a'. a' = a \<and> (\<exists>l t. x = Inr (l, t) \<and> set l \<subseteq> ran (ab_rooms a) \<and> length l \<le> mem_page (lo_Limit opts) \<and>
         (lo_Offset opts = 0 \<and> lo_Query opts = [] \<and> lo_OwnerID opts = [] \<and>
            card (dom (ab_rooms a)) \<le> mem_page (lo_Limit opts) \<longrightarrow> set l = ran (ab_rooms a))))"
  proof (rule ensuresI)
    fix w
    assume w: "mem_live w" "mem_abs w = a"
    from mem_ListRooms_spec [OF mem_liveD(3) [OF w(1)] o, of lowU] w
    show "mem_live (snd (run_state (RoomStore_List (mem_rst uuid lowU) opts) w)) \<and>
      mem_abs (snd (run_state (RoomStore_List (mem_rst uuid lowU) opts) w)) = a \<and>
      (\<exists>l t. fst (run_state (RoomStore_List (mem_rst uuid lowU) opts) w) = Inr (l, t) \<and> set l \<subseteq> ran (ab_rooms a) \<and>
         length l \<le> mem_page (lo_Limit opts) \<and>
         (lo_Offset opts = 0 \<and> lo_Query opts = [] \<and> lo_OwnerID opts = [] \<and>
            card (dom (ab_rooms a)) \<le> mem_page (lo_Limit opts) \<longrightarrow> set l = ran (ab_rooms a)))"
      by (auto simp: mem_rst_def mem_abs_def)
  qed
qed

interpretation mem_publisher: room_publisher mem_pub mem_abs mem_live
  by unfold_locales
    (rule ensuresI, auto simp: mem_pub_def mem_PublishRoomMessage_def mem_live_def mem_abs_def split: list.splits option.splits)

interpretation mem_time: clock mem_clock mem_abs mem_live
proof
  show "ensures mem_live mem_abs mem_clock a (\<lambda>t a'. ab_now a \<le> t \<and> a' = a\<lparr>ab_now := t\<rparr>)" for a
    by (rule ensuresI) (auto simp: mem_clock_def mem_live_def mem_abs_def split: list.split)
  show "mem_live w \<Longrightarrow> 0 < ab_now (mem_abs w)" for w by (simp add: mem_live_def mem_abs_def)
qed

interpretation mem: room_backend mem_sc mem_pr mem_acc "mem_rst uuid lowU" mem_pub mem_clock mem_abs mem_live
  mem_page None
  by unfold_locales simp

lemma mem_abs_parts [simp]:
  "ab_states (mem_abs w) = map_of (mw_states w)" "ab_seat (mem_abs w) = seat (mw_presence w)"
  "ab_pending (mem_abs w) = dom (map_of (mp_pendingEmpty (mw_presence w)))"
  "ab_lock (mem_abs w) = mp_cleanupLock (mw_presence w)"
  "ab_lastCleanup (mem_abs w) = mp_lastCleanupAt (mw_presence w)" "ab_access (mem_abs w) = granted (mw_access w)"
  "ab_rooms (mem_abs w) = map_of (mw_rooms w)" "ab_log (mem_abs w) = mw_log w" "ab_now (mem_abs w) = mw_now w"
  by (simp_all add: mem_abs_def)

section \<open>The room service on the memory backends\<close>

definition mem_service ::
  "(nat \<Rightarrow> string) \<Rightarrow> (string \<Rightarrow> string) \<Rightarrow> MemWorld Runtime \<Rightarrow> ChatLimits \<Rightarrow> MemWorld Service" where
  "mem_service uuid lowU rt limits =
     NewService mem_clock rt mem_sc (Some mem_pr) (Some (mem_rst uuid lowU)) (Some mem_acc) (Some mem_pub) None limits"

lemma mem_backed:
  "backed_by (mem_service uuid lowU rt limits) mem_sc mem_pr mem_acc (mem_rst uuid lowU) mem_pub mem_clock None"
  by (simp add: backed_by_def mem_service_def NewService_def)

lemmas mem_ApplyControl = mem.ApplyControl_run [OF mem_backed]
lemmas mem_CloseRoom = mem.CloseRoom_run [OF mem_backed]
lemmas mem_RunEmptyRoomCleanup = mem.RunEmptyRoomCleanup_run [OF mem_backed]
lemmas mem_MaybeRunGlobalCleanup = mem.MaybeRunGlobalCleanup_run [OF mem_backed refl]

text \<open>A world with two stored rooms; the owner and a guest sit in the first one, which has no playback state yet.\<close>

definition sample_room :: "string \<Rightarrow> Room" where
  "sample_room i = \<lparr>rm_ID = i, rm_Name = ''Film'', rm_OwnerID = ''u1'', rm_Visibility = RoomVisibilityPublic,
     rm_PasswordHash = [], rm_CurrentVideo = [], rm_CreatedAt = 1, rm_UpdatedAt = 1\<rparr>"

definition sample_world :: MemWorld where
  "sample_world = \<lparr>mw_ctx = None, mw_now = 63902000000 * Second, mw_delays = [], mw_states = NewRoomStateCache,
     mw_presence = sample_presence, mw_access = NewRoomAccess,
     mw_rooms = [(''r1'', sample_room ''r1''), (''r2'', sample_room ''r2'')],
     mw_users = [], mw_sessions = NewSessionCache, mw_codes = NewStore,
     mw_ids = 0, mw_salts = 0, mw_answers = [], mw_log = [], mw_draws = 0,
     mw_limiter = newIPLimiter 40 Minute, mw_regLastHit = [], mw_mailAnswers = [], mw_outbox = []\<rparr>"

definition sample_runtime :: "MemWorld Runtime" where
  "sample_runtime = \<lparr>rt_ctxErr = (\<lambda>_. State_Monad.return None), rt_wait = (\<lambda>_ _. State_Monad.return None),
     rt_IntN = (\<lambda>_. State_Monad.return 0), marshalChat = (\<lambda>_. Inr []), unmarshalChat = (\<lambda>_. Inl ErrNotFound)\<rparr>"

definition sample_service :: "MemWorld Service" where
  "sample_service = mem_service (\<lambda>_. ''id'') (\<lambda>s. s) sample_runtime (ChatLimitsFromConfig loaded_default)"

definition sample_owner :: HubUser where
  "sample_owner = \<lparr>hu_ID = ''u1'', hu_Username = ''ann'', hu_Nickname = [], hu_Role = UserRoleUser, hu_IsOwner = True\<rparr>"

definition sample_control :: "int \<Rightarrow> ControlInput" where
  "sample_control v = \<lparr>ci_Action = PlaybackActionPlay, ci_Position = 0, ci_VideoID = ''https://v/a'', ci_Queue = [],
     ci_PlaybackMode = [], ci_ClientVersion = v, ci_VideoDuration = 30\<rparr>"

lemma sample_world_live: "mem_live sample_world"
  using presence_reachable_inv [OF sample_presence_reachable]
  by (auto simp: mem_live_def sample_world_def rooms_inv_def Second_def sample_room_def split: if_splits)

end
