(* ===== verification/Room_Runs.thy ===== *)
theory Room_Runs
  imports Memory_Backend
begin

text \<open>
  Runs of the room service on the memory backends: the step relation of its operations, interleaved in any order
  with the passing of time, the answers of the realtime service and the timers of the cleanup lock; the
  invariant of the stored playback states; and the properties of controls, closing and cleanup.
\<close>

section \<open>Membership and snapshots\<close>

context room_backend
begin

lemma Join_run [simp]:
  assumes "backed_by s sc pr acc rst pub clk ch" and "live w"
  shows "live (snd (run_state (Join s r u) w))"
    and "A (snd (run_state (Join s r u) w)) = abs_join r (hu_ID u) (hu_Username u) (A w)"
    and "fst (run_state (Join s r u) w) =
      Inr (case room_left (ab_seat (A w)) r (hu_ID u) of Some r' \<Rightarrow> r' | None \<Rightarrow> [])"
  using assms(2) by (simp_all add: Join_def assms(1) [unfolded backed_by_def])

lemma Leave_run [simp]:
  assumes "backed_by s sc pr acc rst pub clk ch" and "live w"
  shows "live (snd (run_state (Leave s r u) w))" and "fst (run_state (Leave s r u) w) = None"
    and "A (snd (run_state (Leave s r u) w)) = abs_leave r u (A w)"
  using assms(2) by (simp_all add: Leave_def assms(1) [unfolded backed_by_def])

lemma KickMember_run:
  assumes "backed_by s sc pr acc rst pub clk ch" and "live w"
    and "run_state (KickMember s r u actor) w = (e, w')"
  shows "live w'" and "A w' = published e r ''room.event'' (Message0\<lparr>ms_Type := ''room_event'',
    ms_Event := ''user_kicked'', ms_User := Some (HubUser0\<lparr>hu_ID := u\<rparr>)\<rparr>) (abs_leave r u (A w))"
proof -
  define w1 where "w1 = snd (run_state (RemoveMember pr r u) w)"
  have w1: "live w1" "A w1 = abs_leave r u (A w)" using assms(2) by (simp_all add: w1_def)
  have "run_state (PublishRoomEvent s r ''user_kicked'' (Some (HubUser0\<lparr>hu_ID := u\<rparr>))) w1 = (e, w')"
    using assms(2,3) by (simp add: KickMember_def assms(1) [unfolded backed_by_def] w1_def)
  with PublishRoomEvent_run [OF assms(1) w1(1), of r "''user_kicked''" "Some (HubUser0\<lparr>hu_ID := u\<rparr>)"] w1(2)
  show "live w'" and "A w' = published e r ''room.event'' (Message0\<lparr>ms_Type := ''room_event'',
    ms_Event := ''user_kicked'', ms_User := Some (HubUser0\<lparr>hu_ID := u\<rparr>)\<rparr>) (abs_leave r u (A w))"
    by simp_all
qed

lemma memberCount_run [simp]:
  assumes "backed_by s sc pr acc rst pub clk ch" and "live w"
  shows "live (snd (run_state (memberCount s r) w))" and "A (snd (run_state (memberCount s r) w)) = A w"
    and "fst (run_state (memberCount s r) w) = int (card (occupants (ab_seat (A w)) r))"
  using assms(2) by (simp_all add: memberCount_def assms(1) [unfolded backed_by_def])

lemma ProjectedRoomState_run:
  assumes "backed_by s sc pr acc rst pub clk ch" and "live w"
    and "run_state (ProjectedRoomState s r) w = (x, w')"
  shows "live w' \<and> (\<exists>t\<ge>ab_now (A w). A w' = (A w)\<lparr>ab_now := t\<rparr> \<and>
    x = (case projectState t (ab_states (A w) r) of None \<Rightarrow> Inl ErrNotFound | Some st \<Rightarrow> Inr st))"
proof -
  note s = assms(1) [unfolded backed_by_def]
  define w1 where "w1 = snd (run_state (GetRoomState sc r) w)"
  have w1: "live w1" "A w1 = A w" using assms(2) by (simp_all add: w1_def)
  show ?thesis
  proof (cases "ab_states (A w) r")
    case None
    with assms(2,3) w1 have "w' = w1" "x = Inl ErrNotFound" by (simp_all add: ProjectedRoomState_def s w1_def)
    with None w1 show ?thesis by (intro conjI exI [of _ "ab_now (A w)"]) (simp_all add: projectState_def)
  next
    case (Some st)
    with assms(2,3) have "w' = snd (run_state clk w1)"
      and "x = Inr (the (projectState (fst (run_state clk w1)) (Some st)))"
      by (simp_all add: ProjectedRoomState_def s w1_def)
    moreover obtain y where "projectState (fst (run_state clk w1)) (Some st) = Some y"
      by (simp add: projectState_Some)
    ultimately show ?thesis
      using clock_run [OF w1(1)] Some w1(2)
      by (intro conjI exI [of _ "fst (run_state clk w1)"]) simp_all
  qed
qed

lemma TakeSnapshot_run:
  assumes "backed_by s sc pr acc rst pub clk ch" and "live w"
    and "run_state (TakeSnapshot s r) w = (x, w')"
  shows "live w' \<and> (\<exists>t\<ge>ab_now (A w). A w' = (A w)\<lparr>ab_now := t\<rparr> \<and> sn_RoomID x = r \<and>
    sn_State x = projectState t (ab_states (A w) r) \<and>
    sn_ViewerCount x = int (card (occupants (ab_seat (A w)) r)) \<and>
    sn_Queue x = (case sn_State x of None \<Rightarrow> [] | Some st \<Rightarrow>
      if rs_Queue st = [] \<and> rs_VideoID st \<noteq> [] then [rs_VideoID st] else rs_Queue st))"
proof -
  obtain y w1 where y: "run_state (ProjectedRoomState s r) w = (y, w1)" by (cases "run_state (ProjectedRoomState s r) w")
  from ProjectedRoomState_run [OF assms(1,2) y] obtain t where l1: "live w1" and t: "ab_now (A w) \<le> t"
    and a1: "A w1 = (A w)\<lparr>ab_now := t\<rparr>"
    and yt: "y = (case projectState t (ab_states (A w) r) of None \<Rightarrow> Inl ErrNotFound | Some st \<Rightarrow> Inr st)" by blast
  have "w' = snd (run_state (memberCount s r) w1)" using assms(3) y by (simp add: TakeSnapshot_def)
  with memberCount_run [OF assms(1) l1] a1 have w': "live w'" "A w' = (A w)\<lparr>ab_now := t\<rparr>" by simp_all
  have "sn_RoomID x = r \<and> sn_State x = projectState t (ab_states (A w) r) \<and>
    sn_ViewerCount x = int (card (occupants (ab_seat (A w)) r)) \<and>
    sn_Queue x = (case sn_State x of None \<Rightarrow> [] | Some st \<Rightarrow>
      if rs_Queue st = [] \<and> rs_VideoID st \<noteq> [] then [rs_VideoID st] else rs_Queue st)"
    using assms(3) y memberCount_run(3) [OF assms(1) l1, of r] a1
    by (cases "projectState t (ab_states (A w) r)") (auto simp: TakeSnapshot_def yt)
  with w' t show ?thesis by blast
qed

end

section \<open>The stored playback states\<close>

definition state_wf :: "string \<Rightarrow> gotime \<Rightarrow> RoomState \<Rightarrow> bool" where
  "state_wf r now st \<longleftrightarrow>
     rs_RoomID st = r \<and> 0 < rs_UpdatedAt st \<and> rs_UpdatedAt st \<le> now \<and>
     rs_PlaybackMode st \<in> {PlaybackModeSequential, PlaybackModeLoop} \<and> 0 \<le> rs_VideoDuration st \<and>
     (rs_VideoID st \<noteq> [] \<longrightarrow> rs_Queue st \<noteq> []) \<and> is_int64 (rs_ControlVersion st)"

definition db_inv :: "room_abs \<Rightarrow> bool" where
  "db_inv a \<longleftrightarrow> 0 < ab_now a \<and> (\<forall>r st. ab_states a r = Some st \<longrightarrow> state_wf r (ab_now a) st)"

lemma control_mode_wf:
  "\<forall>p \<in> set_option prev. rs_PlaybackMode p \<in> {PlaybackModeSequential, PlaybackModeLoop} \<Longrightarrow>
    control_mode msg prev \<in> {PlaybackModeSequential, PlaybackModeLoop}"
  by (auto simp: control_mode_def Let_def split: option.splits)

lemma control_state_wf:
  assumes "\<forall>p \<in> set_option prev. state_wf r now p" and "0 < t"
  shows "state_wf r t (control_state r user msg prev t)"
proof -
  have "control_mode msg prev \<in> {PlaybackModeSequential, PlaybackModeLoop}"
    by (rule control_mode_wf) (use assms(1) in \<open>auto simp: state_wf_def\<close>)
  moreover have "rs_VideoID (control_state r user msg prev t) \<noteq> [] \<longrightarrow> rs_Queue (control_state r user msg prev t) \<noteq> []"
    by (simp add: control_state_def Let_def case_prod_beta)
  moreover have "0 \<le> rs_VideoDuration (control_state r user msg prev t)"
    by (simp add: control_state_def Let_def case_prod_beta)
  moreover have "is_int64 1" by (simp add: is_int64_def minInt64_def maxInt64_def)
  ultimately show ?thesis
    using assms(2) by (auto simp: state_wf_def is_int64_wrap64 split: option.split)
qed

lemma state_wf_mono: "state_wf r now st \<Longrightarrow> now \<le> t \<Longrightarrow> state_wf r t st"
  by (simp add: state_wf_def)

lemma db_inv_sub:
  assumes "db_inv a" and "ab_now a \<le> ab_now a'" and "\<And>r st. ab_states a' r = Some st \<Longrightarrow> ab_states a r = Some st"
  shows "db_inv a'"
  using assms unfolding db_inv_def by (meson less_le_trans state_wf_mono)

lemma published_parts [simp]:
  "ab_states (published e r n m a) = ab_states a" "ab_now (published e r n m a) = ab_now a"
  "ab_seat (published e r n m a) = ab_seat a" "ab_access (published e r n m a) = ab_access a"
  "ab_rooms (published e r n m a) = ab_rooms a" "ab_pending (published e r n m a) = ab_pending a"
  by (simp_all add: published_def)

lemma abs_leave_parts [simp]: "ab_states (abs_leave r u a) = ab_states a" "ab_now (abs_leave r u a) = ab_now a"
  by (simp_all add: abs_leave_def)

lemma abs_join_parts [simp]: "ab_states (abs_join r u n a) = ab_states a" "ab_now (abs_join r u n a) = ab_now a"
  by (simp_all add: abs_join_def Let_def split: option.split)

lemma db_inv_control:
  assumes "db_inv a" and "ab_now a \<le> t" and "abs_control r user msg t m e a a'"
  shows "db_inv a'"
proof (cases "stale msg (ab_states a r)")
  case True
  with assms show ?thesis by (intro db_inv_sub [OF assms(1)]) (simp_all add: abs_control_def)
next
  case False
  let ?st = "control_state r user msg (ab_states a r) t"
  have "0 < t" and "\<forall>p \<in> set_option (ab_states a r). state_wf r (ab_now a) p"
    using assms(1,2) by (auto simp: db_inv_def)
  then have "state_wf r t ?st" by (intro control_state_wf)
  moreover have "ab_states a' = (ab_states a)(r \<mapsto> ?st)" "ab_now a' = t"
    using assms(3) False by (simp_all add: abs_control_def Let_def)
  moreover have "state_wf r' t st'" if "ab_states a r' = Some st'" for r' st'
    using that assms(1,2) by (meson db_inv_def state_wf_mono)
  ultimately show ?thesis using \<open>0 < t\<close> by (auto simp: db_inv_def)
qed

lemma db_inv_swept: "db_inv a \<Longrightarrow> swept chat cs e a a' \<Longrightarrow> db_inv a'"
  by (erule db_inv_sub) (auto simp: swept_def restrict_map_def split: if_splits)

lemma db_inv_cong: "db_inv a \<Longrightarrow> ab_states a' = ab_states a \<Longrightarrow> ab_now a \<le> ab_now a' \<Longrightarrow> db_inv a'"
  by (erule db_inv_sub) simp_all

lemma db_inv_noted: "db_inv a \<Longrightarrow> ab_now a \<le> u \<Longrightarrow> noted u e a a' \<Longrightarrow> db_inv a'"
  by (erule db_inv_cong) (auto simp: noted_def split: if_splits)

lemma db_inv_cleanup:
  assumes "db_inv a" and "cleanup_done n e a a'"
  shows "db_inv a'"
proof -
  from assms(2) obtain t where t: "ab_now a \<le> t"
    and c: "if too_early t a \<or> ab_lock a then e = None \<and> a' = a\<lparr>ab_now := t\<rparr>
        else \<exists>cs u a1 a2. cleanup_candidates n a cs \<and> t \<le> u \<and>
          swept False cs e (a\<lparr>ab_lock := True, ab_now := u\<rparr>) a1 \<and> noted u e a1 a2 \<and> a' = a2\<lparr>ab_lock := False\<rparr>"
    unfolding cleanup_done_def by blast
  show ?thesis
  proof (cases "too_early t a \<or> ab_lock a")
    case True
    with c t show ?thesis by (intro db_inv_cong [OF assms(1)]) auto
  next
    case False
    with c obtain cs u a1 a2 where u: "t \<le> u" "swept False cs e (a\<lparr>ab_lock := True, ab_now := u\<rparr>) a1"
      "noted u e a1 a2" "a' = a2\<lparr>ab_lock := False\<rparr>" by auto
    have "db_inv (a\<lparr>ab_lock := True, ab_now := u\<rparr>)" by (rule db_inv_cong [OF assms(1)]) (use t u(1) in simp_all)
    from db_inv_swept [OF this u(2)] have "db_inv a1" .
    moreover have "ab_now a1 = u" using u(2) by (auto simp: swept_def)
    ultimately have "db_inv a2" using db_inv_noted u(3) by blast
    then show ?thesis by (rule db_inv_cong) (simp_all add: u(4))
  qed
qed

section \<open>Runs\<close>

text \<open>
  One step of the system: a call of the service with a live context, a grant of access, the creation of a room,
  a choice of the environment (how long until the next clock readings, what the realtime service will answer),
  or the expiry of a cleanup-lock timer.
\<close>

inductive service_step :: "(nat \<Rightarrow> string) \<Rightarrow> (string \<Rightarrow> string) \<Rightarrow> MemWorld Service \<Rightarrow> MemWorld \<Rightarrow> MemWorld \<Rightarrow> bool"
  for uuid lowU s where
  s_join: "service_step uuid lowU s w (snd (run_state (Join s r u) w))"
| s_leave: "service_step uuid lowU s w (snd (run_state (Leave s r uid) w))"
| s_control: "service_step uuid lowU s w (snd (run_state (ApplyControl s r u msg) w))"
| s_snapshot: "service_step uuid lowU s w (snd (run_state (TakeSnapshot s r) w))"
| s_close: "service_step uuid lowU s w (snd (run_state (CloseRoom s r actor) w))"
| s_kick: "service_step uuid lowU s w (snd (run_state (KickMember s r uid actor) w))"
| s_sweep: "service_step uuid lowU s w (snd (run_state (RunEmptyRoomCleanup s) w))"
| s_cleanup: "service_step uuid lowU s w (snd (run_state (MaybeRunGlobalCleanup fuel s) w))"
| s_grant: "service_step uuid lowU s w (snd (run_state (GrantRoomAccess mem_acc r uid) w))"
| s_create: "service_step uuid lowU s w (snd (run_state (RoomStore_Create (mem_rst uuid lowU) room) w))"
| s_env: "service_step uuid lowU s w (w\<lparr>mw_delays := ds, mw_answers := as\<rparr>)"
| s_timer: "t \<in> set (mp_timers (mw_presence w)) \<Longrightarrow>
    service_step uuid lowU s w (w\<lparr>mw_presence := cleanup_timer_fires t (mw_presence w)\<rparr>)"

definition initial_world :: "MemWorld \<Rightarrow> bool" where
  "initial_world w \<longleftrightarrow> mw_ctx w = None \<and> 0 < mw_now w \<and> mw_states w = NewRoomStateCache \<and>
     mw_presence w = NewRoomPresence \<and> mw_access w = NewRoomAccess \<and> mw_rooms w = []"

inductive service_reachable :: "(nat \<Rightarrow> string) \<Rightarrow> (string \<Rightarrow> string) \<Rightarrow> MemWorld Service \<Rightarrow> MemWorld \<Rightarrow> bool"
  for uuid lowU s where
  r_init: "initial_world w \<Longrightarrow> service_reachable uuid lowU s w"
| r_step: "service_reachable uuid lowU s w \<Longrightarrow> service_step uuid lowU s w w' \<Longrightarrow> service_reachable uuid lowU s w'"

definition world_inv :: "MemWorld \<Rightarrow> bool" where
  "world_inv w \<longleftrightarrow> mem_live w \<and> db_inv (mem_abs w)"

lemma world_inv_cong:
  "world_inv w \<Longrightarrow> mem_live w' \<Longrightarrow> ab_states (mem_abs w') = ab_states (mem_abs w) \<Longrightarrow>
    ab_now (mem_abs w) \<le> ab_now (mem_abs w') \<Longrightarrow> world_inv w'"
  unfolding world_inv_def by (blast intro: db_inv_cong)

lemma rooms_inv_create: "rooms_inv c \<Longrightarrow> rooms_inv (snd (mem_CreateRoom now i room c))"
  by (auto simp: mem_CreateRoom_def rooms_inv_def Let_def update_conv' distinct_update split: if_splits)

lemma world_inv_control:
  assumes "world_inv w"
  shows "world_inv (snd (run_state (ApplyControl (mem_service uuid lowU rt limits) r u msg) w))"
proof -
  obtain m e w' where run: "run_state (ApplyControl (mem_service uuid lowU rt limits) r u msg) w = ((m, e), w')"
    by (metis prod.collapse)
  have l: "mem_live w" and db: "db_inv (mem_abs w)" using assms by (simp_all add: world_inv_def)
  note c = mem_ApplyControl [OF l run]
  have "db_inv (mem_abs w')"
  proof (cases "may_control u")
    case True
    with c db_inv_control [OF db] show ?thesis by auto
  qed (use c db in auto)
  with c run show ?thesis by (simp add: world_inv_def)
qed

lemma world_inv_close:
  assumes "world_inv w"
  shows "world_inv (snd (run_state (CloseRoom (mem_service uuid lowU rt limits) r actor) w))"
proof -
  obtain e w' where run: "run_state (CloseRoom (mem_service uuid lowU rt limits) r actor) w = (e, w')"
    by (metis prod.collapse)
  have l: "mem_live w" and db: "db_inv (mem_abs w)" using assms by (simp_all add: world_inv_def)
  note c = mem_CloseRoom [OF l run]
  have "db_inv ((mem_abs w)\<lparr>ab_states := (ab_states (mem_abs w))(r := None)\<rparr>)"
    by (rule db_inv_sub [OF db]) (simp_all split: if_splits)
  from db_inv_cong [OF this] tail_closed_fields [OF c [THEN conjunct2]] have "db_inv (mem_abs w')" by simp
  with c run show ?thesis by (simp add: world_inv_def)
qed

lemma world_inv_sweep:
  assumes "world_inv w"
  shows "world_inv (snd (run_state (RunEmptyRoomCleanup (mem_service uuid lowU rt limits)) w))"
proof -
  obtain e w' where run: "run_state (RunEmptyRoomCleanup (mem_service uuid lowU rt limits)) w = (e, w')"
    by (metis prod.collapse)
  have l: "mem_live w" and db: "db_inv (mem_abs w)" using assms by (simp_all add: world_inv_def)
  from mem_RunEmptyRoomCleanup [OF l run] obtain cs t where c: "mem_live w'" "ab_now (mem_abs w) \<le> t"
    "swept False cs e ((mem_abs w)\<lparr>ab_now := t\<rparr>) (mem_abs w')" by auto
  have "db_inv ((mem_abs w)\<lparr>ab_now := t\<rparr>)" by (rule db_inv_cong [OF db]) (use c in simp_all)
  from db_inv_swept [OF this c(3)] c(1) run show ?thesis by (simp add: world_inv_def)
qed

lemma world_inv_cleanup:
  assumes "world_inv w"
  shows "world_inv (snd (run_state (MaybeRunGlobalCleanup fuel (mem_service uuid lowU rt limits)) w))"
proof -
  obtain x w' where run: "run_state (MaybeRunGlobalCleanup fuel (mem_service uuid lowU rt limits)) w = (x, w')"
    by (metis prod.collapse)
  have l: "mem_live w" and db: "db_inv (mem_abs w)" using assms by (simp_all add: world_inv_def)
  from mem_MaybeRunGlobalCleanup [OF l run] obtain e where "mem_live w'" "cleanup_done (mem_page 500) e (mem_abs w) (mem_abs w')"
    by blast
  with db_inv_cleanup [OF db] run show ?thesis by (simp add: world_inv_def)
qed

lemma world_inv_snapshot:
  assumes "world_inv w"
  shows "world_inv (snd (run_state (TakeSnapshot (mem_service uuid lowU rt limits) r) w))"
proof -
  obtain x w' where run: "run_state (TakeSnapshot (mem_service uuid lowU rt limits) r) w = (x, w')"
    by (metis prod.collapse)
  have "mem_live w" using assms by (simp add: world_inv_def)
  from mem.TakeSnapshot_run [OF mem_backed this run] obtain t where "mem_live w'" "ab_now (mem_abs w) \<le> t"
    "mem_abs w' = (mem_abs w)\<lparr>ab_now := t\<rparr>" by blast
  with run show ?thesis by (intro world_inv_cong [OF assms]) simp_all
qed

lemma world_inv_kick:
  assumes "world_inv w"
  shows "world_inv (snd (run_state (KickMember (mem_service uuid lowU rt limits) r uid actor) w))"
proof -
  obtain e w' where run: "run_state (KickMember (mem_service uuid lowU rt limits) r uid actor) w = (e, w')"
    by (metis prod.collapse)
  have "mem_live w" using assms by (simp add: world_inv_def)
  from mem.KickMember_run [OF mem_backed this run] run show ?thesis
    by (intro world_inv_cong [OF assms]) simp_all
qed

lemma world_inv_step:
  assumes "service_step uuid lowU (mem_service uuid lowU rt limits) w w'" and "world_inv w"
  shows "world_inv w'"
  using assms
proof (induction rule: service_step.induct)
  case (s_join w r u)
  then have "mem_live w" by (simp add: world_inv_def)
  from mem.Join_run [OF mem_backed this] show ?case by (intro world_inv_cong [OF s_join]) simp_all
next
  case (s_leave w r uid)
  then have "mem_live w" by (simp add: world_inv_def)
  from mem.Leave_run [OF mem_backed this] show ?case by (intro world_inv_cong [OF s_leave]) simp_all
next
  case (s_grant w r uid)
  then have "mem_live w" by (simp add: world_inv_def)
  from mem_access.grant_access_run [OF this] show ?case by (intro world_inv_cong [OF s_grant]) simp_all
next
  case (s_create w room)
  then show ?case
    by (intro world_inv_cong [OF s_create])
      (auto simp: mem_rst_def case_prod_beta world_inv_def mem_live_def mem_abs_def rooms_inv_create)
next
  case (s_env w ds as)
  then show ?case by (intro world_inv_cong [OF s_env]) (auto simp: world_inv_def mem_live_def mem_abs_def)
next
  case (s_timer t w)
  then have "presence_inv (cleanup_timer_fires t (mw_presence w))"
    by (intro presence_inv_step [OF step_timer]) (auto simp: world_inv_def mem_live_def)
  with s_timer show ?case
    by (intro world_inv_cong [OF s_timer(2)]) (auto simp: world_inv_def mem_live_def mem_abs_def)
qed (simp_all add: world_inv_control world_inv_close world_inv_sweep world_inv_cleanup world_inv_snapshot world_inv_kick)

lemma world_inv_reachable:
  assumes "service_reachable uuid lowU (mem_service uuid lowU rt limits) w"
  shows "world_inv w"
  using assms
proof (induction rule: service_reachable.induct)
  case (r_init w)
  then show ?case
    by (auto simp: initial_world_def world_inv_def mem_live_def rooms_inv_def db_inv_def mem_abs_def
        NewRoomStateCache_def presence_inv_new)
next
  case (r_step w w')
  then show ?case by (blast intro: world_inv_step)
qed

section \<open>Properties of runs\<close>

definition sample_start :: MemWorld where
  "sample_start = sample_world\<lparr>mw_presence := NewRoomPresence, mw_rooms := []\<rparr>"

lemma sample_start_initial: "initial_world sample_start"
  by (simp add: initial_world_def sample_start_def sample_world_def Second_def)

lemma run_pair: "run_state m w = (fst (run_state m w), snd (run_state m w))"
  by simp

text \<open>
  C5: in every world that any run of the service can reach, each stored playback state belongs to its room, was
  written at a past instant, has one of the two playback modes, a non-negative duration, a queue whenever it has
  a video, and a 64-bit version; and the presence is consistent, so each user sits in one room at most.
\<close>

theorem reachable_states_wf:
  assumes "service_reachable uuid lowU (mem_service uuid lowU rt limits) w"
    and "map_of (mw_states w) r = Some st"
  shows "state_wf r (mw_now w) st \<and> presence_inv (mw_presence w)"
  using world_inv_reachable [OF assms(1)] assms(2)
  by (auto simp: world_inv_def db_inv_def mem_abs_def mem_live_def)

definition sample_reached :: MemWorld where
  "sample_reached = snd (run_state (ApplyControl sample_service ''r1'' sample_owner (sample_control 0)) sample_start)"

lemma sample_reached_reachable: "service_reachable (\<lambda>_. ''id'') (\<lambda>s. s) sample_service sample_reached"
  unfolding sample_reached_def by (rule r_step [OF r_init [OF sample_start_initial] s_control])

lemma sample_reached_version: "map_option rs_ControlVersion (map_of (mw_states sample_reached) ''r1'') = Some 1"
  by code_simp

theorem reachable_states_wf_witness:
  "\<exists>st. map_of (mw_states sample_reached) ''r1'' = Some st \<and> rs_ControlVersion st = 1 \<and>
     state_wf ''r1'' (mw_now sample_reached) st"
proof -
  obtain st where st: "map_of (mw_states sample_reached) ''r1'' = Some st" "rs_ControlVersion st = 1"
    using sample_reached_version by auto
  with reachable_states_wf [OF sample_reached_reachable [unfolded sample_service_def] st(1)] show ?thesis by blast
qed

text \<open>
  C6: a playback control.  Without the rights nothing happens at all; a control that quotes a version older than
  the stored one is rejected as stale and leaves the stored states alone; any other control replaces the state of its
  room by the one \<open>control_state\<close> computes, with the version after the stored one (1 for the first), returns and
  publishes the matching sync message, and changes nothing else.  The new state stays when publishing fails,
  and then the error is returned with the message.
\<close>

theorem ApplyControl_refines:
  assumes "mem_live w"
    and "run_state (ApplyControl (mem_service uuid lowU rt limits) r user msg) w = ((m, e), w')"
  shows "mem_live w' \<and>
    (if \<not> may_control user then m = Message0 \<and> e = Some ErrForbidden \<and> w' = w
     else \<exists>t\<ge>mw_now w. abs_control r user msg t m e (mem_abs w) (mem_abs w'))"
  using mem_ApplyControl [OF assms] unfolding mem_abs_parts .

theorem ApplyControl_refines_witness:
  "\<exists>m e w' t. run_state (ApplyControl sample_service ''r1'' sample_owner (sample_control 0)) sample_world = ((m, e), w') \<and>
     mem_live w' \<and> abs_control ''r1'' sample_owner (sample_control 0) t m e (mem_abs sample_world) (mem_abs w')"
proof -
  obtain m e w' where run: "run_state (ApplyControl sample_service ''r1'' sample_owner (sample_control 0)) sample_world = ((m, e), w')"
    by (metis prod.collapse)
  have "may_control sample_owner" by (simp add: may_control_def sample_owner_def)
  with ApplyControl_refines [OF sample_world_live run [unfolded sample_service_def]] run show ?thesis by auto
qed

text \<open>
  C7: optimistic locking.  Of two controls of a room that quote the same positive version, sent one after the other,
  where that version is the stored one, the first is accepted and moves the version on by one, and the second is
  rejected as stale and changes no stored state (as long as the counter has not reached its largest value).
\<close>

theorem second_control_stale:
  assumes "mem_live w" and "may_control user1" and "may_control user2"
    and "map_of (mw_states w) r = Some prev" and "ci_ClientVersion msg1 = rs_ControlVersion prev"
    and "ci_ClientVersion msg2 = rs_ControlVersion prev"
    and "0 < rs_ControlVersion prev" and "rs_ControlVersion prev < maxInt64"
    and "run_state (ApplyControl (mem_service uuid lowU rt limits) r user1 msg1) w = ((m1, e1), w1)"
    and "run_state (ApplyControl (mem_service uuid lowU rt limits) r user2 msg2) w1 = ((m2, e2), w2)"
  shows "map_option rs_ControlVersion (map_of (mw_states w1) r) = Some (rs_ControlVersion prev + 1) \<and>
     m2 = Message0 \<and> e2 = Some ErrStaleControl \<and> map_of (mw_states w2) = map_of (mw_states w1)"
proof -
  have st: "ab_states (mem_abs w) r = Some prev" using assms(4) by simp
  from mem_ApplyControl [OF assms(1,9)] assms(2) obtain t1 where l1: "mem_live w1"
    and c1: "abs_control r user1 msg1 t1 m1 e1 (mem_abs w) (mem_abs w1)" by auto
  have "\<not> stale msg1 (Some prev)" using assms(5) by (simp add: stale_def)
  with c1 st have s1: "ab_states (mem_abs w1) r = Some (control_state r user1 msg1 (Some prev) t1)"
    by (simp add: abs_control_def Let_def)
  have v: "rs_ControlVersion (control_state r user1 msg1 (Some prev) t1) = rs_ControlVersion prev + 1"
    using assms(7,8) by (simp add: wrap64_id is_int64_def minInt64_def maxInt64_def)
  from mem_ApplyControl [OF l1 assms(10)] assms(3) obtain t2 where
    c2: "abs_control r user2 msg2 t2 m2 e2 (mem_abs w1) (mem_abs w2)" by auto
  have "stale msg2 (ab_states (mem_abs w1) r)" using assms(6,7) s1 v by (simp add: stale_def)
  with c2 have "m2 = Message0 \<and> e2 = Some ErrStaleControl \<and> ab_states (mem_abs w2) = ab_states (mem_abs w1)"
    by (simp add: abs_control_def)
  with s1 v show "map_option rs_ControlVersion (map_of (mw_states w1) r) = Some (rs_ControlVersion prev + 1) \<and>
     m2 = Message0 \<and> e2 = Some ErrStaleControl \<and> map_of (mw_states w2) = map_of (mw_states w1)"
    by simp
qed

theorem second_control_stale_witness:
  "\<exists>m1 e1 w1 m2 e2 w2.
     run_state (ApplyControl sample_service ''r1'' sample_owner (sample_control 1)) sample_reached = ((m1, e1), w1) \<and>
     run_state (ApplyControl sample_service ''r1'' sample_owner (sample_control 1)) w1 = ((m2, e2), w2) \<and>
     e2 = Some ErrStaleControl"
proof -
  obtain m1 e1 w1 where run1:
    "run_state (ApplyControl sample_service ''r1'' sample_owner (sample_control 1)) sample_reached = ((m1, e1), w1)"
    by (metis prod.collapse)
  obtain m2 e2 w2 where run2:
    "run_state (ApplyControl sample_service ''r1'' sample_owner (sample_control 1)) w1 = ((m2, e2), w2)"
    by (metis prod.collapse)
  obtain st where st: "map_of (mw_states sample_reached) ''r1'' = Some st" "rs_ControlVersion st = 1"
    using sample_reached_version by auto
  have own: "may_control sample_owner" by (simp add: may_control_def sample_owner_def)
  have "mem_live sample_reached"
    using world_inv_reachable [OF sample_reached_reachable [unfolded sample_service_def]] by (simp add: world_inv_def)
  from second_control_stale [OF this own own st(1) _ _ _ _ run1 [unfolded sample_service_def] run2 [unfolded sample_service_def]]
    st(2) run1 run2
  show ?thesis by (auto simp: sample_control_def maxInt64_def)
qed

text \<open>
  Closing a room.  Whatever the realtime service answers, afterwards the room has no playback state, no
  member, no grant, and every other room keeps all of that; the stored rooms stay; and the clients are sent
  \<open>room_closed\<close> unless the call reports the error of the realtime service.
\<close>

theorem CloseRoom_closes:
  assumes "mem_live w" and "run_state (CloseRoom (mem_service uuid lowU rt limits) r user) w = (e, w')"
  shows "mem_live w' \<and> map_of (mw_states w') = (map_of (mw_states w))(r := None) \<and>
    seat (mw_presence w') = vacate r (seat (mw_presence w)) \<and>
    granted (mw_access w') = {(r', u). (r', u) \<in> granted (mw_access w) \<and> r' \<noteq> r} \<and>
    map_of (mw_rooms w') = map_of (mw_rooms w) \<and>
    mw_log w' = mw_log w @ (if e = None then [(r, ''room.event'', PubMessage (closed_message user))] else [])"
  using mem_CloseRoom [OF assms] tail_closed_fields [OF mem_CloseRoom [OF assms, THEN conjunct2]] by simp

theorem CloseRoom_closes_witness:
  "\<exists>e w'. run_state (CloseRoom sample_service ''r1'' None) sample_world = (e, w') \<and>
     seat (mw_presence w') = Map.empty"
proof -
  obtain e w' where run: "run_state (CloseRoom sample_service ''r1'' None) sample_world = (e, w')"
    by (metis prod.collapse)
  have "vacate ''r1'' (seat (mw_presence sample_world)) = Map.empty"
    by (rule ext) (simp add: vacate_def occupants_def sample_world_def sample_seat)
  with CloseRoom_closes [OF sample_world_live run [unfolded sample_service_def]] run show ?thesis by simp
qed

text \<open>
  C8: the sweep of empty rooms is safe: nobody loses a seat, and a room that has a member when the sweep starts
  keeps its playback state, its stored room and its grants, also when the sweep stops half-way on an error.
\<close>

theorem cleanup_spares_occupied:
  assumes "mem_live w" and "run_state (RunEmptyRoomCleanup (mem_service uuid lowU rt limits)) w = (e, w')"
    and "occupants (seat (mw_presence w)) r \<noteq> {}"
  shows "seat (mw_presence w') = seat (mw_presence w) \<and> map_of (mw_states w') r = map_of (mw_states w) r \<and>
    map_of (mw_rooms w') r = map_of (mw_rooms w) r \<and>
    ((r, u) \<in> granted (mw_access w') \<longleftrightarrow> (r, u) \<in> granted (mw_access w))"
proof -
  from mem_RunEmptyRoomCleanup [OF assms(1,2)] obtain cs t where
    "swept False cs e ((mem_abs w)\<lparr>ab_now := t\<rparr>) (mem_abs w')" by auto
  then show ?thesis using assms(3) by (auto simp: swept_def restrict_map_def)
qed

lemma sample_occupied: "occupants (seat (mw_presence sample_world)) ''r1'' \<noteq> {}"
  "occupants (seat (mw_presence sample_world)) ''r2'' = {}"
  by (auto simp: occupants_def sample_world_def sample_seat)

theorem cleanup_spares_occupied_witness:
  "\<exists>e w'. run_state (RunEmptyRoomCleanup sample_service) sample_world = (e, w') \<and>
     map_of (mw_rooms w') ''r1'' = Some (sample_room ''r1'')"
proof -
  obtain e w' where run: "run_state (RunEmptyRoomCleanup sample_service) sample_world = (e, w')"
    by (metis prod.collapse)
  with cleanup_spares_occupied [OF sample_world_live run [unfolded sample_service_def] sample_occupied(1)]
  show ?thesis by (simp add: sample_world_def)
qed

text \<open>
  C9: with the stores in memory, the sweep of empty rooms is complete when it reports success, on two conditions: the
  store holds at most 500 rooms, the page that one sweep reads (the PostgreSQL store returns at most 50 of them), and no
  room identifier has white space around it.  Then exactly the stored rooms with a member are left, no room is
  waiting any more, and no room that was empty and stored or waiting has playback state or grants.
\<close>

theorem cleanup_complete:
  assumes "mem_live w" and "run_state (RunEmptyRoomCleanup (mem_service uuid lowU rt limits)) w = (None, w')"
    and "length (mw_rooms w) \<le> 500"
    and "\<forall>r \<in> dom (map_of (mw_rooms w)) \<union> dom (map_of (mp_pendingEmpty (mw_presence w))). TrimSpace r = r \<and> r \<noteq> []"
  shows "map_of (mw_rooms w') = map_of (mw_rooms w) |` {r. occupants (seat (mw_presence w)) r \<noteq> {}} \<and>
    dom (map_of (mp_pendingEmpty (mw_presence w'))) = {} \<and>
    (r \<in> dom (map_of (mw_rooms w)) \<union> dom (map_of (mp_pendingEmpty (mw_presence w))) \<longrightarrow>
     occupants (seat (mw_presence w)) r = {} \<longrightarrow>
       map_of (mw_states w') r = None \<and> (r, u) \<notin> granted (mw_access w'))"
proof -
  let ?P = "dom (map_of (mp_pendingEmpty (mw_presence w)))" and ?R = "dom (map_of (mw_rooms w))"
  from mem_RunEmptyRoomCleanup [OF assms(1,2)] obtain cs t where
    cs: "cleanup_candidates (mem_page 500) (mem_abs w) cs" and
    sw: "swept False cs None ((mem_abs w)\<lparr>ab_now := t\<rparr>) (mem_abs w')" by auto
  have "card ?R \<le> length (mw_rooms w)"
    by (metis card_length dom_map_of_conv_image_fst length_map set_map)
  then have "card ?R \<le> mem_page 500" using assms(3) by (simp add: mem_page_def)
  moreover have "TrimSpace ` ?R - {[]} = ?R" "TrimSpace ` ?P - {[]} = ?P"
    using assms(4) by (force simp: image_iff)+
  ultimately have sub: "?R \<subseteq> set cs" "?P \<subseteq> set cs"
    using cs by (simp_all add: cleanup_candidates_def)
  let ?D = "{r \<in> set cs. occupants (seat (mw_presence w)) r = {}}"
  have f: "map_of (mw_rooms w') = map_of (mw_rooms w) |` (- ?D)" "map_of (mw_states w') = map_of (mw_states w) |` (- ?D)"
    "granted (mw_access w') = {(r, u). (r, u) \<in> granted (mw_access w) \<and> r \<notin> ?D}"
    "dom (map_of (mp_pendingEmpty (mw_presence w'))) = ?P - set cs"
    using sw by (auto simp: swept_def)
  have "map_of (mw_rooms w) |` (- ?D) = map_of (mw_rooms w) |` {r. occupants (seat (mw_presence w)) r \<noteq> {}}"
    using sub(1) by (auto simp: restrict_map_def fun_eq_iff domIff)
  with f sub show ?thesis by auto
qed

theorem cleanup_complete_witness:
  "\<exists>w'. run_state (RunEmptyRoomCleanup sample_service) sample_world = (None, w') \<and>
     map_of (mw_rooms w') = [''r1'' \<mapsto> sample_room ''r1'']"
proof -
  have "fst (run_state (RunEmptyRoomCleanup sample_service) sample_world) = None" by code_simp
  then obtain w' where run: "run_state (RunEmptyRoomCleanup sample_service) sample_world = (None, w')"
    by (metis prod.collapse)
  have t: "TrimSpace ''r1'' = ''r1''" "TrimSpace ''r2'' = ''r2''" by code_simp+
  have m: "map_of (mw_rooms sample_world) |` {r. occupants (seat (mw_presence sample_world)) r \<noteq> {}} =
      [''r1'' \<mapsto> sample_room ''r1'']"
    using sample_occupied by (auto simp: restrict_map_def fun_eq_iff sample_world_def split: if_splits)
  have "\<forall>r \<in> dom (map_of (mw_rooms sample_world)) \<union> dom (map_of (mp_pendingEmpty (mw_presence sample_world))).
      TrimSpace r = r \<and> r \<noteq> []"
    using t by (auto simp: sample_world_def sample_presence_eq split: if_splits)
  with cleanup_complete [OF sample_world_live run [unfolded sample_service_def]] m run show ?thesis
    by (simp add: sample_world_def)
qed

text \<open>
  C10: the global cleanup always returns (whatever fuel the chat scan is given, since no chat store is attached) and
  leaves the cleanup lock as it found it.  It does nothing but read the clock when the last successful cleanup is
  less than five minutes old or the lock is taken; otherwise it sweeps the empty rooms under the lock and, on
  success, notes the time.
\<close>

theorem MaybeRunGlobalCleanup_spec:
  assumes "mem_live w" and "run_state (MaybeRunGlobalCleanup fuel (mem_service uuid lowU rt limits)) w = (x, w')"
  shows "\<exists>e. x = Some e \<and> mem_live w' \<and> cleanup_done 500 e (mem_abs w) (mem_abs w') \<and>
    mp_cleanupLock (mw_presence w') = mp_cleanupLock (mw_presence w)"
proof -
  from mem_MaybeRunGlobalCleanup [OF assms] obtain e where e: "x = Some e" "mem_live w'"
    "cleanup_done 500 e (mem_abs w) (mem_abs w')" by (auto simp: mem_page_def)
  with cleanup_done_lock [OF e(3)] show ?thesis by simp
qed

theorem MaybeRunGlobalCleanup_spec_witness:
  "\<exists>e w'. run_state (MaybeRunGlobalCleanup 0 sample_service) sample_world = (Some e, w') \<and>
     cleanup_done 500 e (mem_abs sample_world) (mem_abs w') \<and> \<not> mp_cleanupLock (mw_presence w')"
proof -
  obtain x w' where run: "run_state (MaybeRunGlobalCleanup 0 sample_service) sample_world = (x, w')"
    by (metis prod.collapse)
  from MaybeRunGlobalCleanup_spec [OF sample_world_live run [unfolded sample_service_def]] run show ?thesis
    by (auto simp: sample_world_def sample_presence_eq)
qed

text \<open>
  What a client sees when it enters a room: the snapshot holds the stored state projected to the time of the call
  (nothing for a room without state), the number of users who sit in the room, and a queue that is never
  empty while a video is set.  Taking it changes nothing.
\<close>

theorem TakeSnapshot_spec:
  assumes "mem_live w" and "run_state (TakeSnapshot (mem_service uuid lowU rt limits) r) w = (x, w')"
  shows "\<exists>t\<ge>mw_now w. mem_abs w' = (mem_abs w)\<lparr>ab_now := t\<rparr> \<and> sn_RoomID x = r \<and>
    sn_State x = projectState t (map_of (mw_states w) r) \<and>
    sn_ViewerCount x = int (card (occupants (seat (mw_presence w)) r)) \<and>
    (sn_Queue x = [] \<longrightarrow> (case sn_State x of None \<Rightarrow> True | Some st \<Rightarrow> rs_VideoID st = []))"
  using mem.TakeSnapshot_run [OF mem_backed assms] by (auto split: option.splits if_splits)

theorem TakeSnapshot_spec_witness:
  "\<exists>x w'. run_state (TakeSnapshot sample_service ''r1'') sample_world = (x, w') \<and> sn_ViewerCount x = 2 \<and>
     sn_State x = None"
proof -
  obtain x w' where run: "run_state (TakeSnapshot sample_service ''r1'') sample_world = (x, w')"
    by (metis prod.collapse)
  have "occupants (seat (mw_presence sample_world)) ''r1'' = {''u1'', ''u2''}"
    by (auto simp: occupants_def sample_world_def sample_seat split: if_splits)
  then have "card (occupants (seat (mw_presence sample_world)) ''r1'') = 2" by simp
  with TakeSnapshot_spec [OF sample_world_live run [unfolded sample_service_def]] run show ?thesis
    by (auto simp: sample_world_def NewRoomStateCache_def projectState_def)
qed

end
