(* ===== verification/Auth_Service.thy ===== *)
theory Auth_Service
  imports Session_Memory Email_Code Config
begin

text \<open>
  Accounts and tokens, \<^verbatim>\<open>internal/auth/auth.go\<close>: registration with a mailed code, login, password reset, refresh,
  logout and token checks.  The packages behind it that are not part of the repository (JWT, bcrypt, UUID) and the
  tables of the standard library that it consults (Unicode classes, the address parser of \<open>net/mail\<close>) are the
  fields of \<open>AuthPkg\<close>.
\<close>

section \<open>Data\<close>

definition TokenTypeAccess :: string where [simp]: "TokenTypeAccess = ''access''"
definition TokenTypeRefresh :: string where [simp]: "TokenTypeRefresh = ''refresh''"
definition PurposeRegister :: string where [simp]: "PurposeRegister = ''register''"
definition PurposeResetPassword :: string where [simp]: "PurposeResetPassword = ''reset_password''"

record Claims =
  ck_UserID :: string
  ck_Username :: string
  ck_Role :: UserRole
  ck_Type :: string
  ck_Subject :: string
  ck_ID :: string
  ck_IssuedAt :: gotime
  ck_ExpiresAt :: gotime

record TokenPair =
  tp_AccessToken :: string
  tp_RefreshToken :: string
  tp_TokenType :: string
  tp_ExpiresAt :: gotime

record 'w UserStore =
  UserStore_GetByID :: "string \<Rightarrow> ('w, error + User) io"
  UserStore_GetByUsername :: "string \<Rightarrow> ('w, error + User) io"
  UserStore_GetByEmail :: "string \<Rightarrow> ('w, error + User) io"
  UserStore_Create :: "User \<Rightarrow> ('w, error + User) io"
    \<comment> \<open>the user as the call leaves it behind its pointer argument\<close>
  UserStore_Update :: "User \<Rightarrow> ('w, error option) io"

text \<open>
  \<open>jw_parse secret now leeway\<close> returns the claims of a token that has a valid HMAC signature under the secret and is not
  expired at \<open>now\<close> by more than the leeway, with an expiry required; \<open>jw_date\<close> is \<open>jwt.NewNumericDate\<close>.
\<close>

record 'w AuthPkg =
  jw_date :: "gotime \<Rightarrow> gotime"
  jw_sign :: "string \<Rightarrow> Claims \<Rightarrow> error + string"
  jw_parse :: "string \<Rightarrow> gotime \<Rightarrow> duration \<Rightarrow> string \<Rightarrow> Claims option"
  bc_generate :: "string \<Rightarrow> ('w, error + string) io"
  bc_compare :: "string \<Rightarrow> string \<Rightarrow> bool"
  uuid_new :: "('w, string) io"
  uni_lower :: "string \<Rightarrow> string"
  uni_isLower :: "string \<Rightarrow> bool"
  uni_isDigit :: "string \<Rightarrow> bool"
  mail_parse :: "string \<Rightarrow> string option"

text \<open>The verification store, of which the service calls \<open>Verify\<close> only.\<close>

type_synonym 'w CodeVerifier = "string \<Rightarrow> string \<Rightarrow> string \<Rightarrow> int \<Rightarrow> gotime \<Rightarrow> ('w, error option) io"

record 'w AuthService =
  au_users :: "'w UserStore"
  au_sessions :: "'w SessionCache"
  au_cfg :: Config
  au_codes :: "'w CodeVerifier option"
  au_now :: "('w, gotime) io"
  au_afterLogin :: "('w, error option) io option"
  au_pkg :: "'w AuthPkg"

definition NewAuthService ::
  "('w, gotime) io \<Rightarrow> 'w AuthPkg \<Rightarrow> 'w UserStore \<Rightarrow> 'w SessionCache \<Rightarrow> 'w CodeVerifier option \<Rightarrow> Config \<Rightarrow> 'w AuthService" where
  "NewAuthService timeNow pkg users sessions codes cfg =
     \<lparr>au_users = users, au_sessions = sessions, au_cfg = cfg, au_codes = codes, au_now = timeNow,
      au_afterLogin = None, au_pkg = pkg\<rparr>"

definition SetAfterLogin :: "('w, error option) io \<Rightarrow> 'w AuthService \<Rightarrow> 'w AuthService" where
  "SetAfterLogin fn s = s\<lparr>au_afterLogin := Some fn\<rparr>"

section \<open>Validation\<close>

definition normalizeUsername :: "'w AuthPkg \<Rightarrow> string \<Rightarrow> string" where
  "normalizeUsername pkg username = ToLower (uni_lower pkg) (TrimSpace username)"

text \<open>The regular expression \<^verbatim>\<open>^[a-z0-9_]{3,40}$\<close>.\<close>

definition username_char :: "char \<Rightarrow> bool" where
  "username_char c \<longleftrightarrow> 97 \<le> byte c \<and> byte c \<le> 122 \<or> is_digit c \<or> c = CHR ''_''"

definition validateUsername :: "string \<Rightarrow> error option" where
  "validateUsername username =
     (if \<not> (3 \<le> length username \<and> length username \<le> 40 \<and> list_all username_char username)
      then Some ErrInvalidUsername else None)"

text \<open>The runes of a string; \<open>unicode.IsLower\<close> and \<open>IsDigit\<close> use tables beyond ASCII.\<close>

function runes :: "string \<Rightarrow> string list" where
  "runes s = (if s = [] then [] else take (rune_len s) s # runes (drop (rune_len s) s))"
  by pat_completeness auto
termination by (relation "measure length") auto

declare runes.simps [simp del]

definition IsLower :: "'w AuthPkg \<Rightarrow> string \<Rightarrow> bool" where
  "IsLower pkg r = (case r of [c] \<Rightarrow> 97 \<le> byte c \<and> byte c \<le> 122 | _ \<Rightarrow> uni_isLower pkg r)"

definition IsDigit :: "'w AuthPkg \<Rightarrow> string \<Rightarrow> bool" where
  "IsDigit pkg r = (case r of [c] \<Rightarrow> is_digit c | _ \<Rightarrow> uni_isDigit pkg r)"

definition validatePassword :: "'w AuthPkg \<Rightarrow> string \<Rightarrow> error option" where
  "validatePassword pkg password =
     (if length password < 8 \<or> length password > 128 then Some ErrWeakPassword
      else
        let lower = list_ex (IsLower pkg) (runes password);
            digit = list_ex (IsDigit pkg) (runes password)
        in if \<not> lower \<or> \<not> digit then Some ErrWeakPassword else None)"

definition LastIndexByte :: "string \<Rightarrow> char \<Rightarrow> int" where
  "LastIndexByte s c = (let i = IndexByte (rev s) c in if i < 0 then - 1 else int (length s) - 1 - i)"

definition normalizeEmail :: "'w AuthPkg \<Rightarrow> string \<Rightarrow> error + string" where
  "normalizeEmail pkg raw =
     (let s = ToLower (uni_lower pkg) (TrimSpace raw) in
      if s = [] then Inl ErrInvalidEmail
      else
        case (case mail_parse pkg s of
                Some addr \<Rightarrow> Some addr
              | None \<Rightarrow> mail_parse pkg (''<'' @ s @ ''>'')) of
          None \<Rightarrow> Inl ErrInvalidEmail
        | Some address \<Rightarrow>
            let i = LastIndexByte address (CHR ''@'') in
            if i \<le> 0 \<or> i = int (length address) - 1 then Inl ErrInvalidEmail
            else
              let local = take (nat i) address; domain = drop (nat i + 1) address in
              if local = [] \<or> domain = [] then Inl ErrInvalidEmail
              else Inr (local @ ''@'' @ domain))"

definition NormalizeEmailForRequest :: "'w AuthPkg \<Rightarrow> string \<Rightarrow> error + string" where
  "NormalizeEmailForRequest pkg raw = normalizeEmail pkg raw"

definition ExtractBearer :: "string \<Rightarrow> string" where
  "ExtractBearer header =
     (if HasPrefix header ''Bearer '' then TrimSpace (TrimPrefix header ''Bearer '') else [])"

definition HashPassword :: "'w AuthPkg \<Rightarrow> string \<Rightarrow> ('w, error + string) io" where
  "HashPassword pkg password = bc_generate pkg password"

definition CheckPassword :: "'w AuthPkg \<Rightarrow> string \<Rightarrow> string \<Rightarrow> bool" where
  "CheckPassword pkg hash password = bc_compare pkg hash password"

section \<open>Tokens\<close>

definition sign :: "'w AuthService \<Rightarrow> User \<Rightarrow> string \<Rightarrow> duration \<Rightarrow> ('w, error + (string \<times> gotime)) io" where
  "sign s user tokenType ttl = do {
     now \<leftarrow> au_now s;
     jti \<leftarrow> uuid_new (au_pkg s);
     let expiresAt = now + ttl;
         claims = \<lparr>ck_UserID = u_ID user, ck_Username = u_Username user, ck_Role = u_Role user, ck_Type = tokenType,
           ck_Subject = u_ID user, ck_ID = jti, ck_IssuedAt = jw_date (au_pkg s) now,
           ck_ExpiresAt = jw_date (au_pkg s) expiresAt\<rparr>
     in State_Monad.return
          (case jw_sign (au_pkg s) (cf_JWTSecret (au_cfg s)) claims of
             Inl err \<Rightarrow> Inl err
           | Inr token \<Rightarrow> Inr (token, expiresAt))
   }"

definition issuePair :: "'w AuthService \<Rightarrow> User \<Rightarrow> ('w, error + TokenPair) io" where
  "issuePair s user = do {
     a \<leftarrow> sign s user TokenTypeAccess (cf_JWTAccessTTL (au_cfg s));
     case a of
       Inl err \<Rightarrow> State_Monad.return (Inl err)
     | Inr (access, accessExp) \<Rightarrow> do {
         r \<leftarrow> sign s user TokenTypeRefresh (cf_JWTRefreshTTL (au_cfg s));
         case r of
           Inl err \<Rightarrow> State_Monad.return (Inl err)
         | Inr (refresh, _) \<Rightarrow> do {
             e \<leftarrow> SetRefreshToken (au_sessions s) (u_ID user) refresh (cf_JWTRefreshTTL (au_cfg s));
             State_Monad.return
               (case e of
                  Some err \<Rightarrow> Inl err
                | None \<Rightarrow> Inr \<lparr>tp_AccessToken = access, tp_RefreshToken = refresh, tp_TokenType = ''Bearer'',
                    tp_ExpiresAt = accessExp\<rparr>)
           }
       }
   }"

definition ParseToken :: "'w AuthService \<Rightarrow> string \<Rightarrow> string \<Rightarrow> ('w, error + Claims) io" where
  "ParseToken s tokenString0 expectedType =
     (let tokenString = TrimSpace (TrimPrefix tokenString0 ''Bearer '') in
      if tokenString = [] then State_Monad.return (Inl ErrInvalidToken)
      else do {
        now \<leftarrow> au_now s;
        case jw_parse (au_pkg s) (cf_JWTSecret (au_cfg s)) now (5 * Second) tokenString of
          None \<Rightarrow> State_Monad.return (Inl ErrInvalidToken)
        | Some claims \<Rightarrow>
            if expectedType \<noteq> [] \<and> ck_Type claims \<noteq> expectedType then State_Monad.return (Inl ErrInvalidToken)
            else if ck_UserID claims = [] \<or> ck_ID claims = [] then State_Monad.return (Inl ErrInvalidToken)
            else do {
              b \<leftarrow> IsBlacklisted (au_sessions s) (ck_ID claims);
              State_Monad.return
                (case b of
                   Inl err \<Rightarrow> Inl err
                 | Inr blocked \<Rightarrow> if blocked then Inl ErrInvalidToken else Inr claims)
            }
      })"

definition runAfterLogin :: "'w AuthService \<Rightarrow> ('w, unit) io" where
  "runAfterLogin s =
     (case au_afterLogin s of
        None \<Rightarrow> State_Monad.return ()
      | Some fn \<Rightarrow> do { _ \<leftarrow> fn; State_Monad.return () })"

section \<open>Operations\<close>

definition RegisterWithCode ::
  "'w AuthService \<Rightarrow> string \<Rightarrow> string \<Rightarrow> string \<Rightarrow> string \<Rightarrow> string \<Rightarrow> string \<Rightarrow> ('w, error + (User \<times> TokenPair)) io" where
  "RegisterWithCode s emailAddr username password code nickname avatarURL =
     (case normalizeEmail (au_pkg s) emailAddr of
        Inl err \<Rightarrow> State_Monad.return (Inl err)
      | Inr emailNorm \<Rightarrow>
     let usernameNorm = normalizeUsername (au_pkg s) username in
     (case validateUsername usernameNorm of
        Some err \<Rightarrow> State_Monad.return (Inl err)
      | None \<Rightarrow>
     (case validatePassword (au_pkg s) password of
        Some err \<Rightarrow> State_Monad.return (Inl err)
      | None \<Rightarrow>
     (case au_codes s of
        None \<Rightarrow> State_Monad.return (Inl (OtherError ''auth: verification store not configured''))
      | Some verify \<Rightarrow> do {
          now \<leftarrow> au_now s;
          v \<leftarrow> verify emailNorm PurposeRegister code (cf_EmailCodeMaxAttempts (au_cfg s)) now;
          case v of
            Some err \<Rightarrow> State_Monad.return (Inl err)
          | None \<Rightarrow> do {
          byEmail \<leftarrow> UserStore_GetByEmail (au_users s) emailNorm;
          case byEmail of
            Inr _ \<Rightarrow> State_Monad.return (Inl ErrConflict)
          | Inl err \<Rightarrow>
              if err \<noteq> ErrNotFound then State_Monad.return (Inl err)
              else do {
          byName \<leftarrow> UserStore_GetByUsername (au_users s) usernameNorm;
          case byName of
            Inr _ \<Rightarrow> State_Monad.return (Inl ErrConflict)
          | Inl err \<Rightarrow>
              if err \<noteq> ErrNotFound then State_Monad.return (Inl err)
              else do {
          h \<leftarrow> HashPassword (au_pkg s) password;
          case h of
            Inl err \<Rightarrow> State_Monad.return (Inl err)
          | Inr hash \<Rightarrow>
              let nick0 = TrimSpace nickname;
                  nick = (if nick0 = [] then usernameNorm else nick0);
                  user0 = \<lparr>u_ID = [], u_Email = emailNorm, u_Username = usernameNorm, u_PasswordHash = hash,
                    u_Nickname = nick, u_AvatarURL = TrimSpace avatarURL, u_Role = UserRoleUser,
                    u_CreatedAt = 0, u_UpdatedAt = 0\<rparr>
              in do {
          c \<leftarrow> UserStore_Create (au_users s) user0;
          case c of
            Inl err \<Rightarrow> State_Monad.return (Inl err)
          | Inr user \<Rightarrow> do {
          t \<leftarrow> issuePair s user;
          case t of
            Inl err \<Rightarrow> State_Monad.return (Inl err)
          | Inr tokens \<Rightarrow> do {
              _ \<leftarrow> runAfterLogin s;
              State_Monad.return (Inr (user, tokens))
            } } } } } } }))))"

definition Login :: "'w AuthService \<Rightarrow> string \<Rightarrow> string \<Rightarrow> ('w, error + (User \<times> TokenPair)) io" where
  "Login s login0 password =
     (let login = TrimSpace login0 in
      if login = [] then State_Monad.return (Inl ErrInvalidCredentials)
      else do {
        found \<leftarrow> (if CHR ''@'' \<in> set login then
                    (case normalizeEmail (au_pkg s) login of
                       Inl _ \<Rightarrow> State_Monad.return (Inl ErrInvalidCredentials)
                     | Inr emailNorm \<Rightarrow> UserStore_GetByEmail (au_users s) emailNorm)
                  else UserStore_GetByUsername (au_users s) (normalizeUsername (au_pkg s) login));
        case found of
          Inl err \<Rightarrow> State_Monad.return (Inl (if err = ErrNotFound then ErrInvalidCredentials else err))
        | Inr user \<Rightarrow>
            if \<not> CheckPassword (au_pkg s) (u_PasswordHash user) password
            then State_Monad.return (Inl ErrInvalidCredentials)
            else do {
              t \<leftarrow> issuePair s user;
              case t of
                Inl err \<Rightarrow> State_Monad.return (Inl err)
              | Inr tokens \<Rightarrow> do {
                  _ \<leftarrow> runAfterLogin s;
                  State_Monad.return (Inr (user, tokens))
                }
            }
      })"

definition ResetPassword :: "'w AuthService \<Rightarrow> string \<Rightarrow> string \<Rightarrow> string \<Rightarrow> ('w, error option) io" where
  "ResetPassword s emailAddr code newPassword =
     (case normalizeEmail (au_pkg s) emailAddr of
        Inl err \<Rightarrow> State_Monad.return (Some err)
      | Inr emailNorm \<Rightarrow>
     (case validatePassword (au_pkg s) newPassword of
        Some err \<Rightarrow> State_Monad.return (Some err)
      | None \<Rightarrow>
     (case au_codes s of
        None \<Rightarrow> State_Monad.return (Some (OtherError ''auth: verification store not configured''))
      | Some verify \<Rightarrow> do {
          now \<leftarrow> au_now s;
          v \<leftarrow> verify emailNorm PurposeResetPassword code (cf_EmailCodeMaxAttempts (au_cfg s)) now;
          case v of
            Some err \<Rightarrow> State_Monad.return (Some err)
          | None \<Rightarrow> do {
          found \<leftarrow> UserStore_GetByEmail (au_users s) emailNorm;
          case found of
            Inl err \<Rightarrow> State_Monad.return (Some (if err = ErrNotFound then ErrInvalidCredentials else err))
          | Inr user \<Rightarrow> do {
          h \<leftarrow> HashPassword (au_pkg s) newPassword;
          case h of
            Inl err \<Rightarrow> State_Monad.return (Some err)
          | Inr hash \<Rightarrow> do {
          e \<leftarrow> UserStore_Update (au_users s) (user\<lparr>u_PasswordHash := hash\<rparr>);
          case e of
            Some err \<Rightarrow> State_Monad.return (Some err)
          | None \<Rightarrow> DeleteRefreshToken (au_sessions s) (u_ID user)
            } } } })))"

definition Refresh :: "'w AuthService \<Rightarrow> string \<Rightarrow> ('w, error + TokenPair) io" where
  "Refresh s refreshToken = do {
     c \<leftarrow> ParseToken s refreshToken TokenTypeRefresh;
     case c of
       Inl err \<Rightarrow> State_Monad.return (Inl err)
     | Inr claims \<Rightarrow> do {
     g \<leftarrow> GetRefreshToken (au_sessions s) (ck_UserID claims);
     case g of
       Inl err \<Rightarrow> State_Monad.return (Inl err)
     | Inr stored \<Rightarrow>
         if stored = [] \<or> stored \<noteq> refreshToken then State_Monad.return (Inl ErrInvalidToken)
         else do {
     f \<leftarrow> UserStore_GetByID (au_users s) (ck_UserID claims);
     case f of
       Inl err \<Rightarrow> State_Monad.return (Inl err)
     | Inr user \<Rightarrow> do {
     t \<leftarrow> issuePair s user;
     case t of
       Inl err \<Rightarrow> State_Monad.return (Inl err)
     | Inr tokens \<Rightarrow> do {
         _ \<leftarrow> runAfterLogin s;
         State_Monad.return (Inr tokens)
       } } } } }"

fun logout_tokens :: "'w AuthService \<Rightarrow> string list \<Rightarrow> ('w, error option) io" where
  "logout_tokens s [] = State_Monad.return None"
| "logout_tokens s (tokenString # rest) = do {
     c \<leftarrow> ParseToken s tokenString [];
     case c of
       Inl _ \<Rightarrow> logout_tokens s rest
     | Inr claims \<Rightarrow> do {
         now \<leftarrow> au_now s;
         let ttl0 = Sub (ck_ExpiresAt claims) now;
             ttl = (if ttl0 < 0 then 0 else ttl0)
         in do {
           e \<leftarrow> BlacklistToken (au_sessions s) (ck_ID claims) ttl;
           case e of
             Some err \<Rightarrow> State_Monad.return (Some err)
           | None \<Rightarrow> logout_tokens s rest
         }
       }
   }"

definition Logout :: "'w AuthService \<Rightarrow> string \<Rightarrow> string \<Rightarrow> ('w, error option) io" where
  "Logout s accessToken refreshToken = logout_tokens s [accessToken, refreshToken]"

end
