(* ===== verification/Auth_Contracts.thy ===== *)
theory Auth_Contracts
  imports Auth_Service Room_Interfaces
begin

text \<open>
  What the account service relies on, as contracts over one abstract account database: the session cache, the user
  store, the verification codes, the clock, fresh identifiers, password hashing and the hook that runs after a login.
  From the contracts alone follows how the database evolves under the service: a refresh token that is no longer the
  stored one never becomes valid again, and a revoked token stays revoked until it expires.
\<close>

section \<open>The abstract account database\<close>

text \<open>
  Refresh tokens and blacklist entries are kept with the time at which they end, and are absent from that time on;
  \<open>aa_ids\<close> are the identifiers handed out so far, \<open>aa_codes\<close> the keys of the verification codes that can be used.
\<close>

record auth_abs =
  aa_users :: "string \<Rightarrow> User option"
  aa_refresh :: "string \<Rightarrow> (string \<times> gotime) option"
  aa_black :: "string \<Rightarrow> gotime option"
  aa_codes :: "string set"
  aa_ids :: "string set"
  aa_now :: gotime

text \<open>Time moves on to \<open>t\<close>.\<close>

definition tick :: "gotime \<Rightarrow> auth_abs \<Rightarrow> auth_abs" where
  "tick t a = a\<lparr>aa_now := t,
     aa_refresh := \<lambda>u. case aa_refresh a u of None \<Rightarrow> None | Some (tok, e) \<Rightarrow> if t < e then Some (tok, e) else None,
     aa_black := \<lambda>j. case aa_black a j of None \<Rightarrow> None | Some e \<Rightarrow> if t < e then Some e else None\<rparr>"

lemma tick_sel [simp]:
  "aa_users (tick t a) = aa_users a" "aa_codes (tick t a) = aa_codes a" "aa_ids (tick t a) = aa_ids a"
  "aa_now (tick t a) = t"
  by (simp_all add: tick_def)

lemma tick_refresh: "aa_refresh (tick t a) u = Some (tok, e) \<longleftrightarrow> aa_refresh a u = Some (tok, e) \<and> t < e"
  by (auto simp: tick_def split: option.splits if_splits)

lemma tick_black: "aa_black (tick t a) j = Some e \<longleftrightarrow> aa_black a j = Some e \<and> t < e"
  by (auto simp: tick_def split: option.splits if_splits)

lemma tick_none: "aa_refresh a u = None \<Longrightarrow> aa_refresh (tick t a) u = None"
  "aa_black a j = None \<Longrightarrow> aa_black (tick t a) j = None"
  by (simp_all add: tick_def)

lemma tick_tick [simp]: "s \<le> t \<Longrightarrow> tick t (tick s a) = tick t a"
  by (auto simp: tick_def fun_eq_iff split: option.splits)

section \<open>Contracts\<close>

locale session_store =
  fixes ss :: "'w SessionCache" and A :: "'w \<Rightarrow> auth_abs" and live :: "'w \<Rightarrow> bool"
  assumes set_refresh: "0 < ttl \<Longrightarrow> ensures live A (SetRefreshToken ss u tok ttl) a
      (\<lambda>x a'. x = None \<and> (\<exists>t\<ge>aa_now a. a' = (tick t a)\<lparr>aa_refresh := (aa_refresh (tick t a))(u \<mapsto> (tok, t + ttl))\<rparr>))"
    and get_refresh: "ensures live A (GetRefreshToken ss u) a
      (\<lambda>x a'. \<exists>t\<ge>aa_now a. a' = tick t a \<and> x = Inr (case aa_refresh a' u of None \<Rightarrow> [] | Some (tok, _) \<Rightarrow> tok))"
    and delete_refresh: "ensures live A (DeleteRefreshToken ss u) a
      (\<lambda>x a'. x = None \<and> a' = a\<lparr>aa_refresh := (aa_refresh a)(u := None)\<rparr>)"
    and blacklist: "0 \<le> ttl \<Longrightarrow> ensures live A (BlacklistToken ss j ttl) a
      (\<lambda>x a'. x = None \<and> (\<exists>t\<ge>aa_now a. \<exists>e. (0 < ttl \<longrightarrow> e = Some (t + ttl)) \<and>
         a' = (tick t a)\<lparr>aa_black := (aa_black (tick t a))(j := e)\<rparr>))"
    and is_blacklisted: "ensures live A (IsBlacklisted ss j) a
      (\<lambda>x a'. \<exists>t\<ge>aa_now a. a' = tick t a \<and> x = Inr (aa_black a' j \<noteq> None))"

text \<open>
  \<open>same_mail\<close> and \<open>same_name\<close> are the comparisons by which the store finds a user.  The strings that go into a token
  are ASCII.  An update is given the time of creation that is stored, as the service does; the time it stores for the
  update need not be as exact as the clock.
\<close>

definition user_ok :: "User \<Rightarrow> bool" where
  "user_ok u \<longleftrightarrow> u_ID u \<noteq> [] \<and> is_ascii (u_ID u) \<and> is_ascii (u_Username u) \<and> is_ascii (u_Role u)"

locale user_store =
  fixes us :: "'w UserStore" and A :: "'w \<Rightarrow> auth_abs" and live :: "'w \<Rightarrow> bool"
    and same_mail same_name :: "string \<Rightarrow> string \<Rightarrow> bool"
  assumes user_keys: "live w \<Longrightarrow> aa_users (A w) i = Some u \<Longrightarrow> u_ID u = i \<and> user_ok u"
    and get_user: "ensures live A (UserStore_GetByID us i) a
      (\<lambda>x a'. a' = a \<and> x = (case aa_users a i of None \<Rightarrow> Inl ErrNotFound | Some u \<Rightarrow> Inr u))"
    and get_by_email: "ensures live A (UserStore_GetByEmail us m) a
      (\<lambda>x a'. a' = a \<and> (case x of
         Inl err \<Rightarrow> err = ErrNotFound \<and> (\<forall>u\<in>ran (aa_users a). \<not> same_mail (u_Email u) m)
       | Inr u \<Rightarrow> u \<in> ran (aa_users a) \<and> same_mail (u_Email u) m))"
    and get_by_username: "ensures live A (UserStore_GetByUsername us n) a
      (\<lambda>x a'. a' = a \<and> (case x of
         Inl err \<Rightarrow> err = ErrNotFound \<and> (\<forall>u\<in>ran (aa_users a). \<not> same_name (u_Username u) n)
       | Inr u \<Rightarrow> u \<in> ran (aa_users a) \<and> same_name (u_Username u) n))"
    and create_user: "u_ID u = [] \<Longrightarrow> u_Role u \<noteq> [] \<Longrightarrow> IsZero (u_CreatedAt u) \<Longrightarrow>
      is_ascii (u_Username u) \<Longrightarrow> is_ascii (u_Role u) \<Longrightarrow>
      ensures live A (UserStore_Create us u) a
      (\<lambda>x a'. \<exists>t\<ge>aa_now a. \<exists>I. aa_ids a \<subseteq> I \<and> (case x of
         Inl _ \<Rightarrow> a' = (tick t a)\<lparr>aa_ids := I\<rparr>
       | Inr v \<Rightarrow> aa_users a (u_ID v) = None \<and> v = u\<lparr>u_ID := u_ID v, u_CreatedAt := u_CreatedAt v, u_UpdatedAt := u_UpdatedAt v\<rparr> \<and>
           a' = (tick t a)\<lparr>aa_ids := I, aa_users := (aa_users a)(u_ID v \<mapsto> v)\<rparr>))"
    and update_user: "user_ok u \<Longrightarrow> \<forall>u0. aa_users a (u_ID u) = Some u0 \<longrightarrow> u_CreatedAt u0 = u_CreatedAt u \<Longrightarrow>
      ensures live A (UserStore_Update us u) a
      (\<lambda>x a'. \<exists>t\<ge>aa_now a. \<exists>t'. case x of
         Some _ \<Rightarrow> a' = tick t a
       | None \<Rightarrow> aa_users a (u_ID u) \<noteq> None \<and>
           a' = (tick t a)\<lparr>aa_users := (aa_users a)(u_ID u \<mapsto> u\<lparr>u_UpdatedAt := t'\<rparr>)\<rparr>)"

locale code_store =
  fixes vf :: "'w CodeVerifier" and A :: "'w \<Rightarrow> auth_abs" and live :: "'w \<Rightarrow> bool" and ckey :: "string \<Rightarrow> string \<Rightarrow> string"
  assumes verify_code: "ensures live A (vf m p code n t) a
      (\<lambda>x a'. \<exists>C\<subseteq>aa_codes a. a' = a\<lparr>aa_codes := C\<rparr> \<and> (x = None \<longrightarrow> ckey m p \<in> aa_codes a \<and> ckey m p \<notin> C))"

text \<open>The clock, the source of fresh identifiers, password hashing, and the hook.\<close>

locale auth_runtime =
  fixes clk :: "('w, gotime) io" and uid :: "('w, string) io" and gen :: "string \<Rightarrow> ('w, error + string) io"
    and cmp :: "string \<Rightarrow> string \<Rightarrow> bool" and hook :: "('w, error option) io option"
    and A :: "'w \<Rightarrow> auth_abs" and live :: "'w \<Rightarrow> bool"
  assumes auth_clock: "ensures live A clk a (\<lambda>t a'. aa_now a \<le> t \<and> a' = tick t a)"
    and fresh_id: "ensures live A uid a
      (\<lambda>x a'. x \<notin> aa_ids a \<and> x \<noteq> [] \<and> is_ascii x \<and> a' = a\<lparr>aa_ids := insert x (aa_ids a)\<rparr>)"
    and generate_hash: "ensures live A (gen p) a (\<lambda>x a'. a' = a \<and> (\<forall>h. x = Inr h \<longrightarrow> cmp h p))"
    and after_login: "hook = Some h \<Longrightarrow> ensures live A h a (\<lambda>x a'. \<exists>t\<ge>aa_now a. a' = tick t a)"

locale auth_backend =
  session_store ss A live + user_store us A live same_mail same_name + code_store vf A live ckey +
  auth_runtime clk uid gen cmp hook A live
  for ss :: "'w SessionCache" and us :: "'w UserStore" and vf :: "'w CodeVerifier" and clk :: "('w, gotime) io"
    and uid :: "('w, string) io" and gen :: "string \<Rightarrow> ('w, error + string) io" and cmp :: "string \<Rightarrow> string \<Rightarrow> bool"
    and hook :: "('w, error option) io option" and A :: "'w \<Rightarrow> auth_abs" and live :: "'w \<Rightarrow> bool"
    and same_mail same_name :: "string \<Rightarrow> string \<Rightarrow> bool" and ckey :: "string \<Rightarrow> string \<Rightarrow> string"

section \<open>The JWT package\<close>

text \<open>
  Its documented behaviour: a \<open>NumericDate\<close> has whole seconds; a token that was signed for claims in ASCII parses back
  to those claims as long as the time is before the expiry plus the leeway, and is refused afterwards; a token is
  a word of base64url characters and dots, so that trimming it changes nothing and it does not start with \<open>Bearer\<close>.
\<close>

definition claims_ok :: "'w AuthPkg \<Rightarrow> Claims \<Rightarrow> bool" where
  "claims_ok pkg c \<longleftrightarrow>
     list_all is_ascii [ck_UserID c, ck_Username c, ck_Role c, ck_Type c, ck_Subject c, ck_ID c] \<and>
     jw_date pkg (ck_IssuedAt c) = ck_IssuedAt c \<and> jw_date pkg (ck_ExpiresAt c) = ck_ExpiresAt c"

definition jwt_laws :: "'w AuthPkg \<Rightarrow> bool" where
  "jwt_laws pkg \<longleftrightarrow>
     (\<forall>t. jw_date pkg t \<le> t \<and> t < jw_date pkg t + Second \<and> jw_date pkg (jw_date pkg t) = jw_date pkg t) \<and>
     (\<forall>k c tok. claims_ok pkg c \<longrightarrow> jw_sign pkg k c = Inr tok \<longrightarrow>
        tok \<noteq> [] \<and> TrimSpace tok = tok \<and> \<not> HasPrefix tok ''Bearer '' \<and>
        (\<forall>now lw. jw_parse pkg k now lw tok = (if now < ck_ExpiresAt c + lw then Some c else None)))"

text \<open>\<open>signed s tok c\<close>: the service's package turns the claims into this token.\<close>

definition signed :: "'w AuthService \<Rightarrow> string \<Rightarrow> Claims \<Rightarrow> bool" where
  "signed s tok c \<longleftrightarrow> claims_ok (au_pkg s) c \<and> jw_sign (au_pkg s) (cf_JWTSecret (au_cfg s)) c = Inr tok"

lemma jwt_date:
  assumes "jwt_laws pkg"
  shows "jw_date pkg t \<le> t" "t < jw_date pkg t + Second" "jw_date pkg (jw_date pkg t) = jw_date pkg t"
  using assms by (simp_all add: jwt_laws_def)

lemma signed_token:
  assumes "jwt_laws (au_pkg s)" and "signed s tok c"
  shows "tok \<noteq> []" "TrimSpace (TrimPrefix tok ''Bearer '') = tok"
    "jw_parse (au_pkg s) (cf_JWTSecret (au_cfg s)) now lw tok = (if now < ck_ExpiresAt c + lw then Some c else None)"
proof -
  have "tok \<noteq> [] \<and> TrimSpace tok = tok \<and> \<not> HasPrefix tok ''Bearer '' \<and>
      (\<forall>now lw. jw_parse (au_pkg s) (cf_JWTSecret (au_cfg s)) now lw tok = (if now < ck_ExpiresAt c + lw then Some c else None))"
    using assms unfolding jwt_laws_def signed_def by blast
  then show "tok \<noteq> []" "TrimSpace (TrimPrefix tok ''Bearer '') = tok"
    "jw_parse (au_pkg s) (cf_JWTSecret (au_cfg s)) now lw tok = (if now < ck_ExpiresAt c + lw then Some c else None)"
    by (simp_all add: TrimPrefix_def)
qed

lemma signed_unique:
  assumes "jwt_laws (au_pkg s)" and "signed s tok c" and "signed s tok c'"
  shows "c = c'"
proof -
  define now where "now = min (ck_ExpiresAt c) (ck_ExpiresAt c') - 1"
  have "now < ck_ExpiresAt c + 0" "now < ck_ExpiresAt c' + 0" by (simp_all add: now_def)
  with signed_token(3) [OF assms(1,2), of now 0] signed_token(3) [OF assms(1,3), of now 0] show ?thesis by simp
qed

section \<open>How the database evolves\<close>

text \<open>Nothing but time passes.\<close>

definition passes :: "auth_abs \<Rightarrow> auth_abs \<Rightarrow> bool" where
  "passes a a' \<longleftrightarrow> a' = a \<or> (\<exists>t\<ge>aa_now a. a' = tick t a)"

text \<open>
  Every stored refresh token was signed for its user, with an identifier handed out before.  A token is spent when it
  was signed and is stored for nobody; an identifier is revoked up to \<open>T\<close> when it is blacklisted until then.
\<close>

definition refresh_ok :: "'w AuthService \<Rightarrow> auth_abs \<Rightarrow> bool" where
  "refresh_ok s a \<longleftrightarrow> (\<forall>u tok e. aa_refresh a u = Some (tok, e) \<longrightarrow>
     (\<exists>c. signed s tok c \<and> ck_ID c \<in> aa_ids a \<and> ck_UserID c = u \<and> ck_Type c = TokenTypeRefresh))"

definition spent :: "'w AuthService \<Rightarrow> string \<Rightarrow> auth_abs \<Rightarrow> bool" where
  "spent s tok a \<longleftrightarrow> (\<exists>c. signed s tok c \<and> ck_ID c \<in> aa_ids a) \<and> (\<forall>u e. aa_refresh a u \<noteq> Some (tok, e))"

definition revoked :: "string \<Rightarrow> gotime \<Rightarrow> auth_abs \<Rightarrow> bool" where
  "revoked j T a \<longleftrightarrow> T \<le> aa_now a \<or> (\<exists>e\<ge>T. aa_black a j = Some e)"

definition evolves :: "'w AuthService \<Rightarrow> auth_abs \<Rightarrow> auth_abs \<Rightarrow> bool" where
  "evolves s a a' \<longleftrightarrow> aa_now a \<le> aa_now a' \<and> aa_ids a \<subseteq> aa_ids a' \<and> (refresh_ok s a \<longrightarrow> refresh_ok s a') \<and>
     (\<forall>tok. spent s tok a \<longrightarrow> spent s tok a') \<and> (\<forall>j T. revoked j T a \<longrightarrow> revoked j T a')"

lemma evolves_refl [simp]: "evolves s a a"
  by (simp add: evolves_def)

lemma evolves_trans: "evolves s a b \<Longrightarrow> evolves s b c \<Longrightarrow> evolves s a c"
  unfolding evolves_def by (meson order_trans)

lemma evolvesD:
  assumes "evolves s a a'"
  shows "aa_now a \<le> aa_now a'" "aa_ids a \<subseteq> aa_ids a'" "refresh_ok s a \<Longrightarrow> refresh_ok s a'"
    "spent s tok a \<Longrightarrow> spent s tok a'" "revoked j T a \<Longrightarrow> revoked j T a'"
  using assms by (simp_all add: evolves_def)

text \<open>A database with fewer refresh tokens and the same or a longer blacklist, at a later time.\<close>

lemma evolves_shrink:
  assumes "aa_now a \<le> aa_now a'" and "aa_ids a \<subseteq> aa_ids a'"
    and "\<And>u tok e. aa_refresh a' u = Some (tok, e) \<Longrightarrow> aa_refresh a u = Some (tok, e)"
    and "\<And>j e. aa_black a j = Some e \<Longrightarrow> aa_now a' < e \<Longrightarrow> aa_black a' j = Some e"
  shows "evolves s a a'"
  unfolding evolves_def
proof (intro conjI allI impI)
  show "refresh_ok s a'" if "refresh_ok s a"
    using that assms(2,3) unfolding refresh_ok_def by blast
  show "spent s tok a'" if "spent s tok a" for tok
    using that assms(2,3) unfolding spent_def by blast
  show "revoked j T a'" if "revoked j T a" for j T
    using that assms(1,4) unfolding revoked_def by (meson leD le_less_linear order_trans)
qed (use assms in auto)

lemma evolves_tick [simp]: "aa_now a \<le> t \<Longrightarrow> evolves s a (tick t a)"
  by (rule evolves_shrink) (simp_all add: tick_refresh tick_black)

lemma evolves_passes: "passes a a' \<Longrightarrow> evolves s a a'"
  by (auto simp: passes_def)

lemma evolves_side:
  "aa_now a' = aa_now a \<Longrightarrow> aa_ids a \<subseteq> aa_ids a' \<Longrightarrow> aa_refresh a' = aa_refresh a \<Longrightarrow> aa_black a' = aa_black a \<Longrightarrow>
    evolves s a a'"
  by (rule evolves_shrink) simp_all

lemma passes_refl [simp]: "passes a a"
  by (simp add: passes_def)

lemma passes_tick [simp]: "aa_now a \<le> t \<Longrightarrow> passes a (tick t a)"
  by (auto simp: passes_def)

lemma passes_trans: "passes a b \<Longrightarrow> passes b c \<Longrightarrow> passes a c"
  by (auto simp: passes_def) (metis order_trans tick_tick)

lemma passes_black: "passes a a' \<Longrightarrow> aa_black a' j = Some e \<Longrightarrow> aa_black a j = Some e"
  by (auto simp: passes_def tick_black)

lemma passesD:
  assumes "passes a a'"
  shows "aa_now a \<le> aa_now a'" "aa_users a' = aa_users a" "aa_codes a' = aa_codes a" "aa_ids a' = aa_ids a"
    "aa_refresh a' u = Some (tok, e) \<Longrightarrow> aa_refresh a u = Some (tok, e)"
    "aa_black a j = None \<Longrightarrow> aa_black a' j = None"
  using assms by (auto simp: passes_def tick_refresh tick_none)

end
