(* ===== verification/Auth_Proofs.thy ===== *)
theory Auth_Proofs
  imports Auth_Contracts
begin

text \<open>
  The account service against the contracts of theory \<open>Auth_Contracts\<close>: what each operation returns and how it changes
  the account database, for every backend that keeps the contracts.
\<close>

section \<open>Setting\<close>

text \<open>The service runs on these backends, with a JWT package that keeps its laws and positive token lifetimes.\<close>

definition auth_on ::
  "'w AuthService \<Rightarrow> 'w SessionCache \<Rightarrow> 'w UserStore \<Rightarrow> 'w CodeVerifier \<Rightarrow> ('w, gotime) io \<Rightarrow> ('w, string) io \<Rightarrow>
   (string \<Rightarrow> ('w, error + string) io) \<Rightarrow> (string \<Rightarrow> string \<Rightarrow> bool) \<Rightarrow> ('w, error option) io option \<Rightarrow> bool" where
  "auth_on s ss us vf clk uid gen cmp hook \<longleftrightarrow>
     au_sessions s = ss \<and> au_users s = us \<and> au_codes s = Some vf \<and> au_now s = clk \<and> uuid_new (au_pkg s) = uid \<and>
     bc_generate (au_pkg s) = gen \<and> bc_compare (au_pkg s) = cmp \<and> au_afterLogin s = hook \<and> jwt_laws (au_pkg s) \<and>
     0 < cf_JWTAccessTTL (au_cfg s) \<and> 0 < cf_JWTRefreshTTL (au_cfg s)"

text \<open>The claims that the service signs for a user.\<close>

definition claims_for :: "'w AuthService \<Rightarrow> User \<Rightarrow> string \<Rightarrow> duration \<Rightarrow> gotime \<Rightarrow> string \<Rightarrow> Claims" where
  "claims_for s user ty ttl now j =
     \<lparr>ck_UserID = u_ID user, ck_Username = u_Username user, ck_Role = u_Role user, ck_Type = ty,
       ck_Subject = u_ID user, ck_ID = j, ck_IssuedAt = jw_date (au_pkg s) now,
       ck_ExpiresAt = jw_date (au_pkg s) (now + ttl)\<rparr>"

lemma claims_for_sel [simp]:
  "ck_UserID (claims_for s user ty ttl now j) = u_ID user" "ck_Type (claims_for s user ty ttl now j) = ty"
  "ck_ID (claims_for s user ty ttl now j) = j"
  "ck_ExpiresAt (claims_for s user ty ttl now j) = jw_date (au_pkg s) (now + ttl)"
  "ck_Username (claims_for s user ty ttl now j) = u_Username user" "ck_Role (claims_for s user ty ttl now j) = u_Role user"
  by (simp_all add: claims_for_def)

text \<open>A pair of tokens was issued for the user between two states of the database.\<close>

definition issued :: "'w AuthService \<Rightarrow> User \<Rightarrow> TokenPair \<Rightarrow> auth_abs \<Rightarrow> auth_abs \<Rightarrow> bool" where
  "issued s user tp a a' \<longleftrightarrow> (\<exists>t1 t2 t3 j1 j2. aa_now a \<le> t1 \<and> t1 \<le> t2 \<and> t2 \<le> t3 \<and> t3 \<le> aa_now a' \<and>
     j1 \<notin> aa_ids a \<and> j2 \<notin> aa_ids a \<and> j1 \<noteq> j2 \<and> {j1, j2} \<subseteq> aa_ids a' \<and> [] \<notin> {j1, j2} \<and>
     signed s (tp_AccessToken tp) (claims_for s user TokenTypeAccess (cf_JWTAccessTTL (au_cfg s)) t1 j1) \<and>
     signed s (tp_RefreshToken tp) (claims_for s user TokenTypeRefresh (cf_JWTRefreshTTL (au_cfg s)) t2 j2) \<and>
     tp_TokenType tp = ''Bearer'' \<and> tp_ExpiresAt tp = t1 + cf_JWTAccessTTL (au_cfg s) \<and>
     aa_refresh a' (u_ID user) =
       (if aa_now a' < t3 + cf_JWTRefreshTTL (au_cfg s) then Some (tp_RefreshToken tp, t3 + cf_JWTRefreshTTL (au_cfg s)) else None))"

text \<open>
  What logging one token out does: a token of the service is revoked until it expires, but not for longer than the call
  took, and no other identifier gets on the blacklist.
\<close>

definition logged_out :: "'w AuthService \<Rightarrow> string \<Rightarrow> auth_abs \<Rightarrow> auth_abs \<Rightarrow> bool" where
  "logged_out s tok a a' \<longleftrightarrow> evolves s a a' \<and> aa_users a' = aa_users a \<and> aa_codes a' = aa_codes a \<and>
     (\<forall>c. signed s tok c \<and> ck_UserID c \<noteq> [] \<and> ck_ID c \<noteq> [] \<and> aa_black a (ck_ID c) = None \<and>
        ck_ExpiresAt c \<le> aa_now a + maxInt64 \<longrightarrow>
        revoked (ck_ID c) (ck_ExpiresAt c) a' \<and>
        (\<forall>e. aa_now a' < ck_ExpiresAt c \<longrightarrow> aa_black a' (ck_ID c) = Some e \<longrightarrow> e \<le> ck_ExpiresAt c + (aa_now a' - aa_now a)) \<and>
        (\<forall>i e. i \<noteq> ck_ID c \<longrightarrow> aa_black a' i = Some e \<longrightarrow> aa_black a i = Some e))"

text \<open>The verdict on a token of the service: accepted exactly in time, for its type, and while it is not blacklisted.\<close>

definition verdict :: "string \<Rightarrow> gotime \<Rightarrow> auth_abs \<Rightarrow> Claims \<Rightarrow> error + Claims" where
  "verdict ty now a c =
     (if now < ck_ExpiresAt c + 5 * Second \<and> (ty = [] \<or> ck_Type c = ty) \<and> aa_black a (ck_ID c) = None
      then Inr c else Inl ErrInvalidToken)"

definition judged :: "'w AuthService \<Rightarrow> string \<Rightarrow> string \<Rightarrow> error + Claims \<Rightarrow> auth_abs \<Rightarrow> auth_abs \<Rightarrow> bool" where
  "judged s tok ty x a a' \<longleftrightarrow> (\<forall>c. signed s tok c \<longrightarrow> ck_UserID c \<noteq> [] \<longrightarrow> ck_ID c \<noteq> [] \<longrightarrow>
     (\<exists>now t. aa_now a \<le> now \<and> now \<le> t \<and> a' = tick t a \<and> x = verdict ty now a' c))"

lemma judgedE:
  assumes "judged s tok ty x a a'" and "signed s tok c" and "ck_UserID c \<noteq> []" and "ck_ID c \<noteq> []"
  obtains now t where "aa_now a \<le> now" "now \<le> t" "a' = tick t a" "x = verdict ty now a' c"
  using assms unfolding judged_def by blast

lemma verdict_Inr: "verdict ty now a c = Inr d \<Longrightarrow> d = c \<and> (ty = [] \<or> ck_Type c = ty) \<and> aa_black a (ck_ID c) = None"
  by (simp add: verdict_def split: if_splits)

lemma verdict_Inl: "verdict [] now a c = Inl e \<Longrightarrow> aa_black a (ck_ID c) = None \<Longrightarrow> ck_ExpiresAt c + 5 * Second \<le> now"
  by (simp add: verdict_def split: if_splits)

text \<open>The user a login name stands for.\<close>

definition login_matches ::
  "(string \<Rightarrow> string \<Rightarrow> bool) \<Rightarrow> (string \<Rightarrow> string \<Rightarrow> bool) \<Rightarrow> 'w AuthService \<Rightarrow> string \<Rightarrow> User \<Rightarrow> bool" where
  "login_matches same_mail same_name s login u \<longleftrightarrow> TrimSpace login \<noteq> [] \<and>
     (if CHR ''@'' \<in> set (TrimSpace login)
      then \<exists>m. normalizeEmail (au_pkg s) (TrimSpace login) = Inr m \<and> same_mail (u_Email u) m
      else same_name (u_Username u) (normalizeUsername (au_pkg s) (TrimSpace login)))"

lemma issued_passes:
  assumes "issued s user tp a b" and "passes b c"
  shows "issued s user tp a c"
proof (cases "c = b")
  case False
  with assms(2) obtain t where t: "t \<ge> aa_now b" "c = tick t b" by (auto simp: passes_def)
  from assms(1) obtain t1 t2 t3 j1 j2 where i: "aa_now a \<le> t1" "t1 \<le> t2" "t2 \<le> t3" "t3 \<le> aa_now b"
    "j1 \<notin> aa_ids a" "j2 \<notin> aa_ids a" "j1 \<noteq> j2" "{j1, j2} \<subseteq> aa_ids b" "[] \<notin> {j1, j2}"
    "signed s (tp_AccessToken tp) (claims_for s user TokenTypeAccess (cf_JWTAccessTTL (au_cfg s)) t1 j1)"
    "signed s (tp_RefreshToken tp) (claims_for s user TokenTypeRefresh (cf_JWTRefreshTTL (au_cfg s)) t2 j2)"
    "tp_TokenType tp = ''Bearer''" "tp_ExpiresAt tp = t1 + cf_JWTAccessTTL (au_cfg s)"
    "aa_refresh b (u_ID user) =
       (if aa_now b < t3 + cf_JWTRefreshTTL (au_cfg s) then Some (tp_RefreshToken tp, t3 + cf_JWTRefreshTTL (au_cfg s)) else None)"
    unfolding issued_def by (elim exE conjE) (rule that)
  have "aa_refresh c (u_ID user) =
      (if aa_now c < t3 + cf_JWTRefreshTTL (au_cfg s) then Some (tp_RefreshToken tp, t3 + cf_JWTRefreshTTL (au_cfg s)) else None)"
    using i(14) t by (auto simp: tick_def)
  with i t show ?thesis
    unfolding issued_def
    by (intro exI [of _ t1] exI [of _ t2] exI [of _ t3] exI [of _ j1] exI [of _ j2]) simp
qed (use assms in simp)

lemma evolves_blacklist:
  assumes "aa_black b j = None" and "aa_now b \<le> t"
  shows "evolves s b ((tick t b)\<lparr>aa_black := (aa_black (tick t b))(j := e)\<rparr>)"
  by (rule evolves_shrink) (use assms in \<open>auto simp: tick_refresh tick_black\<close>)

lemma revoked_blacklist:
  assumes "T \<le> now + maxInt64" and "ttl = (if Sub T now < 0 then 0 else Sub T now)" and "now \<le> t"
    and "0 < ttl \<longrightarrow> e = Some (t + ttl)"
  shows "revoked j T ((tick t b)\<lparr>aa_black := (aa_black (tick t b))(j := e)\<rparr>)"
proof (cases "T \<le> now")
  case False
  then have "ttl = T - now" using assms(1,2) by (auto simp: Sub_def minInt64_def maxInt64_def)
  with False assms(3,4) show ?thesis by (auto simp: revoked_def)
qed (use assms(3) in \<open>simp add: revoked_def\<close>)

lemma evolves_store:
  assumes "jwt_laws (au_pkg s)" and "evolves s a b" and "aa_now b \<le> t" and "signed s tok c" and "ck_ID c \<notin> aa_ids a"
    and "ck_ID c \<in> aa_ids b" and "ck_UserID c = u" and "ck_Type c = TokenTypeRefresh"
  shows "evolves s a ((tick t b)\<lparr>aa_refresh := (aa_refresh (tick t b))(u \<mapsto> (tok, e))\<rparr>)" (is "evolves s a ?a'")
proof -
  have b: "evolves s a (tick t b)" using evolves_trans [OF assms(2)] assms(3) by simp
  show ?thesis
    unfolding evolves_def
  proof (intro conjI allI impI)
    show "aa_now a \<le> aa_now ?a'" "aa_ids a \<subseteq> aa_ids ?a'" using evolvesD(1,2) [OF b] by simp_all
    show "refresh_ok s ?a'" if "refresh_ok s a"
      unfolding refresh_ok_def
    proof (intro allI impI)
      fix v x d
      assume x: "aa_refresh ?a' v = Some (x, d)"
      show "\<exists>c. signed s x c \<and> ck_ID c \<in> aa_ids ?a' \<and> ck_UserID c = v \<and> ck_Type c = TokenTypeRefresh"
      proof (cases "v = u")
        case True
        with x assms(4,6,7,8) show ?thesis by (intro exI [of _ c]) simp
      next
        case False
        with x have "aa_refresh (tick t b) v = Some (x, d)" by simp
        with evolvesD(3) [OF b that] obtain c where
          "signed s x c" "ck_ID c \<in> aa_ids (tick t b)" "ck_UserID c = v" "ck_Type c = TokenTypeRefresh"
          unfolding refresh_ok_def by blast
        then show ?thesis by (intro exI [of _ c]) simp
      qed
    qed
    show "spent s x ?a'" if x: "spent s x a" for x
    proof -
      from x obtain d where d: "signed s x d" "ck_ID d \<in> aa_ids a" by (auto simp: spent_def)
      have "x \<noteq> tok"
      proof
        assume "x = tok"
        with signed_unique [OF assms(1) d(1)] assms(4) have "d = c" by simp
        with d(2) assms(5) show False by simp
      qed
      with evolvesD(4) [OF b x] show ?thesis by (auto simp: spent_def)
    qed
    show "revoked j T ?a'" if "revoked j T a" for j T
      using evolvesD(5) [OF b that] by (simp add: revoked_def)
  qed
qed

text \<open>The three steps of \<open>issuePair\<close>: two signatures and the stored refresh token.\<close>

lemma evolves_ids:
  assumes "aa_now a \<le> t"
  shows "evolves s a ((tick t a)\<lparr>aa_ids := insert j (aa_ids a)\<rparr>)"
  by (rule evolves_trans [OF evolves_tick [OF assms]]) (rule evolves_side, auto)

lemma evolves_ids2:
  assumes "aa_now a \<le> t" and "t \<le> t'"
  shows "evolves s a ((tick t' ((tick t a)\<lparr>aa_ids := insert j (aa_ids a)\<rparr>))\<lparr>aa_ids := insert j' (insert j (aa_ids a))\<rparr>)"
  using evolves_trans [OF evolves_ids [OF assms(1), of s j] evolves_ids, of t' j'] assms(2) by simp

lemma issue_steps:
  assumes laws: "jwt_laws (au_pkg s)" and ttl: "0 < cf_JWTRefreshTTL (au_cfg s)"
    and 1: "aa_now a \<le> t1" "j1 \<notin> aa_ids a" "j1 \<noteq> []" "a1 = (tick t1 a)\<lparr>aa_ids := insert j1 (aa_ids a)\<rparr>"
      "signed s access (claims_for s user TokenTypeAccess (cf_JWTAccessTTL (au_cfg s)) t1 j1)"
    and 2: "aa_now a1 \<le> t2" "j2 \<notin> aa_ids a1" "j2 \<noteq> []" "a2 = (tick t2 a1)\<lparr>aa_ids := insert j2 (aa_ids a1)\<rparr>"
      "signed s refresh (claims_for s user TokenTypeRefresh (cf_JWTRefreshTTL (au_cfg s)) t2 j2)"
    and 3: "aa_now a2 \<le> t3"
      "a3 = (tick t3 a2)\<lparr>aa_refresh := (aa_refresh (tick t3 a2))(u_ID user \<mapsto> (refresh, t3 + cf_JWTRefreshTTL (au_cfg s)))\<rparr>"
  shows "evolves s a a3 \<and> aa_users a3 = aa_users a \<and> aa_codes a3 = aa_codes a \<and>
    issued s user \<lparr>tp_AccessToken = access, tp_RefreshToken = refresh, tp_TokenType = ''Bearer'',
      tp_ExpiresAt = t1 + cf_JWTAccessTTL (au_cfg s)\<rparr> a a3"
proof (intro conjI)
  have "evolves s a a1" using evolves_ids [OF 1(1)] 1(4) by simp
  moreover have "evolves s a1 a2" using evolves_ids [OF 2(1)] 2(4) by simp
  ultimately have "evolves s a a2" by (rule evolves_trans)
  then show "evolves s a a3"
    unfolding 3(2) by (rule evolves_store [OF laws _ 3(1) 2(5)]) (use 1(4) 2(2,4) in simp_all)
  show "aa_users a3 = aa_users a" "aa_codes a3 = aa_codes a" by (simp_all add: 1(4) 2(4) 3(2))
  show "issued s user \<lparr>tp_AccessToken = access, tp_RefreshToken = refresh, tp_TokenType = ''Bearer'',
      tp_ExpiresAt = t1 + cf_JWTAccessTTL (au_cfg s)\<rparr> a a3"
    unfolding issued_def
    by (rule exI [of _ t1], rule exI [of _ t2], rule exI [of _ t3], rule exI [of _ j1], rule exI [of _ j2])
      (use 1 2 3 ttl in auto)
qed

text \<open>A pair issued after some time has passed, and what becomes of the token that was stored before.\<close>

lemma issued_after:
  assumes "passes a b" and "issued s user tp b c"
  shows "issued s user tp a c"
  using assms(2) passesD(1,4) [OF assms(1)] unfolding issued_def
  by (elim exE conjE) (intro exI conjI; (assumption | simp))

lemma issued_new_token:
  assumes laws: "jwt_laws (au_pkg s)" and ok: "refresh_ok s a" and i: "issued s user tp a a'"
    and old: "aa_refresh a v = Some (tok, x)"
  shows "tp_RefreshToken tp \<noteq> tok"
proof
  assume eq: "tp_RefreshToken tp = tok"
  from ok old obtain c where c: "signed s tok c" "ck_ID c \<in> aa_ids a" by (auto simp: refresh_ok_def)
  from i obtain t j where new: "signed s (tp_RefreshToken tp) (claims_for s user TokenTypeRefresh (cf_JWTRefreshTTL (au_cfg s)) t j)"
    "j \<notin> aa_ids a"
    unfolding issued_def by blast
  with eq have "c = claims_for s user TokenTypeRefresh (cf_JWTRefreshTTL (au_cfg s)) t j"
    using signed_unique [OF laws c(1)] by simp
  with c(2) new(2) show False by simp
qed

lemma issued_replaces:
  assumes laws: "jwt_laws (au_pkg s)" and ok: "refresh_ok s a" and e: "evolves s a a'" and i: "issued s user tp a a'"
    and old: "aa_refresh a (u_ID user) = Some (tok, x)"
  shows "spent s tok a'"
proof -
  from ok old obtain c where c: "signed s tok c" "ck_ID c \<in> aa_ids a" "ck_UserID c = u_ID user"
    by (auto simp: refresh_ok_def)
  have stored: "y = tp_RefreshToken tp" if "aa_refresh a' (u_ID user) = Some (y, z)" for y z
    using i that unfolding issued_def by (elim exE conjE) (simp split: if_splits)
  note ne = issued_new_token [OF laws ok i old]
  have "aa_refresh a' u \<noteq> Some (tok, z)" for u z
  proof
    assume u: "aa_refresh a' u = Some (tok, z)"
    with evolvesD(3) [OF e ok] obtain d where "signed s tok d" "ck_UserID d = u" by (auto simp: refresh_ok_def)
    with signed_unique [OF laws c(1)] c(3) have "u = u_ID user" by simp
    with u stored ne show False by blast
  qed
  moreover from c(1,2) evolvesD(2) [OF e] have "\<exists>c. signed s tok c \<and> ck_ID c \<in> aa_ids a'" by blast
  ultimately show ?thesis by (simp add: spent_def)
qed

text \<open>A stored token that disappears without a replacement.\<close>

lemma dropped_spent:
  assumes laws: "jwt_laws (au_pkg s)" and ok: "refresh_ok s a" and e: "evolves s a a'"
    and old: "aa_refresh a v = Some (tok, x)" and gone: "aa_refresh a' v = None"
  shows "spent s tok a'"
proof -
  from ok old obtain c where c: "signed s tok c" "ck_ID c \<in> aa_ids a" "ck_UserID c = v" by (auto simp: refresh_ok_def)
  have "aa_refresh a' u \<noteq> Some (tok, z)" for u z
  proof
    assume u: "aa_refresh a' u = Some (tok, z)"
    with evolvesD(3) [OF e ok] obtain d where "signed s tok d" "ck_UserID d = u" by (auto simp: refresh_ok_def)
    with signed_unique [OF laws c(1)] c(3) have "u = v" by simp
    with u gone show False by simp
  qed
  moreover from c(1,2) evolvesD(2) [OF e] have "\<exists>c. signed s tok c \<and> ck_ID c \<in> aa_ids a'" by blast
  ultimately show ?thesis by (simp add: spent_def)
qed

section \<open>Tokens\<close>

context auth_backend
begin

lemma ParseToken_accepts:
  assumes "auth_on s ss us vf clk uid gen cmp hook"
  shows "ensures live A (ParseToken s tok ty) a (\<lambda>x a'. passes a a' \<and> (case x of
      Inl e \<Rightarrow> e = ErrInvalidToken
    | Inr c \<Rightarrow> (\<exists>now. aa_now a \<le> now \<and> now \<le> aa_now a' \<and>
        jw_parse (au_pkg s) (cf_JWTSecret (au_cfg s)) now (5 * Second) (TrimSpace (TrimPrefix tok ''Bearer '')) = Some c) \<and>
        (ty = [] \<or> ck_Type c = ty) \<and> aa_black a' (ck_ID c) = None))"
proof -
  note s = assms [unfolded auth_on_def]
  show ?thesis
    unfolding ParseToken_def Let_def
    apply (rule ensures_if)
     apply (rule ensures_return, simp)
    apply (simp only: s)
    apply (rule ensures_step [OF auth_clock])
    apply (elim conjE)
    apply (rule ensures_option)
     apply (rule ensures_return, simp)
    apply (rule ensures_if)
     apply (rule ensures_return, simp)
    apply (rule ensures_if)
     apply (rule ensures_return, simp)
    apply (rule ensures_step [OF is_blacklisted])
    apply (elim exE conjE)
    apply (rule ensures_return)
    apply (auto)
    done
qed

text \<open>A token that the service signed is accepted exactly in time, for its type, and while it is not revoked.\<close>

lemma ParseToken_signed:
  assumes "auth_on s ss us vf clk uid gen cmp hook" and "signed s tok c" and "ck_UserID c \<noteq> []" and "ck_ID c \<noteq> []"
  shows "ensures live A (ParseToken s tok ty) a (\<lambda>x a'. \<exists>now t. aa_now a \<le> now \<and> now \<le> t \<and> a' = tick t a \<and>
      x = verdict ty now a' c)"
proof -
  note s = assms(1) [unfolded auth_on_def]
  from s have laws: "jwt_laws (au_pkg s)" by simp
  note tok = signed_token [OF laws assms(2)]
  show ?thesis
    unfolding ParseToken_def Let_def tok(2)
    apply (rule ensures_if)
     apply (simp add: tok(1))
    apply (simp only: s)
    apply (rule ensures_step [OF auth_clock])
    apply (elim conjE)
    subgoal for now a1
      apply (rule ensures_option)
       apply (rule ensures_return, rule exI [of _ now], rule exI [of _ now], use tok(3) in \<open>simp add: verdict_def split: if_splits\<close>)
      apply (rule ensures_if)
       apply (rule ensures_return, rule exI [of _ now], rule exI [of _ now], use tok(3) in \<open>simp add: verdict_def split: if_splits\<close>)
      apply (rule ensures_if)
       apply (rule ensures_return, use tok(3) assms(3,4) in \<open>simp add: verdict_def split: if_splits\<close>)
      apply (rule ensures_step [OF is_blacklisted])
      apply (elim exE conjE)
      subgoal for d x a2 t
        by (rule ensures_return, rule exI [of _ now], rule exI [of _ t], use tok(3) in \<open>auto simp: verdict_def split: if_splits\<close>)
      done
    done
qed

lemma sign_spec:
  assumes "auth_on s ss us vf clk uid gen cmp hook" and "user_ok user" and "is_ascii ty"
  shows "ensures live A (sign s user ty ttl) a (\<lambda>x a'. \<exists>t j. aa_now a \<le> t \<and> j \<notin> aa_ids a \<and> j \<noteq> [] \<and>
      a' = (tick t a)\<lparr>aa_ids := insert j (aa_ids a)\<rparr> \<and>
      (\<forall>tok e. x = Inr (tok, e) \<longrightarrow> e = t + ttl \<and> signed s tok (claims_for s user ty ttl t j)))"
proof -
  note s = assms(1) [unfolded auth_on_def]
  from s have laws: "jwt_laws (au_pkg s)" by simp
  have ok: "claims_ok (au_pkg s) (claims_for s user ty ttl t j)" if "is_ascii j" for t j
    using that assms(2,3) jwt_date(3) [OF laws]
    by (simp add: claims_ok_def claims_for_def user_ok_def)
  show ?thesis
    unfolding sign_def Let_def
    apply (simp only: s)
    apply (rule ensures_step [OF auth_clock])
    apply (elim conjE)
    apply (rule ensures_step [OF fresh_id])
    apply (elim conjE)
    apply (rule ensures_return)
    subgoal for t a1 j a2
      by (rule exI [of _ t], rule exI [of _ j])
        (use ok [of j t] in \<open>auto simp: signed_def claims_for_def split: sum.splits\<close>)
    done
qed

lemma issuePair_spec:
  assumes "auth_on s ss us vf clk uid gen cmp hook" and "user_ok user"
  shows "ensures live A (issuePair s user) a (\<lambda>x a'. evolves s a a' \<and> aa_users a' = aa_users a \<and> aa_codes a' = aa_codes a \<and>
      (\<forall>tp. x = Inr tp \<longrightarrow> issued s user tp a a'))"
proof -
  note s = assms(1) [unfolded auth_on_def]
  from s have laws: "jwt_laws (au_pkg s)" by simp
  from s have ttl: "0 < cf_JWTRefreshTTL (au_cfg s)" by simp
  have ascii: "is_ascii TokenTypeAccess" "is_ascii TokenTypeRefresh" by (simp_all add: is_ascii_def byte_def)
  show ?thesis
    unfolding issuePair_def
    apply (rule ensures_step [OF sign_spec [OF assms ascii(1)]])
    apply (elim exE conjE)
    apply (rule ensures_sum)
     apply (rule ensures_return, simp add: evolves_ids)
    apply (rule ensures_prod)
    subgoal for x a1 t1 j1 y access accessExp
      apply (rule ensures_step [OF sign_spec [OF assms ascii(2)]])
      apply (elim exE conjE)
      apply (rule ensures_sum)
       apply (rule ensures_return, simp add: evolves_ids2)
      apply (rule ensures_prod)
      subgoal for x2 a2 t2 j2 y2 refresh refreshExp
        apply (simp only: s)
        apply (rule ensures_step [OF set_refresh])
         apply (use s in simp)
        apply (elim exE conjE)
        subgoal for x3 a3 t3
          using issue_steps [OF laws ttl, of a t1 j1 a1 access user t2 j2 a2 refresh t3 a3]
          by (intro ensures_return) (simp del: TokenTypeAccess_def TokenTypeRefresh_def)
        done
      done
    done
qed

lemma runAfterLogin_spec:
  assumes "auth_on s ss us vf clk uid gen cmp hook"
  shows "ensures live A (runAfterLogin s) a (\<lambda>x a'. passes a a')"
proof -
  note s = assms(1) [unfolded auth_on_def]
  show ?thesis
    unfolding runAfterLogin_def
    apply (simp only: s)
    apply (rule ensures_option)
     apply (rule ensures_return, simp)
    apply (rule ensures_step [OF after_login], assumption)
    apply (elim exE conjE)
    apply (rule ensures_return, simp)
    done
qed

text \<open>Issuing a pair and running the hook, as every operation that logs a user in does.\<close>

lemma issue_and_hook:
  assumes "auth_on s ss us vf clk uid gen cmp hook" and "user_ok user"
    and "\<And>e a'. evolves s a a' \<Longrightarrow> aa_users a' = aa_users a \<Longrightarrow> aa_codes a' = aa_codes a \<Longrightarrow> Q (Inl e) a'"
    and "\<And>tp a'. evolves s a a' \<Longrightarrow> aa_users a' = aa_users a \<Longrightarrow> aa_codes a' = aa_codes a \<Longrightarrow> issued s user tp a a' \<Longrightarrow>
      Q (Inr (f tp)) a'"
  shows "ensures live A (do {
      t \<leftarrow> issuePair s user;
      case t of
        Inl err \<Rightarrow> State_Monad.return (Inl err)
      | Inr tokens \<Rightarrow> do { _ \<leftarrow> runAfterLogin s; State_Monad.return (Inr (f tokens)) }
    }) a Q"
  apply (rule ensures_step [OF issuePair_spec [OF assms(1,2)]])
  apply (elim conjE)
  apply (rule ensures_sum)
   apply (rule ensures_return, rule assms(3), assumption+, simp)
  subgoal for t a1 tokens
    apply (rule ensures_step [OF runAfterLogin_spec [OF assms(1)]])
    subgoal for u a2
      apply (rule ensures_return, rule assms(4))
         apply (rule evolves_trans, assumption, rule evolves_passes, assumption)
        apply (simp add: passesD)
       apply (simp add: passesD)
      apply (rule issued_passes [where b = a1], simp, assumption)
      done
    done
  done

lemma found_user_ok:
  assumes "live w" and "A w = a" and "u \<in> ran (aa_users a)"
  shows "user_ok u" "aa_users a (u_ID u) = Some u"
  using assms user_keys [OF assms(1)] by (auto simp: ran_def)

lemma Login_spec:
  assumes on: "auth_on s ss us vf clk uid gen cmp hook"
  shows "ensures live A (Login s login pw) a (\<lambda>x a'. evolves s a a' \<and> aa_users a' = aa_users a \<and> aa_codes a' = aa_codes a \<and>
      (case x of
         Inl e \<Rightarrow> (e = ErrInvalidCredentials \<and> a' = a) \<or>
           (\<exists>u\<in>ran (aa_users a). login_matches same_mail same_name s login u \<and> cmp (u_PasswordHash u) pw)
       | Inr (u, tp) \<Rightarrow> u \<in> ran (aa_users a) \<and> login_matches same_mail same_name s login u \<and>
           cmp (u_PasswordHash u) pw \<and> issued s u tp a a'))"
    (is "ensures live A _ a ?Q")
proof -
  note s = on [unfolded auth_on_def]
  have found: "ensures live A (case found of
        Inl err \<Rightarrow> State_Monad.return (Inl (if err = ErrNotFound then ErrInvalidCredentials else err))
      | Inr user \<Rightarrow>
          if \<not> CheckPassword (au_pkg s) (u_PasswordHash user) pw then State_Monad.return (Inl ErrInvalidCredentials)
          else do {
            t \<leftarrow> issuePair s user;
            case t of
              Inl err \<Rightarrow> State_Monad.return (Inl err)
            | Inr tokens \<Rightarrow> do { _ \<leftarrow> runAfterLogin s; State_Monad.return (Inr (user, tokens)) }
          }) a ?Q"
    if f: "case found of Inl err \<Rightarrow> err = ErrNotFound \<or> err = ErrInvalidCredentials
        | Inr u \<Rightarrow> u \<in> ran (aa_users a) \<and> login_matches same_mail same_name s login u" for found
  proof (rule ensures_live, rule ensures_sum)
    fix err
    assume "found = Inl err"
    with f show "ensures live A (State_Monad.return (Inl (if err = ErrNotFound then ErrInvalidCredentials else err))) a ?Q"
      by (intro ensures_return) auto
  next
    fix w user
    assume w: "live w" "A w = a" and u: "found = Inr user"
    from u f have m: "user \<in> ran (aa_users a)" "login_matches same_mail same_name s login user" by simp_all
    note ok = found_user_ok [OF w m(1)]
    show "ensures live A (if \<not> CheckPassword (au_pkg s) (u_PasswordHash user) pw then State_Monad.return (Inl ErrInvalidCredentials)
          else do {
            t \<leftarrow> issuePair s user;
            case t of
              Inl err \<Rightarrow> State_Monad.return (Inl err)
            | Inr tokens \<Rightarrow> do { _ \<leftarrow> runAfterLogin s; State_Monad.return (Inr (user, tokens)) }
          }) a ?Q"
    proof (rule ensures_if)
      assume "\<not> \<not> CheckPassword (au_pkg s) (u_PasswordHash user) pw"
      then have "cmp (u_PasswordHash user) pw" by (simp add: CheckPassword_def s)
      with m show "ensures live A (do {
            t \<leftarrow> issuePair s user;
            case t of
              Inl err \<Rightarrow> State_Monad.return (Inl err)
            | Inr tokens \<Rightarrow> do { _ \<leftarrow> runAfterLogin s; State_Monad.return (Inr (user, tokens)) }
          }) a ?Q"
        by (intro issue_and_hook [OF on ok(1)]) auto
    qed (rule ensures_return, simp)
  qed
  show ?thesis
    unfolding Login_def Let_def
    apply (rule ensures_if)
     apply (rule ensures_return, simp)
    apply (rule ensures_bind)
    apply (rule ensures_if)
     apply (rule ensures_sum)
      apply (rule ensures_return, rule found, simp)
     apply (simp only: s)
     apply (rule ensures_mono [OF get_by_email])
     apply (elim conjE)
    subgoal for m x a'
      by (simp only:, rule found) (auto simp: login_matches_def split: sum.splits)
    apply (simp only: s)
    apply (rule ensures_mono [OF get_by_username])
    apply (elim conjE)
    subgoal for x a'
      by (simp only:, rule found) (auto simp: login_matches_def split: sum.splits)
    done
qed

lemma Refresh_spec:
  assumes on: "auth_on s ss us vf clk uid gen cmp hook"
  shows "ensures live A (Refresh s tok) a (\<lambda>x a'. evolves s a a' \<and> aa_users a' = aa_users a \<and> aa_codes a' = aa_codes a \<and>
      (\<forall>tp. x = Inr tp \<longrightarrow> (\<exists>u e. u \<in> ran (aa_users a) \<and> aa_refresh a (u_ID u) = Some (tok, e) \<and> issued s u tp a a')) \<and>
      ((\<forall>u e. aa_refresh a u \<noteq> Some (tok, e)) \<longrightarrow> x = Inl ErrInvalidToken))"
    (is "ensures live A _ a ?Q")
proof -
  note s = on [unfolded auth_on_def]
  have fail: "?Q (Inl ErrInvalidToken) b" if "passes a b" for b
    using that by (simp add: evolves_passes passesD)
  then have fail_eq: "?Q (Inl err) b" if "err = ErrInvalidToken" "passes a b" for err b
    using that by blast
  have fail': "?Q (Inl err) b" if "passes a b" "aa_refresh b v = Some (tok, e)" for b v e err
    using that(1) passesD(5) [OF that] by (auto simp: evolves_passes passesD(1-4))
  have go: "ensures live A (do {
      t \<leftarrow> issuePair s user;
      case t of
        Inl err \<Rightarrow> State_Monad.return (Inl err)
      | Inr tokens \<Rightarrow> do { _ \<leftarrow> runAfterLogin s; State_Monad.return (Inr tokens) }
    }) b ?Q"
    if b: "passes a b" and u: "aa_users b v = Some user" and r: "aa_refresh b v = Some (tok, e)" for b v user e
  proof (rule ensures_live)
    fix w
    assume w: "live w" "A w = b"
    from u have "user \<in> ran (aa_users b)" by (auto simp: ran_def)
    note ok = found_user_ok [OF w this]
    from user_keys [OF w(1)] u w(2) have v: "v = u_ID user" by simp
    have old: "aa_refresh a (u_ID user) = Some (tok, e)" using passesD(5) [OF b r] v by simp
    have mem: "user \<in> ran (aa_users a)" using u passesD(2) [OF b] by (auto simp: ran_def)
    show "ensures live A (do {
      t \<leftarrow> issuePair s user;
      case t of
        Inl err \<Rightarrow> State_Monad.return (Inl err)
      | Inr tokens \<Rightarrow> do { _ \<leftarrow> runAfterLogin s; State_Monad.return (Inr tokens) }
    }) b ?Q"
    proof (rule issue_and_hook [OF on ok(1), of b ?Q "\<lambda>t. t"])
      fix tp a'
      assume *: "evolves s b a'" "aa_users a' = aa_users b" "aa_codes a' = aa_codes b" "issued s user tp b a'"
      have "\<exists>u e. u \<in> ran (aa_users a) \<and> aa_refresh a (u_ID u) = Some (tok, e) \<and> issued s u tp a a'"
        by (rule exI [of _ user], rule exI [of _ e]) (simp add: old mem issued_after [OF b *(4)])
      with * old passesD(2,3) [OF b] evolves_trans [OF evolves_passes [OF b] *(1)]
      show "?Q (Inr tp) a'" by (intro conjI) (simp_all, blast)
    qed (use old passesD(2,3) [OF b] evolves_trans [OF evolves_passes [OF b]] in auto)
  qed
  show ?thesis
    unfolding Refresh_def
    apply (rule ensures_step [OF ParseToken_accepts [OF on]])
    apply (elim conjE)
    apply (rule ensures_sum)
     apply (rule ensures_return, rule fail_eq, simp, assumption)
    subgoal for c a1 claims
      apply (simp only: s)
      apply (rule ensures_step [OF get_refresh])
      apply (elim exE conjE)
      subgoal for g a2 t
        apply (rule ensures_sum)
         apply simp
        apply (rule ensures_if)
         apply (rule ensures_return, rule fail, erule passes_trans, simp)
        subgoal for stored
          apply (cases "aa_refresh a2 (ck_UserID claims)")
           apply simp
          subgoal for entry
            apply (cases entry)
            subgoal for tok' e
              apply (rule ensures_step [OF get_user])
              apply (elim conjE)
              apply (rule ensures_sum)
               apply (rule ensures_return, rule fail' [where v = "ck_UserID claims" and e = e])
                apply (metis passes_trans passes_tick)
               apply simp
              apply (rule go [where v = "ck_UserID claims" and e = e])
                apply (metis passes_trans passes_tick)
               apply (simp split: option.splits)
              apply simp
              done
            done
          done
        done
      done
    done
qed

text \<open>Time passes, codes are used up, users change: none of it touches the tokens.\<close>

lemma evolves_codes:
  assumes "aa_now a \<le> t"
  shows "evolves s a ((tick t a)\<lparr>aa_codes := C\<rparr>)"
  by (rule evolves_trans [OF evolves_tick [OF assms]]) (rule evolves_side, simp_all)

lemma evolves_codes_tick:
  assumes "aa_now a \<le> t" and "t \<le> t'"
  shows "evolves s a (tick t' ((tick t a)\<lparr>aa_codes := C\<rparr>))"
  using evolves_trans [OF evolves_codes [OF assms(1)] evolves_tick] assms(2) by simp

lemma evolves_ids_codes:
  assumes "aa_now a \<le> t" and "t \<le> t'" and "aa_ids a \<subseteq> I"
  shows "evolves s a ((tick t' ((tick t a)\<lparr>aa_codes := C\<rparr>))\<lparr>aa_ids := I\<rparr>)"
  by (rule evolves_trans [OF evolves_codes_tick [OF assms(1,2)]]) (rule evolves_side, use assms(3) in simp_all)

lemma evolves_users:
  assumes "aa_now a \<le> t" and "t \<le> t'" and "aa_ids a \<subseteq> I"
  shows "evolves s a ((tick t' ((tick t a)\<lparr>aa_codes := C\<rparr>))\<lparr>aa_ids := I, aa_users := U\<rparr>)"
proof -
  let ?b = "(tick t a)\<lparr>aa_codes := C\<rparr>"
  have "evolves s a (tick t' ?b)" using assms(1,2) by (rule evolves_codes_tick)
  then show ?thesis by (rule evolves_trans) (rule evolves_side, use assms(3) in simp_all)
qed

lemma ResetPassword_spec:
  assumes on: "auth_on s ss us vf clk uid gen cmp hook"
  shows "ensures live A (ResetPassword s m code pw) a (\<lambda>x a'. evolves s a a' \<and>
      (x = None \<longrightarrow> (\<exists>norm u h t. normalizeEmail (au_pkg s) m = Inr norm \<and> validatePassword (au_pkg s) pw = None \<and>
         ckey norm PurposeResetPassword \<in> aa_codes a \<and> ckey norm PurposeResetPassword \<notin> aa_codes a' \<and>
         u \<in> ran (aa_users a) \<and> same_mail (u_Email u) norm \<and> cmp h pw \<and>
         aa_users a' = (aa_users a)(u_ID u \<mapsto> u\<lparr>u_PasswordHash := h, u_UpdatedAt := t\<rparr>) \<and>
         aa_refresh a' (u_ID u) = None)) \<and>
      (x \<noteq> None \<longrightarrow> aa_users a' = aa_users a))"
    (is "ensures live A _ a ?Q")
proof (rule ensures_live)
  fix w
  assume w: "live w" "A w = a"
  note s = on [unfolded auth_on_def]
  have finish: "?Q None (b\<lparr>aa_refresh := (aa_refresh b)(u_ID u := None)\<rparr>)"
    if n: "normalizeEmail (au_pkg s) m = Inr norm" and v: "validatePassword (au_pkg s) pw = None"
      and c: "ckey norm PurposeResetPassword \<in> aa_codes a" "ckey norm PurposeResetPassword \<notin> C"
      and u: "u \<in> ran (aa_users a)" "same_mail (u_Email u) norm" "cmp h pw" and t: "aa_now a \<le> t" "t \<le> t'"
      and b: "b = (tick t' ((tick t a)\<lparr>aa_codes := C\<rparr>))\<lparr>aa_users := (aa_users a)(u_ID u \<mapsto> u\<lparr>u_PasswordHash := h, u_UpdatedAt := t''\<rparr>)\<rparr>"
    for norm C u h t t' t'' b
  proof -
    from t have "evolves s a (tick t' ((tick t a)\<lparr>aa_codes := C\<rparr>))" by (rule evolves_codes_tick)
    then have "evolves s a b" by (rule evolves_trans) (rule evolves_side, simp_all add: b)
    moreover have "evolves s b (b\<lparr>aa_refresh := (aa_refresh b)(u_ID u := None)\<rparr>)"
      by (rule evolves_shrink) (auto split: if_splits)
    ultimately have "evolves s a (b\<lparr>aa_refresh := (aa_refresh b)(u_ID u := None)\<rparr>)" by (rule evolves_trans)
    with n v c u b show ?thesis
      by (intro conjI impI exI [of _ norm] exI [of _ u] exI [of _ h] exI [of _ t'']) simp_all
  qed
  show "ensures live A (ResetPassword s m code pw) a ?Q"
    unfolding ResetPassword_def HashPassword_def
    apply (rule ensures_sum)
     apply (rule ensures_return, simp)
    apply (rule ensures_option)
     apply (simp (no_asm) only: s option.case)
     apply (rule ensures_step [OF auth_clock])
     apply (elim conjE)
     apply (rule ensures_step [OF verify_code])
     apply (elim exE conjE)
    subgoal for norm t a1 v a2 C
      apply (rule ensures_option)
       apply (rule ensures_step [OF get_by_email])
       apply (elim conjE)
       apply (rule ensures_sum)
        apply (rule ensures_return, simp add: evolves_codes)
      subgoal for x a3 user
        apply (rule ensures_step [OF generate_hash])
        apply (elim conjE)
        apply (rule ensures_sum)
         apply (rule ensures_return, simp add: evolves_codes)
        subgoal for x4 a4 h
          apply (rule ensures_step [OF update_user])
            apply (use found_user_ok(1) [OF w] in \<open>simp add: user_ok_def\<close>)
           apply (use found_user_ok(2) [OF w] in simp)
          apply (elim exE conjE)
          subgoal for x5 a5 t' t''
            apply (rule ensures_option)
             apply (rule ensures_mono [OF delete_refresh])
             apply (elim conjE)
            subgoal for x6 a6
              using finish [where norm = norm and C = C and u = user and h = h and t = t and t' = t' and t'' = t'' and b = a5] by simp
            apply (rule ensures_return, simp add: evolves_codes_tick)
            done
          done
        done
      apply (rule ensures_return, simp add: evolves_codes)
      done
    apply (rule ensures_return, simp)
    done
qed

lemma username_ascii:
  assumes "validateUsername n = None"
  shows "is_ascii n"
proof -
  have "list_all username_char n" using assms by (simp add: validateUsername_def split: if_splits)
  then show ?thesis
    unfolding is_ascii_def by (rule list.pred_mono_strong) (auto simp: username_char_def is_digit_def byte_def)
qed

lemma RegisterWithCode_spec:
  assumes on: "auth_on s ss us vf clk uid gen cmp hook"
  shows "ensures live A (RegisterWithCode s m name pw code nick avatar) a (\<lambda>x a'. evolves s a a' \<and>
      (\<forall>u tp. x = Inr (u, tp) \<longrightarrow> (\<exists>norm b. normalizeEmail (au_pkg s) m = Inr norm \<and>
         validateUsername (normalizeUsername (au_pkg s) name) = None \<and> validatePassword (au_pkg s) pw = None \<and>
         ckey norm PurposeRegister \<in> aa_codes a \<and> ckey norm PurposeRegister \<notin> aa_codes a' \<and>
         (\<forall>v\<in>ran (aa_users a). \<not> same_mail (u_Email v) norm \<and>
            \<not> same_name (u_Username v) (normalizeUsername (au_pkg s) name)) \<and>
         aa_users a (u_ID u) = None \<and> aa_users a' = (aa_users a)(u_ID u \<mapsto> u) \<and>
         u_Email u = norm \<and> u_Username u = normalizeUsername (au_pkg s) name \<and> u_Role u = UserRoleUser \<and>
         cmp (u_PasswordHash u) pw \<and> evolves s a b \<and> issued s u tp b a')))"
    (is "ensures live A _ a ?Q")
proof -
  note s = on [unfolded auth_on_def]
  have new: "ensures live A (do {
      c \<leftarrow> UserStore_Create us user0;
      case c of
        Inl err \<Rightarrow> State_Monad.return (Inl err)
      | Inr user \<Rightarrow> do {
          t \<leftarrow> issuePair s user;
          case t of
            Inl err \<Rightarrow> State_Monad.return (Inl err)
          | Inr tokens \<Rightarrow> do { _ \<leftarrow> runAfterLogin s; State_Monad.return (Inr (user, tokens)) } } }) b ?Q"
    if b: "b = (tick t a)\<lparr>aa_codes := C\<rparr>" "aa_now a \<le> t"
      and n: "normalizeEmail (au_pkg s) m = Inr norm" "validateUsername (normalizeUsername (au_pkg s) name) = None"
        "validatePassword (au_pkg s) pw = None"
      and c: "ckey norm PurposeRegister \<in> aa_codes a" "ckey norm PurposeRegister \<notin> C"
      and f: "\<forall>v\<in>ran (aa_users a). \<not> same_mail (u_Email v) norm \<and>
            \<not> same_name (u_Username v) (normalizeUsername (au_pkg s) name)"
      and u: "u_ID user0 = []" "u_Email user0 = norm" "u_Username user0 = normalizeUsername (au_pkg s) name"
        "u_Role user0 = UserRoleUser" "cmp (u_PasswordHash user0) pw" "IsZero (u_CreatedAt user0)"
    for t b C norm user0
    apply (rule ensures_step [OF create_user])
         apply (use u username_ascii [OF n(2)] in \<open>simp_all add: is_ascii_def byte_def\<close>) [5]
    apply (elim exE conjE)
    subgoal for x a1 t' I
      apply (rule ensures_sum)
       apply (rule ensures_return)
      subgoal for err
        using evolves_ids_codes [OF b(2), of t' I s C] b by simp
      subgoal for user
      proof (rule ensures_live)
        fix w
        assume w: "live w" "A w = a1" and x: "x = Inr user" and t': "aa_now b \<le> t'" "aa_ids b \<subseteq> I"
          and v: "case x of Inl _ \<Rightarrow> a1 = (tick t' b)\<lparr>aa_ids := I\<rparr>
            | Inr v \<Rightarrow> aa_users b (u_ID v) = None \<and>
                v = user0\<lparr>u_ID := u_ID v, u_CreatedAt := u_CreatedAt v, u_UpdatedAt := u_UpdatedAt v\<rparr> \<and>
                a1 = (tick t' b)\<lparr>aa_ids := I, aa_users := (aa_users b)(u_ID v \<mapsto> v)\<rparr>"
        from v x have v': "aa_users b (u_ID user) = None"
          "user = user0\<lparr>u_ID := u_ID user, u_CreatedAt := u_CreatedAt user, u_UpdatedAt := u_UpdatedAt user\<rparr>"
          "a1 = (tick t' b)\<lparr>aa_ids := I, aa_users := (aa_users b)(u_ID user \<mapsto> user)\<rparr>" by simp_all
        from arg_cong [OF v'(2), of u_Email] arg_cong [OF v'(2), of u_Username] arg_cong [OF v'(2), of u_Role]
          arg_cong [OF v'(2), of u_PasswordHash]
        have user: "u_Email user = norm" "u_Username user = normalizeUsername (au_pkg s) name"
          "u_Role user = UserRoleUser" "u_PasswordHash user = u_PasswordHash user0" using u by simp_all
        have "user \<in> ran (aa_users a1)" by (auto simp: v'(3) ran_def)
        note ok = found_user_ok(1) [OF w this]
        have ev: "evolves s a a1"
          using evolves_users [OF b(2), of t' I s "(aa_users b)(u_ID user \<mapsto> user)" C] t' b(1) v'(3) by simp
        show "ensures live A (do {
          t \<leftarrow> issuePair s user;
          case t of
            Inl err \<Rightarrow> State_Monad.return (Inl err)
          | Inr tokens \<Rightarrow> do { _ \<leftarrow> runAfterLogin s; State_Monad.return (Inr (user, tokens)) } }) a1 ?Q"
        proof (rule issue_and_hook [OF on ok])
          fix tp a'
          assume *: "evolves s a1 a'" "aa_users a' = aa_users a1" "aa_codes a' = aa_codes a1" "issued s user tp a1 a'"
          have "aa_users a' = (aa_users a)(u_ID user \<mapsto> user)" "aa_codes a' = C" "aa_users a (u_ID user) = None"
            using *(2,3) v' b(1) by simp_all
          with evolves_trans [OF ev *(1)] n c f u(5) user ev *(4) show "?Q (Inr (user, tp)) a'"
            by (intro conjI allI impI exI [of _ norm] exI [of _ a1]) simp_all
        qed (use evolves_trans [OF ev] in simp)
      qed
      done
    done
  show ?thesis
    unfolding RegisterWithCode_def HashPassword_def Let_def
    apply (rule ensures_sum)
     apply (rule ensures_return, simp)
    apply (rule ensures_option)
     apply (rule ensures_option)
      apply (simp (no_asm) only: s option.case)
      apply (rule ensures_step [OF auth_clock])
      apply (elim conjE)
      apply (rule ensures_step [OF verify_code])
      apply (elim exE conjE)
    subgoal for norm t a1 v a2 C
      apply (rule ensures_option)
       apply (rule ensures_step [OF get_by_email])
       apply (elim conjE)
       apply (rule ensures_sum)
        apply (rule ensures_if)
         apply (rule ensures_return, simp add: evolves_codes)
        apply (rule ensures_step [OF get_by_username])
        apply (elim conjE)
        apply (rule ensures_sum)
         apply (rule ensures_if)
          apply (rule ensures_return, simp add: evolves_codes)
         apply (rule ensures_step [OF generate_hash])
         apply (elim conjE)
         apply (rule ensures_sum)
          apply (rule ensures_return, simp add: evolves_codes)
      subgoal for x3 a3 e3 x4 a4 e4 x5 a5 hash
        by (rule new [where t = t and C = C and norm = norm]) (simp_all add: IsZero_def)
        apply (rule ensures_return, simp add: evolves_codes)
       apply (rule ensures_return, simp add: evolves_codes)
      apply (rule ensures_return, simp add: evolves_codes)
      done
     apply (rule ensures_return, simp)
    apply (rule ensures_return, simp)
    done
qed

lemma ParseToken_full:
  assumes on: "auth_on s ss us vf clk uid gen cmp hook"
  shows "ensures live A (ParseToken s tok ty) a (\<lambda>x a'. passes a a' \<and> (case x of
      Inl e \<Rightarrow> e = ErrInvalidToken | Inr c \<Rightarrow> aa_black a' (ck_ID c) = None) \<and> judged s tok ty x a a')"
  unfolding judged_def
proof (intro ensures_conj ensures_all ensures_imp)
  show "ensures live A (ParseToken s tok ty) a (\<lambda>x a'. passes a a')"
    by (rule ensures_mono [OF ParseToken_accepts [OF on]]) simp
  show "ensures live A (ParseToken s tok ty) a (\<lambda>x a'. case x of
      Inl e \<Rightarrow> e = ErrInvalidToken | Inr c \<Rightarrow> aa_black a' (ck_ID c) = None)"
    by (rule ensures_mono [OF ParseToken_accepts [OF on]]) (simp split: sum.splits)
  show "ensures live A (ParseToken s tok ty) a (\<lambda>x a'. \<exists>now t. aa_now a \<le> now \<and> now \<le> t \<and> a' = tick t a \<and>
      x = verdict ty now a' c)" if "signed s tok c" "ck_UserID c \<noteq> []" "ck_ID c \<noteq> []" for c
    by (rule ParseToken_signed [OF on that])
qed (rule ensures_mono [OF ParseToken_accepts [OF on]], simp)+

lemma logout_cons:
  assumes on: "auth_on s ss us vf clk uid gen cmp hook"
    and rest: "\<And>a'. logged_out s tok a a' \<Longrightarrow> ensures live A (logout_tokens s rest) a' Q"
  shows "ensures live A (logout_tokens s (tok # rest)) a Q"
proof -
  note s = on [unfolded auth_on_def]
  have skip: "logged_out s tok a a1" if p: "passes a a1" and j: "judged s tok [] (Inl err) a a1" for a1 err
    unfolding logged_out_def
  proof (intro conjI allI impI)
    fix c
    assume *: "signed s tok c \<and> ck_UserID c \<noteq> [] \<and> ck_ID c \<noteq> [] \<and> aa_black a (ck_ID c) = None \<and>
      ck_ExpiresAt c \<le> aa_now a + maxInt64"
    then obtain now t where t: "now \<le> t" "a1 = tick t a" "Inl err = verdict [] now a1 c"
      using judgedE [OF j] by metis
    have "ck_ExpiresAt c + 5 * Second \<le> now"
      by (rule verdict_Inl [OF t(3) [symmetric]]) (use * t(2) tick_none in simp)
    then have "ck_ExpiresAt c \<le> aa_now a1" using t(1,2) by (simp add: Second_def)
    then show "revoked (ck_ID c) (ck_ExpiresAt c) a1" by (simp add: revoked_def)
    show "e \<le> ck_ExpiresAt c + (aa_now a1 - aa_now a)" if "aa_now a1 < ck_ExpiresAt c" for e
      using that \<open>ck_ExpiresAt c \<le> aa_now a1\<close> by simp
    show "aa_black a i = Some e" if "aa_black a1 i = Some e" for i e using passes_black [OF p that] .
  qed (use p passesD [OF p] in \<open>simp_all add: evolves_passes\<close>)
  have drop: "logged_out s tok a a3"
    if p: "passes a a1" and b: "aa_black a1 (ck_ID c) = None"
      and j: "judged s tok [] (Inr c) a a1"
      and t: "aa_now a1 \<le> now" "now \<le> t"
      and e: "0 < (if Sub (ck_ExpiresAt c) now < 0 then 0 else Sub (ck_ExpiresAt c) now) \<longrightarrow>
        e = Some (t + (if Sub (ck_ExpiresAt c) now < 0 then 0 else Sub (ck_ExpiresAt c) now))"
      and a3: "a3 = (tick t (tick now a1))\<lparr>aa_black := (aa_black (tick t (tick now a1)))(ck_ID c := e)\<rparr>"
    for a1 a3 now t e and c :: Claims
  proof -
    have a3': "a3 = (tick t a1)\<lparr>aa_black := (aa_black (tick t a1))(ck_ID c := e)\<rparr>" using a3 t(2) by simp
    have "evolves s a1 a3" unfolding a3' by (rule evolves_blacklist [OF b]) (use t in simp)
    then have ev: "evolves s a a3" by (rule evolves_trans [OF evolves_passes [OF p]])
    show ?thesis
      unfolding logged_out_def
    proof (intro conjI allI impI)
      fix d
      assume d: "signed s tok d \<and> ck_UserID d \<noteq> [] \<and> ck_ID d \<noteq> [] \<and> aa_black a (ck_ID d) = None \<and>
        ck_ExpiresAt d \<le> aa_now a + maxInt64"
      then obtain now' where "Inr c = verdict [] now' a1 d" using judgedE [OF j] by metis
      from verdict_Inr [OF this [symmetric]] have cd: "c = d" by simp
      have "ck_ExpiresAt d \<le> now + maxInt64" using d passesD(1) [OF p] t(1) by simp
      then show "revoked (ck_ID d) (ck_ExpiresAt d) a3"
        unfolding a3' cd by (rule revoked_blacklist [OF _ refl t(2)]) (use e cd in simp)
      show "x \<le> ck_ExpiresAt d + (aa_now a3 - aa_now a)" if "aa_now a3 < ck_ExpiresAt d" "aa_black a3 (ck_ID d) = Some x" for x
      proof -
        have "now < ck_ExpiresAt d" using that(1) t(2) by (simp add: a3')
        then have "Sub (ck_ExpiresAt d) now = ck_ExpiresAt d - now"
          using \<open>ck_ExpiresAt d \<le> now + maxInt64\<close> by (auto simp: Sub_def minInt64_def maxInt64_def)
        with e that \<open>now < ck_ExpiresAt d\<close> have "x = t + (ck_ExpiresAt d - now)" by (auto simp: a3' cd)
        then show ?thesis using passesD(1) [OF p] t by (simp add: a3')
      qed
      show "aa_black a i = Some x" if "i \<noteq> ck_ID d" "aa_black a3 i = Some x" for i x
        using that cd passes_black [OF p, of i x] by (auto simp: a3' tick_black)
    qed (use ev passesD [OF p] in \<open>simp_all add: a3\<close>)
  qed
  show ?thesis
    unfolding logout_tokens.simps Let_def
    apply (rule ensures_step [OF ParseToken_full [OF on]])
    apply (elim conjE)
    apply (rule ensures_sum)
    subgoal for x a1 err
      by (rule rest, rule skip [where err = err], assumption, hypsubst, assumption)
    subgoal for x a1 claims
      apply (simp (no_asm) only: s)
      apply (rule ensures_step [OF auth_clock])
      apply (elim conjE)
      apply (rule ensures_step [OF blacklist])
       apply simp
      apply (elim exE conjE)
      subgoal for now a2 e a3 t ex
        apply (rule ensures_option)
         apply (rule rest)
         apply (rule drop [where c = claims and now = now and t = t and e = ex])
               apply assumption
              apply simp
             apply hypsubst
             apply assumption
            apply assumption
           apply simp
          apply assumption
         apply simp
        apply simp
        done
      done
    done
qed

lemma logout_tokens_spec:
  assumes on: "auth_on s ss us vf clk uid gen cmp hook"
  shows "ensures live A (logout_tokens s toks) a (\<lambda>x a'. x = None \<and> evolves s a a' \<and> aa_users a' = aa_users a \<and>
      aa_codes a' = aa_codes a)"
proof (induction toks arbitrary: a)
  case Nil
  show ?case unfolding logout_tokens.simps by (rule ensures_return) simp
next
  case (Cons tok toks)
  show ?case
  proof (rule logout_cons [OF on])
    fix b
    assume b: "logged_out s tok a b"
    show "ensures live A (logout_tokens s toks) b (\<lambda>x a'. x = None \<and> evolves s a a' \<and> aa_users a' = aa_users a \<and>
      aa_codes a' = aa_codes a)"
      by (rule ensures_mono [OF Cons.IH]) (use b evolves_trans in \<open>auto simp: logged_out_def\<close>)
  qed
qed

lemma Logout_spec:
  assumes on: "auth_on s ss us vf clk uid gen cmp hook"
    and c1: "signed s acc c1" "ck_UserID c1 \<noteq> []" "ck_ID c1 \<noteq> []" "aa_black a (ck_ID c1) = None"
      "ck_ExpiresAt c1 \<le> aa_now a + maxInt64"
    and c2: "signed s ref c2" "ck_UserID c2 \<noteq> []" "ck_ID c2 \<noteq> []" "aa_black a (ck_ID c2) = None"
      "ck_ExpiresAt c2 \<le> aa_now a + maxInt64"
    and ne: "ck_ID c1 \<noteq> ck_ID c2"
  shows "ensures live A (Logout s acc ref) a (\<lambda>x a'. x = None \<and> evolves s a a' \<and>
      revoked (ck_ID c1) (ck_ExpiresAt c1) a' \<and> revoked (ck_ID c2) (ck_ExpiresAt c2) a' \<and>
      (\<forall>e. aa_now a' < ck_ExpiresAt c1 \<longrightarrow> aa_black a' (ck_ID c1) = Some e \<longrightarrow> e \<le> ck_ExpiresAt c1 + (aa_now a' - aa_now a)))"
  unfolding Logout_def
proof (rule logout_cons [OF on], rule logout_cons [OF on])
  fix a1 a2
  assume 1: "logged_out s acc a a1" and 2: "logged_out s ref a1 a2"
  from 1 c1 have r1: "evolves s a a1" "revoked (ck_ID c1) (ck_ExpiresAt c1) a1"
    "\<And>e. aa_now a1 < ck_ExpiresAt c1 \<Longrightarrow> aa_black a1 (ck_ID c1) = Some e \<Longrightarrow> e \<le> ck_ExpiresAt c1 + (aa_now a1 - aa_now a)"
    by (auto simp: logged_out_def)
  have free: "aa_black a1 (ck_ID c2) = None"
    using 1 c1 c2(4) ne unfolding logged_out_def by (metis not_Some_eq)
  from 2 c2 free evolvesD(1) [OF r1(1)] have r2: "evolves s a1 a2" "revoked (ck_ID c2) (ck_ExpiresAt c2) a2"
    by (auto simp: logged_out_def)
  have keep: "aa_black a1 (ck_ID c1) = Some e" if "aa_black a2 (ck_ID c1) = Some e" for e
    using 2 c2 free evolvesD(1) [OF r1(1)] ne that by (auto simp: logged_out_def)
  have short: "e \<le> ck_ExpiresAt c1 + (aa_now a2 - aa_now a)" if "aa_now a2 < ck_ExpiresAt c1" "aa_black a2 (ck_ID c1) = Some e" for e
    using r1(3) [OF _ keep [OF that(2)]] that(1) evolvesD(1) [OF r2(1)] by simp
  show "ensures live A (logout_tokens s []) a2 (\<lambda>x a'. x = None \<and> evolves s a a' \<and>
      revoked (ck_ID c1) (ck_ExpiresAt c1) a' \<and> revoked (ck_ID c2) (ck_ExpiresAt c2) a' \<and>
      (\<forall>e. aa_now a' < ck_ExpiresAt c1 \<longrightarrow> aa_black a' (ck_ID c1) = Some e \<longrightarrow> e \<le> ck_ExpiresAt c1 + (aa_now a' - aa_now a)))"
    unfolding logout_tokens.simps
    by (rule ensures_return)
      (use r2 short evolves_trans [OF r1(1) r2(1)] evolvesD(5) [OF r2(1) r1(2)] in simp)
qed

end

end
