(* ===== verification/Account_Memory.thy ===== *)
theory Account_Memory
  imports Memory_Backend Auth_Proofs
begin

text \<open>
  The account service on the in-process backends: the user store of the API tests
  (\<^verbatim>\<open>internal/api/test_stores_test.go\<close>), the session cache, the verification codes, the clock and the
  sources of identifiers and password hashes, all in the world of theory \<open>Memory_Backend\<close>; and the hook that runs the
  room cleanup after a login (\<^verbatim>\<open>internal/api/router.go\<close>).  They keep every contract of theory \<open>Auth_Contracts\<close>.
\<close>

section \<open>User store\<close>

type_synonym MemUsers = "(string, User) gomap"

definition mem_GetUserByID :: "string \<Rightarrow> MemUsers \<Rightarrow> (error + User) \<times> MemUsers" where
  "mem_GetUserByID i c = ((case map_of c i of None \<Rightarrow> Inl ErrNotFound | Some user \<Rightarrow> Inr user), c)"

definition mem_GetUserByEmail :: "(string \<Rightarrow> string) \<Rightarrow> string \<Rightarrow> MemUsers \<Rightarrow> (error + User) \<times> MemUsers" where
  "mem_GetUserByEmail lowU email c =
     (let want = ToLower lowU (TrimSpace email) in
      (case find (\<lambda>user. ToLower lowU (TrimSpace (u_Email user)) = want) (map snd c) of
         None \<Rightarrow> Inl ErrNotFound
       | Some user \<Rightarrow> Inr user, c))"

definition mem_GetUserByUsername :: "(string \<Rightarrow> string) \<Rightarrow> string \<Rightarrow> MemUsers \<Rightarrow> (error + User) \<times> MemUsers" where
  "mem_GetUserByUsername lowU username c =
     (let want = ToLower lowU (TrimSpace username) in
      (case find (\<lambda>user. ToLower lowU (u_Username user) = want) (map snd c) of
         None \<Rightarrow> Inl ErrNotFound
       | Some user \<Rightarrow> Inr user, c))"

text \<open>\<open>strings.EqualFold\<close>; \<open>foldU\<close> stands for Unicode case folding beyond ASCII.\<close>

definition EqualFold :: "(string \<Rightarrow> string \<Rightarrow> bool) \<Rightarrow> string \<Rightarrow> string \<Rightarrow> bool" where
  "EqualFold foldU s t =
     (if is_ascii s \<and> is_ascii t then map lower_byte s = map lower_byte t else foldU s t)"

definition mem_CreateUser ::
  "(string \<Rightarrow> string \<Rightarrow> bool) \<Rightarrow> gotime \<Rightarrow> string \<Rightarrow> User \<Rightarrow> MemUsers \<Rightarrow> (error + User) \<times> MemUsers" where
  "mem_CreateUser foldU now newID user0 c =
     (if list_ex (\<lambda>existing. u_Username existing = u_Username user0 \<or>
           TrimSpace (u_Email existing) \<noteq> [] \<and> EqualFold foldU (u_Email existing) (u_Email user0)) (map snd c)
      then (Inl ErrConflict, c)
      else
        let user1 = (if u_ID user0 = [] then user0\<lparr>u_ID := newID\<rparr> else user0);
            user2 = (if u_Role user1 = [] then user1\<lparr>u_Role := UserRoleUser\<rparr> else user1);
            user3 = (if IsZero (u_CreatedAt user2) then user2\<lparr>u_CreatedAt := now\<rparr> else user2);
            user = user3\<lparr>u_UpdatedAt := now\<rparr>
        in (Inr user, mput (u_ID user) user c))"

definition mem_UpdateUser :: "gotime \<Rightarrow> User \<Rightarrow> MemUsers \<Rightarrow> error option \<times> MemUsers" where
  "mem_UpdateUser now user c =
     (if map_of c (u_ID user) = None then (Some ErrNotFound, c)
      else (None, mput (u_ID user) (user\<lparr>u_UpdatedAt := now\<rparr>) c))"

section \<open>Operations on the world\<close>

definition on_users :: "(MemUsers \<Rightarrow> 'a \<times> MemUsers) \<Rightarrow> (MemWorld, 'a) io" where
  "on_users f = on_part mw_users (\<lambda>c w. w\<lparr>mw_users := c\<rparr>) f"

definition on_codes :: "(MemCodes \<Rightarrow> 'a \<times> MemCodes) \<Rightarrow> (MemWorld, 'a) io" where
  "on_codes f = on_part mw_codes (\<lambda>c w. w\<lparr>mw_codes := c\<rparr>) f"

text \<open>The session cache takes its own reading of the clock.\<close>

definition on_sessions :: "(error option \<Rightarrow> gotime \<Rightarrow> MemSessions \<Rightarrow> 'a \<times> MemSessions) \<Rightarrow> (MemWorld, 'a) io" where
  "on_sessions f = do {
     now \<leftarrow> mem_clock;
     ctx \<leftarrow> reads mw_ctx;
     on_part mw_sessions (\<lambda>c w. w\<lparr>mw_sessions := c\<rparr>) (f ctx now)
   }"

definition mem_uuid :: "(nat \<Rightarrow> string) \<Rightarrow> (MemWorld, string) io" where
  "mem_uuid uuid = State (\<lambda>w. (uuid (mw_ids w), w\<lparr>mw_ids := Suc (mw_ids w)\<rparr>))"

text \<open>\<open>bgen n p\<close> is the outcome of the \<open>n\<close>-th password hashing.\<close>

definition mem_bcrypt :: "(nat \<Rightarrow> string \<Rightarrow> error + string) \<Rightarrow> string \<Rightarrow> (MemWorld, error + string) io" where
  "mem_bcrypt bgen p = State (\<lambda>w. (bgen (mw_salts w) p, w\<lparr>mw_salts := Suc (mw_salts w)\<rparr>))"

definition mem_ss :: "MemWorld SessionCache" where
  "mem_ss = \<lparr>SetRefreshToken = \<lambda>u tok ttl. on_sessions (\<lambda>ctx now. mem_SetRefreshToken ctx now u tok ttl),
     GetRefreshToken = \<lambda>u. on_sessions (\<lambda>ctx now. mem_GetRefreshToken ctx now u),
     DeleteRefreshToken = \<lambda>u. do {
       ctx \<leftarrow> reads mw_ctx;
       on_part mw_sessions (\<lambda>c w. w\<lparr>mw_sessions := c\<rparr>) (mem_DeleteRefreshToken ctx u)
     },
     BlacklistToken = \<lambda>j ttl. on_sessions (\<lambda>ctx now. mem_BlacklistToken ctx now j ttl),
     IsBlacklisted = \<lambda>j. on_sessions (\<lambda>ctx now. mem_IsBlacklisted ctx now j)\<rparr>"

definition mem_us ::
  "(nat \<Rightarrow> string) \<Rightarrow> (string \<Rightarrow> string) \<Rightarrow> (string \<Rightarrow> string \<Rightarrow> bool) \<Rightarrow> MemWorld UserStore" where
  "mem_us uuid lowU foldU = \<lparr>
     UserStore_GetByID = \<lambda>i. on_users (mem_GetUserByID i),
     UserStore_GetByUsername = \<lambda>n. on_users (mem_GetUserByUsername lowU n),
     UserStore_GetByEmail = \<lambda>m. on_users (mem_GetUserByEmail lowU m),
     UserStore_Create = \<lambda>user. do {
       now \<leftarrow> mem_clock;
       newID \<leftarrow> mem_uuid uuid;
       on_users (mem_CreateUser foldU now newID user)
     },
     UserStore_Update = \<lambda>user. do { now \<leftarrow> mem_clock; on_users (mem_UpdateUser now user) }\<rparr>"

definition mem_vf :: "(string \<Rightarrow> string) \<Rightarrow> (string \<Rightarrow> string \<Rightarrow> bool) \<Rightarrow> MemWorld CodeVerifier" where
  "mem_vf lowU cmp m p code n t = on_codes (Verify lowU cmp m p code n t)"

text \<open>
  The hook of \<^verbatim>\<open>NewRouter\<close> starts a goroutine with the room cleanup and reports no error; here the goroutine runs at
  once.
\<close>

definition cleanup_hook :: "MemWorld Service \<Rightarrow> (MemWorld, error option) io" where
  "cleanup_hook rooms = do {
     _ \<leftarrow> MaybeRunGlobalCleanup 0 rooms;
     State_Monad.return None
   }"

section \<open>The room service leaves the accounts alone\<close>

text \<open>A quiet program changes nothing of the account data; it may draw identifiers and let time pass.\<close>

definition frame :: "MemWorld \<Rightarrow> MemWorld \<Rightarrow> bool" where
  "frame w w' \<longleftrightarrow> mw_ctx w' = mw_ctx w \<and> mw_users w' = mw_users w \<and> mw_sessions w' = mw_sessions w \<and>
     mw_codes w' = mw_codes w \<and> mw_salts w' = mw_salts w \<and> mw_ids w' = mw_ids w \<and> mw_now w \<le> mw_now w'"

definition quiet :: "(MemWorld, 'a) io \<Rightarrow> bool" where
  "quiet m \<longleftrightarrow> (\<forall>w. frame w (snd (run_state m w)))"

named_theorems quiet_rules \<open>programs that leave the account data alone\<close>

lemma frame_refl [simp]: "frame w w"
  by (simp add: frame_def)

lemma frame_trans: "frame w v \<Longrightarrow> frame v u \<Longrightarrow> frame w u"
  by (simp add: frame_def)

lemma quiet_return [quiet_rules]: "quiet (State_Monad.return x)"
  by (simp add: quiet_def)

lemma quiet_bind [quiet_rules]: "quiet m \<Longrightarrow> (\<And>x. quiet (f x)) \<Longrightarrow> quiet (m \<bind> f)"
  unfolding quiet_def by (auto intro: frame_trans)

lemma quiet_branch [quiet_rules]:
  "(b \<Longrightarrow> quiet m) \<Longrightarrow> (\<not> b \<Longrightarrow> quiet n) \<Longrightarrow> quiet (if b then m else n)"
  "quiet k \<Longrightarrow> (\<And>y. quiet (f y)) \<Longrightarrow> quiet (case q of None \<Rightarrow> k | Some y \<Rightarrow> f y)"
  "(\<And>e. quiet (g e)) \<Longrightarrow> (\<And>y. quiet (h y)) \<Longrightarrow> quiet (case s of Inl e \<Rightarrow> g e | Inr y \<Rightarrow> h y)"
  "(\<And>y z. quiet (i y z)) \<Longrightarrow> quiet (case p of (y, z) \<Rightarrow> i y z)"
  by (auto split: option.split sum.split prod.split)

lemma quiet_parts [quiet_rules]:
  "quiet (on_states f)" "quiet (on_presence g)" "quiet (on_access h)" "quiet (on_rooms i)"
  by (simp_all add: quiet_def frame_def)

lemma quiet_clock [quiet_rules]: "quiet mem_clock"
  by (auto simp: quiet_def frame_def mem_clock_def split: list.split)

lemma quiet_publish [quiet_rules]: "quiet (mem_PublishRoomMessage r n d)"
  by (auto simp: quiet_def frame_def mem_PublishRoomMessage_def split: list.split option.split)

lemma mem_service_sel:
  "sv_states (mem_service uuid lowU rt limits) = mem_sc" "sv_presence (mem_service uuid lowU rt limits) = Some mem_pr"
  "sv_rooms (mem_service uuid lowU rt limits) = Some (mem_rst uuid lowU)"
  "sv_roomAccess (mem_service uuid lowU rt limits) = Some mem_acc"
  "sv_publisher (mem_service uuid lowU rt limits) = Some mem_pub" "sv_roomChat (mem_service uuid lowU rt limits) = None"
  "sv_now (mem_service uuid lowU rt limits) = mem_clock"
  by (simp_all add: mem_service_def NewService_def)

lemmas mem_backend_defs = mem_sc_def mem_pr_def mem_acc_def mem_rst_def mem_pub_def

lemma quiet_cleanup_rooms [quiet_rules]:
  "quiet (cleanup_rooms (mem_service uuid lowU rt limits) mem_pr (mem_rst uuid lowU) rs)"
proof (induction rs)
  case Nil
  show ?case by (simp add: quiet_return)
next
  case (Cons r rs)
  show ?case
    unfolding cleanup_rooms.simps closeEmptyRoom_def drop_presence_def drop_access_def deleteRoomChat_def PublishRoomEvent_def
      mem_service_sel option.case
    by (intro quiet_bind quiet_branch quiet_return Cons.IH) (simp_all add: mem_backend_defs quiet_rules)
qed

lemma quiet_cleanup: "quiet (cleanup_hook (mem_service uuid lowU rt limits))"
proof -
  let ?s = "mem_service uuid lowU rt limits"
  have chat: "ProcessGlobalChatPending 0 ?s = State_Monad.return (Some None)"
    by (simp add: ProcessGlobalChatPending_def mem_service_sel)
  show ?thesis
    unfolding cleanup_hook_def MaybeRunGlobalCleanup_def cleanup_locked_def RunEmptyRoomCleanup_def mem_service_sel chat option.case
    by (intro quiet_bind quiet_branch quiet_return quiet_clock quiet_cleanup_rooms)
      (simp_all add: mem_backend_defs quiet_rules)
qed

section \<open>The contracts hold\<close>

definition users_inv :: "MemUsers \<Rightarrow> bool" where
  "users_inv c \<longleftrightarrow> wf_map c \<and> (\<forall>i u. map_of c i = Some u \<longrightarrow> u_ID u = i \<and> user_ok u)"

text \<open>
  The source of identifiers never repeats itself and has not produced an identifier of a stored user before its time;
  a hash matches the password it was made from.
\<close>

definition sources_ok ::
  "(nat \<Rightarrow> string) \<Rightarrow> (nat \<Rightarrow> string \<Rightarrow> error + string) \<Rightarrow> (string \<Rightarrow> string \<Rightarrow> bool) \<Rightarrow> bool" where
  "sources_ok uuid bgen cmp \<longleftrightarrow> inj uuid \<and> (\<forall>n. uuid n \<noteq> [] \<and> is_ascii (uuid n)) \<and>
     (\<forall>n p h. bgen n p = Inr h \<longrightarrow> cmp h p)"

definition auth_live ::
  "(nat \<Rightarrow> string) \<Rightarrow> (nat \<Rightarrow> string \<Rightarrow> error + string) \<Rightarrow> (string \<Rightarrow> string \<Rightarrow> bool) \<Rightarrow> MemWorld \<Rightarrow> bool" where
  "auth_live uuid bgen cmp w \<longleftrightarrow> sources_ok uuid bgen cmp \<and> mw_ctx w = None \<and> 0 < mw_now w \<and> users_inv (mw_users w) \<and>
     sessions_inv (mw_sessions w) \<and> (\<forall>n\<ge>mw_ids w. map_of (mw_users w) (uuid n) = None)"

definition mem_accounts :: "(nat \<Rightarrow> string) \<Rightarrow> MemWorld \<Rightarrow> auth_abs" where
  "mem_accounts uuid w = \<lparr>aa_users = map_of (mw_users w),
     aa_refresh = \<lambda>u. case map_of (sm_refreshTokens (mw_sessions w)) u of None \<Rightarrow> None
       | Some e \<Rightarrow> if mw_now w < se_expiresAt e then Some (se_value e, se_expiresAt e) else None,
     aa_black = \<lambda>j. case map_of (sm_blacklist (mw_sessions w)) j of None \<Rightarrow> None
       | Some t \<Rightarrow> if mw_now w < t then Some t else None,
     aa_codes = {k. \<exists>e. map_of (mw_codes w) k = Some e \<and> me_hash e \<noteq> []},
     aa_ids = uuid ` {..<mw_ids w}, aa_now = mw_now w\<rparr>"

definition mem_same_mail :: "(string \<Rightarrow> string) \<Rightarrow> string \<Rightarrow> string \<Rightarrow> bool" where
  "mem_same_mail lowU s t \<longleftrightarrow> ToLower lowU (TrimSpace s) = ToLower lowU (TrimSpace t)"

definition mem_same_name :: "(string \<Rightarrow> string) \<Rightarrow> string \<Rightarrow> string \<Rightarrow> bool" where
  "mem_same_name lowU s t \<longleftrightarrow> ToLower lowU s = ToLower lowU (TrimSpace t)"

definition mem_code_key :: "(string \<Rightarrow> string) \<Rightarrow> string \<Rightarrow> string \<Rightarrow> string" where
  "mem_code_key lowU m p = code_key p (ToLower lowU (TrimSpace m))"

text \<open>Waiting: nothing but the clock has moved.\<close>

lemma mem_accounts_later:
  assumes "mw_now w \<le> t"
  shows "mem_accounts uuid (w\<lparr>mw_now := t, mw_delays := ds\<rparr>) = tick t (mem_accounts uuid w)"
  using assms by (auto simp: mem_accounts_def tick_def fun_eq_iff split: option.splits)

lemma mem_accounts_frame:
  assumes "frame w w'"
  shows "mem_accounts uuid w' = tick (mw_now w') (mem_accounts uuid w)"
  using assms by (auto simp: frame_def mem_accounts_def tick_def fun_eq_iff split: option.splits)

lemma auth_live_frame: "auth_live uuid bgen cmp w \<Longrightarrow> frame w w' \<Longrightarrow> auth_live uuid bgen cmp w'"
  by (auto simp: auth_live_def frame_def)

lemma quiet_ensures:
  assumes "quiet m"
  shows "ensures (auth_live uuid bgen cmp) (mem_accounts uuid) m a (\<lambda>x a'. \<exists>t\<ge>aa_now a. a' = tick t a)"
proof (rule ensuresI)
  fix w
  assume w: "auth_live uuid bgen cmp w" "mem_accounts uuid w = a"
  let ?w = "snd (run_state m w)"
  have f: "frame w ?w" using assms by (simp add: quiet_def)
  have "aa_now a \<le> mw_now ?w" using f w(2) by (auto simp: frame_def mem_accounts_def)
  moreover have "mem_accounts uuid ?w = tick (mw_now ?w) a" using mem_accounts_frame [OF f] w(2) by simp
  ultimately show "auth_live uuid bgen cmp ?w \<and> (\<exists>t\<ge>aa_now a. mem_accounts uuid ?w = tick t a)"
    using auth_live_frame [OF w(1) f] by blast
qed

lemma clock_reading:
  "ensures (auth_live uuid bgen cmp) (mem_accounts uuid) mem_clock a
     (\<lambda>t a'. aa_now a \<le> t \<and> a' = tick t a)"
proof (rule ensuresI)
  fix w
  assume w: "auth_live uuid bgen cmp w" "mem_accounts uuid w = a"
  let ?w = "snd (run_state mem_clock w)"
  have f: "frame w ?w" using quiet_clock by (simp add: quiet_def)
  have "fst (run_state mem_clock w) = mw_now ?w" by (auto simp: mem_clock_def split: list.split)
  moreover have "aa_now a \<le> mw_now ?w" using f w(2) by (auto simp: frame_def mem_accounts_def)
  moreover have "mem_accounts uuid ?w = tick (mw_now ?w) a" using mem_accounts_frame [OF f] w(2) by simp
  ultimately show "auth_live uuid bgen cmp ?w \<and> aa_now a \<le> fst (run_state mem_clock w) \<and>
      mem_accounts uuid ?w = tick (fst (run_state mem_clock w)) a"
    using auth_live_frame [OF w(1) f] by simp
qed

lemma mem_accounts_sel [simp]:
  "aa_users (mem_accounts uuid w) = map_of (mw_users w)" "aa_now (mem_accounts uuid w) = mw_now w"
  "aa_ids (mem_accounts uuid w) = uuid ` {..<mw_ids w}"
  by (simp_all add: mem_accounts_def)

text \<open>An operation of the session cache: read the clock, then change the sessions.\<close>

lemma ensures_on_sessions:
  assumes "\<And>w. auth_live uuid bgen cmp w \<Longrightarrow> aa_now a \<le> mw_now w \<Longrightarrow> mem_accounts uuid w = tick (mw_now w) a \<Longrightarrow>
      sessions_inv (snd (f None (mw_now w) (mw_sessions w))) \<and>
      Q (fst (f None (mw_now w) (mw_sessions w))) (mem_accounts uuid (w\<lparr>mw_sessions := snd (f None (mw_now w) (mw_sessions w))\<rparr>))"
  shows "ensures (auth_live uuid bgen cmp) (mem_accounts uuid) (on_sessions f) a Q"
  unfolding on_sessions_def
proof (rule ensures_step [OF clock_reading], elim conjE)
  fix t a'
  assume t: "aa_now a \<le> t" "a' = tick t a"
  show "ensures (auth_live uuid bgen cmp) (mem_accounts uuid)
      (do { ctx \<leftarrow> reads mw_ctx; on_part mw_sessions (\<lambda>c w. w\<lparr>mw_sessions := c\<rparr>) (f ctx t) }) a' Q"
  proof (rule ensuresI)
    fix w
    assume w: "auth_live uuid bgen cmp w" "mem_accounts uuid w = a'"
    from arg_cong [OF w(2), of aa_now] t have now: "mw_now w = t" by simp
    have ctx: "mw_ctx w = None" using w(1) by (simp add: auth_live_def)
    have a: "mem_accounts uuid w = tick (mw_now w) a" "aa_now a \<le> mw_now w" using w(2) t now by simp_all
    from assms [OF w(1) a(2,1)] w(1) now ctx
    show "auth_live uuid bgen cmp (snd (run_state (do { ctx \<leftarrow> reads mw_ctx; on_part mw_sessions (\<lambda>c w. w\<lparr>mw_sessions := c\<rparr>) (f ctx t) }) w)) \<and>
      Q (fst (run_state (do { ctx \<leftarrow> reads mw_ctx; on_part mw_sessions (\<lambda>c w. w\<lparr>mw_sessions := c\<rparr>) (f ctx t) }) w))
        (mem_accounts uuid (snd (run_state (do { ctx \<leftarrow> reads mw_ctx; on_part mw_sessions (\<lambda>c w. w\<lparr>mw_sessions := c\<rparr>) (f ctx t) }) w)))"
      by (simp add: auth_live_def)
  qed
qed

lemma auth_liveD:
  assumes "auth_live uuid bgen cmp w"
  shows "sessions_inv (mw_sessions w)" "0 < mw_now w" "users_inv (mw_users w)" "sources_ok uuid bgen cmp"
  using assms by (simp_all add: auth_live_def)

lemma mem_accounts_sessions:
  "mem_accounts uuid (w\<lparr>mw_sessions := c\<rparr>) = (mem_accounts uuid w)\<lparr>
     aa_refresh := \<lambda>u. case map_of (sm_refreshTokens c) u of None \<Rightarrow> None
       | Some e \<Rightarrow> if mw_now w < se_expiresAt e then Some (se_value e, se_expiresAt e) else None,
     aa_black := \<lambda>j. case map_of (sm_blacklist c) j of None \<Rightarrow> None
       | Some t \<Rightarrow> if mw_now w < t then Some t else None\<rparr>"
  by (auto simp: mem_accounts_def fun_eq_iff split: option.split)

lemma mem_accounts_tokens:
  "aa_refresh (mem_accounts uuid w) = (\<lambda>u. case map_of (sm_refreshTokens (mw_sessions w)) u of None \<Rightarrow> None
       | Some e \<Rightarrow> if mw_now w < se_expiresAt e then Some (se_value e, se_expiresAt e) else None)"
  "aa_black (mem_accounts uuid w) = (\<lambda>j. case map_of (sm_blacklist (mw_sessions w)) j of None \<Rightarrow> None
       | Some t \<Rightarrow> if mw_now w < t then Some t else None)"
  by (simp_all add: mem_accounts_def)

lemma mem_set_refresh:
  assumes "auth_live uuid bgen cmp w" and "0 < ttl"
  shows "mem_accounts uuid (w\<lparr>mw_sessions := snd (mem_SetRefreshToken None (mw_now w) u tok ttl (mw_sessions w))\<rparr>) =
    (mem_accounts uuid w)\<lparr>aa_refresh := (aa_refresh (mem_accounts uuid w))(u \<mapsto> (tok, mw_now w + ttl))\<rparr>"
  using assms(2)
  by (auto simp: mem_SetRefreshToken_def mem_accounts_def update_conv' fun_eq_iff split: option.split)

lemma mem_get_refresh:
  assumes "auth_live uuid bgen cmp w"
  shows "mem_accounts uuid (w\<lparr>mw_sessions := snd (mem_GetRefreshToken None (mw_now w) u (mw_sessions w))\<rparr>) = mem_accounts uuid w"
    and "fst (mem_GetRefreshToken None (mw_now w) u (mw_sessions w)) =
      Inr (case aa_refresh (mem_accounts uuid w) u of None \<Rightarrow> [] | Some (tok, _) \<Rightarrow> tok)"
  using auth_liveD(1) [OF assms]
  by (fastforce simp: mem_accounts_sessions mem_accounts_tokens mem_GetRefreshToken_def mem_accounts_def delete_conv' fun_eq_iff
      After_def IsZero_def sessions_inv_def split: option.splits)+

lemma mem_blacklist:
  shows "mem_accounts uuid (w\<lparr>mw_sessions := snd (mem_BlacklistToken None (mw_now w) j ttl (mw_sessions w))\<rparr>) =
    (mem_accounts uuid w)\<lparr>aa_black := (aa_black (mem_accounts uuid w))(j := if 0 < ttl then Some (mw_now w + ttl) else None)\<rparr>"
  by (auto simp: mem_BlacklistToken_def mem_accounts_def update_conv' fun_eq_iff split: option.split)

lemma mem_is_blacklisted:
  assumes "auth_live uuid bgen cmp w"
  shows "mem_accounts uuid (w\<lparr>mw_sessions := snd (mem_IsBlacklisted None (mw_now w) j (mw_sessions w))\<rparr>) = mem_accounts uuid w"
    and "fst (mem_IsBlacklisted None (mw_now w) j (mw_sessions w)) = Inr (aa_black (mem_accounts uuid w) j \<noteq> None)"
  using auth_liveD(1) [OF assms]
  by (auto simp: mem_accounts_sessions mem_accounts_tokens mem_IsBlacklisted_def mem_accounts_def delete_conv' fun_eq_iff After_def IsZero_def
      sessions_inv_def split: option.splits)

interpretation mem_sessions: session_store mem_ss "mem_accounts uuid" "auth_live uuid bgen cmp"
proof
  fix u tok a and ttl :: duration
  assume ttl: "0 < ttl"
  show "ensures (auth_live uuid bgen cmp) (mem_accounts uuid) (SetRefreshToken mem_ss u tok ttl) a
      (\<lambda>x a'. x = None \<and> (\<exists>t\<ge>aa_now a. a' = (tick t a)\<lparr>aa_refresh := (aa_refresh (tick t a))(u \<mapsto> (tok, t + ttl))\<rparr>))"
    unfolding mem_ss_def SessionCache.simps
  proof (rule ensures_on_sessions)
    fix w
    assume w: "auth_live uuid bgen cmp w" "aa_now a \<le> mw_now w" "mem_accounts uuid w = tick (mw_now w) a"
    note inv = auth_liveD [OF w(1)]
    from SetRefreshToken_abs(1,2) [OF inv(1,2), of ttl u tok] ttl w(2) mem_set_refresh [OF w(1) ttl, of u tok]
    show "sessions_inv (snd (mem_SetRefreshToken None (mw_now w) u tok ttl (mw_sessions w))) \<and>
      fst (mem_SetRefreshToken None (mw_now w) u tok ttl (mw_sessions w)) = None \<and>
      (\<exists>t\<ge>aa_now a. mem_accounts uuid (w\<lparr>mw_sessions := snd (mem_SetRefreshToken None (mw_now w) u tok ttl (mw_sessions w))\<rparr>) =
         (tick t a)\<lparr>aa_refresh := (aa_refresh (tick t a))(u \<mapsto> (tok, t + ttl))\<rparr>)"
      by (intro conjI exI [of _ "mw_now w"]) (simp_all add: w(3))
  qed
next
  fix u a
  show "ensures (auth_live uuid bgen cmp) (mem_accounts uuid) (GetRefreshToken mem_ss u) a
      (\<lambda>x a'. \<exists>t\<ge>aa_now a. a' = tick t a \<and> x = Inr (case aa_refresh a' u of None \<Rightarrow> [] | Some (tok, _) \<Rightarrow> tok))"
    unfolding mem_ss_def SessionCache.simps
  proof (rule ensures_on_sessions)
    fix w
    assume w: "auth_live uuid bgen cmp w" "aa_now a \<le> mw_now w" "mem_accounts uuid w = tick (mw_now w) a"
    note g = mem_get_refresh [OF w(1), of u] GetRefreshToken_abs(2) [OF auth_liveD(1) [OF w(1)], of "mw_now w" u]
    show "sessions_inv (snd (mem_GetRefreshToken None (mw_now w) u (mw_sessions w))) \<and>
      (\<exists>t\<ge>aa_now a. mem_accounts uuid (w\<lparr>mw_sessions := snd (mem_GetRefreshToken None (mw_now w) u (mw_sessions w))\<rparr>) = tick t a \<and>
        fst (mem_GetRefreshToken None (mw_now w) u (mw_sessions w)) =
          Inr (case aa_refresh (mem_accounts uuid (w\<lparr>mw_sessions := snd (mem_GetRefreshToken None (mw_now w) u (mw_sessions w))\<rparr>)) u
               of None \<Rightarrow> [] | Some (tok, _) \<Rightarrow> tok))"
      by (intro conjI exI [of _ "mw_now w"]) (simp_all add: g w(2,3))
  qed
next
  fix u a
  show "ensures (auth_live uuid bgen cmp) (mem_accounts uuid) (DeleteRefreshToken mem_ss u) a
      (\<lambda>x a'. x = None \<and> a' = a\<lparr>aa_refresh := (aa_refresh a)(u := None)\<rparr>)"
    unfolding mem_ss_def SessionCache.simps
    by (rule ensuresI)
      (auto simp: auth_live_def mem_DeleteRefreshToken_def mem_accounts_def delete_conv' fun_eq_iff sessions_inv_def split: option.split)
next
  fix j a and ttl :: duration
  assume ttl: "0 \<le> ttl"
  show "ensures (auth_live uuid bgen cmp) (mem_accounts uuid) (BlacklistToken mem_ss j ttl) a
      (\<lambda>x a'. x = None \<and> (\<exists>t\<ge>aa_now a. \<exists>e. (0 < ttl \<longrightarrow> e = Some (t + ttl)) \<and>
         a' = (tick t a)\<lparr>aa_black := (aa_black (tick t a))(j := e)\<rparr>))"
    unfolding mem_ss_def SessionCache.simps
  proof (rule ensures_on_sessions)
    fix w
    assume w: "auth_live uuid bgen cmp w" "aa_now a \<le> mw_now w" "mem_accounts uuid w = tick (mw_now w) a"
    note g = mem_blacklist [of uuid w j ttl] BlacklistToken_abs(1,2) [OF auth_liveD(1,2) [OF w(1)] ttl, of j]
    show "sessions_inv (snd (mem_BlacklistToken None (mw_now w) j ttl (mw_sessions w))) \<and>
      fst (mem_BlacklistToken None (mw_now w) j ttl (mw_sessions w)) = None \<and>
      (\<exists>t\<ge>aa_now a. \<exists>e. (0 < ttl \<longrightarrow> e = Some (t + ttl)) \<and>
        mem_accounts uuid (w\<lparr>mw_sessions := snd (mem_BlacklistToken None (mw_now w) j ttl (mw_sessions w))\<rparr>) =
          (tick t a)\<lparr>aa_black := (aa_black (tick t a))(j := e)\<rparr>)"
      by (intro conjI exI [of _ "mw_now w"] exI [of _ "if 0 < ttl then Some (mw_now w + ttl) else None"])
        (simp_all add: g w(2,3))
  qed
next
  fix j a
  show "ensures (auth_live uuid bgen cmp) (mem_accounts uuid) (IsBlacklisted mem_ss j) a
      (\<lambda>x a'. \<exists>t\<ge>aa_now a. a' = tick t a \<and> x = Inr (aa_black a' j \<noteq> None))"
    unfolding mem_ss_def SessionCache.simps
  proof (rule ensures_on_sessions)
    fix w
    assume w: "auth_live uuid bgen cmp w" "aa_now a \<le> mw_now w" "mem_accounts uuid w = tick (mw_now w) a"
    note g = mem_is_blacklisted [OF w(1), of j] IsBlacklisted_abs(2) [OF auth_liveD(1) [OF w(1)], of "mw_now w" j]
    show "sessions_inv (snd (mem_IsBlacklisted None (mw_now w) j (mw_sessions w))) \<and>
      (\<exists>t\<ge>aa_now a. mem_accounts uuid (w\<lparr>mw_sessions := snd (mem_IsBlacklisted None (mw_now w) j (mw_sessions w))\<rparr>) = tick t a \<and>
        fst (mem_IsBlacklisted None (mw_now w) j (mw_sessions w)) =
          Inr (aa_black (mem_accounts uuid (w\<lparr>mw_sessions := snd (mem_IsBlacklisted None (mw_now w) j (mw_sessions w))\<rparr>)) j \<noteq> None))"
      by (intro conjI exI [of _ "mw_now w"]) (simp_all add: g w(2,3))
  qed
qed

lemma users_inv_put:
  assumes "users_inv c" and "user_ok u"
  shows "users_inv (mput (u_ID u) u c)"
  using assms by (auto simp: users_inv_def update_conv' distinct_update)

lemma find_user:
  assumes "wf_map c"
  shows "(case find P (map snd c) of None \<Rightarrow> \<forall>u\<in>ran (map_of c). \<not> P u | Some u \<Rightarrow> u \<in> ran (map_of c) \<and> P u)"
proof (cases "find P (map snd c)")
  case None
  then have "\<forall>u\<in>set (map snd c). \<not> P u" by (auto simp: find_None_iff)
  with None show ?thesis using ran_wf_map [OF assms] by simp
next
  case (Some u)
  then have "P u \<and> u \<in> set (map snd c)" unfolding find_Some_iff by auto
  then show ?thesis using Some ran_wf_map [OF assms] by simp
qed

text \<open>An operation that looks at the users only.\<close>

lemma ensures_look_up:
  assumes "\<And>c. users_inv c \<Longrightarrow> snd (f c) = c \<and> (map_of c = aa_users a \<longrightarrow> R (fst (f c)))"
  shows "ensures (auth_live uuid bgen cmp) (mem_accounts uuid) (on_users f) a (\<lambda>x a'. a' = a \<and> R x)"
proof (rule ensuresI)
  fix w
  assume w: "auth_live uuid bgen cmp w" "mem_accounts uuid w = a"
  have "map_of (mw_users w) = aa_users a" using arg_cong [OF w(2), of aa_users] by simp
  with assms [OF auth_liveD(3) [OF w(1)]] w
  show "auth_live uuid bgen cmp (snd (run_state (on_users f) w)) \<and> mem_accounts uuid (snd (run_state (on_users f) w)) = a \<and>
      R (fst (run_state (on_users f) w))"
    by (simp add: on_users_def)
qed

lemma mem_accounts_users: "mem_accounts uuid (w\<lparr>mw_users := c\<rparr>) = (mem_accounts uuid w)\<lparr>aa_users := map_of c\<rparr>"
  by (auto simp: mem_accounts_def fun_eq_iff split: option.split)

lemma mem_accounts_ids:
  "mem_accounts uuid (w\<lparr>mw_ids := Suc (mw_ids w)\<rparr>) =
     (mem_accounts uuid w)\<lparr>aa_ids := insert (uuid (mw_ids w)) (aa_ids (mem_accounts uuid w))\<rparr>"
  by (auto simp: mem_accounts_def fun_eq_iff lessThan_Suc split: option.split)

lemma fresh_uuid:
  "ensures (auth_live uuid bgen cmp) (mem_accounts uuid) (mem_uuid uuid) a
     (\<lambda>x a'. (x \<notin> aa_ids a \<and> x \<noteq> [] \<and> is_ascii x \<and> a' = a\<lparr>aa_ids := insert x (aa_ids a)\<rparr>) \<and> aa_users a x = None)"
proof (rule ensuresI)
  fix w
  assume w: "auth_live uuid bgen cmp w" "mem_accounts uuid w = a"
  then have src: "inj uuid" "\<And>n. uuid n \<noteq> [] \<and> is_ascii (uuid n)" by (simp_all add: auth_live_def sources_ok_def)
  have "uuid (mw_ids w) \<notin> uuid ` {..<mw_ids w}" using src(1) by (auto simp: inj_eq)
  with src(2) [of "mw_ids w"] w mem_accounts_ids [of uuid w]
  show "auth_live uuid bgen cmp (snd (run_state (mem_uuid uuid) w)) \<and>
      (fst (run_state (mem_uuid uuid) w) \<notin> aa_ids a \<and> fst (run_state (mem_uuid uuid) w) \<noteq> [] \<and>
       is_ascii (fst (run_state (mem_uuid uuid) w)) \<and>
       mem_accounts uuid (snd (run_state (mem_uuid uuid) w)) = a\<lparr>aa_ids := insert (fst (run_state (mem_uuid uuid) w)) (aa_ids a)\<rparr>) \<and>
      aa_users a (fst (run_state (mem_uuid uuid) w)) = None"
    by (auto simp: mem_uuid_def auth_live_def)
qed

lemma mem_CreateUser_cases:
  assumes "u_ID u = []" and "u_Role u \<noteq> []"
  obtains "mem_CreateUser foldU now i u c = (Inl ErrConflict, c)"
  | v where "mem_CreateUser foldU now i u c = (Inr v, mput i v c)" and "u_ID v = i"
      and "v = u\<lparr>u_ID := u_ID v, u_CreatedAt := u_CreatedAt v, u_UpdatedAt := u_UpdatedAt v\<rparr>"
  using assms by (cases "fst (mem_CreateUser foldU now i u c)") (auto simp: mem_CreateUser_def Let_def split: if_splits)

interpretation mem_users: user_store "mem_us uuid lowU foldU" "mem_accounts uuid" "auth_live uuid bgen cmp"
  "mem_same_mail lowU" "mem_same_name lowU"
proof
  fix w i u
  assume "auth_live uuid bgen cmp w" "aa_users (mem_accounts uuid w) i = Some u"
  then show "u_ID u = i \<and> user_ok u" by (simp add: auth_live_def users_inv_def)
next
  fix i a
  have "ensures (auth_live uuid bgen cmp) (mem_accounts uuid) (on_users (mem_GetUserByID i)) a
      (\<lambda>x a'. a' = a \<and> x = (case aa_users a i of None \<Rightarrow> Inl ErrNotFound | Some u \<Rightarrow> Inr u))"
    by (rule ensures_look_up) (auto simp: mem_GetUserByID_def)
  then show "ensures (auth_live uuid bgen cmp) (mem_accounts uuid) (UserStore_GetByID (mem_us uuid lowU foldU) i) a
      (\<lambda>x a'. a' = a \<and> x = (case aa_users a i of None \<Rightarrow> Inl ErrNotFound | Some u \<Rightarrow> Inr u))"
    by (simp add: mem_us_def)
next
  fix m a
  have "ensures (auth_live uuid bgen cmp) (mem_accounts uuid) (on_users (mem_GetUserByEmail lowU m)) a
      (\<lambda>x a'. a' = a \<and> (case x of
         Inl err \<Rightarrow> err = ErrNotFound \<and> (\<forall>u\<in>ran (aa_users a). \<not> mem_same_mail lowU (u_Email u) m)
       | Inr u \<Rightarrow> u \<in> ran (aa_users a) \<and> mem_same_mail lowU (u_Email u) m))"
  proof (rule ensures_look_up)
    fix c
    assume "users_inv c"
    then have "wf_map c" by (simp add: users_inv_def)
    from find_user [OF this, of "\<lambda>u. mem_same_mail lowU (u_Email u) m"]
    show "snd (mem_GetUserByEmail lowU m c) = c \<and> (map_of c = aa_users a \<longrightarrow> (case fst (mem_GetUserByEmail lowU m c) of
         Inl err \<Rightarrow> err = ErrNotFound \<and> (\<forall>u\<in>ran (aa_users a). \<not> mem_same_mail lowU (u_Email u) m)
       | Inr u \<Rightarrow> u \<in> ran (aa_users a) \<and> mem_same_mail lowU (u_Email u) m))"
      by (auto simp: mem_GetUserByEmail_def Let_def mem_same_mail_def split: option.splits)
  qed
  then show "ensures (auth_live uuid bgen cmp) (mem_accounts uuid) (UserStore_GetByEmail (mem_us uuid lowU foldU) m) a
      (\<lambda>x a'. a' = a \<and> (case x of
         Inl err \<Rightarrow> err = ErrNotFound \<and> (\<forall>u\<in>ran (aa_users a). \<not> mem_same_mail lowU (u_Email u) m)
       | Inr u \<Rightarrow> u \<in> ran (aa_users a) \<and> mem_same_mail lowU (u_Email u) m))"
    by (simp add: mem_us_def)
next
  fix n a
  have "ensures (auth_live uuid bgen cmp) (mem_accounts uuid) (on_users (mem_GetUserByUsername lowU n)) a
      (\<lambda>x a'. a' = a \<and> (case x of
         Inl err \<Rightarrow> err = ErrNotFound \<and> (\<forall>u\<in>ran (aa_users a). \<not> mem_same_name lowU (u_Username u) n)
       | Inr u \<Rightarrow> u \<in> ran (aa_users a) \<and> mem_same_name lowU (u_Username u) n))"
  proof (rule ensures_look_up)
    fix c
    assume "users_inv c"
    then have "wf_map c" by (simp add: users_inv_def)
    from find_user [OF this, of "\<lambda>u. mem_same_name lowU (u_Username u) n"]
    show "snd (mem_GetUserByUsername lowU n c) = c \<and> (map_of c = aa_users a \<longrightarrow> (case fst (mem_GetUserByUsername lowU n c) of
         Inl err \<Rightarrow> err = ErrNotFound \<and> (\<forall>u\<in>ran (aa_users a). \<not> mem_same_name lowU (u_Username u) n)
       | Inr u \<Rightarrow> u \<in> ran (aa_users a) \<and> mem_same_name lowU (u_Username u) n))"
      by (auto simp: mem_GetUserByUsername_def Let_def mem_same_name_def split: option.splits)
  qed
  then show "ensures (auth_live uuid bgen cmp) (mem_accounts uuid) (UserStore_GetByUsername (mem_us uuid lowU foldU) n) a
      (\<lambda>x a'. a' = a \<and> (case x of
         Inl err \<Rightarrow> err = ErrNotFound \<and> (\<forall>u\<in>ran (aa_users a). \<not> mem_same_name lowU (u_Username u) n)
       | Inr u \<Rightarrow> u \<in> ran (aa_users a) \<and> mem_same_name lowU (u_Username u) n))"
    by (simp add: mem_us_def)
next
  fix u :: User and a
  assume "IsZero (u_CreatedAt u)" and u: "u_ID u = []" "u_Role u \<noteq> []" "is_ascii (u_Username u)" "is_ascii (u_Role u)"
  show "ensures (auth_live uuid bgen cmp) (mem_accounts uuid) (UserStore_Create (mem_us uuid lowU foldU) u) a
      (\<lambda>x a'. \<exists>t\<ge>aa_now a. \<exists>I. aa_ids a \<subseteq> I \<and> (case x of
         Inl _ \<Rightarrow> a' = (tick t a)\<lparr>aa_ids := I\<rparr>
       | Inr v \<Rightarrow> aa_users a (u_ID v) = None \<and> v = u\<lparr>u_ID := u_ID v, u_CreatedAt := u_CreatedAt v, u_UpdatedAt := u_UpdatedAt v\<rparr> \<and>
           a' = (tick t a)\<lparr>aa_ids := I, aa_users := (aa_users a)(u_ID v \<mapsto> v)\<rparr>))" (is "ensures _ _ _ _ ?Q")
    unfolding mem_us_def UserStore.simps
  proof (rule ensures_step [OF clock_reading], elim conjE, rule ensures_step [OF fresh_uuid], elim conjE)
    fix t a1 i a2
    assume 1: "aa_now a \<le> t" "a1 = tick t a" and 2: "i \<noteq> []" "is_ascii i" "a2 = a1\<lparr>aa_ids := insert i (aa_ids a1)\<rparr>" "aa_users a1 i = None"
    show "ensures (auth_live uuid bgen cmp) (mem_accounts uuid) (on_users (mem_CreateUser foldU t i u)) a2 ?Q"
    proof (rule ensuresI)
      fix w
      assume w: "auth_live uuid bgen cmp w" "mem_accounts uuid w = a2"
      note inv = auth_liveD [OF w(1)]
      have us: "map_of (mw_users w) = aa_users a" using arg_cong [OF w(2), of aa_users] 1 2 by simp
      have run: "run_state (on_users (mem_CreateUser foldU t i u)) w =
          (fst (mem_CreateUser foldU t i u (mw_users w)), w\<lparr>mw_users := snd (mem_CreateUser foldU t i u (mw_users w))\<rparr>)"
        by (simp add: on_users_def)
      have "i \<in> uuid ` {..<mw_ids w}" using arg_cong [OF w(2), of aa_ids] 2(3) by simp
      then obtain k where k: "i = uuid k" "k < mw_ids w" by blast
      have i: "uuid n \<noteq> i" if "mw_ids w \<le> n" for n
        using that k inv(4) by (auto simp: sources_ok_def inj_eq)
      have ids: "aa_ids a \<subseteq> insert i (aa_ids a)" by blast
      show "auth_live uuid bgen cmp (snd (run_state (on_users (mem_CreateUser foldU t i u)) w)) \<and>
          ?Q (fst (run_state (on_users (mem_CreateUser foldU t i u)) w)) (mem_accounts uuid (snd (run_state (on_users (mem_CreateUser foldU t i u)) w)))"
      proof (rule mem_CreateUser_cases [OF u(1,2), of foldU t i "mw_users w"])
        assume "mem_CreateUser foldU t i u (mw_users w) = (Inl ErrConflict, mw_users w)"
        then show ?thesis
          unfolding run using w 1 2(3) ids by (auto intro!: exI [of _ t] exI [of _ "insert i (aa_ids a)"])
      next
        fix v :: User
        assume c: "mem_CreateUser foldU t i u (mw_users w) = (Inr v, mput i v (mw_users w))" and v: "u_ID v = i"
          "v = u\<lparr>u_ID := u_ID v, u_CreatedAt := u_CreatedAt v, u_UpdatedAt := u_UpdatedAt v\<rparr>"
        from arg_cong [OF v(2), of u_Username] arg_cong [OF v(2), of u_Role] u(3,4) v(1) 2(1,2)
        have "user_ok v" by (simp add: user_ok_def)
        then have live: "auth_live uuid bgen cmp (w\<lparr>mw_users := mput i v (mw_users w)\<rparr>)"
          using w(1) i users_inv_put [OF inv(3), of v] v(1) by (auto simp: auth_live_def update_conv')
        have "mem_accounts uuid (w\<lparr>mw_users := mput i v (mw_users w)\<rparr>) =
            (tick t a)\<lparr>aa_ids := insert i (aa_ids a), aa_users := (aa_users a)(u_ID v \<mapsto> v)\<rparr>"
          using w(2) 1(2) 2(3) us v(1) by (simp add: mem_accounts_users update_conv')
        then have "?Q (Inr v) (mem_accounts uuid (w\<lparr>mw_users := mput i v (mw_users w)\<rparr>))"
          using 1 2(4) ids v by (intro exI [of _ t] conjI exI [of _ "insert i (aa_ids a)"]) simp_all
        with live c show ?thesis unfolding run by simp
      qed
    qed
  qed
next
  fix u a
  assume u: "user_ok u"
  show "ensures (auth_live uuid bgen cmp) (mem_accounts uuid) (UserStore_Update (mem_us uuid lowU foldU) u) a
      (\<lambda>x a'. \<exists>t\<ge>aa_now a. \<exists>t'. case x of
         Some _ \<Rightarrow> a' = tick t a
       | None \<Rightarrow> aa_users a (u_ID u) \<noteq> None \<and>
           a' = (tick t a)\<lparr>aa_users := (aa_users a)(u_ID u \<mapsto> u\<lparr>u_UpdatedAt := t'\<rparr>)\<rparr>)" (is "ensures _ _ _ _ ?Q")
    unfolding mem_us_def UserStore.simps
  proof (rule ensures_step [OF clock_reading], elim conjE)
    fix t a1
    assume 1: "aa_now a \<le> t" "a1 = tick t a"
    show "ensures (auth_live uuid bgen cmp) (mem_accounts uuid) (on_users (mem_UpdateUser t u)) a1 ?Q"
    proof (rule ensuresI)
      fix w
      assume w: "auth_live uuid bgen cmp w" "mem_accounts uuid w = a1"
      have us: "map_of (mw_users w) = aa_users a" using arg_cong [OF w(2), of aa_users] 1 by simp
      have "user_ok (u\<lparr>u_UpdatedAt := t\<rparr>)" using u by (simp add: user_ok_def)
      from users_inv_put [OF auth_liveD(3) [OF w(1)] this]
      have inv: "users_inv (mput (u_ID u) (u\<lparr>u_UpdatedAt := t\<rparr>) (mw_users w))" by simp
      show "auth_live uuid bgen cmp (snd (run_state (on_users (mem_UpdateUser t u)) w)) \<and>
        ?Q (fst (run_state (on_users (mem_UpdateUser t u)) w)) (mem_accounts uuid (snd (run_state (on_users (mem_UpdateUser t u)) w)))"
      proof (cases "map_of (mw_users w) (u_ID u)")
        case None
        with w 1 show ?thesis by (auto simp: on_users_def mem_UpdateUser_def)
      next
        case (Some old)
        then have "auth_live uuid bgen cmp (w\<lparr>mw_users := mput (u_ID u) (u\<lparr>u_UpdatedAt := t\<rparr>) (mw_users w)\<rparr>)"
          using w(1) inv by (auto simp: auth_live_def update_conv')
        moreover have "mem_accounts uuid (w\<lparr>mw_users := mput (u_ID u) (u\<lparr>u_UpdatedAt := t\<rparr>) (mw_users w)\<rparr>) =
            (tick t a)\<lparr>aa_users := (aa_users a)(u_ID u \<mapsto> u\<lparr>u_UpdatedAt := t\<rparr>)\<rparr>"
          using w(2) 1 us by (simp add: mem_accounts_users update_conv')
        ultimately show ?thesis using Some us 1 by (auto simp: on_users_def mem_UpdateUser_def)
      qed
    qed
  qed
qed

lemma mem_accounts_codes:
  "mem_accounts uuid (w\<lparr>mw_codes := c\<rparr>) = (mem_accounts uuid w)\<lparr>aa_codes := {k. \<exists>e. map_of c k = Some e \<and> me_hash e \<noteq> []}\<rparr>"
  by (auto simp: mem_accounts_def fun_eq_iff split: option.split)

text \<open>Verification can only use up the code it is asked about, and accepts no other.\<close>

lemma Verify_codes:
  fixes c :: MemCodes
  defines "usable d \<equiv> {k. \<exists>e. map_of d k = Some e \<and> me_hash e \<noteq> []}"
  shows "usable (snd (Verify lowU cmp m p code n t c)) \<subseteq> usable c"
    and "fst (Verify lowU cmp m p code n t c) = None \<Longrightarrow>
      mem_code_key lowU m p \<in> usable c \<and> mem_code_key lowU m p \<notin> usable (snd (Verify lowU cmp m p code n t c))"
  unfolding usable_def
  by (auto simp: Verify_def verifyMem_def Let_def mem_code_key_def update_conv' split: option.splits if_splits)

interpretation mem_codes: code_store "mem_vf lowU cmp'" "mem_accounts uuid" "auth_live uuid bgen cmp" "mem_code_key lowU"
proof
  fix m p code n t a
  show "ensures (auth_live uuid bgen cmp) (mem_accounts uuid) (mem_vf lowU cmp' m p code n t) a
      (\<lambda>x a'. \<exists>C\<subseteq>aa_codes a. a' = a\<lparr>aa_codes := C\<rparr> \<and>
        (x = None \<longrightarrow> mem_code_key lowU m p \<in> aa_codes a \<and> mem_code_key lowU m p \<notin> C))"
  proof (rule ensuresI)
    fix w
    assume w: "auth_live uuid bgen cmp w" "mem_accounts uuid w = a"
    have "aa_codes a = {k. \<exists>e. map_of (mw_codes w) k = Some e \<and> me_hash e \<noteq> []}"
      using w(2) by (auto simp: mem_accounts_def)
    moreover have "auth_live uuid bgen cmp (w\<lparr>mw_codes := c\<rparr>)" for c using w(1) by (simp add: auth_live_def)
    ultimately show "auth_live uuid bgen cmp (snd (run_state (mem_vf lowU cmp' m p code n t) w)) \<and>
        (\<exists>C\<subseteq>aa_codes a. mem_accounts uuid (snd (run_state (mem_vf lowU cmp' m p code n t) w)) = a\<lparr>aa_codes := C\<rparr> \<and>
          (fst (run_state (mem_vf lowU cmp' m p code n t) w) = None \<longrightarrow>
             mem_code_key lowU m p \<in> aa_codes a \<and> mem_code_key lowU m p \<notin> C))"
      using Verify_codes [of lowU cmp' m p code n t "mw_codes w"]
      by (simp add: mem_vf_def on_codes_def mem_accounts_codes w(2))
        (intro exI conjI, assumption, rule refl, blast)
  qed
qed

interpretation mem_auth_runtime: auth_runtime mem_clock "mem_uuid uuid" "mem_bcrypt bgen" cmp
  "Some (cleanup_hook (mem_service uuid' lowU' rt limits))" "mem_accounts uuid" "auth_live uuid bgen cmp"
proof
  show "ensures (auth_live uuid bgen cmp) (mem_accounts uuid) mem_clock a (\<lambda>t a'. aa_now a \<le> t \<and> a' = tick t a)" for a
    by (rule clock_reading)
  show "ensures (auth_live uuid bgen cmp) (mem_accounts uuid) (mem_uuid uuid) a
      (\<lambda>x a'. x \<notin> aa_ids a \<and> x \<noteq> [] \<and> is_ascii x \<and> a' = a\<lparr>aa_ids := insert x (aa_ids a)\<rparr>)" for a
    by (rule ensures_mono [OF fresh_uuid]) simp
  show "ensures (auth_live uuid bgen cmp) (mem_accounts uuid) (mem_bcrypt bgen p) a (\<lambda>x a'. a' = a \<and> (\<forall>h. x = Inr h \<longrightarrow> cmp h p))"
    for p a
  proof (rule ensuresI)
    fix w
    assume w: "auth_live uuid bgen cmp w" "mem_accounts uuid w = a"
    have "mem_accounts uuid (w\<lparr>mw_salts := n\<rparr>) = mem_accounts uuid w" for n
      by (auto simp: mem_accounts_def fun_eq_iff split: option.split)
    with w show "auth_live uuid bgen cmp (snd (run_state (mem_bcrypt bgen p) w)) \<and>
        mem_accounts uuid (snd (run_state (mem_bcrypt bgen p) w)) = a \<and>
        (\<forall>h. fst (run_state (mem_bcrypt bgen p) w) = Inr h \<longrightarrow> cmp h p)"
      by (auto simp: mem_bcrypt_def auth_live_def sources_ok_def)
  qed
  show "ensures (auth_live uuid bgen cmp) (mem_accounts uuid) h a (\<lambda>x a'. \<exists>t\<ge>aa_now a. a' = tick t a)"
    if "Some (cleanup_hook (mem_service uuid' lowU' rt limits)) = Some h" for h a
    using that by (intro quiet_ensures) (auto simp: quiet_cleanup)
qed

interpretation mem_auth: auth_backend mem_ss "mem_us uuid lowU foldU" "mem_vf lowU cmp" mem_clock "mem_uuid uuid"
  "mem_bcrypt bgen" cmp "Some (cleanup_hook (mem_service uuid' lowU' rt limits))" "mem_accounts uuid" "auth_live uuid bgen cmp"
  "mem_same_mail lowU" "mem_same_name lowU" "mem_code_key lowU"
  by unfold_locales

section \<open>The account service on the memory backends\<close>

text \<open>
  \<open>pkg\<close> gives the JWT package, the Unicode tables and the address parser; identifiers and password hashes are drawn
  from the world.
\<close>

definition mem_auth_pkg ::
  "(nat \<Rightarrow> string) \<Rightarrow> (nat \<Rightarrow> string \<Rightarrow> error + string) \<Rightarrow> MemWorld AuthPkg \<Rightarrow> MemWorld AuthPkg" where
  "mem_auth_pkg uuid bgen pkg = pkg\<lparr>bc_generate := mem_bcrypt bgen, uuid_new := mem_uuid uuid\<rparr>"

definition mem_auth_service ::
  "(nat \<Rightarrow> string) \<Rightarrow> (nat \<Rightarrow> string \<Rightarrow> error + string) \<Rightarrow> (string \<Rightarrow> string \<Rightarrow> bool) \<Rightarrow> MemWorld AuthPkg \<Rightarrow>
   MemWorld Service \<Rightarrow> Config \<Rightarrow> MemWorld AuthService" where
  "mem_auth_service uuid bgen foldU pkg rooms cfg =
     SetAfterLogin (cleanup_hook rooms)
       (NewAuthService mem_clock (mem_auth_pkg uuid bgen pkg) (mem_us uuid (uni_lower pkg) foldU) mem_ss
          (Some (mem_vf (uni_lower pkg) (bc_compare pkg))) cfg)"

lemma jwt_laws_mem: "jwt_laws (mem_auth_pkg uuid bgen pkg) \<longleftrightarrow> jwt_laws pkg"
  by (simp add: jwt_laws_def claims_ok_def mem_auth_pkg_def)

lemma mem_auth_on:
  assumes "jwt_laws pkg" and "0 < cf_JWTAccessTTL cfg" and "0 < cf_JWTRefreshTTL cfg"
  shows "auth_on (mem_auth_service uuid bgen foldU pkg rooms cfg) mem_ss (mem_us uuid (uni_lower pkg) foldU)
    (mem_vf (uni_lower pkg) (bc_compare pkg)) mem_clock (mem_uuid uuid) (mem_bcrypt bgen) (bc_compare pkg) (Some (cleanup_hook rooms))"
  using assms jwt_laws_mem [of uuid bgen pkg]
  by (simp add: auth_on_def mem_auth_service_def SetAfterLogin_def NewAuthService_def) (simp add: mem_auth_pkg_def)

end
