(* ===== verification/Auth_Sample.thy ===== *)
theory Auth_Sample
  imports Account_Memory
begin

text \<open>
  A concrete setting for the account service: a stand-in for the JWT package whose tokens are plain text (each field
  with an escape in front of every character and a dot at its end) and which keeps the laws of the real one, an
  identifier source, a stand-in for bcrypt, and a world with one registered user.
\<close>

section \<open>Plain-text tokens\<close>

fun enc :: "string \<Rightarrow> string" where
  "enc [] = ''.''"
| "enc (c # s) = CHR ''x'' # c # enc s"

fun dec :: "string \<Rightarrow> (string \<times> string) option" where
  "dec [] = None"
| "dec [c] = (if c = CHR ''.'' then Some ([], []) else None)"
| "dec (c # d # s) =
     (if c = CHR ''.'' then Some ([], d # s)
      else case dec s of None \<Rightarrow> None | Some (t, r) \<Rightarrow> Some (d # t, r))"

lemma dec_enc [simp]: "dec (enc s @ r) = Some (s, r)"
proof (induction s)
  case Nil
  show ?case by (cases r) simp_all
qed simp

function bin :: "int \<Rightarrow> string" where
  "bin n = (if n \<le> 0 then [] else (if even n then CHR ''0'' else CHR ''1'') # bin (n div 2))"
  by pat_completeness auto
termination by (relation "measure nat") auto

fun unbin :: "string \<Rightarrow> int" where
  "unbin [] = 0"
| "unbin (c # s) = (if c = CHR ''1'' then 1 else 0) + 2 * unbin s"

declare bin.simps [simp del]

lemma unbin_bin [simp]: "0 \<le> n \<Longrightarrow> unbin (bin n) = n"
proof (induction n rule: bin.induct)
  case (1 n)
  then show ?case by (subst bin.simps) (auto elim!: oddE)
qed

definition enc_time :: "gotime \<Rightarrow> string" where
  "enc_time t = (if t < 0 then CHR ''-'' # bin (- t) else bin t)"

definition dec_time :: "string \<Rightarrow> gotime" where
  "dec_time s = (case s of c # r \<Rightarrow> if c = CHR ''-'' then - unbin r else unbin s | [] \<Rightarrow> 0)"

lemma dec_enc_time [simp]: "dec_time (enc_time t) = t"
proof (cases "t < 0")
  case False
  have hd: "bin n = c # s \<Longrightarrow> c \<noteq> CHR ''-''" for n c s
    by (subst (asm) bin.simps) (auto split: if_splits)
  show ?thesis
  proof (cases "bin t")
    case Nil
    with unbin_bin [of t] False show ?thesis by (simp add: dec_time_def enc_time_def)
  next
    case (Cons c s)
    from hd [OF Cons] have "dec_time (bin t) = unbin (bin t)" by (simp add: dec_time_def Cons)
    with False show ?thesis by (simp add: enc_time_def)
  qed
qed (simp add: dec_time_def enc_time_def)

definition plain_date :: "gotime \<Rightarrow> gotime" where
  "plain_date t = t - t mod Second"

definition plain_token :: "string \<Rightarrow> Claims \<Rightarrow> string" where
  "plain_token k c = enc k @ enc (ck_UserID c) @ enc (ck_Username c) @ enc (ck_Role c) @ enc (ck_Type c) @
     enc (ck_Subject c) @ enc (ck_ID c) @ enc (enc_time (ck_IssuedAt c)) @ enc (enc_time (ck_ExpiresAt c))"

fun dec_fields :: "nat \<Rightarrow> string \<Rightarrow> string list option" where
  "dec_fields 0 s = (if s = [] then Some [] else None)"
| "dec_fields (Suc n) s =
     (case dec s of None \<Rightarrow> None
      | Some (t, r) \<Rightarrow> (case dec_fields n r of None \<Rightarrow> None | Some ts \<Rightarrow> Some (t # ts)))"

definition plain_claims :: "string \<Rightarrow> string \<Rightarrow> Claims option" where
  "plain_claims k tok =
     (case dec_fields 9 tok of
        Some [k', uid, name, role, ty, sub, jti, iat, ex] \<Rightarrow>
          if k' = k then Some \<lparr>ck_UserID = uid, ck_Username = name, ck_Role = role, ck_Type = ty, ck_Subject = sub,
            ck_ID = jti, ck_IssuedAt = dec_time iat, ck_ExpiresAt = dec_time ex\<rparr> else None
      | _ \<Rightarrow> None)"

lemma plain_claims_token [simp]: "plain_claims k (plain_token k c) = Some c"
proof -
  have "dec (enc s) = Some (s, [])" for s using dec_enc [of s "[]"] by simp
  then show ?thesis by (simp add: plain_claims_def plain_token_def eval_nat_numeral)
qed

definition plain_parse :: "string \<Rightarrow> gotime \<Rightarrow> duration \<Rightarrow> string \<Rightarrow> Claims option" where
  "plain_parse k now leeway tok =
     (case plain_claims k tok of None \<Rightarrow> None | Some c \<Rightarrow> if now < ck_ExpiresAt c + leeway then Some c else None)"

section \<open>They keep the laws\<close>

lemma enc_ends: "enc s \<noteq> []" "last (enc s) = CHR ''.''" "hd (enc s) = CHR ''x'' \<or> hd (enc s) = CHR ''.''"
proof -
  show "enc s \<noteq> []" by (cases s) simp_all
  show "last (enc s) = CHR ''.''"
  proof (induction s)
    case (Cons c s)
    have "enc s \<noteq> []" by (cases s) simp_all
    with Cons show ?case by simp
  qed simp
  show "hd (enc s) = CHR ''x'' \<or> hd (enc s) = CHR ''.''" by (cases s) simp_all
qed

lemma plain_token_ends:
  "plain_token k c \<noteq> []" "last (plain_token k c) = CHR ''.''"
  "hd (plain_token k c) = CHR ''x'' \<or> hd (plain_token k c) = CHR ''.''"
  using enc_ends(3) [of k] by (simp_all add: plain_token_def enc_ends(1,2) last_append)

lemma strip_runes_keep:
  assumes "s \<noteq> []" and "\<not> p (hd s)" and "\<And>d. \<not> q (hd s) d" and "\<And>d e. \<not> r (hd s) d e"
  shows "strip_runes p q r s = s"
  using assms by (cases "(p, q, r, s)" rule: strip_runes.cases) auto

lemma TrimSpace_keep:
  assumes "s \<noteq> []" and "hd s = CHR ''x'' \<or> hd s = CHR ''.''" and "last s = CHR ''.''"
  shows "TrimSpace s = s"
proof -
  have l: "TrimLeftSpace s = s"
    unfolding TrimLeftSpace_def
    by (rule strip_runes_keep) (use assms in \<open>auto simp: space1_def space2_def space3_def\<close>)
  have "strip_runes space1 (\<lambda>c d. space2 d c) (\<lambda>c d e. space3 e d c) (rev s) = rev s"
    by (rule strip_runes_keep) (use assms in \<open>auto simp: space1_def space2_def space3_def hd_rev\<close>)
  then show ?thesis by (simp add: TrimSpace_def l TrimRightSpace_def)
qed

definition plain_pkg :: "MemWorld AuthPkg" where
  "plain_pkg = \<lparr>jw_date = plain_date, jw_sign = \<lambda>k c. Inr (plain_token k c), jw_parse = plain_parse,
     bc_generate = \<lambda>p. State_Monad.return (Inr p), bc_compare = \<lambda>h p. h = CHR ''$'' # p,
     uuid_new = State_Monad.return [], uni_lower = \<lambda>s. s, uni_isLower = \<lambda>_. False, uni_isDigit = \<lambda>_. False,
     mail_parse = \<lambda>s. Some s\<rparr>"

lemma plain_pkg_laws: "jwt_laws plain_pkg"
  unfolding jwt_laws_def
proof (intro conjI allI impI)
  fix t
  have "0 \<le> t mod Second" "t mod Second < Second" by (simp_all add: Second_def)
  then show "jw_date plain_pkg t \<le> t" "t < jw_date plain_pkg t + Second" by (simp_all add: plain_pkg_def plain_date_def)
  show "jw_date plain_pkg (jw_date plain_pkg t) = jw_date plain_pkg t"
    by (simp add: plain_pkg_def plain_date_def minus_mod_eq_div_mult)
next
  fix k c tok
  assume "jw_sign plain_pkg k c = Inr tok"
  then have tok: "tok = plain_token k c" by (simp add: plain_pkg_def)
  note e = plain_token_ends [of k c]
  show "tok \<noteq> []" using e(1) tok by simp
  show "TrimSpace tok = tok" unfolding tok by (rule TrimSpace_keep [OF e(1,3,2)])
  show "\<not> HasPrefix tok ''Bearer ''"
    using e(1,3) by (cases "plain_token k c") (auto simp: tok HasPrefix_def)
  show "jw_parse plain_pkg k now lw tok = (if now < ck_ExpiresAt c + lw then Some c else None)" for now lw
    by (simp add: plain_pkg_def plain_parse_def tok)
qed

section \<open>A world with one user\<close>

definition sample_uuid :: "nat \<Rightarrow> string" where
  "sample_uuid n = ''id'' @ replicate n (CHR ''1'')"

definition sample_bcrypt :: "nat \<Rightarrow> string \<Rightarrow> error + string" where
  "sample_bcrypt n p = Inr (CHR ''$'' # p)"

lemma sample_sources: "sources_ok sample_uuid sample_bcrypt (bc_compare plain_pkg)"
proof -
  have "inj sample_uuid" by (auto simp: inj_def sample_uuid_def replicate_eq_replicate)
  then show ?thesis
    by (auto simp: sources_ok_def sample_uuid_def sample_bcrypt_def plain_pkg_def is_ascii_def byte_def list_all_iff)
qed

definition sample_cfg :: Config where
  "sample_cfg = loaded_default\<lparr>cf_JWTSecret := ''k'', cf_JWTAccessTTL := Hour, cf_JWTRefreshTTL := 24 * Hour\<rparr>"

definition sample_user :: User where
  "sample_user = \<lparr>u_ID = ''ann-id'', u_Email = ''ann@x.org'', u_Username = ''ann'', u_PasswordHash = ''$secret77'',
     u_Nickname = ''Ann'', u_AvatarURL = [], u_Role = UserRoleUser, u_CreatedAt = 1, u_UpdatedAt = 1\<rparr>"

definition sample_accounts :: MemWorld where
  "sample_accounts = sample_world\<lparr>mw_users := [(''ann-id'', sample_user)], mw_rooms := [], mw_presence := NewRoomPresence\<rparr>"

definition sample_auth :: "MemWorld AuthService" where
  "sample_auth = mem_auth_service sample_uuid sample_bcrypt (\<lambda>_ _. False) plain_pkg sample_service sample_cfg"

lemma sample_accounts_live: "auth_live sample_uuid sample_bcrypt (bc_compare plain_pkg) sample_accounts"
  using sample_sources
  by (auto simp: auth_live_def sample_accounts_def sample_world_def users_inv_def sample_user_def user_ok_def
      is_ascii_def byte_def sessions_inv_def NewSessionCache_def Second_def sample_uuid_def)

section \<open>A session of that user\<close>

definition sample_login :: "(error + (User \<times> TokenPair)) \<times> MemWorld" where
  "sample_login = run_state (Login sample_auth ''ann'' ''secret77'') sample_accounts"

definition sample_pair :: TokenPair where
  "sample_pair = (case fst sample_login of Inr (u, tp) \<Rightarrow> tp
     | Inl _ \<Rightarrow> \<lparr>tp_AccessToken = [], tp_RefreshToken = [], tp_TokenType = [], tp_ExpiresAt = 0\<rparr>)"

definition sample_logout :: "error option \<times> MemWorld" where
  "sample_logout = run_state (Logout sample_auth (tp_AccessToken sample_pair) (tp_RefreshToken sample_pair)) (snd sample_login)"

text \<open>An hour and a second later; and a world in which codes have been mailed to two addresses.\<close>

definition later :: "MemWorld \<Rightarrow> MemWorld" where
  "later w = w\<lparr>mw_delays := [Hour + Second], mw_answers := []\<rparr>"

definition mailed :: "MemWorld \<Rightarrow> MemWorld" where
  "mailed w = w\<lparr>mw_codes :=
     snd (CommitSend (\<lambda>s. s) (Inr ''$123456'') ''bob@x.org'' PurposeRegister (10 * Minute) (60 * Second) (mw_now w)
       (snd (CommitSend (\<lambda>s. s) (Inr ''$123456'') ''ann@x.org'' PurposeResetPassword (10 * Minute) (60 * Second) (mw_now w) NewStore)))\<rparr>"

text \<open>How the calls of the session end.\<close>

definition sample_checks :: bool where
  "sample_checks = (case sample_login of
     (Inl _, w) \<Rightarrow> False
   | (Inr (u, tp), w) \<Rightarrow>
       u = sample_user \<and> sm_blacklist (mw_sessions w) = [] \<and> mw_users w = [(''ann-id'', sample_user)] \<and>
       \<not> isl (fst (run_state (Refresh sample_auth (tp_RefreshToken tp)) w)) \<and>
       (case run_state (Logout sample_auth (tp_AccessToken tp) (tp_RefreshToken tp)) w of
          (e, w1) \<Rightarrow> e = None \<and> mw_now w1 = mw_now w \<and>
            (case run_state (ParseToken sample_auth (tp_AccessToken tp) TokenTypeAccess) (later w1) of
               (x, w2) \<Rightarrow> \<not> isl x \<and> mw_now w2 = mw_now w + Hour + Second)) \<and> mw_now w = mw_now sample_accounts \<and>
       (case map_of (sm_refreshTokens (mw_sessions w)) ''ann-id'' of
          Some x \<Rightarrow> mw_now w < se_expiresAt x \<and> se_value x = tp_RefreshToken tp | None \<Rightarrow> False))"

definition sample_mail_checks :: bool where
  "sample_mail_checks = (case snd sample_login of w \<Rightarrow>
       fst (run_state (ResetPassword sample_auth ''ann@x.org'' ''123456'' ''newsecret8'') (mailed w)) = None \<and>
       \<not> isl (fst (run_state (RegisterWithCode sample_auth ''Bob@X.org'' '' Bob_1 '' ''secret88'' ''123456'' [] []) (mailed w))))"

lemma sample_checks: "sample_checks"
  by code_simp

lemma sample_mail_checks: "sample_mail_checks"
  by code_simp

lemma run_Inr: "\<not> isl (fst (run_state m w)) \<Longrightarrow> \<exists>y w'. run_state m w = (Inr y, w')"
  by (cases "run_state m w"; cases "fst (run_state m w)") auto

lemma sample_session:
  "fst sample_login = Inr (sample_user, sample_pair)"
  "sm_blacklist (mw_sessions (snd sample_login)) = []"
  "mw_users (snd sample_login) = [(''ann-id'', sample_user)]"
  "\<not> isl (fst (run_state (Refresh sample_auth (tp_RefreshToken sample_pair)) (snd sample_login)))"
  "fst sample_logout = None"
  "\<not> isl (fst (run_state (ParseToken sample_auth (tp_AccessToken sample_pair) TokenTypeAccess) (later (snd sample_logout))))"
  "\<exists>x. map_of (sm_refreshTokens (mw_sessions (snd sample_login))) ''ann-id'' = Some x \<and>
     mw_now (snd sample_login) < se_expiresAt x \<and> se_value x = tp_RefreshToken sample_pair"
  "fst (run_state (ResetPassword sample_auth ''ann@x.org'' ''123456'' ''newsecret8'') (mailed (snd sample_login))) = None"
  "\<not> isl (fst (run_state (RegisterWithCode sample_auth ''Bob@X.org'' '' Bob_1 '' ''secret88'' ''123456'' [] []) (mailed (snd sample_login))))"
  "mw_now (snd sample_login) = mw_now sample_accounts" "mw_now (snd sample_logout) = mw_now (snd sample_login)"
  "mw_now (snd (run_state (ParseToken sample_auth (tp_AccessToken sample_pair) TokenTypeAccess) (later (snd sample_logout)))) =
     mw_now (snd sample_login) + Hour + Second"
proof -
  note c = sample_checks [unfolded sample_checks_def]
  obtain r w where l: "sample_login = (r, w)" by (cases sample_login)
  have "\<not> isl r" using c by (cases r) (simp_all add: l)
  then obtain u tp where r: "r = Inr (u, tp)" by (cases r) auto
  have p: "sample_pair = tp" by (simp add: sample_pair_def l r)
  note c = c [unfolded l r, simplified]
  show "fst sample_login = Inr (sample_user, sample_pair)" using c by (simp add: l r p)
  show "sm_blacklist (mw_sessions (snd sample_login)) = []" "mw_users (snd sample_login) = [(''ann-id'', sample_user)]"
    "\<not> isl (fst (run_state (Refresh sample_auth (tp_RefreshToken sample_pair)) (snd sample_login)))"
    using c by (simp_all add: l p)
  show "fst (run_state (ResetPassword sample_auth ''ann@x.org'' ''123456'' ''newsecret8'') (mailed (snd sample_login))) = None"
    "\<not> isl (fst (run_state (RegisterWithCode sample_auth ''Bob@X.org'' '' Bob_1 '' ''secret88'' ''123456'' [] []) (mailed (snd sample_login))))"
    using sample_mail_checks by (simp_all add: sample_mail_checks_def)
  show "mw_now (snd sample_login) = mw_now sample_accounts" using c by (simp add: l p)
  show "fst sample_logout = None" "mw_now (snd sample_logout) = mw_now (snd sample_login)"
    "mw_now (snd (run_state (ParseToken sample_auth (tp_AccessToken sample_pair) TokenTypeAccess) (later (snd sample_logout)))) =
     mw_now (snd sample_login) + Hour + Second"
    "\<not> isl (fst (run_state (ParseToken sample_auth (tp_AccessToken sample_pair) TokenTypeAccess) (later (snd sample_logout))))"
    using c by (simp_all add: sample_logout_def l p case_prod_beta)
  show "\<exists>x. map_of (sm_refreshTokens (mw_sessions (snd sample_login))) ''ann-id'' = Some x \<and>
     mw_now (snd sample_login) < se_expiresAt x \<and> se_value x = tp_RefreshToken sample_pair"
    using c by (simp add: l p split: option.splits)
qed

end
