(* ===== verification/Auth_Runs.thy ===== *)
theory Auth_Runs
  imports Auth_Sample
begin

text \<open>
  Runs of the account service on the memory backends, and what they guarantee: single use of refresh tokens, revocation
  by logout and by a password reset, registration and login.
\<close>

section \<open>Runs\<close>

text \<open>
  Any operation of the service with any arguments, sending and rolling back verification codes, drawing identifiers,
  programs that do not touch the accounts (the room service among them), and the passing of time between calls.
\<close>

inductive auth_step :: "MemWorld AuthService \<Rightarrow> MemWorld \<Rightarrow> MemWorld \<Rightarrow> bool" for s where
  step_register: "auth_step s w (snd (run_state (RegisterWithCode s m name pw code nick avatar) w))"
| step_login: "auth_step s w (snd (run_state (Login s login pw) w))"
| step_reset: "auth_step s w (snd (run_state (ResetPassword s m code pw) w))"
| step_refresh: "auth_step s w (snd (run_state (Refresh s tok) w))"
| step_logout: "auth_step s w (snd (run_state (Logout s acc ref) w))"
| step_parse: "auth_step s w (snd (run_state (ParseToken s tok ty) w))"
| step_codes: "auth_step s w (w\<lparr>mw_codes := c\<rparr>)"
| step_draw: "auth_step s w (w\<lparr>mw_ids := Suc (mw_ids w)\<rparr>)"
| step_quiet: "quiet (m :: (MemWorld, unit) io) \<Longrightarrow> auth_step s w (snd (run_state m w))"
| step_env: "auth_step s w (w\<lparr>mw_delays := ds, mw_answers := as\<rparr>)"

abbreviation auth_runs :: "MemWorld AuthService \<Rightarrow> MemWorld \<Rightarrow> MemWorld \<Rightarrow> bool" where
  "auth_runs s \<equiv> (auth_step s)\<^sup>*\<^sup>*"

text \<open>What the setting has to provide: a JWT package that keeps its laws, and positive lifetimes.\<close>

definition setting_ok :: "MemWorld AuthPkg \<Rightarrow> Config \<Rightarrow> bool" where
  "setting_ok pkg cfg \<longleftrightarrow> jwt_laws pkg \<and> 0 < cf_JWTAccessTTL cfg \<and> 0 < cf_JWTRefreshTTL cfg"

lemma mem_ensures:
  assumes "ensures (auth_live uuid bgen cmp) (mem_accounts uuid) m (mem_accounts uuid w) Q" and "auth_live uuid bgen cmp w"
    and "run_state m w = (x, w')"
  shows "auth_live uuid bgen cmp w'" "Q x (mem_accounts uuid w')"
  using ensuresD [OF assms(1,2)] assms(3) by simp_all

lemma evolves_draw: "evolves s (mem_accounts uuid w) (mem_accounts uuid (w\<lparr>mw_ids := Suc (mw_ids w)\<rparr>))"
  unfolding mem_accounts_ids by (rule evolves_side) auto

lemma auth_step_evolves:
  assumes "setting_ok pkg cfg"
    and "s = mem_auth_service uuid bgen foldU pkg (mem_service uuid' lowU rt limits) cfg"
    and "auth_live uuid bgen (bc_compare pkg) w" and "auth_step s w w'"
  shows "auth_live uuid bgen (bc_compare pkg) w' \<and> evolves s (mem_accounts uuid w) (mem_accounts uuid w')"
proof -
  have on: "auth_on s mem_ss (mem_us uuid (uni_lower pkg) foldU) (mem_vf (uni_lower pkg) (bc_compare pkg)) mem_clock (mem_uuid uuid)
      (mem_bcrypt bgen) (bc_compare pkg) (Some (cleanup_hook (mem_service uuid' lowU rt limits)))"
    unfolding assms(2) by (rule mem_auth_on) (use assms(1) in \<open>simp_all add: setting_ok_def\<close>)
  note live = assms(3)
  from assms(4) show ?thesis
  proof cases
    case step_register
    with ensuresD [OF mem_auth.RegisterWithCode_spec [OF on] live] show ?thesis by simp
  next
    case step_login
    with ensuresD [OF mem_auth.Login_spec [OF on] live] show ?thesis by simp
  next
    case step_reset
    with ensuresD [OF mem_auth.ResetPassword_spec [OF on] live] show ?thesis by simp
  next
    case step_refresh
    with ensuresD [OF mem_auth.Refresh_spec [OF on] live] show ?thesis by simp
  next
    case (step_logout acc ref)
    with ensuresD [OF mem_auth.logout_tokens_spec [OF on] live, of "[acc, ref]"] show ?thesis by (simp add: Logout_def)
  next
    case step_parse
    with ensuresD [OF mem_auth.ParseToken_full [OF on] live] show ?thesis by (simp add: evolves_passes)
  next
    case (step_codes c)
    have "evolves s (mem_accounts uuid w) (mem_accounts uuid (w\<lparr>mw_codes := c\<rparr>))"
      unfolding mem_accounts_codes by (rule evolves_side) simp_all
    with step_codes live show ?thesis by (simp add: auth_live_def)
  next
    case step_draw
    with evolves_draw live show ?thesis by (simp add: auth_live_def)
  next
    case (step_quiet m)
    with ensuresD [OF quiet_ensures live] show ?thesis by fastforce
  next
    case (step_env ds as)
    have "mem_accounts uuid w' = mem_accounts uuid w"
      by (auto simp: step_env mem_accounts_def fun_eq_iff split: option.split)
    with step_env live show ?thesis by (simp add: auth_live_def)
  qed
qed

lemma auth_runs_evolve:
  assumes "setting_ok pkg cfg"
    and "s = mem_auth_service uuid bgen foldU pkg (mem_service uuid' lowU rt limits) cfg"
    and "auth_runs s w w'" and "auth_live uuid bgen (bc_compare pkg) w"
  shows "auth_live uuid bgen (bc_compare pkg) w' \<and> evolves s (mem_accounts uuid w) (mem_accounts uuid w')"
  using assms(3)
proof induction
  case base
  show ?case by (simp add: assms(4))
next
  case (step v u)
  from auth_step_evolves [OF assms(1,2) _ step.hyps(2)] step.IH show ?case using evolves_trans by blast
qed

lemma mem_setting:
  assumes "setting_ok pkg cfg" and "s = mem_auth_service uuid bgen foldU pkg (mem_service uuid' lowU rt limits) cfg"
  shows "auth_on s mem_ss (mem_us uuid (uni_lower pkg) foldU) (mem_vf (uni_lower pkg) (bc_compare pkg)) mem_clock (mem_uuid uuid)
      (mem_bcrypt bgen) (bc_compare pkg) (Some (cleanup_hook (mem_service uuid' lowU rt limits)))"
    and "jwt_laws (au_pkg s)"
proof -
  show on: "auth_on s mem_ss (mem_us uuid (uni_lower pkg) foldU) (mem_vf (uni_lower pkg) (bc_compare pkg)) mem_clock (mem_uuid uuid)
      (mem_bcrypt bgen) (bc_compare pkg) (Some (cleanup_hook (mem_service uuid' lowU rt limits)))"
    unfolding assms(2) by (rule mem_auth_on) (use assms(1) in \<open>simp_all add: setting_ok_def\<close>)
  then show "jwt_laws (au_pkg s)" by (simp add: auth_on_def)
qed

lemma mem_pkg_validation:
  assumes "s = mem_auth_service uuid bgen foldU pkg rooms cfg"
  shows "normalizeEmail (au_pkg s) m = normalizeEmail pkg m" "normalizeUsername (au_pkg s) n = normalizeUsername pkg n"
    "validatePassword (au_pkg s) pw = validatePassword pkg pw"
proof -
  have p: "mail_parse (au_pkg s) = mail_parse pkg" "uni_lower (au_pkg s) = uni_lower pkg"
    "IsLower (au_pkg s) = IsLower pkg" "IsDigit (au_pkg s) = IsDigit pkg"
    by (simp_all add: fun_eq_iff IsLower_def IsDigit_def assms mem_auth_service_def SetAfterLogin_def NewAuthService_def
        mem_auth_pkg_def split: list.split)
  show "normalizeEmail (au_pkg s) m = normalizeEmail pkg m" "normalizeUsername (au_pkg s) n = normalizeUsername pkg n"
    "validatePassword (au_pkg s) pw = validatePassword pkg pw"
    by (simp_all only: normalizeEmail_def normalizeUsername_def validatePassword_def p)
qed

text \<open>In a world that a fresh server has reached, every stored refresh token was issued by it.\<close>

lemma reached_refresh_ok:
  assumes "setting_ok pkg cfg" and "s = mem_auth_service uuid bgen foldU pkg (mem_service uuid' lowU rt limits) cfg"
    and "auth_live uuid bgen (bc_compare pkg) w0" and "mw_sessions w0 = NewSessionCache" and "auth_runs s w0 w"
  shows "auth_live uuid bgen (bc_compare pkg) w" "refresh_ok s (mem_accounts uuid w)"
proof -
  note e = auth_runs_evolve [OF assms(1,2,5,3)]
  then show "auth_live uuid bgen (bc_compare pkg) w" by simp
  have "refresh_ok s (mem_accounts uuid w0)"
    by (simp add: refresh_ok_def mem_accounts_def assms(4) NewSessionCache_def)
  then show "refresh_ok s (mem_accounts uuid w)" by (rule evolvesD(3) [OF conjunct2 [OF e]])
qed

text \<open>A spent token is refused, now and ever after.\<close>

lemma spent_refused:
  assumes "setting_ok pkg cfg" and "s = mem_auth_service uuid bgen foldU pkg (mem_service uuid' lowU rt limits) cfg"
    and "auth_live uuid bgen (bc_compare pkg) w" and "spent s tok (mem_accounts uuid w)" and "auth_runs s w w'"
  shows "fst (run_state (Refresh s tok) w') = Inl ErrInvalidToken"
proof -
  from auth_runs_evolve [OF assms(1,2,5,3)]
  have w': "auth_live uuid bgen (bc_compare pkg) w'" "spent s tok (mem_accounts uuid w')"
    using assms(4) by (auto dest: evolvesD(4))
  from ensuresD [OF mem_auth.Refresh_spec [OF mem_setting(1) [OF assms(1,2)]] w'(1), of tok] w'(2)
  show ?thesis by (simp add: spent_def)
qed

section \<open>Refresh tokens\<close>

text \<open>
  C19: A refresh token works once.  When \<open>Refresh\<close> succeeds in a world that a freshly started service has reached, the
  token it hands out is a new one, and the old one is refused in every later world, whatever calls were made between.
\<close>

theorem refresh_once:
  assumes "setting_ok pkg cfg" and "s = mem_auth_service uuid bgen foldU pkg (mem_service uuid' lowU rt limits) cfg"
    and "auth_live uuid bgen (bc_compare pkg) w0" and "mw_sessions w0 = NewSessionCache" and "auth_runs s w0 w"
    and "run_state (Refresh s tok) w = (Inr tp, w1)" and "auth_runs s w1 w2"
  shows "tp_RefreshToken tp \<noteq> tok \<and> fst (run_state (Refresh s tok) w2) = Inl ErrInvalidToken"
proof -
  note on = mem_setting [OF assms(1,2)]
  note w = reached_refresh_ok [OF assms(1-5)]
  note r = mem_ensures [OF mem_auth.Refresh_spec [OF on(1)] w(1) assms(6)]
  from r(2) obtain u e where u: "aa_refresh (mem_accounts uuid w) (u_ID u) = Some (tok, e)"
    "issued s u tp (mem_accounts uuid w) (mem_accounts uuid w1)" "evolves s (mem_accounts uuid w) (mem_accounts uuid w1)"
    by blast
  have sp: "spent s tok (mem_accounts uuid w1)" by (rule issued_replaces [OF on(2) w(2) u(3,2,1)])
  have "tp_RefreshToken tp \<noteq> tok" by (rule issued_new_token [OF on(2) w(2) u(2,1)])
  with spent_refused [OF assms(1,2) r(1) sp assms(7)] show ?thesis by simp
qed

lemma sample_auth_setting:
  "setting_ok plain_pkg sample_cfg"
  "sample_auth = mem_auth_service sample_uuid sample_bcrypt (\<lambda>_ _. False) plain_pkg
     (mem_service (\<lambda>_. ''id'') (\<lambda>s. s) sample_runtime (ChatLimitsFromConfig loaded_default)) sample_cfg"
  using plain_pkg_laws
  by (simp_all add: setting_ok_def sample_cfg_def Hour_def Minute_def Second_def sample_auth_def sample_service_def)

lemma sample_login_run: "auth_runs sample_auth sample_accounts (snd sample_login)"
  unfolding sample_login_def by (rule r_into_rtranclp, rule step_login)

lemma sample_sessions: "mw_sessions sample_accounts = NewSessionCache"
  by (simp add: sample_accounts_def sample_world_def)

theorem refresh_once_witness:
  "\<exists>tp w1. run_state (Refresh sample_auth (tp_RefreshToken sample_pair)) (snd sample_login) = (Inr tp, w1) \<and>
     fst (run_state (Refresh sample_auth (tp_RefreshToken sample_pair)) w1) = Inl ErrInvalidToken"
proof -
  obtain tp w1 where run: "run_state (Refresh sample_auth (tp_RefreshToken sample_pair)) (snd sample_login) = (Inr tp, w1)"
    using run_Inr [OF sample_session(4)] by blast
  from refresh_once [OF sample_auth_setting sample_accounts_live sample_sessions sample_login_run run rtranclp.rtrancl_refl]
  show ?thesis using run by simp
qed

section \<open>Logout\<close>

text \<open>
  C20: Logging out revokes.  After \<open>Logout\<close> of an access and a refresh token of the service (with different identifiers,
  not blacklisted yet), a token check in any later world accepts neither of them before the token's own expiry.
\<close>

theorem logout_revokes:
  assumes "setting_ok pkg cfg" and "s = mem_auth_service uuid bgen foldU pkg (mem_service uuid' lowU rt limits) cfg"
    and "auth_live uuid bgen (bc_compare pkg) w"
    and "signed s acc c1" and "ck_UserID c1 \<noteq> []" and "ck_ID c1 \<noteq> []" and "aa_black (mem_accounts uuid w) (ck_ID c1) = None"
    and "ck_ExpiresAt c1 \<le> mw_now w + maxInt64"
    and "signed s ref c2" and "ck_UserID c2 \<noteq> []" and "ck_ID c2 \<noteq> []" and "aa_black (mem_accounts uuid w) (ck_ID c2) = None"
    and "ck_ExpiresAt c2 \<le> mw_now w + maxInt64" and "ck_ID c1 \<noteq> ck_ID c2"
    and "run_state (Logout s acc ref) w = (e, w1)" and "auth_runs s w1 w2"
    and "tok \<in> {acc, ref}" and "run_state (ParseToken s tok ty) w2 = (Inr c, w3)"
  shows "e = None \<and> ck_ExpiresAt c \<le> mw_now w3"
proof -
  note on = mem_setting [OF assms(1,2)]
  have "ensures (auth_live uuid bgen (bc_compare pkg)) (mem_accounts uuid) (Logout s acc ref) (mem_accounts uuid w)
      (\<lambda>x a'. x = None \<and> evolves s (mem_accounts uuid w) a' \<and> revoked (ck_ID c1) (ck_ExpiresAt c1) a' \<and> revoked (ck_ID c2) (ck_ExpiresAt c2) a')"
    by (rule ensures_mono [OF mem_auth.Logout_spec [OF on(1) assms(4-7) _ assms(9-12) _ assms(14)]]) (use assms(8,13) in auto)
  note out = mem_ensures [OF this assms(3,15)]
  from auth_runs_evolve [OF assms(1,2,16) out(1)]
  have w2: "auth_live uuid bgen (bc_compare pkg) w2" "evolves s (mem_accounts uuid w1) (mem_accounts uuid w2)" by simp_all
  obtain d where d: "signed s tok d" "ck_UserID d \<noteq> []" "ck_ID d \<noteq> []" "revoked (ck_ID d) (ck_ExpiresAt d) (mem_accounts uuid w1)"
    using assms(4-6,9-11,17) out(2) by auto
  note p = mem_ensures(2) [OF mem_auth.ParseToken_full [OF on(1)] w2(1) assms(18)]
  obtain now where x: "Inr c = verdict ty now (mem_accounts uuid w3) d"
    using judgedE [OF _ d(1-3)] p by metis
  from verdict_Inr [OF x [symmetric]] have c: "c = d" "aa_black (mem_accounts uuid w3) (ck_ID d) = None" by simp_all
  have "evolves s (mem_accounts uuid w2) (mem_accounts uuid w3)" using p by (simp add: evolves_passes)
  from evolvesD(5) [OF evolves_trans [OF w2(2) this] d(4)] c show ?thesis using out(2) by (simp add: revoked_def)
qed

lemma sample_black: "aa_black (mem_accounts sample_uuid (snd sample_login)) j = None"
  by (simp add: mem_accounts_tokens sample_session(2))

lemma sample_login_live: "auth_live sample_uuid sample_bcrypt (bc_compare plain_pkg) (snd sample_login)"
  using auth_runs_evolve [OF sample_auth_setting sample_login_run sample_accounts_live] by simp

text \<open>The two tokens of a login have different identifiers, so the theorem applies to them.\<close>

lemma sample_pair_claims:
  obtains c1 c2 where "signed sample_auth (tp_AccessToken sample_pair) c1" "signed sample_auth (tp_RefreshToken sample_pair) c2"
    "ck_UserID c1 \<noteq> []" "ck_UserID c2 \<noteq> []" "ck_ID c1 \<noteq> []" "ck_ID c2 \<noteq> []" "ck_ID c1 \<noteq> ck_ID c2"
    "ck_ExpiresAt c1 \<le> mw_now (snd sample_login) + maxInt64" "ck_ExpiresAt c2 \<le> mw_now (snd sample_login) + maxInt64"
    "ck_Type c1 = TokenTypeAccess" "ck_ExpiresAt c1 \<le> mw_now (snd sample_login) + Hour"
    "mw_now (snd sample_login) + Hour < ck_ExpiresAt c1 + Second"
proof -
  note on = mem_setting [OF sample_auth_setting]
  have run: "run_state (Login sample_auth ''ann'' ''secret77'') sample_accounts = (Inr (sample_user, sample_pair), snd sample_login)"
    using sample_session(1) by (simp add: sample_login_def prod_eq_iff)
  from mem_ensures(2) [OF mem_auth.Login_spec [OF on(1)] sample_accounts_live run]
  have "issued sample_auth sample_user sample_pair (mem_accounts sample_uuid sample_accounts) (mem_accounts sample_uuid (snd sample_login))"
    by simp
  then obtain t1 t2 j1 j2 where i: "t1 \<le> mw_now (snd sample_login)" "t2 \<le> mw_now (snd sample_login)" "j1 \<noteq> j2" "[] \<notin> {j1, j2}"
    "signed sample_auth (tp_AccessToken sample_pair) (claims_for sample_auth sample_user TokenTypeAccess (cf_JWTAccessTTL (au_cfg sample_auth)) t1 j1)"
    "signed sample_auth (tp_RefreshToken sample_pair) (claims_for sample_auth sample_user TokenTypeRefresh (cf_JWTRefreshTTL (au_cfg sample_auth)) t2 j2)"
    "mw_now sample_accounts \<le> t1"
    unfolding issued_def by (elim exE conjE) (rule that, simp_all)
  have cfg: "cf_JWTAccessTTL (au_cfg sample_auth) = Hour" "cf_JWTRefreshTTL (au_cfg sample_auth) = 24 * Hour"
    by (simp_all add: sample_auth_def mem_auth_service_def SetAfterLogin_def NewAuthService_def sample_cfg_def)
  note date = jwt_date(1) [OF on(2)]
  have "jw_date (au_pkg sample_auth) (t1 + Hour) \<le> mw_now (snd sample_login) + maxInt64"
    "jw_date (au_pkg sample_auth) (t2 + 24 * Hour) \<le> mw_now (snd sample_login) + maxInt64"
    using date [of "t1 + Hour"] date [of "t2 + 24 * Hour"] i(1,2) by (simp_all add: Hour_def Minute_def Second_def maxInt64_def)
  moreover have "t1 = mw_now (snd sample_login)" using i(1,7) sample_session(10) by simp
  ultimately show thesis
    using i cfg jwt_date(1,2) [OF on(2), of "t1 + Hour"] by (intro that [OF i(5,6)]) (auto simp: sample_user_def)
qed

theorem logout_revokes_witness:
  "\<exists>c w3. run_state (ParseToken sample_auth (tp_AccessToken sample_pair) TokenTypeAccess) (later (snd sample_logout)) = (Inr c, w3) \<and>
     ck_ExpiresAt c \<le> mw_now w3"
proof -
  obtain c w3 where run: "run_state (ParseToken sample_auth (tp_AccessToken sample_pair) TokenTypeAccess) (later (snd sample_logout)) = (Inr c, w3)"
    using run_Inr [OF sample_session(6)] by blast
  have out: "run_state (Logout sample_auth (tp_AccessToken sample_pair) (tp_RefreshToken sample_pair)) (snd sample_login) =
      (fst sample_logout, snd sample_logout)" by (simp add: sample_logout_def)
  have later: "auth_runs sample_auth (snd sample_logout) (later (snd sample_logout))"
    unfolding later_def by (rule r_into_rtranclp, rule step_env)
  obtain c1 c2 where c: "signed sample_auth (tp_AccessToken sample_pair) c1" "signed sample_auth (tp_RefreshToken sample_pair) c2"
    "ck_UserID c1 \<noteq> []" "ck_UserID c2 \<noteq> []" "ck_ID c1 \<noteq> []" "ck_ID c2 \<noteq> []" "ck_ID c1 \<noteq> ck_ID c2"
    "ck_ExpiresAt c1 \<le> mw_now (snd sample_login) + maxInt64" "ck_ExpiresAt c2 \<le> mw_now (snd sample_login) + maxInt64"
    using sample_pair_claims by metis
  have "fst sample_logout = None \<and> ck_ExpiresAt c \<le> mw_now w3"
    by (rule logout_revokes [OF sample_auth_setting sample_login_live c(1,3,5) sample_black c(8,2,4,6) sample_black c(9,7)
          out later _ run]) simp
  with run show ?thesis by blast
qed

text \<open>
  C35: The grace period of the token check reopens every logged-out session for a moment: the blacklist entry ends with the
  token, but the check accepts a token up to five seconds after its expiry.  An access token of the service that is logged out
  before its expiry, with an unrelated refresh token, is accepted again when nothing but time passes and the check comes
  in these five seconds, later than the expiry by at least the time that the logout took.
\<close>

theorem leeway_reopens:
  assumes "setting_ok pkg cfg" and "s = mem_auth_service uuid bgen foldU pkg (mem_service uuid' lowU rt limits) cfg"
    and "auth_live uuid bgen (bc_compare pkg) w"
    and "signed s acc c1" and "ck_UserID c1 \<noteq> []" and "ck_ID c1 \<noteq> []" and "aa_black (mem_accounts uuid w) (ck_ID c1) = None"
    and "ck_ExpiresAt c1 \<le> mw_now w + maxInt64" and "ck_Type c1 = TokenTypeAccess"
    and "signed s ref c2" and "ck_UserID c2 \<noteq> []" and "ck_ID c2 \<noteq> []" and "aa_black (mem_accounts uuid w) (ck_ID c2) = None"
    and "ck_ExpiresAt c2 \<le> mw_now w + maxInt64" and "ck_ID c1 \<noteq> ck_ID c2"
    and "run_state (Logout s acc ref) w = (e, w1)" and "mw_now w1 < ck_ExpiresAt c1"
    and "run_state (ParseToken s acc TokenTypeAccess) (w1\<lparr>mw_delays := ds, mw_answers := as\<rparr>) = (x, w2)"
    and "ck_ExpiresAt c1 + (mw_now w1 - mw_now w) \<le> mw_now w2" and "mw_now w2 < ck_ExpiresAt c1 + 5 * Second"
  shows "e = None \<and> x = Inr c1"
proof -
  note on = mem_setting [OF assms(1,2)]
  have "ensures (auth_live uuid bgen (bc_compare pkg)) (mem_accounts uuid) (Logout s acc ref) (mem_accounts uuid w)
      (\<lambda>x a'. x = None \<and> (\<forall>e. aa_now a' < ck_ExpiresAt c1 \<longrightarrow> aa_black a' (ck_ID c1) = Some e \<longrightarrow>
         e \<le> ck_ExpiresAt c1 + (aa_now a' - mw_now w)))"
    by (rule ensures_mono [OF mem_auth.Logout_spec [OF on(1) assms(4-7) _ assms(10-13) _ assms(15)]]) (use assms(8,14) in auto)
  note out = mem_ensures [OF this assms(3,16)]
  let ?w = "w1\<lparr>mw_delays := ds, mw_answers := as\<rparr>"
  have acc: "mem_accounts uuid ?w = mem_accounts uuid w1"
    by (auto simp: mem_accounts_def fun_eq_iff split: option.split)
  have live: "auth_live uuid bgen (bc_compare pkg) ?w" using out(1) by (simp add: auth_live_def)
  from mem_ensures(2) [OF mem_auth.ParseToken_signed [OF on(1) assms(4-6)] live assms(18)] obtain now t
    where t: "now \<le> t" "mem_accounts uuid w2 = tick t (mem_accounts uuid w1)"
      and x: "x = verdict TokenTypeAccess now (mem_accounts uuid w2) c1" by (auto simp: acc)
  from arg_cong [OF t(2), of aa_now] have now: "mw_now w2 = t" by simp
  have "aa_black (mem_accounts uuid w2) (ck_ID c1) \<noteq> Some b" for b
    using out(2) assms(17,19) by (auto simp: t(2) tick_black now)
  then have "aa_black (mem_accounts uuid w2) (ck_ID c1) = None" by (cases "aa_black (mem_accounts uuid w2) (ck_ID c1)") auto
  with t(1) now assms(9,20) out(2) show ?thesis by (simp add: x verdict_def)
qed

theorem leeway_reopens_witness:
  "fst sample_logout = None \<and>
   (\<exists>c. fst (run_state (ParseToken sample_auth (tp_AccessToken sample_pair) TokenTypeAccess) (later (snd sample_logout))) = Inr c)"
proof -
  obtain c1 c2 where c: "signed sample_auth (tp_AccessToken sample_pair) c1" "signed sample_auth (tp_RefreshToken sample_pair) c2"
    "ck_UserID c1 \<noteq> []" "ck_UserID c2 \<noteq> []" "ck_ID c1 \<noteq> []" "ck_ID c2 \<noteq> []" "ck_ID c1 \<noteq> ck_ID c2"
    "ck_ExpiresAt c1 \<le> mw_now (snd sample_login) + maxInt64" "ck_ExpiresAt c2 \<le> mw_now (snd sample_login) + maxInt64"
    "ck_Type c1 = TokenTypeAccess" "ck_ExpiresAt c1 \<le> mw_now (snd sample_login) + Hour"
    "mw_now (snd sample_login) + Hour < ck_ExpiresAt c1 + Second"
    by (rule sample_pair_claims)
  have out: "run_state (Logout sample_auth (tp_AccessToken sample_pair) (tp_RefreshToken sample_pair)) (snd sample_login) =
      (fst sample_logout, snd sample_logout)" by (simp add: sample_logout_def)
  have early: "mw_now (snd sample_logout) < ck_ExpiresAt c1"
    using c(12) by (simp add: sample_session(11) Hour_def Minute_def Second_def)
  obtain x w2 where run: "run_state (ParseToken sample_auth (tp_AccessToken sample_pair) TokenTypeAccess) (later (snd sample_logout)) = (x, w2)"
    by (cases "run_state (ParseToken sample_auth (tp_AccessToken sample_pair) TokenTypeAccess) (later (snd sample_logout))")
  have now: "mw_now w2 = mw_now (snd sample_login) + Hour + Second" using sample_session(12) unfolding run by simp
  have "fst sample_logout = None \<and> x = Inr c1"
    by (rule leeway_reopens [OF sample_auth_setting sample_login_live c(1,3,5) sample_black c(8,10,2,4,6) sample_black c(9,7)
          out early run [unfolded later_def]]) (use c(11,12) in \<open>simp_all add: now sample_session(11) Second_def\<close>)
  then show ?thesis unfolding run by simp
qed

section \<open>Login\<close>

text \<open>
  C21: A login succeeds only for a stored user whom the login name stands for and whose stored hash matches the password;
  it changes no account and no verification code, and hands out an access and a refresh token for that user, of which
  neither is accepted in the place of the other in any later world.  A login that fails on the credentials
  changes nothing at all.
\<close>

theorem login_correct:
  assumes "setting_ok pkg cfg" and "s = mem_auth_service uuid bgen foldU pkg (mem_service uuid' lowU rt limits) cfg"
    and "auth_live uuid bgen (bc_compare pkg) w" and "run_state (Login s login pw) w = (x, w1)"
  shows "map_of (mw_users w1) = map_of (mw_users w) \<and>
    (case x of
       Inl e \<Rightarrow> mem_accounts uuid w1 = mem_accounts uuid w \<and> e = ErrInvalidCredentials \<or>
         (\<exists>u\<in>ran (map_of (mw_users w)). login_matches (mem_same_mail (uni_lower pkg)) (mem_same_name (uni_lower pkg)) s login u \<and>
            bc_compare pkg (u_PasswordHash u) pw)
     | Inr (u, tp) \<Rightarrow> map_of (mw_users w) (u_ID u) = Some u \<and>
         login_matches (mem_same_mail (uni_lower pkg)) (mem_same_name (uni_lower pkg)) s login u \<and>
         bc_compare pkg (u_PasswordHash u) pw \<and>
         (\<forall>w2. auth_runs s w1 w2 \<longrightarrow>
            fst (run_state (ParseToken s (tp_RefreshToken tp) TokenTypeAccess) w2) = Inl ErrInvalidToken \<and>
            fst (run_state (ParseToken s (tp_AccessToken tp) TokenTypeRefresh) w2) = Inl ErrInvalidToken))"
proof -
  note on = mem_setting [OF assms(1,2)]
  note l = mem_ensures [OF mem_auth.Login_spec [OF on(1)] assms(3,4)]
  have types: "fst (run_state (ParseToken s tok ty) w2) = Inl ErrInvalidToken"
    if "auth_runs s w1 w2" and c: "signed s tok c" "ck_UserID c \<noteq> []" "ck_ID c \<noteq> []" and ty: "ty \<noteq> []" "ck_Type c \<noteq> ty"
    for w2 tok ty c
  proof -
    from auth_runs_evolve [OF assms(1,2) that(1) l(1)] have w2: "auth_live uuid bgen (bc_compare pkg) w2" by simp
    from ensuresD [OF mem_auth.ParseToken_signed [OF on(1) c] w2, of ty] ty show ?thesis by (auto simp: verdict_def)
  qed
  show ?thesis
  proof (cases x)
    case (Inl e)
    with l(2) show ?thesis by auto
  next
    case (Inr p)
    obtain u tp where p: "p = (u, tp)" by (cases p)
    from l(2) Inr p have u: "u \<in> ran (map_of (mw_users w))" "map_of (mw_users w1) = map_of (mw_users w)"
      "login_matches (mem_same_mail (uni_lower pkg)) (mem_same_name (uni_lower pkg)) s login u" "bc_compare pkg (u_PasswordHash u) pw"
      and i: "issued s u tp (mem_accounts uuid w) (mem_accounts uuid w1)" by simp_all
    have ok: "user_ok u" "map_of (mw_users w) (u_ID u) = Some u"
      using mem_auth.found_user_ok [OF assms(3) refl] u(1) by simp_all
    from i obtain t1 t2 j1 j2 where c: "[] \<notin> {j1, j2}"
      "signed s (tp_AccessToken tp) (claims_for s u TokenTypeAccess (cf_JWTAccessTTL (au_cfg s)) t1 j1)"
      "signed s (tp_RefreshToken tp) (claims_for s u TokenTypeRefresh (cf_JWTRefreshTTL (au_cfg s)) t2 j2)"
      unfolding issued_def by (elim exE conjE) (rule that)
    have ne: "u_ID u \<noteq> []" using ok(1) by (simp add: user_ok_def)
    have "fst (run_state (ParseToken s (tp_RefreshToken tp) TokenTypeAccess) w2) = Inl ErrInvalidToken"
      "fst (run_state (ParseToken s (tp_AccessToken tp) TokenTypeRefresh) w2) = Inl ErrInvalidToken" if "auth_runs s w1 w2" for w2
      using types [OF that c(3), of TokenTypeAccess] types [OF that c(2), of TokenTypeRefresh] ne c(1) by auto
    with Inr p u ok show ?thesis by simp
  qed
qed

theorem login_correct_witness:
  "fst sample_login = Inr (sample_user, sample_pair) \<and>
   fst (run_state (ParseToken sample_auth (tp_RefreshToken sample_pair) TokenTypeAccess) (snd sample_login)) = Inl ErrInvalidToken"
proof -
  have run: "run_state (Login sample_auth ''ann'' ''secret77'') sample_accounts = (Inr (sample_user, sample_pair), snd sample_login)"
    using sample_session(1) by (simp add: sample_login_def prod_eq_iff)
  from login_correct [OF sample_auth_setting sample_accounts_live run] sample_session(1) show ?thesis by simp
qed

section \<open>Password reset and registration\<close>

text \<open>
  C22: A successful password reset used up the reset code of the address, gave the owner of the address a hash that matches
  the new password, changed no other account, and ended the session: the refresh token stored before is refused in every
  later world.
\<close>

theorem reset_ends_session:
  assumes "setting_ok pkg cfg" and "s = mem_auth_service uuid bgen foldU pkg (mem_service uuid' lowU rt limits) cfg"
    and "auth_live uuid bgen (bc_compare pkg) w0" and "mw_sessions w0 = NewSessionCache" and "auth_runs s w0 w"
    and "run_state (ResetPassword s m code pw) w = (None, w1)"
  shows "\<exists>norm u h t. normalizeEmail pkg m = Inr norm \<and> mem_same_mail (uni_lower pkg) (u_Email u) norm \<and>
    map_of (mw_users w) (u_ID u) = Some u \<and> bc_compare pkg h pw \<and>
    map_of (mw_users w1) = (map_of (mw_users w))(u_ID u \<mapsto> u\<lparr>u_PasswordHash := h, u_UpdatedAt := t\<rparr>) \<and>
    mem_code_key (uni_lower pkg) norm PurposeResetPassword \<in> aa_codes (mem_accounts uuid w) - aa_codes (mem_accounts uuid w1) \<and>
    (\<forall>tok e w2. aa_refresh (mem_accounts uuid w) (u_ID u) = Some (tok, e) \<longrightarrow> auth_runs s w1 w2 \<longrightarrow>
       fst (run_state (Refresh s tok) w2) = Inl ErrInvalidToken)"
proof -
  note on = mem_setting [OF assms(1,2)]
  note w = reached_refresh_ok [OF assms(1-5)]
  note r = mem_ensures [OF mem_auth.ResetPassword_spec [OF on(1)] w(1) assms(6)]
  note pkg = mem_pkg_validation(1) [OF assms(2)]
  from r(2) obtain norm u h t where n: "normalizeEmail pkg m = Inr norm" and c:
    "mem_code_key (uni_lower pkg) norm PurposeResetPassword \<in> aa_codes (mem_accounts uuid w)"
    "mem_code_key (uni_lower pkg) norm PurposeResetPassword \<notin> aa_codes (mem_accounts uuid w1)"
    and u: "u \<in> ran (map_of (mw_users w))" "mem_same_mail (uni_lower pkg) (u_Email u) norm" "bc_compare pkg h pw"
      "map_of (mw_users w1) = (map_of (mw_users w))(u_ID u \<mapsto> u\<lparr>u_PasswordHash := h, u_UpdatedAt := t\<rparr>)"
      "aa_refresh (mem_accounts uuid w1) (u_ID u) = None"
    unfolding pkg by auto
  have ok: "map_of (mw_users w) (u_ID u) = Some u" using mem_auth.found_user_ok(2) [OF w(1) refl] u(1) by simp
  have "fst (run_state (Refresh s tok) w2) = Inl ErrInvalidToken"
    if old: "aa_refresh (mem_accounts uuid w) (u_ID u) = Some (tok, e)" and run: "auth_runs s w1 w2" for tok e w2
    by (rule spent_refused [OF assms(1,2) r(1) dropped_spent [OF on(2) w(2) _ old u(5)] run]) (use r(2) in simp)
  with n c u ok show ?thesis
    by (intro exI [of _ norm] exI [of _ u] exI [of _ h] exI [of _ t]) auto
qed

lemma sample_mailed_run: "auth_runs sample_auth sample_accounts (mailed (snd sample_login))"
  using sample_login_run unfolding mailed_def
  by (rule rtranclp.rtrancl_into_rtrancl) (rule step_codes)

definition sample_reset :: "error option \<times> MemWorld" where
  "sample_reset = run_state (ResetPassword sample_auth ''ann@x.org'' ''123456'' ''newsecret8'') (mailed (snd sample_login))"

lemma sample_stored_refresh: "\<exists>e. aa_refresh (mem_accounts sample_uuid (mailed (snd sample_login))) ''ann-id'' = Some (tp_RefreshToken sample_pair, e)"
  using sample_session(7) by (auto simp: mem_accounts_tokens mailed_def)

theorem reset_ends_session_witness:
  "fst sample_reset = None \<and>
   fst (run_state (Refresh sample_auth (tp_RefreshToken sample_pair)) (snd sample_reset)) = Inl ErrInvalidToken"
proof -
  have none: "fst sample_reset = None" using sample_session(8) by (simp add: sample_reset_def)
  have run: "run_state (ResetPassword sample_auth ''ann@x.org'' ''123456'' ''newsecret8'') (mailed (snd sample_login)) = (None, snd sample_reset)"
    using none by (simp add: sample_reset_def prod_eq_iff)
  have users: "map_of (mw_users (mailed (snd sample_login))) = [''ann-id'' \<mapsto> sample_user]"
    by (simp add: mailed_def sample_session(3))
  from reset_ends_session [OF sample_auth_setting sample_accounts_live sample_sessions sample_mailed_run run]
  obtain u where u: "map_of (mw_users (mailed (snd sample_login))) (u_ID u) = Some u"
    "\<And>tok e w2. aa_refresh (mem_accounts sample_uuid (mailed (snd sample_login))) (u_ID u) = Some (tok, e) \<Longrightarrow> auth_runs sample_auth (snd sample_reset) w2 \<Longrightarrow>
       fst (run_state (Refresh sample_auth tok) w2) = Inl ErrInvalidToken" by blast
  have "u_ID u = ''ann-id''" using u(1) users by (simp split: if_splits)
  with u(2) sample_stored_refresh none show ?thesis by (auto intro: rtranclp.rtrancl_refl)
qed

text \<open>
  C23: A successful registration used up the registration code of the address; nobody had the address or the user name
  before; exactly one account was added, under a fresh identifier, with the normalised address and a user name of three to
  forty characters out of lower-case letters, digits and the underscore, the role of an ordinary user, and a hash that
  matches the password.
\<close>

theorem register_correct:
  assumes "setting_ok pkg cfg" and "s = mem_auth_service uuid bgen foldU pkg (mem_service uuid' lowU rt limits) cfg"
    and "auth_live uuid bgen (bc_compare pkg) w"
    and "run_state (RegisterWithCode s m name pw code nick avatar) w = (Inr (u, tp), w1)"
  shows "\<exists>norm. normalizeEmail pkg m = Inr norm \<and> validatePassword pkg pw = None \<and>
    mem_code_key (uni_lower pkg) norm PurposeRegister \<in> aa_codes (mem_accounts uuid w) - aa_codes (mem_accounts uuid w1) \<and>
    (\<forall>v\<in>ran (map_of (mw_users w)). \<not> mem_same_mail (uni_lower pkg) (u_Email v) norm \<and>
       \<not> mem_same_name (uni_lower pkg) (u_Username v) (u_Username u)) \<and>
    map_of (mw_users w) (u_ID u) = None \<and> map_of (mw_users w1) = (map_of (mw_users w))(u_ID u \<mapsto> u) \<and>
    u_Email u = norm \<and> u_Username u = normalizeUsername pkg name \<and>
    3 \<le> length (u_Username u) \<and> length (u_Username u) \<le> 40 \<and> list_all username_char (u_Username u) \<and>
    u_Role u = UserRoleUser \<and> bc_compare pkg (u_PasswordHash u) pw"
proof -
  note on = mem_setting [OF assms(1,2)]
  note r = mem_ensures [OF mem_auth.RegisterWithCode_spec [OF on(1)] assms(3,4)]
  from r(2) obtain norm where n: "normalizeEmail pkg m = Inr norm" "validateUsername (normalizeUsername pkg name) = None"
    "validatePassword pkg pw = None"
    "mem_code_key (uni_lower pkg) norm PurposeRegister \<in> aa_codes (mem_accounts uuid w)"
    "mem_code_key (uni_lower pkg) norm PurposeRegister \<notin> aa_codes (mem_accounts uuid w1)"
    "\<forall>v\<in>ran (map_of (mw_users w)). \<not> mem_same_mail (uni_lower pkg) (u_Email v) norm \<and>
       \<not> mem_same_name (uni_lower pkg) (u_Username v) (normalizeUsername pkg name)"
    "map_of (mw_users w) (u_ID u) = None" "map_of (mw_users w1) = (map_of (mw_users w))(u_ID u \<mapsto> u)"
    "u_Email u = norm" "u_Username u = normalizeUsername pkg name" "u_Role u = UserRoleUser" "bc_compare pkg (u_PasswordHash u) pw"
    unfolding mem_pkg_validation [OF assms(2)] mem_accounts_sel by blast
  from n(2) have "3 \<le> length (u_Username u)" "length (u_Username u) \<le> 40" "list_all username_char (u_Username u)"
    unfolding n(10) by (simp_all add: validateUsername_def split: if_splits)
  with n show ?thesis by (intro exI [of _ norm]) simp
qed

theorem register_correct_witness:
  "\<exists>u tp w1. run_state (RegisterWithCode sample_auth ''Bob@X.org'' '' Bob_1 '' ''secret88'' ''123456'' [] []) (mailed (snd sample_login)) = (Inr (u, tp), w1) \<and>
     map_of (mw_users w1) = (map_of (mw_users (mailed (snd sample_login))))(u_ID u \<mapsto> u)"
proof -
  let ?r = "run_state (RegisterWithCode sample_auth ''Bob@X.org'' '' Bob_1 '' ''secret88'' ''123456'' [] []) (mailed (snd sample_login))"
  obtain u tp w1 where run: "?r = (Inr (u, tp), w1)"
    using run_Inr [OF sample_session(9)] by auto
  have live: "auth_live sample_uuid sample_bcrypt (bc_compare plain_pkg) (mailed (snd sample_login))"
    using auth_runs_evolve [OF sample_auth_setting sample_mailed_run sample_accounts_live] by simp
  from register_correct [OF sample_auth_setting live run] run show ?thesis by blast
qed

end
