(* ===== verification/Go_Json.thy ===== *)
theory Go_Json
  imports Model
begin

text \<open>
  The values that the server hands to \<^verbatim>\<open>encoding/json\<close>: a tree per answer, with the field names and the
  \<open>omitempty\<close> options of the struct tags, and one encoder per type of \<^verbatim>\<open>internal/model/model.go\<close>.  A
  time is a leaf; \<open>omitempty\<close> never leaves out a time, since it is a struct.
\<close>

datatype json =
    JNull
  | JBool bool
  | JInt int
  | JFloat float64
  | JStr string
  | JTime gotime
  | JArr "json list"
  | JObj "(string \<times> json) list"

section \<open>Fields\<close>

text \<open>A field that is always written, and one that \<open>omitempty\<close> leaves out when its value is the zero value.\<close>

definition fld :: "string \<Rightarrow> json \<Rightarrow> (string \<times> json) list" where
  "fld k v = [(k, v)]"

definition opt_str :: "string \<Rightarrow> string \<Rightarrow> (string \<times> json) list" where
  "opt_str k s = (if s = [] then [] else [(k, JStr s)])"

definition opt_bool :: "string \<Rightarrow> bool \<Rightarrow> (string \<times> json) list" where
  "opt_bool k b = (if b then [(k, JBool b)] else [])"

definition opt_int :: "string \<Rightarrow> int \<Rightarrow> (string \<times> json) list" where
  "opt_int k n = (if n = 0 then [] else [(k, JInt n)])"

definition opt_float :: "string \<Rightarrow> float64 \<Rightarrow> (string \<times> json) list" where
  "opt_float k x = (if x = 0 then [] else [(k, JFloat x)])"

definition opt_list :: "string \<Rightarrow> json list \<Rightarrow> (string \<times> json) list" where
  "opt_list k xs = (if xs = [] then [] else [(k, JArr xs)])"

definition opt_ptr :: "string \<Rightarrow> json option \<Rightarrow> (string \<times> json) list" where
  "opt_ptr k v = (case v of None \<Rightarrow> [] | Some j \<Rightarrow> [(k, j)])"

text \<open>A slice field without \<open>omitempty\<close>: a nil slice is \<open>null\<close>.\<close>

definition nil_list :: "string \<Rightarrow> json list \<Rightarrow> (string \<times> json) list" where
  "nil_list k xs = [(k, if xs = [] then JNull else JArr xs)]"

definition ptr :: "('a \<Rightarrow> json) \<Rightarrow> 'a option \<Rightarrow> json" where
  "ptr f x = (case x of None \<Rightarrow> JNull | Some y \<Rightarrow> f y)"

section \<open>The types of package model\<close>

definition user_json :: "User \<Rightarrow> json" where
  "user_json u = JObj
     (fld ''id'' (JStr (u_ID u)) @ fld ''email'' (JStr (u_Email u)) @ fld ''username'' (JStr (u_Username u)) @
      opt_str ''nickname'' (u_Nickname u) @ opt_str ''avatar_url'' (u_AvatarURL u) @ fld ''role'' (JStr (u_Role u)) @
      fld ''created_at'' (JTime (u_CreatedAt u)) @ fld ''updated_at'' (JTime (u_UpdatedAt u)))"

definition room_fields :: "Room \<Rightarrow> (string \<times> json) list" where
  "room_fields r =
     fld ''id'' (JStr (rm_ID r)) @ fld ''name'' (JStr (rm_Name r)) @ fld ''owner_id'' (JStr (rm_OwnerID r)) @
     fld ''visibility'' (JStr (rm_Visibility r)) @ opt_str ''current_video_id'' (rm_CurrentVideo r) @
     fld ''created_at'' (JTime (rm_CreatedAt r)) @ fld ''updated_at'' (JTime (rm_UpdatedAt r))"

definition room_json :: "Room \<Rightarrow> json" where
  "room_json r = JObj (room_fields r)"

definition queue_item_json :: "QueueItemRef \<Rightarrow> json" where
  "queue_item_json q = JObj
     (fld ''id'' (JStr (qi_ID q)) @ opt_str ''video_id'' (qi_VideoID q) @ fld ''position'' (JInt (qi_Position q)))"

definition state_json :: "RoomState \<Rightarrow> json" where
  "state_json s = JObj
     (fld ''room_id'' (JStr (rs_RoomID s)) @ opt_str ''video_id'' (rs_VideoID s) @
      opt_list ''queue'' (map JStr (rs_Queue s)) @ opt_list ''queue_meta'' (map queue_item_json (rs_QueueMeta s)) @
      fld ''action'' (JStr (rs_Action s)) @ fld ''position'' (JFloat (rs_Position s)) @
      opt_str ''playback_mode'' (rs_PlaybackMode s) @ opt_float ''video_duration'' (rs_VideoDuration s) @
      opt_int ''control_version'' (rs_ControlVersion s) @ opt_str ''updated_by'' (rs_UpdatedBy s) @
      fld ''updated_at'' (JTime (rs_UpdatedAt s)) @ fld ''base_updated_at'' (JTime (rs_BaseUpdatedAt s)))"

end
