(* ===== verification/Api_Context.thy ===== *)
theory Api_Context
  imports Go_Json Auth_Service Room_Service
begin

text \<open>
  The frame of the HTTP interface: the error answers of \<^verbatim>\<open>pkg/apierr/apierr.go\<close>, the dependencies of
  \<^verbatim>\<open>internal/api/router.go\<close>, and the authentication middleware and error mapping of
  \<^verbatim>\<open>internal/api/context.go\<close>.  A handler is a program that reads the request from a \<open>Ctx\<close> and returns the answer;
  \<open>gin\<close> itself is not part of the repository, so what it extracts from a request (headers, path and query
  parameters, the decoded body, the client address) arrives in the \<open>Ctx\<close> and in the \<open>bound\<close> argument of a handler.
\<close>

section \<open>Answers\<close>

record ApiError =
  ae_Code :: string
  ae_Message :: string
  ae_Status :: int

definition NewApiError :: "int \<Rightarrow> string \<Rightarrow> string \<Rightarrow> ApiError" where
  "NewApiError status code message = \<lparr>ae_Code = code, ae_Message = message, ae_Status = status\<rparr>"

text \<open>An \<open>error\<close> of a handler: one made by package \<open>apierr\<close>, or any other.\<close>

datatype api_error = ApiErr ApiError | PlainErr error

definition InvalidRequest :: "string \<Rightarrow> api_error" where
  "InvalidRequest message = ApiErr (NewApiError 400 ''INVALID_REQUEST'' message)"

definition Unauthorized :: "string \<Rightarrow> api_error" where
  "Unauthorized message = ApiErr (NewApiError 401 ''UNAUTHORIZED'' message)"

definition Forbidden :: "string \<Rightarrow> api_error" where
  "Forbidden message = ApiErr (NewApiError 403 ''FORBIDDEN'' message)"

definition NotFound :: "string \<Rightarrow> api_error" where
  "NotFound message = ApiErr (NewApiError 404 ''NOT_FOUND'' message)"

definition Conflict :: "string \<Rightarrow> api_error" where
  "Conflict message = ApiErr (NewApiError 409 ''CONFLICT'' message)"

definition TooManyRequests :: "string \<Rightarrow> api_error" where
  "TooManyRequests message = ApiErr (NewApiError 429 ''RATE_LIMITED'' message)"

definition Internal :: "string \<Rightarrow> api_error" where
  "Internal message = ApiErr (NewApiError 500 ''INTERNAL_ERROR'' message)"

definition PayloadTooLarge :: "string \<Rightarrow> api_error" where
  "PayloadTooLarge message = ApiErr (NewApiError 413 ''PAYLOAD_TOO_LARGE'' message)"

definition ServiceUnavailable :: "string \<Rightarrow> api_error" where
  "ServiceUnavailable message = ApiErr (NewApiError 503 ''SERVICE_UNAVAILABLE'' message)"

text \<open>
  An answer has a status, the header \<open>Retry-After\<close> where a handler sets it, and a body (\<open>None\<close> for
  \<open>c.Status\<close>).
\<close>

record Response =
  rp_Status :: int
  rp_RetryAfter :: "int option"
  rp_Body :: "json option"

definition JSON :: "int \<Rightarrow> json \<Rightarrow> Response" where
  "JSON status body = \<lparr>rp_Status = status, rp_RetryAfter = None, rp_Body = Some body\<rparr>"

definition Status :: "int \<Rightarrow> Response" where
  "Status status = \<lparr>rp_Status = status, rp_RetryAfter = None, rp_Body = None\<rparr>"

definition Respond :: "api_error \<Rightarrow> Response" where
  "Respond err =
     (let e = (case err of ApiErr e \<Rightarrow> e | PlainErr _ \<Rightarrow> NewApiError 500 ''INTERNAL_ERROR'' ''Internal Server Error'')
      in JSON (ae_Status e)
           (JObj [(''error'', JObj [(''code'', JStr (ae_Code e)), (''message'', JStr (ae_Message e))])]))"

definition Abort :: "api_error \<Rightarrow> ('w, Response) io" where
  "Abort err = State_Monad.return (Respond err)"

section \<open>Dependencies\<close>

record 'w Realtime =
  rl_Publisher :: "'w Publisher"
  rl_ChannelName :: "string \<Rightarrow> string"
  rl_IssueRoomJWT :: "string \<Rightarrow> string \<Rightarrow> ('w, error + (string \<times> gotime)) io"

record 'w SenderAPI =
  es_Enabled :: bool
  es_SendVerificationCode :: "string \<Rightarrow> string \<Rightarrow> string \<Rightarrow> ('w, error + string) io"

record 'w EmailCodes =
  ec_PrecheckSend :: "string \<Rightarrow> string \<Rightarrow> duration \<Rightarrow> int \<Rightarrow> gotime \<Rightarrow> ('w, error option) io"
  ec_RollbackPrecheck :: "string \<Rightarrow> string \<Rightarrow> gotime \<Rightarrow> ('w, error option) io"
  ec_CommitSend :: "string \<Rightarrow> string \<Rightarrow> string \<Rightarrow> duration \<Rightarrow> duration \<Rightarrow> gotime \<Rightarrow> ('w, error option) io"
  ec_Verify :: "'w CodeVerifier"

text \<open>
  The user store and the room store are always there (\<^verbatim>\<open>cmd/server/main.go\<close> opens both); \<open>PubSub\<close> is left out,
  since no handler uses it.
\<close>

record 'w Dependencies =
  dp_Config :: Config
  dp_UserStore :: "'w UserStore"
  dp_RoomStore :: "'w RoomStore"
  dp_EmailSender :: "'w SenderAPI option"
  dp_EmailCodes :: "'w EmailCodes option"
  dp_SessionCache :: "'w SessionCache"
  dp_RoomStateCache :: "'w RoomStateCache"
  dp_RoomPresence :: "'w RoomPresence option"
  dp_RoomAccess :: "'w RoomAccessCache option"
  dp_RoomChat :: "'w RoomChat option"
  dp_Realtime :: "'w Realtime option"

section \<open>The request\<close>

text \<open>
  \<open>cx_claims\<close> is the value stored under the key \<open>auth_claims\<close>.  \<open>ShouldBindJSON\<close> leaves a value behind its
  pointer argument and returns an error or not; some handlers ignore the error.
\<close>

record Ctx =
  cx_Authorization :: string
  cx_ClientIP :: string
  cx_roomId :: string
  cx_uid :: string
  cx_Query :: "(string, string) gomap"
  cx_ContentLength :: int
  cx_claims :: "Claims option"

type_synonym 'b bound = "error option \<times> 'b"

definition Query :: "Ctx \<Rightarrow> string \<Rightarrow> string" where
  "Query c k = (case map_of (cx_Query c) k of None \<Rightarrow> [] | Some v \<Rightarrow> v)"

definition noClaims :: Claims where
  "noClaims = \<lparr>ck_UserID = [], ck_Username = [], ck_Role = [], ck_Type = [], ck_Subject = [], ck_ID = [],
     ck_IssuedAt = 0, ck_ExpiresAt = 0\<rparr>"

definition currentClaims :: "Ctx \<Rightarrow> Claims" where
  "currentClaims c = (case cx_claims c of None \<Rightarrow> noClaims | Some claims \<Rightarrow> claims)"

definition currentUser :: "Ctx \<Rightarrow> Claims option" where
  "currentUser c = (let claims = currentClaims c in if ck_UserID claims = [] then None else Some claims)"

definition CurrentUser :: "Ctx \<Rightarrow> Claims option" where
  "CurrentUser c = currentUser c"

definition bearerFromQueryOrHeader :: "Ctx \<Rightarrow> string" where
  "bearerFromQueryOrHeader c =
     (let token = TrimSpace (Query c ''token'') in if token \<noteq> [] then token else ExtractBearer (cx_Authorization c))"

text \<open>The two middlewares: \<open>next\<close> is the rest of the handler chain.\<close>

definition requireAuth :: "'w AuthService \<Rightarrow> (Ctx \<Rightarrow> ('w, Response) io) \<Rightarrow> Ctx \<Rightarrow> ('w, Response) io" where
  "requireAuth authSvc next c = do {
     r \<leftarrow> ParseToken authSvc (ExtractBearer (cx_Authorization c)) TokenTypeAccess;
     case r of
       Inl _ \<Rightarrow> Abort (Unauthorized ''authentication required'')
     | Inr claims \<Rightarrow> next (c\<lparr>cx_claims := Some claims\<rparr>)
   }"

definition requireAdmin :: "(Ctx \<Rightarrow> ('w, Response) io) \<Rightarrow> Ctx \<Rightarrow> ('w, Response) io" where
  "requireAdmin next c =
     (if ck_Role (currentClaims c) \<noteq> UserRoleAdmin then Abort (Forbidden ''admin role required'') else next c)"

definition mapError :: "error \<Rightarrow> api_error" where
  "mapError err =
     (if err = ErrInvalidCredentials then Unauthorized ''invalid username or password''
      else if err = ErrInvalidToken then Unauthorized ''invalid token''
      else if err = ErrNotFound then NotFound ''resource not found''
      else if err = ErrConflict then Conflict ''resource already exists''
      else PlainErr err)"

definition writeError :: "error \<Rightarrow> ('w, Response) io" where
  "writeError err = Abort (mapError err)"

definition respondStoreError :: "error \<Rightarrow> ('w, Response) io" where
  "respondStoreError err = writeError err"

definition writeCreated :: "json \<Rightarrow> ('w, Response) io" where
  "writeCreated body = State_Monad.return (JSON 201 body)"

section \<open>Lemmas\<close>

lemma run_Abort [simp]: "run_state (Abort e) w = (Respond e, w)"
  by (simp add: Abort_def)

lemma run_writeError [simp]:
  "run_state (writeError e) w = (Respond (mapError e), w)" "run_state (respondStoreError e) w = (Respond (mapError e), w)"
  by (simp_all add: respondStoreError_def writeError_def)

lemma Status_sel [simp]: "rp_Status (Status n) = n" "rp_RetryAfter (Status n) = None" "rp_Body (Status n) = None"
  by (simp_all add: Status_def)

lemma JSON_sel [simp]: "rp_Status (JSON n b) = n" "rp_RetryAfter (JSON n b) = None" "rp_Body (JSON n b) = Some b"
  by (simp_all add: JSON_def)

text \<open>The status of each kind of error answer.\<close>

lemma Respond_status [simp]:
  "rp_Status (Respond (InvalidRequest m)) = 400" "rp_Status (Respond (Unauthorized m)) = 401"
  "rp_Status (Respond (Forbidden m)) = 403" "rp_Status (Respond (NotFound m)) = 404"
  "rp_Status (Respond (Conflict m)) = 409" "rp_Status (Respond (TooManyRequests m)) = 429"
  "rp_Status (Respond (Internal m)) = 500" "rp_Status (Respond (PayloadTooLarge m)) = 413"
  "rp_Status (Respond (ServiceUnavailable m)) = 503" "rp_Status (Respond (PlainErr e)) = 500"
  by (simp_all add: Respond_def InvalidRequest_def Unauthorized_def Forbidden_def NotFound_def Conflict_def
    TooManyRequests_def Internal_def PayloadTooLarge_def ServiceUnavailable_def NewApiError_def)

lemma mapError_status:
  "rp_Status (Respond (mapError e)) =
     (if e = ErrInvalidCredentials \<or> e = ErrInvalidToken then 401
      else if e = ErrNotFound then 404 else if e = ErrConflict then 409 else 500)"
  by (simp add: mapError_def)

end
