(* ===== verification/Api_Rooms.thy ===== *)
theory Api_Rooms
  imports Api_Context Queue_Url
begin

text \<open>
  The room endpoints, \<^verbatim>\<open>internal/api/room_handlers.go\<close>: one definition per handler, over the dependencies
  \<open>deps\<close> and the room service \<open>rooms\<close> of the handler struct.
\<close>

section \<open>Request and answer bodies\<close>

record createRoomRequest =
  cq_Name :: string
  cq_Visibility :: string
  cq_Password :: string

record joinRoomRequest =
  jq_Password :: string

record ablyTokenRequest =
  aq_RoomID :: string
  aq_Purpose :: string
  aq_Password :: string

record controlRoomRequest =
  kq_Action :: PlaybackAction
  kq_Position :: float64
  kq_VideoID :: string
  kq_Queue :: "string list"
  kq_PlaybackMode :: PlaybackMode
  kq_ControlVersion :: int
  kq_VideoDuration :: float64

record roomSnapshotRequest =
  nq_Password :: string

record postRoomChatRequest =
  pq_Text :: string
  pq_Password :: string

definition roomResponse :: "Room \<Rightarrow> bool \<Rightarrow> string \<Rightarrow> json" where
  "roomResponse room isOwner leftRoomID =
     JObj (room_fields room @ opt_bool ''is_owner'' isOwner @ opt_str ''left_room_id'' leftRoomID)"

definition roomListResponse :: "Room list \<Rightarrow> int \<Rightarrow> json" where
  "roomListResponse items count = JObj [(''items'', JArr (map room_json items)), (''total'', JInt count)]"

definition roomSnapshotResponse :: "string \<Rightarrow> RoomState \<Rightarrow> string list \<Rightarrow> int \<Rightarrow> string \<Rightarrow> json" where
  "roomSnapshotResponse roomID state queue viewers channel = JObj
     (fld ''room_id'' (JStr roomID) @ fld ''state'' (state_json state) @ nil_list ''queue'' (map JStr queue) @
      fld ''viewer_count'' (JInt viewers) @
      fld ''ably'' (JObj [(''channel'', JStr channel), (''token_endpoint'', JStr ''/api/ably/token'')]))"

definition hub_user_json :: "HubUser \<Rightarrow> json" where
  "hub_user_json u = JObj
     (fld ''id'' (JStr (hu_ID u)) @ fld ''username'' (JStr (hu_Username u)) @ opt_str ''nickname'' (hu_Nickname u) @
      fld ''role'' (JStr (hu_Role u)) @ fld ''is_owner'' (JBool (hu_IsOwner u)))"

definition message_json :: "Message \<Rightarrow> json" where
  "message_json m = JObj
     (fld ''type'' (JStr (ms_Type m)) @ opt_str ''action'' (ms_Action m) @ opt_str ''event'' (ms_Event m) @
      opt_float ''position'' (ms_Position m) @ opt_str ''video_id'' (ms_VideoID m) @
      opt_list ''queue'' (map JStr (ms_Queue m)) @ opt_int ''timestamp'' (ms_Timestamp m) @
      opt_int ''control_version'' (ms_ControlVersion m) @ opt_str ''playback_mode'' (ms_PlaybackMode m) @
      opt_int ''updated_at'' (ms_UpdatedAt m) @ opt_ptr ''user'' (map_option hub_user_json (ms_User m)))"

definition chat_json :: "ChatMessage \<Rightarrow> json" where
  "chat_json m = JObj
     (fld ''type'' (JStr (cm_Type m)) @ fld ''seq'' (JInt (cm_Seq m)) @ opt_str ''stream_id'' (cm_StreamID m) @
      fld ''room_id'' (JStr (cm_RoomID m)) @ fld ''user'' (hub_user_json (cm_User m)) @
      fld ''text'' (JStr (cm_Text m)) @ fld ''sent_at'' (JInt (cm_SentAt m)))"

definition chat_result_json :: "ChatSendResult \<Rightarrow> json" where
  "chat_result_json r = JObj [(''message'', chat_json (cr_Message r)), (''realtime'', JStr (cr_Realtime r))]"

section \<open>Helpers\<close>

definition canManageRoom :: "Ctx \<Rightarrow> Room \<Rightarrow> bool" where
  "canManageRoom c room =
     (case currentUser c of
        None \<Rightarrow> False
      | Some user \<Rightarrow> ck_Role user = UserRoleAdmin \<or> rm_OwnerID room = ck_UserID user)"

definition roomUserFromClaims :: "Claims option \<Rightarrow> Room \<Rightarrow> HubUser" where
  "roomUserFromClaims claims room =
     (case claims of
        None \<Rightarrow> HubUser0
      | Some k \<Rightarrow> HubUser0\<lparr>hu_ID := ck_UserID k, hu_Username := ck_Username k, hu_Role := ck_Role k,
          hu_IsOwner := (rm_OwnerID room = ck_UserID k)\<rparr>)"

definition userPtrFromHubUser :: "HubUser \<Rightarrow> HubUser option" where
  "userPtrFromHubUser u = (if hu_ID u = [] then None else Some u)"

definition validPlaybackAction :: "PlaybackAction \<Rightarrow> bool" where
  "validPlaybackAction action \<longleftrightarrow>
     action = PlaybackActionPlay \<or> action = PlaybackActionPause \<or> action = PlaybackActionSeek \<or>
     action = PlaybackActionNext \<or> action = PlaybackActionSwitch"

definition cleanQueue :: "string list \<Rightarrow> string list" where
  "cleanQueue queue = FilterPlaybackURLs queue"

definition parseInt :: "string \<Rightarrow> int \<Rightarrow> int" where
  "parseInt raw fallback =
     (if raw = [] then fallback
      else case Atoi raw of
        None \<Rightarrow> fallback
      | Some n \<Rightarrow> if n < 0 then fallback else n)"

text \<open>
  A private room is open to its owner, to admins, to users with a stored grant, and to whoever presents the
  password, which stores a grant.
\<close>

definition has_grant :: "'w Dependencies \<Rightarrow> string \<Rightarrow> string \<Rightarrow> ('w, bool) io" where
  "has_grant deps roomID userID =
     (case dp_RoomAccess deps of
        None \<Rightarrow> State_Monad.return False
      | Some access \<Rightarrow>
          if userID = [] then State_Monad.return False
          else do {
            r \<leftarrow> HasRoomAccess access roomID userID;
            State_Monad.return (case r of Inl _ \<Rightarrow> False | Inr ok \<Rightarrow> ok)
          })"

definition give_grant :: "'w Dependencies \<Rightarrow> string \<Rightarrow> string \<Rightarrow> ('w, unit) io" where
  "give_grant deps roomID userID =
     (case dp_RoomAccess deps of
        None \<Rightarrow> State_Monad.return ()
      | Some access \<Rightarrow>
          if userID = [] then State_Monad.return ()
          else do { _ \<leftarrow> GrantRoomAccess access roomID userID; State_Monad.return () })"

definition canAccessRoom ::
  "'w Dependencies \<Rightarrow> 'w AuthPkg \<Rightarrow> Ctx \<Rightarrow> Room \<Rightarrow> string \<Rightarrow> string \<Rightarrow> ('w, bool) io" where
  "canAccessRoom deps pkg c room userID password =
     (if rm_Visibility room \<noteq> RoomVisibilityPrivate \<or> canManageRoom c room then State_Monad.return True
      else do {
        ok \<leftarrow> has_grant deps (rm_ID room) userID;
        if ok then State_Monad.return True
        else if CheckPassword pkg (rm_PasswordHash room) password then do {
          _ \<leftarrow> give_grant deps (rm_ID room) userID;
          State_Monad.return True
        }
        else State_Monad.return False
      })"

text \<open>\<open>loadRoom\<close> with the rest of the handler as its continuation.\<close>

definition loadRoom :: "'w Dependencies \<Rightarrow> Ctx \<Rightarrow> (Room \<Rightarrow> ('w, Response) io) \<Rightarrow> ('w, Response) io" where
  "loadRoom deps c rest = do {
     r \<leftarrow> RoomStore_GetByID (dp_RoomStore deps) (TrimSpace (cx_roomId c));
     case r of
       Inl err \<Rightarrow> respondStoreError err
     | Inr room \<Rightarrow> rest room
   }"

definition is_owner :: "Claims option \<Rightarrow> Room \<Rightarrow> bool" where
  "is_owner user room = (case user of None \<Rightarrow> False | Some u \<Rightarrow> rm_OwnerID room = ck_UserID u)"

section \<open>Handlers\<close>

text \<open>
  Without claims the handler follows a nil pointer; \<open>gin.Recovery\<close> answers a panic with status 500 and no body.
\<close>

definition create ::
  "'w Dependencies \<Rightarrow> 'w AuthPkg \<Rightarrow> createRoomRequest bound \<Rightarrow> Ctx \<Rightarrow> ('w, Response) io" where
  "create deps pkg body c =
     (case body of (bad, req) \<Rightarrow>
      if bad \<noteq> None then Abort (InvalidRequest ''invalid JSON body'')
      else
        let name = TrimSpace (cq_Name req) in
        if length name < 1 \<or> length name > 80 then Abort (InvalidRequest ''room name is required'')
        else
          let visibility0 = TrimSpace (cq_Visibility req);
              visibility = (if visibility0 = [] then RoomVisibilityPublic else visibility0)
          in
          if visibility \<noteq> RoomVisibilityPublic \<and> visibility \<noteq> RoomVisibilityPrivate
          then Abort (InvalidRequest ''invalid room visibility'')
          else
            case currentUser c of
              None \<Rightarrow> State_Monad.return (Status 500)
            | Some user \<Rightarrow>
                let room0 = \<lparr>rm_ID = [], rm_Name = name, rm_OwnerID = ck_UserID user, rm_Visibility = visibility,
                      rm_PasswordHash = [], rm_CurrentVideo = [], rm_CreatedAt = 0, rm_UpdatedAt = 0\<rparr>;
                    store = (\<lambda>room. do {
                      r \<leftarrow> RoomStore_Create (dp_RoomStore deps) room;
                      case r of
                        Inl err \<Rightarrow> respondStoreError err
                      | Inr stored \<Rightarrow> State_Monad.return (JSON 201 (roomResponse stored True []))
                    })
                in
                if visibility = RoomVisibilityPrivate then
                  if length (cq_Password req) < 4
                  then Abort (InvalidRequest ''private room password must be at least 4 characters'')
                  else do {
                    h \<leftarrow> HashPassword pkg (cq_Password req);
                    case h of
                      Inl _ \<Rightarrow> Abort (Internal ''failed to hash room password'')
                    | Inr hash \<Rightarrow> store (room0\<lparr>rm_PasswordHash := hash\<rparr>)
                  }
                else store room0)"

fun enrich_rooms :: "'w Service \<Rightarrow> Room list \<Rightarrow> ('w, Room list) io" where
  "enrich_rooms rooms [] = State_Monad.return []"
| "enrich_rooms rooms (r # rs) = do {
     r' \<leftarrow> EnrichRoomFromCache rooms (Some r);
     rs' \<leftarrow> enrich_rooms rooms rs;
     State_Monad.return (the r' # rs')
   }"

text \<open>The list of the stores is never nil.\<close>

definition list_rooms :: "'w Dependencies \<Rightarrow> 'w Service \<Rightarrow> Ctx \<Rightarrow> ('w, Response) io" where
  "list_rooms deps rooms c = do {
     r \<leftarrow> RoomStore_List (dp_RoomStore deps)
       \<lparr>lo_Limit = parseInt (Query c ''limit'') 20, lo_Offset = parseInt (Query c ''offset'') 0,
        lo_Query = TrimSpace (Query c ''q''), lo_OwnerID = []\<rparr>;
     case r of
       Inl err \<Rightarrow> respondStoreError err
     | Inr (items, count) \<Rightarrow> do {
         items' \<leftarrow> enrich_rooms rooms items;
         State_Monad.return (JSON 200 (roomListResponse items' count))
       }
   }"

definition get_room_info :: "'w Dependencies \<Rightarrow> 'w Service \<Rightarrow> Ctx \<Rightarrow> ('w, Response) io" where
  "get_room_info deps rooms c = loadRoom deps c (\<lambda>room. do {
     room' \<leftarrow> EnrichRoomFromCache rooms (Some room);
     State_Monad.return (JSON 200 (roomResponse (the room') (is_owner (currentUser c) (the room')) []))
   })"

definition delete_room_handler :: "'w Dependencies \<Rightarrow> 'w Service \<Rightarrow> Ctx \<Rightarrow> ('w, Response) io" where
  "delete_room_handler deps rooms c = loadRoom deps c (\<lambda>room.
     if \<not> canManageRoom c room then Abort (Forbidden ''room owner or admin required'')
     else do {
       e \<leftarrow> RoomStore_Delete (dp_RoomStore deps) (rm_ID room);
       case e of
         Some err \<Rightarrow> respondStoreError err
       | None \<Rightarrow> do {
           e2 \<leftarrow> CloseRoom rooms (rm_ID room) (Some (roomUserFromClaims (currentUser c) room));
           case e2 of
             Some err \<Rightarrow> respondStoreError err
           | None \<Rightarrow> State_Monad.return (Status 204)
         }
     })"

definition join_room_handler ::
  "'w Dependencies \<Rightarrow> 'w AuthPkg \<Rightarrow> 'w Service \<Rightarrow> joinRoomRequest bound \<Rightarrow> Ctx \<Rightarrow> ('w, Response) io" where
  "join_room_handler deps pkg rooms body c = loadRoom deps c (\<lambda>room.
     case currentUser c of
       None \<Rightarrow> Abort (Unauthorized ''authentication required'')
     | Some user \<Rightarrow> do {
         ok \<leftarrow> canAccessRoom deps pkg c room (ck_UserID user) (jq_Password (snd body));
         if \<not> ok then Abort (Forbidden ''invalid room password'')
         else
           let u = roomUserFromClaims (Some user) room in do {
             r \<leftarrow> Join rooms (rm_ID room) u;
             case r of
               Inl err \<Rightarrow> respondStoreError err
             | Inr leftRoomID \<Rightarrow> do {
                 _ \<leftarrow> (if leftRoomID \<noteq> []
                       then PublishRoomEvent rooms leftRoomID ''user_left'' (userPtrFromHubUser u)
                       else State_Monad.return None);
                 _ \<leftarrow> PublishRoomEvent rooms (rm_ID room) ''user_joined'' (userPtrFromHubUser u);
                 State_Monad.return (JSON 200 (roomResponse room (is_owner (Some user) room) leftRoomID))
               }
           }
       })"

definition leave_room_handler :: "'w Dependencies \<Rightarrow> 'w Service \<Rightarrow> Ctx \<Rightarrow> ('w, Response) io" where
  "leave_room_handler deps rooms c = loadRoom deps c (\<lambda>room.
     case currentUser c of
       None \<Rightarrow> Abort (Unauthorized ''authentication required'')
     | Some user \<Rightarrow> do {
         e \<leftarrow> Leave rooms (rm_ID room) (ck_UserID user);
         case e of
           Some err \<Rightarrow> respondStoreError err
         | None \<Rightarrow> do {
             _ \<leftarrow> PublishRoomEvent rooms (rm_ID room) ''user_left''
                   (userPtrFromHubUser (roomUserFromClaims (Some user) room));
             State_Monad.return (Status 204)
           }
       })"

definition kick :: "'w Dependencies \<Rightarrow> 'w Service \<Rightarrow> Ctx \<Rightarrow> ('w, Response) io" where
  "kick deps rooms c = loadRoom deps c (\<lambda>room.
     if \<not> canManageRoom c room then Abort (Forbidden ''room owner or admin required'')
     else if TrimSpace (cx_uid c) = [] then Abort (InvalidRequest ''user id is required'')
     else do {
       e \<leftarrow> KickMember rooms (rm_ID room) (TrimSpace (cx_uid c)) (Some (roomUserFromClaims (currentUser c) room));
       case e of
         Some err \<Rightarrow> respondStoreError err
       | None \<Rightarrow> State_Monad.return (Status 204)
     })"

definition room_state_handler :: "'w Dependencies \<Rightarrow> 'w Service \<Rightarrow> Ctx \<Rightarrow> ('w, Response) io" where
  "room_state_handler deps rooms c = loadRoom deps c (\<lambda>room. do {
     r \<leftarrow> ProjectedRoomState rooms (rm_ID room);
     case r of
       Inl err \<Rightarrow>
         if err = ErrNotFound then
           State_Monad.return (JSON 200
             (JObj [(''room_id'', JStr (rm_ID room)), (''action'', JStr PlaybackActionPause), (''position'', JInt 0)]))
         else respondStoreError err
     | Inr state \<Rightarrow> State_Monad.return (JSON 200 (state_json state))
   })"

text \<open>A time written with \<open>time.RFC3339\<close>, which has no fraction of a second.\<close>

definition rfc3339 :: "gotime \<Rightarrow> json" where
  "rfc3339 t = JTime (t div Second * Second)"

definition ablyToken ::
  "'w Dependencies \<Rightarrow> 'w AuthPkg \<Rightarrow> ablyTokenRequest bound \<Rightarrow> Ctx \<Rightarrow> ('w, Response) io" where
  "ablyToken deps pkg body c =
     (case dp_Realtime deps of
        None \<Rightarrow> Abort (Internal ''ably realtime is not configured'')
      | Some realtime \<Rightarrow>
     (case body of (bad, req) \<Rightarrow>
      if bad \<noteq> None then Abort (InvalidRequest ''invalid JSON body'')
      else if aq_Purpose req \<noteq> [] \<and> aq_Purpose req \<noteq> ''room'' then Abort (InvalidRequest ''unsupported token purpose'')
      else
        let roomID = TrimSpace (aq_RoomID req) in
        if roomID = [] then Abort (InvalidRequest ''room_id is required'')
        else do {
          r \<leftarrow> RoomStore_GetByID (dp_RoomStore deps) roomID;
          case r of
            Inl err \<Rightarrow> respondStoreError err
          | Inr room \<Rightarrow> do {
              ok \<leftarrow> canAccessRoom deps pkg c room (ck_UserID (currentClaims c)) (aq_Password req);
              if \<not> ok then Abort (Forbidden ''invalid room password'')
              else do {
                t \<leftarrow> rl_IssueRoomJWT realtime (rm_ID room) (ck_UserID (currentClaims c));
                case t of
                  Inl _ \<Rightarrow> Abort (Internal ''failed to issue ably token'')
                | Inr (token, expiresAt) \<Rightarrow>
                    State_Monad.return (JSON 200 (JObj [(''token'', JStr token), (''expires_at'', rfc3339 expiresAt)]))
              }
            }
        }))"

definition control ::
  "'w Dependencies \<Rightarrow> 'w Service \<Rightarrow> controlRoomRequest bound \<Rightarrow> Ctx \<Rightarrow> ('w, Response) io" where
  "control deps rooms body c = loadRoom deps c (\<lambda>room.
     if \<not> canManageRoom c room then Abort (Forbidden ''room owner or admin required'')
     else
       case body of (bad, req) \<Rightarrow>
       if bad \<noteq> None then Abort (InvalidRequest ''invalid JSON body'')
       else if \<not> validPlaybackAction (kq_Action req) then Abort (InvalidRequest ''invalid playback action'')
       else
         let user = roomUserFromClaims (currentUser c) room;
             queue = cleanQueue (kq_Queue req);
             videoID = TrimSpace (kq_VideoID req)
         in
         if videoID \<noteq> [] \<and> \<not> IsPlaybackURL videoID
         then Abort (InvalidRequest ''video_id must be an http(s) or protocol-relative URL'')
         else do {
           r \<leftarrow> ApplyControl rooms (rm_ID room) user
             \<lparr>ci_Action = kq_Action req, ci_Position = kq_Position req, ci_VideoID = videoID, ci_Queue = queue,
              ci_PlaybackMode = kq_PlaybackMode req, ci_ClientVersion = kq_ControlVersion req,
              ci_VideoDuration = kq_VideoDuration req\<rparr>;
           case r of (msg, e) \<Rightarrow>
             (case e of
                None \<Rightarrow> State_Monad.return (JSON 200 (message_json msg))
              | Some err \<Rightarrow>
                  if err = ErrForbidden then Abort (Forbidden ''room owner or admin required'')
                  else if err = ErrStaleControl then Abort (Conflict ''stale control version'')
                  else respondStoreError err)
         })"

text \<open>The body of a snapshot request is read only when it is not empty.\<close>

definition snapshot ::
  "'w Dependencies \<Rightarrow> 'w AuthPkg \<Rightarrow> 'w Service \<Rightarrow> roomSnapshotRequest bound \<Rightarrow> Ctx \<Rightarrow> ('w, Response) io" where
  "snapshot deps pkg rooms body c = loadRoom deps c (\<lambda>room.
     if cx_ContentLength c \<noteq> 0 \<and> fst body \<noteq> None then Abort (InvalidRequest ''invalid JSON body'')
     else
       let password = (if cx_ContentLength c \<noteq> 0 then nq_Password (snd body) else []) in do {
         ok \<leftarrow> canAccessRoom deps pkg c room (ck_UserID (currentClaims c)) password;
         if \<not> ok then Abort (Forbidden ''invalid room password'')
         else do {
           snap \<leftarrow> TakeSnapshot rooms (rm_ID room);
           let queue0 = sn_Queue snap;
               state = (case sn_State snap of
                   Some st \<Rightarrow> st
                 | None \<Rightarrow> \<lparr>rs_RoomID = rm_ID room, rs_VideoID = rm_CurrentVideo room, rs_Queue = queue0,
                     rs_QueueMeta = [], rs_Action = PlaybackActionPause, rs_Position = 0, rs_PlaybackMode = [],
                     rs_VideoDuration = 0, rs_ControlVersion = 0, rs_UpdatedBy = [], rs_UpdatedAt = 0,
                     rs_BaseUpdatedAt = 0\<rparr>);
               queue = (if queue0 = [] \<and> rs_VideoID state \<noteq> [] then [rs_VideoID state] else queue0);
               channel = (case dp_Realtime deps of None \<Rightarrow> [] | Some realtime \<Rightarrow> rl_ChannelName realtime (rm_ID room))
           in State_Monad.return (JSON 200
                (roomSnapshotResponse (rm_ID room) state queue (sn_ViewerCount snap) channel))
         }
       })"

definition respondChatErr :: "error \<Rightarrow> ('w, Response) io" where
  "respondChatErr err =
     (if err = ErrChatRequiresRedis \<or> err = ErrChatPendingFull then Abort (ServiceUnavailable ''chat temporarily unavailable'')
      else if err = ErrChatTextEmpty then Abort (InvalidRequest ''chat text is required'')
      else if err = ErrChatTextTooLong \<or> err = ErrChatPayloadTooLarge then Abort (PayloadTooLarge ''message too long'')
      else if err = ErrChatRateLimited then Abort (TooManyRequests ''too many chat messages'')
      else respondStoreError err)"

definition postRoomChat ::
  "'w Dependencies \<Rightarrow> 'w AuthPkg \<Rightarrow> 'w Service \<Rightarrow> postRoomChatRequest bound \<Rightarrow> Ctx \<Rightarrow> ('w, Response) io" where
  "postRoomChat deps pkg rooms body c = loadRoom deps c (\<lambda>room.
     case body of (bad, req) \<Rightarrow>
     if bad \<noteq> None then Abort (InvalidRequest ''invalid JSON body'')
     else do {
       ok \<leftarrow> canAccessRoom deps pkg c room (ck_UserID (currentClaims c)) (pq_Password req);
       if \<not> ok then Abort (Forbidden ''invalid room password'')
       else
         case currentUser c of
           None \<Rightarrow> Abort (Unauthorized ''authentication required'')
         | Some claims \<Rightarrow> do {
             r \<leftarrow> UserStore_GetByID (dp_UserStore deps) (ck_UserID claims);
             case r of
               Inl err \<Rightarrow> respondStoreError err
             | Inr u \<Rightarrow> do {
                 res \<leftarrow> SendChat rooms (rm_ID room)
                   ((roomUserFromClaims (Some claims) room)\<lparr>hu_Nickname := u_Nickname u\<rparr>) (pq_Text req);
                 case res of
                   Inl err \<Rightarrow> respondChatErr err
                 | Inr sent \<Rightarrow> State_Monad.return (JSON 200 (chat_result_json sent))
               }
           }
     })"

definition listRoomChat ::
  "'w Dependencies \<Rightarrow> 'w AuthPkg \<Rightarrow> 'w Service \<Rightarrow> Ctx \<Rightarrow> ('w, Response) io" where
  "listRoomChat deps pkg rooms c = loadRoom deps c (\<lambda>room. do {
     ok \<leftarrow> canAccessRoom deps pkg c room (ck_UserID (currentClaims c)) (TrimSpace (Query c ''password''));
     if \<not> ok then Abort (Forbidden ''invalid room password'')
     else do {
       r \<leftarrow> ListChat rooms (rm_ID room) (TrimSpace (Query c ''before_id'')) (parseInt (Query c ''limit'') 50);
       case r of
         Inl err \<Rightarrow>
           if err = ErrChatRequiresRedis then Abort (ServiceUnavailable ''chat temporarily unavailable'')
           else respondStoreError err
       | Inr (items, hasMore) \<Rightarrow>
           State_Monad.return (JSON 200 (JObj [(''items'', JArr (map chat_json items)), (''has_more'', JBool hasMore)]))
     }
   })"

end
