(* ===== verification/Api_Admin.thy ===== *)
theory Api_Admin
  imports Api_Rooms
begin

text \<open>
  The admin endpoints, \<^verbatim>\<open>internal/api/admin_room_handlers.go\<close> and \<^verbatim>\<open>internal/api/debug_handlers.go\<close>.
\<close>

section \<open>Room list\<close>

record adminRoomListItem =
  al_Room :: Room
  al_Owner :: "User option"
  al_OnlineCount :: int
  al_CurrentVideo :: string
  al_Playback :: PlaybackAction
  al_CreatedAt :: gotime

definition admin_item_json :: "adminRoomListItem \<Rightarrow> json" where
  "admin_item_json i = JObj
     (fld ''room'' (room_json (al_Room i)) @ opt_ptr ''owner'' (map_option user_json (al_Owner i)) @
      fld ''online_count'' (JInt (al_OnlineCount i)) @ opt_str ''current_video_id'' (al_CurrentVideo i) @
      opt_str ''playback_action'' (al_Playback i) @ fld ''created_at'' (JTime (al_CreatedAt i)))"

definition room_owner :: "'w Dependencies \<Rightarrow> Room \<Rightarrow> ('w, User option) io" where
  "room_owner deps room =
     (if rm_OwnerID room = [] then State_Monad.return None
      else do {
        r \<leftarrow> UserStore_GetByID (dp_UserStore deps) (rm_OwnerID room);
        State_Monad.return (case r of Inl _ \<Rightarrow> None | Inr u \<Rightarrow> Some (u\<lparr>u_PasswordHash := []\<rparr>))
      })"

definition room_online :: "'w Dependencies \<Rightarrow> string \<Rightarrow> ('w, int) io" where
  "room_online deps roomID =
     (case dp_RoomPresence deps of
        None \<Rightarrow> State_Monad.return 0
      | Some p \<Rightarrow> do {
          r \<leftarrow> MemberCount p roomID;
          State_Monad.return (case r of Inl _ \<Rightarrow> 0 | Inr n \<Rightarrow> n)
        })"

fun admin_items :: "'w Dependencies \<Rightarrow> 'w Service \<Rightarrow> Room list \<Rightarrow> ('w, adminRoomListItem list) io" where
  "admin_items deps rooms [] = State_Monad.return []"
| "admin_items deps rooms (room0 # rest) = do {
     enriched \<leftarrow> EnrichRoomFromCache rooms (Some room0);
     let room = the enriched in do {
       online \<leftarrow> room_online deps (rm_ID room);
       owner \<leftarrow> room_owner deps room;
       st \<leftarrow> ProjectedRoomState rooms (rm_ID room);
       let action = (case st of Inl _ \<Rightarrow> PlaybackActionPause | Inr s \<Rightarrow> rs_Action s);
           currentVid = (case st of
               Inl _ \<Rightarrow> rm_CurrentVideo room
             | Inr s \<Rightarrow> if rs_VideoID s \<noteq> [] then rs_VideoID s else rm_CurrentVideo room)
       in do {
         items \<leftarrow> admin_items deps rooms rest;
         State_Monad.return (\<lparr>al_Room = room, al_Owner = owner, al_OnlineCount = online, al_CurrentVideo = currentVid,
           al_Playback = action, al_CreatedAt = rm_CreatedAt room\<rparr> # items)
       }
     }
   }"

definition admin_listRooms :: "'w Dependencies \<Rightarrow> 'w Service \<Rightarrow> Ctx \<Rightarrow> ('w, Response) io" where
  "admin_listRooms deps rooms c =
     (let limit0 = parseInt (Query c ''limit'') 100;
          limit = (if limit0 > 500 then 500 else limit0)
      in do {
        r \<leftarrow> RoomStore_List (dp_RoomStore deps)
          \<lparr>lo_Limit = limit, lo_Offset = parseInt (Query c ''offset'') 0, lo_Query = TrimSpace (Query c ''q''), lo_OwnerID = []\<rparr>;
        case r of
          Inl err \<Rightarrow> respondStoreError err
        | Inr (rs, count) \<Rightarrow> do {
            items \<leftarrow> admin_items deps rooms rs;
            State_Monad.return (JSON 200 (JObj [(''items'', JArr (map admin_item_json items)), (''total'', JInt count)]))
          }
      })"

section \<open>Debug view\<close>

record debugRoomResponse =
  dr_Room :: Room
  dr_State :: RoomState
  dr_Users :: "HubUser list option"
  dr_Queue :: "string list"
  dr_ViewerCount :: int

definition debug_room_json :: "debugRoomResponse \<Rightarrow> json" where
  "debug_room_json d = JObj
     (fld ''room'' (room_json (dr_Room d)) @ fld ''state'' (state_json (dr_State d)) @
      fld ''users'' (ptr (\<lambda>us. JArr (map hub_user_json us)) (dr_Users d)) @
      nil_list ''queue'' (map JStr (dr_Queue d)) @ fld ''viewer_count'' (JInt (dr_ViewerCount d)))"

text \<open>The state of a room without a snapshot, the queue, and the members: the steps of one turn of the loop.\<close>

definition debug_state :: "'w Dependencies \<Rightarrow> Snapshot \<Rightarrow> string \<Rightarrow> ('w, error + RoomState option) io" where
  "debug_state deps snap roomID =
     (case sn_State snap of
        Some st \<Rightarrow> State_Monad.return (Inr (Some st))
      | None \<Rightarrow> do {
          r \<leftarrow> GetRoomState (dp_RoomStateCache deps) roomID;
          State_Monad.return
            (case r of
               Inr st \<Rightarrow> Inr (Some st)
             | Inl err \<Rightarrow> if err = ErrNotFound then Inr None else Inl err)
        })"

definition debug_queue :: "Snapshot \<Rightarrow> RoomState option \<Rightarrow> string list" where
  "debug_queue snap state =
     (let queue0 = sn_Queue snap;
          queue1 = (case state of Some st \<Rightarrow> if queue0 = [] then rs_Queue st else queue0 | None \<Rightarrow> queue0)
      in case state of
           Some st \<Rightarrow> if queue1 = [] \<and> rs_VideoID st \<noteq> [] then [rs_VideoID st] else queue1
         | None \<Rightarrow> queue1)"

definition debug_users :: "'w Dependencies \<Rightarrow> string \<Rightarrow> ('w, error + HubUser list option) io" where
  "debug_users deps roomID =
     (case dp_RoomPresence deps of
        None \<Rightarrow> State_Monad.return (Inr None)
      | Some p \<Rightarrow> do {
          r \<leftarrow> ListMembers p roomID;
          State_Monad.return
            (case r of
               Inl err \<Rightarrow> Inl err
             | Inr members \<Rightarrow>
                 Inr (Some (map (\<lambda>m. HubUser0\<lparr>hu_ID := mb_UserID m, hu_Username := mb_Username m\<rparr>) members)))
        })"

fun debug_items :: "'w Dependencies \<Rightarrow> 'w Service \<Rightarrow> Room list \<Rightarrow> ('w, error + debugRoomResponse list) io" where
  "debug_items deps rooms [] = State_Monad.return (Inr [])"
| "debug_items deps rooms (room # rest) = do {
     snap \<leftarrow> TakeSnapshot rooms (rm_ID room);
     s \<leftarrow> debug_state deps snap (rm_ID room);
     case s of
       Inl err \<Rightarrow> State_Monad.return (Inl err)
     | Inr state0 \<Rightarrow>
         let queue = debug_queue snap state0;
             state = (case state0 of
                 Some st \<Rightarrow> st
               | None \<Rightarrow> \<lparr>rs_RoomID = rm_ID room, rs_VideoID = rm_CurrentVideo room, rs_Queue = queue,
                   rs_QueueMeta = [], rs_Action = PlaybackActionPause, rs_Position = 0, rs_PlaybackMode = [],
                   rs_VideoDuration = 0, rs_ControlVersion = 0, rs_UpdatedBy = [], rs_UpdatedAt = 0,
                   rs_BaseUpdatedAt = 0\<rparr>)
         in do {
           us \<leftarrow> debug_users deps (rm_ID room);
           case us of
             Inl err \<Rightarrow> State_Monad.return (Inl err)
           | Inr users \<Rightarrow> do {
               items \<leftarrow> debug_items deps rooms rest;
               State_Monad.return
                 (case items of
                    Inl err \<Rightarrow> Inl err
                  | Inr ds \<Rightarrow> Inr (\<lparr>dr_Room = room, dr_State = state, dr_Users = users, dr_Queue = queue,
                      dr_ViewerCount = sn_ViewerCount snap\<rparr> # ds))
             }
         }
   }"

definition debug_rooms :: "'w Dependencies \<Rightarrow> 'w Service \<Rightarrow> Ctx \<Rightarrow> ('w, Response) io" where
  "debug_rooms deps rooms c = do {
     r \<leftarrow> RoomStore_List (dp_RoomStore deps) \<lparr>lo_Limit = 100, lo_Offset = 0, lo_Query = [], lo_OwnerID = []\<rparr>;
     case r of
       Inl err \<Rightarrow> respondStoreError err
     | Inr (rs, count) \<Rightarrow> do {
         items \<leftarrow> debug_items deps rooms rs;
         case items of
           Inl err \<Rightarrow> respondStoreError err
         | Inr ds \<Rightarrow> State_Monad.return (JSON 200 (JObj [(''items'', JArr (map debug_room_json ds)), (''total'', JInt count)]))
       }
   }"

end
