(* ===== verification/Api_Auth.thy ===== *)
theory Api_Auth
  imports Api_Rooms Rate_Limiter
begin

text \<open>
  The account endpoints, \<^verbatim>\<open>internal/api/auth_handlers.go\<close>: the two endpoints that mail a code, and registration, login, refresh, logout, password reset and the profile.  The
  handler keeps two variables of its own (the limiter and the times of the spaced-out answers for addresses that
  are taken); a \<open>Ref\<close> gives access to such a variable.  Log lines are left out.
\<close>

section \<open>The handler struct\<close>

record ('w, 's) Ref =
  ref_get :: "('w, 's) io"
  ref_put :: "'s \<Rightarrow> ('w, unit) io"

record 'w authHandler =
  ah_auth :: "'w AuthService"
  ah_users :: "'w UserStore"
  ah_sender :: "'w SenderAPI option"
  ah_codes :: "'w EmailCodes option"
  ah_cfg :: Config
  ah_ipLimiter :: "('w, slidingWindowLimiter) Ref"
  ah_regLastHit :: "('w, (string, gotime) gomap) Ref"
  ah_now :: "('w, gotime) io"
  ah_newCode :: "int \<Rightarrow> ('w, error + string) io"
    \<comment> \<open>\<open>emailcode.GenerateNumericCode\<close> on the random source\<close>

record emailOnlyRequest =
  eq_Email :: string

record registerRequest =
  rq_Email :: string
  rq_Username :: string
  rq_Password :: string
  rq_Code :: string
  rq_Nickname :: string
  rq_AvatarURL :: string

record loginRequest =
  lq_Login :: string
  lq_Password :: string

record refreshRequest =
  fq_RefreshToken :: string

record logoutRequest =
  oq_RefreshToken :: string

record resetPasswordRequest =
  wq_Email :: string
  wq_Code :: string
  wq_NewPassword :: string

definition tokens_json :: "TokenPair \<Rightarrow> json" where
  "tokens_json t = JObj
     [(''access_token'', JStr (tp_AccessToken t)), (''refresh_token'', JStr (tp_RefreshToken t)),
      (''token_type'', JStr (tp_TokenType t)), (''expires_at'', JTime (tp_ExpiresAt t))]"

section \<open>Durations as seconds\<close>

text \<open>\<open>Duration.Round\<close>: to the nearest multiple, halves away from zero, saturating.\<close>

definition RoundDuration :: "duration \<Rightarrow> duration \<Rightarrow> duration" where
  "RoundDuration d m =
     (if m \<le> 0 then d
      else
        let r = d smod m in
        if d < 0 then
          (if - r + - r < m then d - r
           else let d1 = wrap64 (d - m - r) in if d1 < d then d1 else minInt64)
        else if r + r < m then d - r
        else let d1 = wrap64 (d + m - r) in if d1 > d then d1 else maxInt64)"

definition round_seconds :: "duration \<Rightarrow> int" where
  "round_seconds d = RoundDuration d Second sdiv Second"

definition retry_seconds :: "duration \<Rightarrow> int" where
  "retry_seconds d = (let sec = round_seconds d in if sec < 1 then 1 else sec)"

section \<open>Error answers\<close>

definition too_many :: "int \<Rightarrow> string \<Rightarrow> Response" where
  "too_many sec message = (Respond (TooManyRequests message))\<lparr>rp_RetryAfter := Some sec\<rparr>"

definition respondCodeErr :: "error \<Rightarrow> ('w, Response) io" where
  "respondCodeErr err =
     (case err of
        ErrCooldown retryAfter \<Rightarrow>
          if retryAfter > 0
          then State_Monad.return (too_many (retry_seconds retryAfter) ''verification code sent too recently'')
          else Abort (PlainErr err)
      | ErrDailyLimit \<Rightarrow> Abort (TooManyRequests ''daily verification email limit reached'')
      | _ \<Rightarrow> Abort (PlainErr err))"

definition authError :: "error \<Rightarrow> api_error" where
  "authError err =
     (case err of
        ErrInvalidCredentials \<Rightarrow> InvalidRequest ''invalid username/email or password''
      | ErrInvalidToken \<Rightarrow> Unauthorized ''invalid token''
      | ErrInvalidEmail \<Rightarrow> InvalidRequest ''invalid email''
      | ErrWeakPassword \<Rightarrow> InvalidRequest ''password does not meet requirements''
      | ErrInvalidUsername \<Rightarrow> InvalidRequest ''invalid username (use 3-40 chars: a-z, 0-9, _)''
      | ErrInvalidCode \<Rightarrow> InvalidRequest ''invalid verification code''
      | ErrExpired \<Rightarrow> InvalidRequest ''verification code expired''
      | ErrMaxAttempts \<Rightarrow> InvalidRequest ''too many incorrect verification attempts''
      | ErrConflict \<Rightarrow> Conflict ''email or username already in use''
      | _ \<Rightarrow> PlainErr err)"

definition respondAuthError :: "error \<Rightarrow> ('w, Response) io" where
  "respondAuthError err = Abort (authError err)"

definition redactLogEmail :: "'w AuthPkg \<Rightarrow> string \<Rightarrow> string" where
  "redactLogEmail pkg e0 =
     (let e = TrimSpace (ToLower (uni_lower pkg) e0) in
      if e = [] then []
      else
        let i = LastIndexByte e (CHR ''@'') in
        if i \<le> 0 then ''***'' else take 1 e @ ''***@'' @ drop (nat i + 1) e)"

section \<open>Sending codes\<close>

definition limiter_allow :: "'w authHandler \<Rightarrow> string \<Rightarrow> ('w, bool) io" where
  "limiter_allow h ip = do {
     l \<leftarrow> ref_get (ah_ipLimiter h);
     if sl_limit l \<le> 0 then State_Monad.return True
     else do {
       now \<leftarrow> ah_now h;
       case allow now ip l of
         (ok, l') \<Rightarrow> do { _ \<leftarrow> ref_put (ah_ipLimiter h) l'; State_Monad.return ok }
     }
   }"

definition writeRegisterCodeOK :: "'w authHandler \<Rightarrow> ('w, Response) io" where
  "writeRegisterCodeOK h = do {
     now \<leftarrow> ah_now h;
     let sec0 = round_seconds (cf_EmailCodeSendInterval (ah_cfg h));
         sec = (if sec0 < 1 then 60 else sec0)
     in State_Monad.return (JSON 200 (JObj
          [(''expires_at'', rfc3339 (now + cf_EmailCodeTTL (ah_cfg h))), (''retry_after'', JInt sec), (''retry_after_s'', JInt sec)]))
   }"

definition fakeRegisterCodeOK :: "'w authHandler \<Rightarrow> string \<Rightarrow> ('w, Response) io" where
  "fakeRegisterCodeOK h emailNorm = do {
     m \<leftarrow> ref_get (ah_regLastHit h);
     now \<leftarrow> ah_now h;
     let lst = (case map_of m emailNorm of None \<Rightarrow> 0 | Some t \<Rightarrow> t);
         interval = cf_EmailCodeSendInterval (ah_cfg h)
     in
     if Sub now lst < interval
     then State_Monad.return (too_many (retry_seconds (wrap64 (interval - Sub now lst))) ''please wait before retrying'')
     else do {
       _ \<leftarrow> ref_put (ah_regLastHit h) (mput emailNorm now m);
       writeRegisterCodeOK h
     }
   }"

definition rollback :: "'w authHandler \<Rightarrow> 'w EmailCodes \<Rightarrow> string \<Rightarrow> string \<Rightarrow> ('w, unit) io" where
  "rollback h codes emailNorm purpose = do {
     now \<leftarrow> ah_now h;
     _ \<leftarrow> ec_RollbackPrecheck codes emailNorm purpose now;
     State_Monad.return ()
   }"

text \<open>What both sending endpoints do once the limits allow it: generate a code, mail it, store it.\<close>

definition send_code :: "'w authHandler \<Rightarrow> 'w EmailCodes \<Rightarrow> string \<Rightarrow> string \<Rightarrow> ('w, Response) io" where
  "send_code h codes emailNorm purpose = do {
     g \<leftarrow> ah_newCode h (cf_EmailCodeLength (ah_cfg h));
     case g of
       Inl _ \<Rightarrow> do { _ \<leftarrow> rollback h codes emailNorm purpose; Abort (Internal ''failed to generate code'') }
     | Inr code \<Rightarrow>
         (case (case ah_sender h of None \<Rightarrow> None | Some sender \<Rightarrow> if es_Enabled sender then Some sender else None) of
            None \<Rightarrow> do { _ \<leftarrow> rollback h codes emailNorm purpose; Abort (Internal ''email delivery is not configured'') }
          | Some sender \<Rightarrow> do {
              s \<leftarrow> es_SendVerificationCode sender emailNorm purpose code;
              case s of
                Inl _ \<Rightarrow> do { _ \<leftarrow> rollback h codes emailNorm purpose; Abort (Internal ''failed to send email'') }
              | Inr _ \<Rightarrow> do {
                  now \<leftarrow> ah_now h;
                  e \<leftarrow> ec_CommitSend codes emailNorm purpose code (cf_EmailCodeTTL (ah_cfg h))
                    (cf_EmailCodeSendInterval (ah_cfg h)) now;
                  case e of
                    Some _ \<Rightarrow> Abort (Internal ''failed to persist verification'')
                  | None \<Rightarrow> writeRegisterCodeOK h
                }
            })
   }"

definition precheck :: "'w authHandler \<Rightarrow> 'w EmailCodes \<Rightarrow> string \<Rightarrow> string \<Rightarrow> ('w, error option) io" where
  "precheck h codes emailNorm purpose = do {
     now \<leftarrow> ah_now h;
     ec_PrecheckSend codes emailNorm purpose (cf_EmailCodeSendInterval (ah_cfg h)) (cf_EmailCodeDailyLimit (ah_cfg h)) now
   }"

definition registerSendCode :: "'w authHandler \<Rightarrow> emailOnlyRequest bound \<Rightarrow> Ctx \<Rightarrow> ('w, Response) io" where
  "registerSendCode h body c =
     (case body of (bad, req) \<Rightarrow>
      if bad \<noteq> None then Abort (InvalidRequest ''invalid request body'')
      else
        case NormalizeEmailForRequest (au_pkg (ah_auth h)) (eq_Email req) of
          Inl _ \<Rightarrow> Abort (InvalidRequest ''invalid email'')
        | Inr emailNorm \<Rightarrow> do {
            ok \<leftarrow> limiter_allow h (cx_ClientIP c);
            if \<not> ok then Abort (TooManyRequests ''too many requests'')
            else do {
              u \<leftarrow> UserStore_GetByEmail (ah_users h) emailNorm;
              case u of
                Inr _ \<Rightarrow> fakeRegisterCodeOK h emailNorm
              | Inl err \<Rightarrow>
                  if err \<noteq> ErrNotFound then writeError err
                  else
                    case ah_codes h of
                      None \<Rightarrow> Abort (Internal ''verification store not configured'')
                    | Some codes \<Rightarrow> do {
                        e \<leftarrow> precheck h codes emailNorm PurposeRegister;
                        case e of
                          Some err \<Rightarrow> respondCodeErr err
                        | None \<Rightarrow> send_code h codes emailNorm PurposeRegister
                      }
            }
          })"

definition resetSendCode :: "'w authHandler \<Rightarrow> emailOnlyRequest bound \<Rightarrow> Ctx \<Rightarrow> ('w, Response) io" where
  "resetSendCode h body c =
     (case body of (bad, req) \<Rightarrow>
      if bad \<noteq> None then Abort (InvalidRequest ''invalid request body'')
      else
        case NormalizeEmailForRequest (au_pkg (ah_auth h)) (eq_Email req) of
          Inl _ \<Rightarrow> Abort (InvalidRequest ''invalid email'')
        | Inr emailNorm \<Rightarrow> do {
            ok \<leftarrow> limiter_allow h (cx_ClientIP c);
            if \<not> ok then Abort (TooManyRequests ''too many requests'')
            else
              case ah_codes h of
                None \<Rightarrow> Abort (Internal ''verification store not configured'')
              | Some codes \<Rightarrow> do {
                  e \<leftarrow> precheck h codes emailNorm PurposeResetPassword;
                  case e of
                    Some err \<Rightarrow> respondCodeErr err
                  | None \<Rightarrow> do {
                      u \<leftarrow> UserStore_GetByEmail (ah_users h) emailNorm;
                      case u of
                        Inl err \<Rightarrow> do {
                          _ \<leftarrow> rollback h codes emailNorm PurposeResetPassword;
                          if err = ErrNotFound then writeRegisterCodeOK h else writeError err
                        }
                      | Inr _ \<Rightarrow> send_code h codes emailNorm PurposeResetPassword
                    }
                }
          })"

section \<open>Accounts\<close>

definition register :: "'w authHandler \<Rightarrow> registerRequest bound \<Rightarrow> Ctx \<Rightarrow> ('w, Response) io" where
  "register h body c =
     (case body of (bad, req) \<Rightarrow>
      if bad \<noteq> None then Abort (InvalidRequest ''invalid register request'')
      else do {
        r \<leftarrow> RegisterWithCode (ah_auth h) (rq_Email req) (rq_Username req) (rq_Password req) (rq_Code req)
          (rq_Nickname req) (rq_AvatarURL req);
        case r of
          Inl err \<Rightarrow> respondAuthError err
        | Inr (user, tokens) \<Rightarrow>
            State_Monad.return (JSON 201 (JObj [(''user'', user_json user), (''tokens'', tokens_json tokens)]))
      })"

definition resetPassword :: "'w authHandler \<Rightarrow> resetPasswordRequest bound \<Rightarrow> Ctx \<Rightarrow> ('w, Response) io" where
  "resetPassword h body c =
     (case body of (bad, req) \<Rightarrow>
      if bad \<noteq> None then Abort (InvalidRequest ''invalid request body'')
      else do {
        e \<leftarrow> ResetPassword (ah_auth h) (wq_Email req) (wq_Code req) (wq_NewPassword req);
        case e of
          Some err \<Rightarrow> respondAuthError err
        | None \<Rightarrow> State_Monad.return (Status 204)
      })"

definition login :: "'w authHandler \<Rightarrow> loginRequest bound \<Rightarrow> Ctx \<Rightarrow> ('w, Response) io" where
  "login h body c =
     (case body of (bad, req) \<Rightarrow>
      if bad \<noteq> None then Abort (InvalidRequest ''invalid login request'')
      else do {
        r \<leftarrow> Login (ah_auth h) (lq_Login req) (lq_Password req);
        case r of
          Inl err \<Rightarrow> respondAuthError err
        | Inr (user, tokens) \<Rightarrow>
            State_Monad.return (JSON 200 (JObj [(''user'', user_json user), (''tokens'', tokens_json tokens)]))
      })"

definition refresh :: "'w authHandler \<Rightarrow> refreshRequest bound \<Rightarrow> Ctx \<Rightarrow> ('w, Response) io" where
  "refresh h body c =
     (case body of (bad, req) \<Rightarrow>
      if bad \<noteq> None \<or> fq_RefreshToken req = [] then Abort (InvalidRequest ''invalid refresh request'')
      else do {
        r \<leftarrow> Refresh (ah_auth h) (fq_RefreshToken req);
        case r of
          Inl err \<Rightarrow> respondAuthError err
        | Inr tokens \<Rightarrow> State_Monad.return (JSON 200 (JObj [(''tokens'', tokens_json tokens)]))
      })"

definition logout :: "'w authHandler \<Rightarrow> logoutRequest bound \<Rightarrow> Ctx \<Rightarrow> ('w, Response) io" where
  "logout h body c = do {
     e \<leftarrow> Logout (ah_auth h) (ExtractBearer (cx_Authorization c)) (oq_RefreshToken (snd body));
     case e of
       Some err \<Rightarrow> respondAuthError err
     | None \<Rightarrow> State_Monad.return (Status 204)
   }"

definition me :: "'w authHandler \<Rightarrow> Ctx \<Rightarrow> ('w, Response) io" where
  "me h c = do {
     r \<leftarrow> UserStore_GetByID (ah_users h) (ck_UserID (currentClaims c));
     case r of
       Inl err \<Rightarrow> writeError err
     | Inr user \<Rightarrow> State_Monad.return (JSON 200 (JObj [(''user'', user_json user)]))
   }"

end
