(* ===== verification/Cors.thy ===== *)
theory Cors
  imports Go_Text
begin

text \<open>
  Cross-origin settings, \<^verbatim>\<open>pkg/corsutil/corsutil.go\<close>: the configuration that is given to the middleware and the check of an
  \<open>Origin\<close> header.  The middleware \<open>gin-contrib/cors\<close> is not part of the repository: how it compares an origin with the
  configured ones is not modelled, only the configuration it is given.
\<close>

record CorsConfig =
  cc_AllowAllOrigins :: bool
  cc_AllowOrigins :: "string list"
  cc_AllowMethods :: "string list"
  cc_AllowHeaders :: "string list"
  cc_ExposeHeaders :: "string list"
  cc_AllowCredentials :: bool

text \<open>\<open>strings.TrimRight(s, "/")\<close>\<close>

definition TrimRightSlashes :: "string \<Rightarrow> string" where
  "TrimRightSlashes s = rev (dropWhile (\<lambda>c. c = CHR ''/'') (rev s))"

fun any_star :: "string list \<Rightarrow> bool" where
  "any_star [] \<longleftrightarrow> False"
| "any_star (s # ss) \<longleftrightarrow> TrimSpace s = ''*'' \<or> any_star ss"

definition allowAll :: "string list \<Rightarrow> bool" where
  "allowAll allowed \<longleftrightarrow> (if length allowed = 0 then True else any_star allowed)"

fun normalizeOrigins :: "string list \<Rightarrow> string list" where
  "normalizeOrigins [] = []"
| "normalizeOrigins (s0 # ss) =
     (let s = TrimSpace s0 in
      if s = [] \<or> s = ''*'' then normalizeOrigins ss else TrimRightSlashes s # normalizeOrigins ss)"

definition GinConfig :: "string list \<Rightarrow> CorsConfig" where
  "GinConfig allowed =
     (let cfg = \<lparr>cc_AllowAllOrigins = False, cc_AllowOrigins = [],
        cc_AllowMethods = [''GET'', ''POST'', ''PUT'', ''PATCH'', ''DELETE'', ''OPTIONS''],
        cc_AllowHeaders = [''Origin'', ''Content-Type'', ''Accept'', ''Authorization'', ''Range'', ''X-Requested-With''],
        cc_ExposeHeaders = [''Content-Length'', ''Content-Range'', ''Accept-Ranges''], cc_AllowCredentials = False\<rparr> in
      if allowAll allowed then cfg\<lparr>cc_AllowAllOrigins := True\<rparr>
      else cfg\<lparr>cc_AllowOrigins := normalizeOrigins allowed\<rparr>)"

text \<open>The function that \<open>CheckOrigin\<close> returns, applied to the \<open>Origin\<close> header of a request.\<close>

definition CheckOrigin :: "string list \<Rightarrow> string \<Rightarrow> bool" where
  "CheckOrigin allowed =
     (if allowAll allowed then (\<lambda>origin. True)
      else let seen = normalizeOrigins allowed in (\<lambda>origin. if origin = [] then False else origin \<in> set seen))"

lemma any_star_iff: "any_star ss \<longleftrightarrow> (\<exists>s\<in>set ss. TrimSpace s = ''*'')"
  by (induction ss) auto

lemma set_normalizeOrigins:
  "set (normalizeOrigins ss) = {TrimRightSlashes (TrimSpace s) | s. s \<in> set ss \<and> TrimSpace s \<noteq> [] \<and> TrimSpace s \<noteq> ''*''}"
  by (induction ss) (auto simp: Let_def)

lemma TrimRightSlashes_end: "TrimRightSlashes s \<noteq> [] \<Longrightarrow> last (TrimRightSlashes s) \<noteq> CHR ''/''"
  using hd_dropWhile [of "\<lambda>c. c = CHR ''/''" "rev s"] by (auto simp: TrimRightSlashes_def last_rev)


text \<open>The comment of \<open>GinConfig\<close> promises every origin only for an empty list or for wildcards alone.\<close>

lemma wildcard_beside_origins: "CheckOrigin [''https://a.org'', ''*''] ''https://b.org''"
  by code_simp

end
