(* ===== verification/Api_Router.thy ===== *)
theory Api_Router
  imports Api_Admin Api_Auth Cors
begin

text \<open>
  The router, \<^verbatim>\<open>internal/api/router.go\<close> with the \<open>register...Routes\<close> functions of the handler files: the
  services that \<open>NewRouter\<close> builds from its dependencies, and for each registered route the handler behind its
  middleware.  Matching a path against the routes is up to \<open>gin\<close>, and the cross-origin middleware in front of the
  routes is the parameter \<open>cors\<close> of \<open>ServeHTTP\<close>.  The theorem holds for every backend: which requests are turned away
  before a handler touches a backend, and that every answer of the routes is well formed.
\<close>

section \<open>The server\<close>

text \<open>
  What the Go runtime provides: the clock, the packages behind the account service and the chat, the random
  source of the codes, the variables of the account handler, and \<open>hs_go\<close>, which starts a goroutine;
  \<open>hs_fuel\<close> bounds the chat scan of one cleanup.
\<close>

record 'w Host =
  hs_now :: "('w, gotime) io"
  hs_pkg :: "'w AuthPkg"
  hs_rt :: "'w Runtime"
  hs_newCode :: "int \<Rightarrow> ('w, error + string) io"
  hs_ipLimiter :: "('w, slidingWindowLimiter) Ref"
  hs_regLastHit :: "('w, (string, gotime) gomap) Ref"
  hs_go :: "('w, error option option) io \<Rightarrow> ('w, unit) io"
  hs_fuel :: nat

record 'w Server =
  sr_deps :: "'w Dependencies"
  sr_pkg :: "'w AuthPkg"
  sr_auth :: "'w AuthService"
  sr_rooms :: "'w Service"
  sr_handler :: "'w authHandler"
  sr_ticker :: "('w, error option option) io option"

definition rooms_of :: "'w Host \<Rightarrow> 'w Dependencies \<Rightarrow> 'w Service" where
  "rooms_of host deps =
     NewService (hs_now host) (hs_rt host) (dp_RoomStateCache deps) (dp_RoomPresence deps) (Some (dp_RoomStore deps))
       (dp_RoomAccess deps) (map_option rl_Publisher (dp_Realtime deps)) (dp_RoomChat deps)
       (ChatLimitsFromConfig (dp_Config deps))"

definition auth_of :: "'w Host \<Rightarrow> 'w Dependencies \<Rightarrow> 'w AuthService" where
  "auth_of host deps =
     SetAfterLogin
       (do { _ \<leftarrow> hs_go host (MaybeRunGlobalCleanup (hs_fuel host) (rooms_of host deps)); State_Monad.return None })
       (NewAuthService (hs_now host) (hs_pkg host) (dp_UserStore deps) (dp_SessionCache deps)
          (map_option ec_Verify (dp_EmailCodes deps)) (dp_Config deps))"

text \<open>\<open>sr_ticker\<close> is the job that a goroutine runs every 30 seconds, when there is one.\<close>

definition NewRouter :: "'w Host \<Rightarrow> 'w Dependencies \<Rightarrow> 'w Server" where
  "NewRouter host deps =
     (let authService = auth_of host deps; rooms = rooms_of host deps in
      \<lparr>sr_deps = deps, sr_pkg = hs_pkg host, sr_auth = authService, sr_rooms = rooms,
       sr_handler = \<lparr>ah_auth = authService, ah_users = dp_UserStore deps, ah_sender = dp_EmailSender deps,
         ah_codes = dp_EmailCodes deps, ah_cfg = dp_Config deps, ah_ipLimiter = hs_ipLimiter host,
         ah_regLastHit = hs_regLastHit host, ah_now = hs_now host, ah_newCode = hs_newCode host\<rparr>,
       sr_ticker = (if dp_RoomChat deps \<noteq> None \<and> dp_Realtime deps \<noteq> None
         then Some (ProcessGlobalChatPending (hs_fuel host) rooms) else None)\<rparr>)"

text \<open>One constructor per route, with the decoded body.\<close>

datatype endpoint =
    NoRoute | Healthz
  | PostRegisterCode "emailOnlyRequest bound" | PostRegister "registerRequest bound"
  | PostResetCode "emailOnlyRequest bound" | PostReset "resetPasswordRequest bound"
  | PostLogin "loginRequest bound" | PostRefresh "refreshRequest bound"
  | PostLogout "logoutRequest bound" | GetMe
  | GetAdminRooms | GetDebugRooms
  | PostAblyToken "ablyTokenRequest bound" | PostRooms "createRoomRequest bound" | GetRooms
  | GetRoom | DeleteRoom | PostJoin "joinRoomRequest bound" | PostLeave | PostKick | GetState
  | PostControl "controlRoomRequest bound" | PostSnapshot "roomSnapshotRequest bound"
  | PostChat "postRoomChatRequest bound" | GetChat

definition healthz :: "'w Dependencies \<Rightarrow> Ctx \<Rightarrow> ('w, Response) io" where
  "healthz deps c = State_Monad.return (JSON 200 (JObj
     [(''status'', JStr ''ok''), (''storage_backend'', JStr (cf_StorageBackend (dp_Config deps))),
      (''cache_backend'', JStr (cf_CacheBackend (dp_Config deps)))]))"

text \<open>The handlers that run behind \<open>requireAuth\<close>, the last two behind \<open>requireAdmin\<close> too.\<close>

fun protected_handler :: "'w Server \<Rightarrow> endpoint \<Rightarrow> (Ctx \<Rightarrow> ('w, Response) io) option" where
  "protected_handler s (PostLogout b) = Some (logout (sr_handler s) b)"
| "protected_handler s GetMe = Some (me (sr_handler s))"
| "protected_handler s (PostAblyToken b) = Some (ablyToken (sr_deps s) (sr_pkg s) b)"
| "protected_handler s (PostRooms b) = Some (create (sr_deps s) (sr_pkg s) b)"
| "protected_handler s GetRooms = Some (list_rooms (sr_deps s) (sr_rooms s))"
| "protected_handler s GetRoom = Some (get_room_info (sr_deps s) (sr_rooms s))"
| "protected_handler s DeleteRoom = Some (delete_room_handler (sr_deps s) (sr_rooms s))"
| "protected_handler s (PostJoin b) = Some (join_room_handler (sr_deps s) (sr_pkg s) (sr_rooms s) b)"
| "protected_handler s PostLeave = Some (leave_room_handler (sr_deps s) (sr_rooms s))"
| "protected_handler s PostKick = Some (kick (sr_deps s) (sr_rooms s))"
| "protected_handler s GetState = Some (room_state_handler (sr_deps s) (sr_rooms s))"
| "protected_handler s (PostControl b) = Some (control (sr_deps s) (sr_rooms s) b)"
| "protected_handler s (PostSnapshot b) = Some (snapshot (sr_deps s) (sr_pkg s) (sr_rooms s) b)"
| "protected_handler s (PostChat b) = Some (postRoomChat (sr_deps s) (sr_pkg s) (sr_rooms s) b)"
| "protected_handler s GetChat = Some (listRoomChat (sr_deps s) (sr_pkg s) (sr_rooms s))"
| "protected_handler s GetAdminRooms = Some (requireAdmin (admin_listRooms (sr_deps s) (sr_rooms s)))"
| "protected_handler s GetDebugRooms = Some (requireAdmin (debug_rooms (sr_deps s) (sr_rooms s)))"
| "protected_handler s _ = None"

fun open_handler :: "'w Server \<Rightarrow> endpoint \<Rightarrow> Ctx \<Rightarrow> ('w, Response) io" where
  "open_handler s Healthz c = healthz (sr_deps s) c"
| "open_handler s (PostRegisterCode b) c = registerSendCode (sr_handler s) b c"
| "open_handler s (PostRegister b) c = register (sr_handler s) b c"
| "open_handler s (PostResetCode b) c = resetSendCode (sr_handler s) b c"
| "open_handler s (PostReset b) c = resetPassword (sr_handler s) b c"
| "open_handler s (PostLogin b) c = login (sr_handler s) b c"
| "open_handler s (PostRefresh b) c = refresh (sr_handler s) b c"
| "open_handler s _ c = Abort (NotFound ''route not found'')"

text \<open>A request starts without claims.\<close>

definition serve :: "'w Server \<Rightarrow> endpoint \<Rightarrow> Ctx \<Rightarrow> ('w, Response) io" where
  "serve s e c =
     (let c0 = c\<lparr>cx_claims := None\<rparr> in
      case protected_handler s e of
        Some h \<Rightarrow> requireAuth (sr_auth s) h c0
      | None \<Rightarrow> open_handler s e c0)"

text \<open>
  \<open>router.Use(cors.New(corsutil.GinConfig(deps.Config.CorsOrigins)))\<close> puts the middleware of \<open>gin-contrib/cors\<close> in
  front of every route, the unknown ones included.  The package is not part of the repository: \<open>cors\<close> stands for it, a
  function of its configuration and of the request's method, host and \<open>Origin\<close> header.  With \<open>Some\<close> answer the
  middleware ends the request itself, as it does for a refused origin or a preflight; with \<open>None\<close> the request goes on
  to its route.  The headers that it adds to other answers are not part of \<open>Response\<close>.
\<close>

record RequestHead =
  rh_Method :: string
  rh_Host :: string
  rh_Origin :: string

type_synonym CorsMiddleware = "CorsConfig \<Rightarrow> RequestHead \<Rightarrow> Response option"

definition ServeHTTP ::
  "CorsMiddleware \<Rightarrow> 'w Server \<Rightarrow> RequestHead \<Rightarrow> endpoint \<Rightarrow> Ctx \<Rightarrow> ('w, Response) io" where
  "ServeHTTP cors s req e c =
     (case cors (GinConfig (cf_CorsOrigins (dp_Config (sr_deps s)))) req of
        Some resp \<Rightarrow> State_Monad.return resp
      | None \<Rightarrow> serve s e c)"

section \<open>Well-formed answers\<close>

text \<open>
  \<open>status_code\<close> is the table of package \<open>apierr\<close>.  An answer is well formed when it is a success with the body its
  status asks for, or an error with the body \<open>{"error": {"code": ..., "message": ...}}\<close> whose code belongs to the
  status, or the answer to a panic; only a 429 carries \<open>Retry-After\<close>, at least one second.
\<close>

definition status_code :: "int \<Rightarrow> string option" where
  "status_code = map_of [(400, ''INVALID_REQUEST''), (401, ''UNAUTHORIZED''), (403, ''FORBIDDEN''), (404, ''NOT_FOUND''),
     (409, ''CONFLICT''), (429, ''RATE_LIMITED''), (500, ''INTERNAL_ERROR''), (413, ''PAYLOAD_TOO_LARGE''),
     (503, ''SERVICE_UNAVAILABLE'')]"

definition error_body :: "string \<Rightarrow> json \<Rightarrow> bool" where
  "error_body code body \<longleftrightarrow>
     (case body of
        JObj [(e, JObj [(a, JStr c), (b, JStr m)])] \<Rightarrow>
          e = ''error'' \<and> a = ''code'' \<and> b = ''message'' \<and> c = code \<and> m \<noteq> []
      | _ \<Rightarrow> False)"

definition well_formed :: "Response \<Rightarrow> bool" where
  "well_formed r \<longleftrightarrow>
     (case rp_Body r of
        None \<Rightarrow> rp_Status r = 204 \<or> rp_Status r = 500
      | Some body \<Rightarrow> rp_Status r = 200 \<or> rp_Status r = 201 \<or>
          (case status_code (rp_Status r) of Some code \<Rightarrow> error_body code body | None \<Rightarrow> False)) \<and>
     (case rp_RetryAfter r of None \<Rightarrow> True | Some sec \<Rightarrow> rp_Status r = 429 \<and> 1 \<le> sec)"

text \<open>\<open>answers P m\<close>: whatever the world, the program \<open>m\<close> returns a value with \<open>P\<close>.\<close>

definition answers :: "('a \<Rightarrow> bool) \<Rightarrow> ('w, 'a) io \<Rightarrow> bool" where
  "answers P m \<longleftrightarrow> (\<forall>w. P (fst (run_state m w)))"

named_theorems answer_rules \<open>rules that follow the program to its answers\<close>

lemma answers_bind [answer_rules]: "(\<And>x. answers P (f x)) \<Longrightarrow> answers P (m \<bind> f)"
  by (simp add: answers_def)

lemma answers_return [answer_rules]: "P x \<Longrightarrow> answers P (State_Monad.return x)"
  by (simp add: answers_def)

lemma answers_Abort [answer_rules]: "P (Respond e) \<Longrightarrow> answers P (Abort e)"
  by (simp add: answers_def)

lemma answers_branch [answer_rules]:
  "(b \<Longrightarrow> answers P m) \<Longrightarrow> (\<not> b \<Longrightarrow> answers P n) \<Longrightarrow> answers P (if b then m else n)"
  "(x = None \<Longrightarrow> answers P m) \<Longrightarrow> (\<And>y. x = Some y \<Longrightarrow> answers P (f y)) \<Longrightarrow>
     answers P (case x of None \<Rightarrow> m | Some y \<Rightarrow> f y)"
  "(\<And>e. z = Inl e \<Longrightarrow> answers P (g e)) \<Longrightarrow> (\<And>y. z = Inr y \<Longrightarrow> answers P (h y)) \<Longrightarrow>
     answers P (case z of Inl e \<Rightarrow> g e | Inr y \<Rightarrow> h y)"
  "(\<And>y y'. p = (y, y') \<Longrightarrow> answers P (k y y')) \<Longrightarrow> answers P (case p of (y, y') \<Rightarrow> k y y')"
  by (auto split: option.split sum.split prod.split)

lemma answers_let [answer_rules]: "answers P (f x) \<Longrightarrow> answers P (let y = x in f y)"
  by simp

lemma well_formed_ok [simp]: "well_formed (JSON 200 b)" "well_formed (JSON 201 b)" "well_formed (Status 204)" "well_formed (Status 500)"
  by (simp_all add: well_formed_def)

lemma well_formed_error [simp]:
  "m \<noteq> [] \<Longrightarrow> well_formed (Respond (InvalidRequest m))" "m \<noteq> [] \<Longrightarrow> well_formed (Respond (Unauthorized m))"
  "m \<noteq> [] \<Longrightarrow> well_formed (Respond (Forbidden m))" "m \<noteq> [] \<Longrightarrow> well_formed (Respond (NotFound m))"
  "m \<noteq> [] \<Longrightarrow> well_formed (Respond (Conflict m))" "m \<noteq> [] \<Longrightarrow> well_formed (Respond (TooManyRequests m))"
  "m \<noteq> [] \<Longrightarrow> well_formed (Respond (Internal m))" "m \<noteq> [] \<Longrightarrow> well_formed (Respond (PayloadTooLarge m))"
  "m \<noteq> [] \<Longrightarrow> well_formed (Respond (ServiceUnavailable m))" "well_formed (Respond (PlainErr e))"
  by (simp_all add: Respond_def well_formed_def status_code_def error_body_def InvalidRequest_def Unauthorized_def
    Forbidden_def NotFound_def Conflict_def TooManyRequests_def Internal_def PayloadTooLarge_def
    ServiceUnavailable_def NewApiError_def)

lemma well_formed_mapped [simp]: "well_formed (Respond (mapError e))" "well_formed (Respond (authError e))"
  by (simp_all add: mapError_def authError_def split: error.split)

lemma well_formed_too_many [simp]: "m \<noteq> [] \<Longrightarrow> 1 \<le> sec \<Longrightarrow> well_formed (too_many sec m)"
  by (simp add: too_many_def well_formed_def Respond_def TooManyRequests_def NewApiError_def JSON_def status_code_def error_body_def)

lemma retry_seconds_pos [simp]: "1 \<le> retry_seconds d"
  by (simp add: retry_seconds_def Let_def)

lemma answers_error [answer_rules]:
  "answers well_formed (writeError e)" "answers well_formed (respondStoreError e)"
  "answers well_formed (respondAuthError e)" "answers well_formed (respondCodeErr e)"
  "answers well_formed (respondChatErr e)"
  by (auto simp: answers_def respondAuthError_def respondCodeErr_def respondChatErr_def split: error.split)

lemma answers_loadRoom [answer_rules]: "(\<And>room. answers well_formed (rest room)) \<Longrightarrow> answers well_formed (loadRoom deps c rest)"
  unfolding loadRoom_def by (intro answer_rules)

lemma answers_require [answer_rules]:
  "(\<And>c. answers well_formed (h c)) \<Longrightarrow> answers well_formed (requireAuth s h c)"
  "(\<And>c. answers well_formed (h c)) \<Longrightarrow> answers well_formed (requireAdmin h c)"
  unfolding requireAuth_def requireAdmin_def by (intro answer_rules; simp)+

lemma answers_rooms [answer_rules]:
  "answers well_formed (create deps pkg cb c)" "answers well_formed (list_rooms deps rooms c)"
  "answers well_formed (get_room_info deps rooms c)" "answers well_formed (delete_room_handler deps rooms c)"
  "answers well_formed (join_room_handler deps pkg rooms jb c)" "answers well_formed (leave_room_handler deps rooms c)"
  "answers well_formed (kick deps rooms c)" "answers well_formed (room_state_handler deps rooms c)"
  "answers well_formed (ablyToken deps pkg ab c)" "answers well_formed (control deps rooms kb c)"
  "answers well_formed (snapshot deps pkg rooms sb c)" "answers well_formed (postRoomChat deps pkg rooms pb c)"
  "answers well_formed (listRoomChat deps pkg rooms c)"
  unfolding create_def list_rooms_def get_room_info_def delete_room_handler_def join_room_handler_def
    leave_room_handler_def kick_def room_state_handler_def ablyToken_def control_def snapshot_def postRoomChat_def
    listRoomChat_def Let_def
  by ((intro answer_rules)?; simp)+

lemma answers_admin [answer_rules]:
  "answers well_formed (admin_listRooms deps rooms c)" "answers well_formed (debug_rooms deps rooms c)"
  unfolding admin_listRooms_def debug_rooms_def Let_def by (intro answer_rules; simp)+

lemma answers_codes [answer_rules]:
  "answers well_formed (writeRegisterCodeOK h)" "answers well_formed (fakeRegisterCodeOK h e)"
  "answers well_formed (send_code h codes e p)"
  unfolding writeRegisterCodeOK_def fakeRegisterCodeOK_def send_code_def Let_def by (intro answer_rules; simp)+

lemma answers_auth [answer_rules]:
  "answers well_formed (registerSendCode h eb c)" "answers well_formed (resetSendCode h eb c)"
  "answers well_formed (register h rb c)" "answers well_formed (resetPassword h wb c)"
  "answers well_formed (login h lb c)" "answers well_formed (refresh h fb c)" "answers well_formed (logout h ob c)"
  "answers well_formed (me h c)" "answers well_formed (healthz deps c)"
  unfolding registerSendCode_def resetSendCode_def register_def resetPassword_def login_def refresh_def logout_def
    me_def healthz_def
  by (intro answer_rules; simp)+

lemma answers_protected: "protected_handler s e = Some h \<Longrightarrow> answers well_formed (h c)"
  by (cases e) (auto intro: answer_rules)

lemma serve_well_formed: "well_formed (fst (run_state (serve s e c) w))"
proof -
  have "answers well_formed (open_handler s e c')" for c'
    by (cases e) (auto intro: answer_rules)
  then have "answers well_formed (serve s e c)"
    unfolding serve_def Let_def by (intro answer_rules; simp add: answers_protected)
  then show ?thesis by (simp add: answers_def)
qed

section \<open>Requests that are turned away\<close>

text \<open>
  Which routes are open to everybody, which are for admins, and which decode their body before they do anything else;
  \<open>turned_away\<close> is the status with which a request is refused before its handler has touched a backend, with the world
  at that moment: only the check of the token may have looked at the session cache and the clock.
\<close>

fun open_route :: "endpoint \<Rightarrow> bool" where
  "open_route NoRoute \<longleftrightarrow> True"
| "open_route Healthz \<longleftrightarrow> True"
| "open_route (PostRegisterCode b) \<longleftrightarrow> True"
| "open_route (PostRegister b) \<longleftrightarrow> True"
| "open_route (PostResetCode b) \<longleftrightarrow> True"
| "open_route (PostReset b) \<longleftrightarrow> True"
| "open_route (PostLogin b) \<longleftrightarrow> True"
| "open_route (PostRefresh b) \<longleftrightarrow> True"
| "open_route _ \<longleftrightarrow> False"

definition admin_route :: "endpoint \<Rightarrow> bool" where
  "admin_route e \<longleftrightarrow> e = GetAdminRooms \<or> e = GetDebugRooms"

fun broken_body :: "endpoint \<Rightarrow> bool" where
  "broken_body (PostRegisterCode b) \<longleftrightarrow> fst b \<noteq> None"
| "broken_body (PostRegister b) \<longleftrightarrow> fst b \<noteq> None"
| "broken_body (PostResetCode b) \<longleftrightarrow> fst b \<noteq> None"
| "broken_body (PostReset b) \<longleftrightarrow> fst b \<noteq> None"
| "broken_body (PostLogin b) \<longleftrightarrow> fst b \<noteq> None"
| "broken_body (PostRefresh b) \<longleftrightarrow> fst b \<noteq> None"
| "broken_body (PostRooms b) \<longleftrightarrow> fst b \<noteq> None"
| "broken_body _ \<longleftrightarrow> False"

definition turned_away :: "'w Server \<Rightarrow> endpoint \<Rightarrow> Ctx \<Rightarrow> 'w \<Rightarrow> int option \<times> 'w" where
  "turned_away s e c w =
     (let body = (if broken_body e then Some 400 else None) in
      if e = NoRoute then (Some 404, w)
      else if open_route e then (body, w)
      else
        case run_state (ParseToken (sr_auth s) (ExtractBearer (cx_Authorization c)) TokenTypeAccess) w of
          (Inl _, w1) \<Rightarrow> (Some 401, w1)
        | (Inr k, w1) \<Rightarrow> (if admin_route e \<and> ck_Role k \<noteq> UserRoleAdmin then Some 403 else body, w1))"

lemma open_route_iff: "open_route e \<longleftrightarrow> protected_handler s e = None"
  by (cases e) simp_all

lemma refused_open:
  assumes "open_route e" and "e = NoRoute \<or> broken_body e"
  shows "\<exists>resp. run_state (open_handler s e c) w = (resp, w) \<and> rp_Status resp = (if e = NoRoute then 404 else 400)"
  using assms
  by (cases e)
    (auto simp: registerSendCode_def register_def resetSendCode_def resetPassword_def login_def refresh_def Abort_def
      split: prod.splits)

lemma refused_protected:
  assumes "protected_handler s e = Some h"
  shows "admin_route e \<Longrightarrow> ck_Role (currentClaims c) \<noteq> UserRoleAdmin \<Longrightarrow>
      \<exists>resp. run_state (h c) w = (resp, w) \<and> rp_Status resp = 403"
    and "broken_body e \<Longrightarrow> \<exists>resp. run_state (h c) w = (resp, w) \<and> rp_Status resp = 400"
  using assms by (cases e; auto simp: admin_route_def requireAdmin_def create_def Abort_def split: prod.splits)+

lemma serve_turned_away:
  assumes away: "turned_away s e c w = (Some status, w1)"
  shows "\<exists>resp. run_state (serve s e c) w = (resp, w1) \<and> rp_Status resp = status"
proof (cases "protected_handler s e")
  case None
  then have "e = NoRoute \<or> broken_body e" "w1 = w" "status = (if e = NoRoute then 404 else 400)"
    using away open_route_iff [of e s] by (auto simp: turned_away_def Let_def split: if_splits)
  then show ?thesis
    using None refused_open [of e s "c\<lparr>cx_claims := None\<rparr>" w] open_route_iff [of e s] by (simp add: serve_def Let_def)
next
  case (Some h)
  then have e: "\<not> open_route e" "e \<noteq> NoRoute" using open_route_iff [of e s] by auto
  obtain r w2 where parse: "run_state (ParseToken (sr_auth s) (ExtractBearer (cx_Authorization c)) TokenTypeAccess) w = (r, w2)"
    by (cases "run_state (ParseToken (sr_auth s) (ExtractBearer (cx_Authorization c)) TokenTypeAccess) w")
  show ?thesis
  proof (cases r)
    case (Inl err)
    then show ?thesis
      using away parse e Some by (auto simp: turned_away_def serve_def requireAuth_def Let_def Abort_def)
  next
    case (Inr k)
    define c1 where "c1 = c\<lparr>cx_claims := Some k\<rparr>"
    have run: "run_state (serve s e c) w = run_state (h c1) w2" and role: "ck_Role (currentClaims c1) = ck_Role k"
      using Some parse Inr by (simp_all add: serve_def requireAuth_def Let_def c1_def currentClaims_def)
    have "w1 = w2" "admin_route e \<and> ck_Role k \<noteq> UserRoleAdmin \<and> status = 403 \<or> broken_body e \<and> status = 400"
      using away parse e Inr by (auto simp: turned_away_def Let_def split: if_splits)
    then show ?thesis
      unfolding run using refused_protected [OF Some, of c1 w2] role by metis
  qed
qed

text \<open>
  C39: what the API answers, for every route, request, backend and cross-origin middleware.  When the middleware ends
  the request, its answer is the answer and nothing has happened.  Otherwise the answer is well formed, and a request
  is turned away before anything but its token was looked at: an unknown route with 404, a request without a valid
  access token on any route but the open ones with 401, a user without the admin role on the admin routes with 403, and
  an undecodable body on the account routes and on the creation of a room with 400.
\<close>

theorem api_answers:
  "case cors (GinConfig (cf_CorsOrigins (dp_Config (sr_deps s)))) req of
     Some resp \<Rightarrow> run_state (ServeHTTP cors s req e c) w = (resp, w)
   | None \<Rightarrow>
       well_formed (fst (run_state (ServeHTTP cors s req e c) w)) \<and>
       (case turned_away s e c w of
          (Some status, w1) \<Rightarrow>
            rp_Status (fst (run_state (ServeHTTP cors s req e c) w)) = status \<and>
            snd (run_state (ServeHTTP cors s req e c) w) = w1
        | (None, _) \<Rightarrow> True)"
  using serve_well_formed [of s e c w] serve_turned_away [of s e c w]
  by (auto simp: ServeHTTP_def split: option.splits prod.splits)

end
