(* ===== verification/Api_Access.thy ===== *)
theory Api_Access
  imports Api_Router Room_Runs
begin

text \<open>
  The room endpoints against the contracts of theory \<open>Room_Interfaces\<close>: who may do what to a room, and what each
  handler does to the abstract room database.
\<close>

section \<open>Rights\<close>

text \<open>Who manages a room, who may enter it, and what presenting a password leaves behind.\<close>

definition manages :: "Claims \<Rightarrow> Room \<Rightarrow> bool" where
  "manages k room \<longleftrightarrow> ck_UserID k \<noteq> [] \<and> (ck_Role k = UserRoleAdmin \<or> rm_OwnerID room = ck_UserID k)"

definition enters_freely :: "Claims \<Rightarrow> Room \<Rightarrow> room_abs \<Rightarrow> bool" where
  "enters_freely k room a \<longleftrightarrow>
     rm_Visibility room \<noteq> RoomVisibilityPrivate \<or> manages k room \<or>
     ck_UserID k \<noteq> [] \<and> rm_ID room \<noteq> [] \<and> (rm_ID room, ck_UserID k) \<in> ab_access a"

definition may_enter :: "'w AuthPkg \<Rightarrow> Claims \<Rightarrow> string \<Rightarrow> Room \<Rightarrow> room_abs \<Rightarrow> bool" where
  "may_enter pkg k password room a \<longleftrightarrow> enters_freely k room a \<or> CheckPassword pkg (rm_PasswordHash room) password"

definition entering :: "'w AuthPkg \<Rightarrow> Claims \<Rightarrow> string \<Rightarrow> Room \<Rightarrow> room_abs \<Rightarrow> room_abs" where
  "entering pkg k password room a =
     (if \<not> enters_freely k room a \<and> CheckPassword pkg (rm_PasswordHash room) password \<and> ck_UserID k \<noteq> [] \<and> rm_ID room \<noteq> []
      then a\<lparr>ab_access := insert (rm_ID room, ck_UserID k) (ab_access a)\<rparr> else a)"

lemma canManageRoom_iff [simp]: "canManageRoom c room \<longleftrightarrow> manages (currentClaims c) room"
  by (simp add: canManageRoom_def manages_def currentUser_def Let_def)

text \<open>The handlers use the backends of the room service.\<close>

definition api_on ::
  "'w Dependencies \<Rightarrow> 'w Service \<Rightarrow> 'w RoomStateCache \<Rightarrow> 'w RoomPresence \<Rightarrow> 'w RoomAccessCache \<Rightarrow> 'w RoomStore \<Rightarrow>
   'w Publisher \<Rightarrow> ('w, gotime) io \<Rightarrow> 'w RoomChat option \<Rightarrow> bool" where
  "api_on deps rooms sc pr acc rst pub clk ch \<longleftrightarrow>
     backed_by rooms sc pr acc rst pub clk ch \<and> dp_RoomStore deps = rst \<and> dp_RoomStateCache deps = sc \<and>
     dp_RoomPresence deps = Some pr \<and> dp_RoomAccess deps = Some acc"

lemma api_onD:
  assumes "api_on deps rooms sc pr acc rst pub clk ch"
  shows "backed_by rooms sc pr acc rst pub clk ch" "dp_RoomStore deps = rst" "dp_RoomStateCache deps = sc"
    "dp_RoomPresence deps = Some pr" "dp_RoomAccess deps = Some acc"
  using assms by (simp_all add: api_on_def)

definition room_of :: "Ctx \<Rightarrow> room_abs \<Rightarrow> Room option" where
  "room_of c a = ab_rooms a (TrimSpace (cx_roomId c))"

text \<open>The answer to a store error, or to its absence.\<close>

definition done_or :: "error option \<Rightarrow> Response \<Rightarrow> Response" where
  "done_or e r = (case e of None \<Rightarrow> r | Some err \<Rightarrow> Respond (mapError err))"

definition event_message :: "string \<Rightarrow> HubUser option \<Rightarrow> Message" where
  "event_message event user = Message0\<lparr>ms_Type := ''room_event'', ms_Event := event, ms_User := user\<rparr>"

text \<open>What the handlers that change a room do to the abstract database, once their guards let them through.\<close>

definition deletes :: "bool \<Rightarrow> Claims \<Rightarrow> Room \<Rightarrow> Response \<Rightarrow> room_abs \<Rightarrow> room_abs \<Rightarrow> bool" where
  "deletes chat k room resp a a' \<longleftrightarrow>
     (\<exists>e. resp = done_or e (Status 204) \<and>
        tail_closed chat (rm_ID room) (Some (roomUserFromClaims (Some k) room)) e
          (a\<lparr>ab_rooms := (ab_rooms a)(rm_ID room := None), ab_states := (ab_states a)(rm_ID room := None)\<rparr>) a')"

definition kicks :: "string \<Rightarrow> Room \<Rightarrow> Response \<Rightarrow> room_abs \<Rightarrow> room_abs \<Rightarrow> bool" where
  "kicks u room resp a a' \<longleftrightarrow>
     (\<exists>e. resp = done_or e (Status 204) \<and>
        a' = published e (rm_ID room) ''room.event'' (event_message ''user_kicked'' (Some (HubUser0\<lparr>hu_ID := u\<rparr>)))
          (abs_leave (rm_ID room) u a))"

definition leaves :: "Claims \<Rightarrow> Room \<Rightarrow> Response \<Rightarrow> room_abs \<Rightarrow> room_abs \<Rightarrow> bool" where
  "leaves k room resp a a' \<longleftrightarrow>
     (\<exists>e. resp = Status 204 \<and>
        a' = published e (rm_ID room) ''room.event'' (event_message ''user_left'' (Some (roomUserFromClaims (Some k) room)))
          (abs_leave (rm_ID room) (ck_UserID k) a))"

definition joins :: "Claims \<Rightarrow> Room \<Rightarrow> Response \<Rightarrow> room_abs \<Rightarrow> room_abs \<Rightarrow> bool" where
  "joins k room resp a a' \<longleftrightarrow>
     (\<exists>e e'.
        let u = roomUserFromClaims (Some k) room; r = rm_ID room;
            lft = (case room_left (ab_seat a) r (ck_UserID k) of None \<Rightarrow> [] | Some r' \<Rightarrow> r');
            a1 = abs_join r (ck_UserID k) (ck_Username k) a;
            a2 = (if lft = [] then a1 else published e lft ''room.event'' (event_message ''user_left'' (Some u)) a1)
        in resp = JSON 200 (roomResponse room (rm_OwnerID room = ck_UserID k) lft) \<and>
           a' = published e' r ''room.event'' (event_message ''user_joined'' (Some u)) a2)"

definition control_input :: "controlRoomRequest \<Rightarrow> ControlInput" where
  "control_input req = \<lparr>ci_Action = kq_Action req, ci_Position = kq_Position req, ci_VideoID = TrimSpace (kq_VideoID req),
     ci_Queue = cleanQueue (kq_Queue req), ci_PlaybackMode = kq_PlaybackMode req, ci_ClientVersion = kq_ControlVersion req,
     ci_VideoDuration = kq_VideoDuration req\<rparr>"

definition control_ok :: "controlRoomRequest bound \<Rightarrow> bool" where
  "control_ok body \<longleftrightarrow> fst body = None \<and> validPlaybackAction (kq_Action (snd body)) \<and>
     (TrimSpace (kq_VideoID (snd body)) = [] \<or> IsPlaybackURL (TrimSpace (kq_VideoID (snd body))))"

definition controls :: "Claims \<Rightarrow> Room \<Rightarrow> controlRoomRequest \<Rightarrow> Response \<Rightarrow> room_abs \<Rightarrow> room_abs \<Rightarrow> bool" where
  "controls k room req resp a a' \<longleftrightarrow>
     (\<exists>t m e. ab_now a \<le> t \<and>
        abs_control (rm_ID room) (roomUserFromClaims (Some k) room) (control_input req) t m e a a' \<and>
        rp_Status resp = (if e = None then 200 else if e = Some ErrForbidden then 403 else if e = Some ErrStaleControl then 409
          else rp_Status (Respond (mapError (the e)))) \<and>
        (e = None \<longrightarrow> resp = JSON 200 (message_json m)))"

lemma manages_user: "manages (currentClaims c) room \<Longrightarrow> currentUser c = Some (currentClaims c)"
  by (simp add: manages_def currentUser_def)

lemma roomUser_sel [simp]:
  "hu_ID (roomUserFromClaims (Some k) room) = ck_UserID k" "hu_Username (roomUserFromClaims (Some k) room) = ck_Username k"
  "hu_Role (roomUserFromClaims (Some k) room) = ck_Role k"
  "hu_IsOwner (roomUserFromClaims (Some k) room) = (rm_OwnerID room = ck_UserID k)"
  by (simp_all add: roomUserFromClaims_def)

lemma manages_may_control: "manages k room \<Longrightarrow> may_control (roomUserFromClaims (Some k) room)"
  by (auto simp: may_control_def manages_def)

lemma ensures_run:
  assumes "\<And>w x w'. live w \<Longrightarrow> run_state m w = (x, w') \<Longrightarrow> A w = a \<Longrightarrow> live w' \<and> Q x (A w')"
  shows "ensures live A m a Q"
  by (rule ensuresI) (metis assms prod.collapse)

context room_backend
begin

lemma canAccessRoom_spec:
  assumes "api_on deps rooms sc pr acc rst pub clk ch"
  shows "ensures live A (canAccessRoom deps pkg c room (ck_UserID (currentClaims c)) password) a
    (\<lambda>x a'. x = may_enter pkg (currentClaims c) password room a \<and>
       a' = (if x then entering pkg (currentClaims c) password room a else a))"
  unfolding canAccessRoom_def has_grant_def give_grant_def api_onD(5) [OF assms] option.case canManageRoom_iff
  by (rule ensuresI)
    (auto simp: may_enter_def enters_freely_def entering_def manages_def ensuresD [OF has_access] ensuresD [OF grant_access])

text \<open>Loading a room: a missing one is answered with 404, the database stays as it is.\<close>

lemma loadRoom_spec:
  assumes "dp_RoomStore deps = rst"
    and "room_of c a = None \<Longrightarrow> Q (Respond (NotFound ''resource not found'')) a"
    and "\<And>room. room_of c a = Some room \<Longrightarrow> ensures live A (rest room) a Q"
  shows "ensures live A (loadRoom deps c rest) a Q"
  unfolding loadRoom_def assms(1)
  by (rule ensures_step [OF get_room]) (use assms(2,3) in \<open>auto simp: room_of_def respondStoreError_def writeError_def
    mapError_def Abort_def ensures_def split: option.split\<close>)

lemma Abort_spec [intro]: "Q (Respond e) a \<Longrightarrow> ensures live A (Abort e) a Q"
  by (simp add: ensures_def)

lemma PublishRoomEvent_spec:
  assumes "backed_by rooms sc pr acc rst pub clk ch"
  shows "ensures live A (PublishRoomEvent rooms r event user) a (\<lambda>e a'. a' = published e r ''room.event'' (event_message event user) a)"
  by (rule ensuresI) (use PublishRoomEvent_run [OF assms] in \<open>simp add: event_message_def\<close>)

lemma CloseRoom_spec:
  assumes "backed_by rooms sc pr acc rst pub clk ch"
  shows "ensures live A (CloseRoom rooms r user) a
    (\<lambda>e a'. tail_closed (ch \<noteq> None) r user e (a\<lparr>ab_states := (ab_states a)(r := None)\<rparr>) a')"
  by (rule ensures_run) (use CloseRoom_run [OF assms] in auto)

lemma done_spec: "ensures live A (case e of None \<Rightarrow> State_Monad.return resp | Some err \<Rightarrow> respondStoreError err) a
    (\<lambda>x a'. x = done_or e resp \<and> a' = a)"
  by (auto simp: ensures_def done_or_def split: option.split)

lemma stored_room:
  assumes "live w" "A w = a" "room_of c a = Some room"
  shows "ab_rooms a (rm_ID room) = Some room"
  using room_keys [OF assms(1)] assms(2,3) by (auto simp: room_of_def)

lemma delete_spec:
  assumes on: "api_on deps rooms sc pr acc rst pub clk ch"
  shows "ensures live A (delete_room_handler deps rooms c) a
    (\<lambda>resp a'. case room_of c a of None \<Rightarrow> rp_Status resp = 404 \<and> a' = a
       | Some room \<Rightarrow> if manages (currentClaims c) room then deletes (ch \<noteq> None) (currentClaims c) room resp a a'
           else rp_Status resp = 403 \<and> a' = a)"
  unfolding delete_room_handler_def
proof (rule loadRoom_spec [OF api_onD(2) [OF on]], goal_cases)
  case (2 room)
  note b = api_onD(1) [OF on] and room = 2
  show ?case unfolding room option.case canManageRoom_iff api_onD(2) [OF on]
  proof (rule ensures_if, goal_cases)
    case 2
    then have m: "manages (currentClaims c) room" by simp
    show ?case
    proof (rule ensures_live, rule ensures_step [OF delete_room], goal_cases)
      case (1 w e a1)
      with stored_room [OF 1(1,2) room] have e: "e = None"
        and a1: "a1 = a\<lparr>ab_rooms := (ab_rooms a)(rm_ID room := None)\<rparr>" by simp_all
      show ?case unfolding e option.case manages_user [OF m]
        by (rule ensures_step [OF CloseRoom_spec [OF b]], rule ensures_mono [OF done_spec])
          (auto simp: m deletes_def a1 intro!: exI)
    qed
  qed auto
qed simp_all

lemma KickMember_spec:
  assumes "backed_by rooms sc pr acc rst pub clk ch"
  shows "ensures live A (KickMember rooms r u actor) a
    (\<lambda>e a'. a' = published e r ''room.event'' (event_message ''user_kicked'' (Some (HubUser0\<lparr>hu_ID := u\<rparr>))) (abs_leave r u a))"
  by (rule ensures_run) (use KickMember_run [OF assms] in \<open>auto simp: event_message_def\<close>)

lemma kick_spec:
  assumes on: "api_on deps rooms sc pr acc rst pub clk ch"
  shows "ensures live A (kick deps rooms c) a
    (\<lambda>resp a'. case room_of c a of None \<Rightarrow> rp_Status resp = 404 \<and> a' = a
       | Some room \<Rightarrow>
           if \<not> manages (currentClaims c) room then rp_Status resp = 403 \<and> a' = a
           else if TrimSpace (cx_uid c) = [] then rp_Status resp = 400 \<and> a' = a
           else kicks (TrimSpace (cx_uid c)) room resp a a')"
  unfolding kick_def
proof (rule loadRoom_spec [OF api_onD(2) [OF on]], goal_cases)
  case (2 room)
  note b = api_onD(1) [OF on]
  show ?case unfolding 2 option.case canManageRoom_iff
    by (rule ensures_if, force, rule ensures_if, force, rule ensures_step [OF KickMember_spec [OF b]],
        rule ensures_mono [OF done_spec])
      (auto simp: kicks_def intro!: exI)
qed simp_all

lemma Leave_spec:
  assumes "backed_by rooms sc pr acc rst pub clk ch"
  shows "ensures live A (Leave rooms r u) a (\<lambda>e a'. e = None \<and> a' = abs_leave r u a)"
  by (rule ensuresI) (use Leave_run [OF assms] in simp)

lemma Join_spec:
  assumes "backed_by rooms sc pr acc rst pub clk ch"
  shows "ensures live A (Join rooms r u) a
    (\<lambda>x a'. x = Inr (case room_left (ab_seat a) r (hu_ID u) of Some r' \<Rightarrow> r' | None \<Rightarrow> []) \<and>
       a' = abs_join r (hu_ID u) (hu_Username u) a)"
  by (rule ensuresI) (use Join_run [OF assms] in simp)

lemma current_user_cases:
  obtains "currentUser c = None" "ck_UserID (currentClaims c) = []"
  | "currentUser c = Some (currentClaims c)" "ck_UserID (currentClaims c) \<noteq> []"
  by (cases "ck_UserID (currentClaims c) = []") (auto simp: currentUser_def)

lemma leave_spec:
  assumes on: "api_on deps rooms sc pr acc rst pub clk ch"
  shows "ensures live A (leave_room_handler deps rooms c) a
    (\<lambda>resp a'. case room_of c a of None \<Rightarrow> rp_Status resp = 404 \<and> a' = a
       | Some room \<Rightarrow>
           if ck_UserID (currentClaims c) = [] then rp_Status resp = 401 \<and> a' = a
           else leaves (currentClaims c) room resp a a')"
  unfolding leave_room_handler_def
proof (rule loadRoom_spec [OF api_onD(2) [OF on]], goal_cases)
  case (2 room)
  note b = api_onD(1) [OF on]
  show ?case
  proof (cases c rule: current_user_cases)
    case 1
    with 2 show ?thesis by auto
  next
    case user: 2
    have u: "userPtrFromHubUser (roomUserFromClaims (Some (currentClaims c)) room) = Some (roomUserFromClaims (Some (currentClaims c)) room)"
      using user by (simp add: userPtrFromHubUser_def)
    show ?thesis unfolding 2 user(1) u option.case
    proof (rule ensures_step [OF Leave_spec [OF b]], goal_cases)
      case (1 e a1)
      then have e: "e = None" and a1: "a1 = abs_leave (rm_ID room) (ck_UserID (currentClaims c)) a" by simp_all
      show ?case unfolding e option.case
        by (rule ensures_step [OF PublishRoomEvent_spec [OF b]]) (auto simp: leaves_def user(2) a1 intro!: ensures_return)
    qed
  qed
qed simp_all

lemma join_spec:
  assumes on: "api_on deps rooms sc pr acc rst pub clk ch"
  shows "ensures live A (join_room_handler deps pkg rooms body c) a
    (\<lambda>resp a'. case room_of c a of None \<Rightarrow> rp_Status resp = 404 \<and> a' = a
       | Some room \<Rightarrow>
           if ck_UserID (currentClaims c) = [] then rp_Status resp = 401 \<and> a' = a
           else if \<not> may_enter pkg (currentClaims c) (jq_Password (snd body)) room a then rp_Status resp = 403 \<and> a' = a
           else joins (currentClaims c) room resp (entering pkg (currentClaims c) (jq_Password (snd body)) room a) a')"
  unfolding join_room_handler_def
proof (rule loadRoom_spec [OF api_onD(2) [OF on]], goal_cases)
  case (2 room)
  note b = api_onD(1) [OF on] and room = 2
  let ?k = "currentClaims c"
  let ?u = "roomUserFromClaims (Some ?k) room"
  show ?case
  proof (cases c rule: current_user_cases)
    case 1
    with 2 show ?thesis by auto
  next
    case user: 2
    have u: "userPtrFromHubUser ?u = Some ?u" using user by (simp add: userPtrFromHubUser_def)
    show ?thesis unfolding room user(1) u option.case Let_def
    proof (rule ensures_step [OF canAccessRoom_spec [OF on]], goal_cases)
      case (1 ok a1)
      show ?case
      proof (rule ensures_if, goal_cases)
        case 1
        with \<open>ok = _ \<and> _\<close> show ?case by (auto simp: user)
      next
        case 2
        with 1 have ok: "may_enter pkg ?k (jq_Password (snd body)) room a"
          and a1: "a1 = entering pkg ?k (jq_Password (snd body)) room a" by simp_all
        define lft where "lft = (case room_left (ab_seat a1) (rm_ID room) (ck_UserID ?k) of Some r' \<Rightarrow> r' | None \<Rightarrow> [])"
        have Q: "(if ck_UserID ?k = [] then P1 else if \<not> may_enter pkg ?k (jq_Password (snd body)) room a then P2 else P3) = P3"
          for P1 P2 P3 :: bool using user(2) ok by simp
        show ?case unfolding Q
        proof (rule ensures_step [OF Join_spec [OF b]], goal_cases)
          case (1 x a2)
          then have x: "x = Inr lft" and a2: "a2 = abs_join (rm_ID room) (ck_UserID ?k) (ck_Username ?k) a1"
            by (simp_all add: lft_def)
          show ?case unfolding x sum.case
          proof (cases "lft = []")
            case True
            show "ensures live A ((if lft \<noteq> [] then PublishRoomEvent rooms lft ''user_left'' (Some ?u)
                  else State_Monad.return None) \<bind> (\<lambda>_. PublishRoomEvent rooms (rm_ID room) ''user_joined'' (Some ?u) \<bind>
                  (\<lambda>_. State_Monad.return (JSON 200 (roomResponse room (is_owner (Some ?k) room) lft))))) a2
                (\<lambda>resp a'. joins ?k room resp (entering pkg ?k (jq_Password (snd body)) room a) a')"
              by (rule ensures_step [where R="\<lambda>_ a'. a' = a2"], simp add: True ensures_return,
                  hypsubst_thin, rule ensures_step [OF PublishRoomEvent_spec [OF b]])
                (auto simp: joins_def Let_def a1 [symmetric] a2 lft_def [symmetric] True is_owner_def intro!: ensures_return)
          next
            case False
            show "ensures live A ((if lft \<noteq> [] then PublishRoomEvent rooms lft ''user_left'' (Some ?u)
                  else State_Monad.return None) \<bind> (\<lambda>_. PublishRoomEvent rooms (rm_ID room) ''user_joined'' (Some ?u) \<bind>
                  (\<lambda>_. State_Monad.return (JSON 200 (roomResponse room (is_owner (Some ?k) room) lft))))) a2
                (\<lambda>resp a'. joins ?k room resp (entering pkg ?k (jq_Password (snd body)) room a) a')"
              unfolding if_P [OF False]
              by (rule ensures_step [OF PublishRoomEvent_spec [OF b]], rule ensures_step [OF PublishRoomEvent_spec [OF b]])
                (auto simp: joins_def Let_def a1 [symmetric] a2 lft_def [symmetric] False is_owner_def intro!: ensures_return)
          qed
        qed
      qed
    qed
  qed
qed simp_all

lemma ApplyControl_spec:
  assumes "backed_by rooms sc pr acc rst pub clk ch" and "may_control user"
  shows "ensures live A (ApplyControl rooms r user msg) a
    (\<lambda>x a'. \<exists>t\<ge>ab_now a. abs_control r user msg t (fst x) (snd x) a a')"
  by (rule ensures_run) (use ApplyControl_run [OF assms(1)] assms(2) in fastforce)

lemma control_answer_spec:
  "ensures live A
    (case r of (msg, e) \<Rightarrow>
       (case e of
          None \<Rightarrow> State_Monad.return (JSON 200 (message_json msg))
        | Some err \<Rightarrow>
            if err = ErrForbidden then Abort (Forbidden ''room owner or admin required'')
            else if err = ErrStaleControl then Abort (Conflict ''stale control version'')
            else respondStoreError err)) a
    (\<lambda>resp a'. a' = a \<and>
       rp_Status resp = (if snd r = None then 200 else if snd r = Some ErrForbidden then 403 else if snd r = Some ErrStaleControl then 409
          else rp_Status (Respond (mapError (the (snd r))))) \<and>
       (snd r = None \<longrightarrow> resp = JSON 200 (message_json (fst r))))"
  by (cases r; cases "snd r") (auto simp: ensures_def)

lemma control_spec:
  assumes on: "api_on deps rooms sc pr acc rst pub clk ch"
  shows "ensures live A (control deps rooms body c) a
    (\<lambda>resp a'. case room_of c a of None \<Rightarrow> rp_Status resp = 404 \<and> a' = a
       | Some room \<Rightarrow>
           if \<not> manages (currentClaims c) room then rp_Status resp = 403 \<and> a' = a
           else if \<not> control_ok body then rp_Status resp = 400 \<and> a' = a
           else controls (currentClaims c) room (snd body) resp a a')"
  unfolding control_def
proof (rule loadRoom_spec [OF api_onD(2) [OF on]], goal_cases)
  case (2 room)
  note b = api_onD(1) [OF on]
  obtain bad req where body: "body = (bad, req)" by (cases body)
  show ?case unfolding 2 option.case canManageRoom_iff
  proof (rule ensures_if, goal_cases)
    case 2
    then have m: "manages (currentClaims c) room" by simp
    show ?case unfolding body prod.case Let_def
    proof (rule ensures_if, force simp: control_ok_def m, rule ensures_if, force simp: control_ok_def m,
        rule ensures_if, force simp: control_ok_def m, goal_cases)
      case 1
      then have ok: "control_ok (bad, req)" by (auto simp: control_ok_def)
      have Q: "(if \<not> manages (currentClaims c) room then P1 else if \<not> control_ok (bad, req) then P2 else P3) = P3"
        for P1 P2 P3 :: bool using m ok by simp
      show ?case unfolding Q manages_user [OF m]
        by (rule ensures_step [OF ApplyControl_spec [OF b manages_may_control [OF m]]], elim exE conjE,
            rule ensures_mono [OF control_answer_spec], unfold controls_def control_input_def snd_conv)
          (elim conjE, intro exI conjI, assumption, simp, simp, simp)
    qed
  qed auto
qed simp_all

text \<open>Reading handlers leave the database alone, but for the clock and the grant of a private room.\<close>

lemma EnrichRoom_spec:
  assumes "backed_by rooms sc pr acc rst pub clk ch"
  shows "ensures live A (EnrichRoomFromCache rooms (Some room)) a
    (\<lambda>x a'. a' = a \<and> x = Some (case ab_states a (rm_ID room) of None \<Rightarrow> room
       | Some st \<Rightarrow> if rs_VideoID st \<noteq> [] then room\<lparr>rm_CurrentVideo := rs_VideoID st\<rparr> else room))"
  unfolding EnrichRoomFromCache_def option.case assms [unfolded backed_by_def, THEN conjunct1]
  by (rule ensures_step [OF get_state]) (auto intro!: ensures_return split: option.split)

lemma get_spec:
  assumes on: "api_on deps rooms sc pr acc rst pub clk ch"
  shows "ensures live A (get_room_info deps rooms c) a
    (\<lambda>resp a'. a' = a \<and> rp_Status resp = (if room_of c a = None then 404 else 200))"
  unfolding get_room_info_def
  by (rule loadRoom_spec [OF api_onD(2) [OF on]], simp, rule ensures_step [OF EnrichRoom_spec [OF api_onD(1) [OF on]]])
    (auto intro!: ensures_return)

lemma ProjectedRoomState_spec:
  assumes "backed_by rooms sc pr acc rst pub clk ch"
  shows "ensures live A (ProjectedRoomState rooms r) a
    (\<lambda>x a'. \<exists>t\<ge>ab_now a. a' = a\<lparr>ab_now := t\<rparr> \<and>
       x = (case projectState t (ab_states a r) of None \<Rightarrow> Inl ErrNotFound | Some st \<Rightarrow> Inr st))"
  by (rule ensures_run) (use ProjectedRoomState_run [OF assms] in blast)

lemma state_spec:
  assumes on: "api_on deps rooms sc pr acc rst pub clk ch"
  shows "ensures live A (room_state_handler deps rooms c) a
    (\<lambda>resp a'. case room_of c a of None \<Rightarrow> rp_Status resp = 404 \<and> a' = a
       | Some room \<Rightarrow> \<exists>t\<ge>ab_now a. a' = a\<lparr>ab_now := t\<rparr> \<and>
           (case projectState t (ab_states a (rm_ID room)) of
              None \<Rightarrow> resp = JSON 200 (JObj [(''room_id'', JStr (rm_ID room)), (''action'', JStr PlaybackActionPause), (''position'', JInt 0)])
            | Some st \<Rightarrow> resp = JSON 200 (state_json st)))"
  unfolding room_state_handler_def
proof (rule loadRoom_spec [OF api_onD(2) [OF on]], goal_cases)
  case (2 room)
  show ?case unfolding 2 option.case
  proof (rule ensures_step [OF ProjectedRoomState_spec [OF api_onD(1) [OF on]]], elim exE conjE, goal_cases)
    case (1 x a1 t)
    then show ?case
      by (cases "projectState t (ab_states a (rm_ID room))") (auto intro!: ensures_return exI [of _ t])
  qed
qed simp

lemma TakeSnapshot_ensures:
  assumes "backed_by rooms sc pr acc rst pub clk ch"
  shows "ensures live A (TakeSnapshot rooms r) a
    (\<lambda>x a'. \<exists>t\<ge>ab_now a. a' = a\<lparr>ab_now := t\<rparr> \<and> sn_State x = projectState t (ab_states a r) \<and>
       sn_ViewerCount x = int (card (occupants (ab_seat a) r)))"
  by (rule ensures_run) (use TakeSnapshot_run [OF assms] in blast)

text \<open>The answer of every handler that asks \<open>canAccessRoom\<close>, when the room may not be entered.\<close>

lemma no_entry_spec:
  assumes "api_on deps rooms sc pr acc rst pub clk ch" and "\<not> may_enter pkg (currentClaims c) password room a"
  shows "ensures live A
    (canAccessRoom deps pkg c room (ck_UserID (currentClaims c)) password \<bind> (\<lambda>ok. if \<not> ok then Abort (Forbidden m) else rest)) a
    (\<lambda>resp a'. rp_Status resp = 403 \<and> a' = a)"
  by (rule ensures_step [OF canAccessRoom_spec [OF assms(1)]]) (auto simp: assms(2))

lemma snapshot_spec:
  assumes on: "api_on deps rooms sc pr acc rst pub clk ch"
    and password: "password = (if cx_ContentLength c \<noteq> 0 then nq_Password (snd body) else [])"
  shows "ensures live A (snapshot deps pkg rooms body c) a
    (\<lambda>resp a'. case room_of c a of None \<Rightarrow> rp_Status resp = 404 \<and> a' = a
       | Some room \<Rightarrow>
           if cx_ContentLength c \<noteq> 0 \<and> fst body \<noteq> None then rp_Status resp = 400 \<and> a' = a
           else if \<not> may_enter pkg (currentClaims c) password room a then rp_Status resp = 403 \<and> a' = a
           else rp_Status resp = 200 \<and>
             (\<exists>t\<ge>ab_now a. a' = (entering pkg (currentClaims c) password room a)\<lparr>ab_now := t\<rparr>))"
  unfolding snapshot_def
proof (rule loadRoom_spec [OF api_onD(2) [OF on]], goal_cases)
  case (2 room)
  let ?k = "currentClaims c"
  have now: "ab_now (entering pkg ?k password room a) = ab_now a" by (simp add: entering_def)
  show ?case unfolding 2 option.case Let_def password [symmetric]
  proof (rule ensures_if, force, goal_cases)
    case 1
    show ?case
    proof (rule ensures_step [OF canAccessRoom_spec [OF on]], rule ensures_if, goal_cases)
      case (2 ok a1)
      then have a1: "a1 = entering pkg ?k password room a" and ok: "may_enter pkg ?k password room a" by simp_all
      show ?case
        by (rule ensures_step [OF TakeSnapshot_ensures [OF api_onD(1) [OF on]]])
          (use 1 ok in \<open>auto simp: a1 now intro!: ensures_return\<close>)
    qed (use 1 in auto)
  qed
qed simp_all

text \<open>Without Redis there is no chat: whoever may enter the room is answered with 503.\<close>

lemma listRoomChat_spec:
  assumes on: "api_on deps rooms sc pr acc rst pub clk ch" and "ch = None"
  shows "ensures live A (listRoomChat deps pkg rooms c) a
    (\<lambda>resp a'. case room_of c a of None \<Rightarrow> rp_Status resp = 404 \<and> a' = a
       | Some room \<Rightarrow>
           let password = TrimSpace (Query c ''password'') in
           if \<not> may_enter pkg (currentClaims c) password room a then rp_Status resp = 403 \<and> a' = a
           else rp_Status resp = 503 \<and> a' = entering pkg (currentClaims c) password room a)"
  unfolding listRoomChat_def
proof (rule loadRoom_spec [OF api_onD(2) [OF on]], goal_cases)
  case (2 room)
  have chat: "ListChat rooms r before limit = State_Monad.return (Inl ErrChatRequiresRedis)" for r before limit
    using api_onD(1) [OF on] assms(2) by (simp add: ListChat_def backed_by_def)
  show ?case unfolding 2 option.case chat Let_def
    by (rule ensures_step [OF canAccessRoom_spec [OF on]]) (auto simp: ensures_def)
qed simp_all

lemma ablyToken_spec:
  assumes on: "api_on deps rooms sc pr acc rst pub clk ch" and rt: "dp_Realtime deps = Some rl"
    and issue: "\<And>r u a. ensures live A (rl_IssueRoomJWT rl r u) a (\<lambda>x a'. a' = a)"
    and body: "body = (None, req)" "aq_Purpose req = [] \<or> aq_Purpose req = ''room''" "TrimSpace (aq_RoomID req) \<noteq> []"
  shows "ensures live A (ablyToken deps pkg body c) a
    (\<lambda>resp a'. case ab_rooms a (TrimSpace (aq_RoomID req)) of None \<Rightarrow> rp_Status resp = 404 \<and> a' = a
       | Some room \<Rightarrow>
           if \<not> may_enter pkg (currentClaims c) (aq_Password req) room a then rp_Status resp = 403 \<and> a' = a
           else rp_Status resp \<in> {200, 500} \<and> a' = entering pkg (currentClaims c) (aq_Password req) room a)"
proof -
  have guards: "\<not> (aq_Purpose req \<noteq> [] \<and> aq_Purpose req \<noteq> ''room'')" using body(2) by auto
  show ?thesis
    unfolding ablyToken_def rt option.case body(1) prod.case Let_def api_onD(2) [OF on] if_not_P [OF guards] if_not_P [OF body(3)]
  proof (simp (no_asm) only: not_True_eq_False simp_thms if_False, rule ensures_step [OF get_room], goal_cases)
    case (1 x a1)
    show ?case
    proof (cases "ab_rooms a (TrimSpace (aq_RoomID req))")
      case None
      with 1 show ?thesis by (simp add: ensures_def mapError_status)
    next
      case (Some room)
      with 1 have x: "x = Inr room" and a1: "a1 = a" by simp_all
      show ?thesis unfolding x a1 sum.case Some option.case
      proof (rule ensures_step [OF canAccessRoom_spec [OF on]], rule ensures_if, goal_cases)
        case (2 ok a2)
        then have "may_enter pkg (currentClaims c) (aq_Password req) room a" by simp
        with 2 show ?case
          by (intro ensures_step [OF issue]) (auto intro!: ensures_return split: sum.split)
      qed auto
    qed
  qed
qed

end

end
