(* ===== verification/Api_Memory.thy ===== *)
theory Api_Memory
  imports Api_Access Account_Memory
begin

text \<open>
  The whole server on the in-process backends, as the API tests run it (\<^verbatim>\<open>testDeps\<close> of
  \<^verbatim>\<open>internal/api/test_stores_test.go\<close>), and the properties of its endpoints: authentication, who may change a
  room, who may enter it, and what is left of a deleted room.
\<close>

section \<open>The server\<close>

definition mem_limiter :: "(MemWorld, slidingWindowLimiter) Ref" where
  "mem_limiter = \<lparr>ref_get = reads mw_limiter, ref_put = \<lambda>l. State (\<lambda>w. ((), w\<lparr>mw_limiter := l\<rparr>))\<rparr>"

definition mem_regLastHit :: "(MemWorld, (string, gotime) gomap) Ref" where
  "mem_regLastHit = \<lparr>ref_get = reads mw_regLastHit, ref_put = \<lambda>m. State (\<lambda>w. ((), w\<lparr>mw_regLastHit := m\<rparr>))\<rparr>"

text \<open>The mail service answers from the world; a mail that goes out is logged.\<close>

definition mem_send :: "string \<Rightarrow> string \<Rightarrow> string \<Rightarrow> (MemWorld, error + string) io" where
  "mem_send mail purpose code = State (\<lambda>w.
     case mw_mailAnswers w of
       Some err # as \<Rightarrow> (Inl err, w\<lparr>mw_mailAnswers := as\<rparr>)
     | None # as \<Rightarrow> (Inr ''test-email-id'', w\<lparr>mw_mailAnswers := as, mw_outbox := mw_outbox w @ [(mail, purpose, code)]\<rparr>)
     | [] \<Rightarrow> (Inr ''test-email-id'', w\<lparr>mw_outbox := mw_outbox w @ [(mail, purpose, code)]\<rparr>))"

definition mem_sender :: "MemWorld SenderAPI" where
  "mem_sender = \<lparr>es_Enabled = True, es_SendVerificationCode = mem_send\<rparr>"

text \<open>The stored hash of a code comes from bcrypt, like that of a password.\<close>

definition mem_email_codes ::
  "(string \<Rightarrow> string) \<Rightarrow> (nat \<Rightarrow> string \<Rightarrow> error + string) \<Rightarrow> (string \<Rightarrow> string \<Rightarrow> bool) \<Rightarrow> MemWorld EmailCodes" where
  "mem_email_codes lowU bgen cmp = \<lparr>
     ec_PrecheckSend = \<lambda>m p cooldown limit now. on_codes (PrecheckSend lowU m p limit now),
     ec_RollbackPrecheck = \<lambda>m p now. on_codes (RollbackPrecheck lowU m p),
     ec_CommitSend = \<lambda>m p code ttl cooldown now. do {
       h \<leftarrow> mem_bcrypt bgen code;
       on_codes (CommitSend lowU h m p ttl cooldown now)
     },
     ec_Verify = mem_vf lowU cmp\<rparr>"

text \<open>\<open>rnd n\<close> gives the bytes that the \<open>n\<close>-th code generation reads from the random source.\<close>

definition mem_newCode :: "(nat \<Rightarrow> nat \<Rightarrow> error + nat) \<Rightarrow> int \<Rightarrow> (MemWorld, error + string) io" where
  "mem_newCode rnd n = State (\<lambda>w. (GenerateNumericCode [] (rnd (mw_draws w)) n, w\<lparr>mw_draws := Suc (mw_draws w)\<rparr>))"

text \<open>
  What the memory server is run with: the sources of identifiers, hashes and random bytes, the packages and tables
  that are not part of the repository, the chat runtime, the realtime token issuer, and the configuration.
\<close>

record MemSetup =
  su_uuid :: "nat \<Rightarrow> string"
  su_bgen :: "nat \<Rightarrow> string \<Rightarrow> error + string"
  su_rnd :: "nat \<Rightarrow> nat \<Rightarrow> error + nat"
  su_foldU :: "string \<Rightarrow> string \<Rightarrow> bool"
  su_pkg :: "MemWorld AuthPkg"
  su_rt :: "MemWorld Runtime"
  su_channel :: "string \<Rightarrow> string"
  su_issue :: "string \<Rightarrow> string \<Rightarrow> gotime \<Rightarrow> error + (string \<times> gotime)"
  su_cfg :: Config

definition mem_realtime :: "MemSetup \<Rightarrow> MemWorld Realtime" where
  "mem_realtime S = \<lparr>rl_Publisher = mem_pub, rl_ChannelName = su_channel S,
     rl_IssueRoomJWT = \<lambda>r u. do { now \<leftarrow> mem_clock; State_Monad.return (su_issue S r u now) }\<rparr>"

definition mem_host :: "MemSetup \<Rightarrow> MemWorld Host" where
  "mem_host S = \<lparr>hs_now = mem_clock, hs_pkg = mem_auth_pkg (su_uuid S) (su_bgen S) (su_pkg S), hs_rt = su_rt S,
     hs_newCode = mem_newCode (su_rnd S), hs_ipLimiter = mem_limiter, hs_regLastHit = mem_regLastHit,
     hs_go = \<lambda>m. do { _ \<leftarrow> m; State_Monad.return () }, hs_fuel = 0\<rparr>"

definition mem_deps :: "MemSetup \<Rightarrow> MemWorld Dependencies" where
  "mem_deps S =
     (let lowU = uni_lower (su_pkg S); cmp = bc_compare (su_pkg S) in
      \<lparr>dp_Config = su_cfg S, dp_UserStore = mem_us (su_uuid S) lowU (su_foldU S), dp_RoomStore = mem_rst (su_uuid S) lowU,
       dp_EmailSender = Some mem_sender, dp_EmailCodes = Some (mem_email_codes lowU (su_bgen S) cmp),
       dp_SessionCache = mem_ss, dp_RoomStateCache = mem_sc, dp_RoomPresence = Some mem_pr, dp_RoomAccess = Some mem_acc,
       dp_RoomChat = None, dp_Realtime = Some (mem_realtime S)\<rparr>)"

definition mem_server :: "MemSetup \<Rightarrow> MemWorld Server" where
  "mem_server S = NewRouter (mem_host S) (mem_deps S)"

definition mem_rooms_service :: "MemSetup \<Rightarrow> MemWorld Service" where
  "mem_rooms_service S = mem_service (su_uuid S) (uni_lower (su_pkg S)) (su_rt S) (ChatLimitsFromConfig (su_cfg S))"

text \<open>The services that the router builds are those of the theories on rooms and accounts.\<close>

lemma mem_server_rooms [simp]: "sr_rooms (mem_server S) = mem_rooms_service S"
  by (simp add: mem_server_def NewRouter_def Let_def rooms_of_def mem_deps_def mem_host_def mem_rooms_service_def
    mem_service_def mem_realtime_def)

lemma mem_server_auth [simp]: "sr_auth (mem_server S) =
  mem_auth_service (su_uuid S) (su_bgen S) (su_foldU S) (su_pkg S) (mem_rooms_service S) (su_cfg S)"
proof -
  have rooms: "rooms_of (mem_host S) (mem_deps S) = mem_rooms_service S"
    using mem_server_rooms [of S] by (simp add: mem_server_def NewRouter_def Let_def)
  show ?thesis
    by (simp add: mem_server_def NewRouter_def Let_def auth_of_def rooms)
      (simp add: mem_host_def mem_deps_def mem_auth_service_def cleanup_hook_def mem_email_codes_def Let_def)
qed

lemma mem_server_parts [simp]: "sr_deps (mem_server S) = mem_deps S"
  "sr_pkg (mem_server S) = mem_auth_pkg (su_uuid S) (su_bgen S) (su_pkg S)"
  by (simp_all add: mem_server_def NewRouter_def Let_def mem_host_def)

lemma mem_api_on:
  "api_on (mem_deps S) (mem_rooms_service S) mem_sc mem_pr mem_acc (mem_rst (su_uuid S) (uni_lower (su_pkg S))) mem_pub mem_clock None"
  by (simp add: api_on_def mem_rooms_service_def mem_backed mem_deps_def Let_def)

section \<open>Authentication\<close>

text \<open>Checking a token leaves the room database alone.\<close>

definition only_time :: "(MemWorld, 'x) io \<Rightarrow> bool" where
  "only_time m \<longleftrightarrow> (\<forall>a. ensures mem_live mem_abs m a (\<lambda>_ a'. \<exists>t\<ge>ab_now a. a' = a\<lparr>ab_now := t\<rparr>))"

lemma only_time_return: "only_time (State_Monad.return x)"
  by (auto simp: only_time_def ensures_def intro!: exI)

lemma only_time_bind:
  assumes "only_time m" and "\<And>x. only_time (f x)"
  shows "only_time (m \<bind> f)"
  unfolding only_time_def
proof (rule allI, rule ensures_step [OF assms(1) [unfolded only_time_def, rule_format]], elim exE conjE)
  fix a a1 :: room_abs and x t assume t: "ab_now a \<le> t" and a1: "a1 = a\<lparr>ab_now := t\<rparr>"
  from assms(2) have "ensures mem_live mem_abs (f x) a1 (\<lambda>_ a'. \<exists>u\<ge>ab_now a1. a' = a1\<lparr>ab_now := u\<rparr>)"
    by (simp add: only_time_def)
  then show "ensures mem_live mem_abs (f x) a1 (\<lambda>_ a'. \<exists>t\<ge>ab_now a. a' = a\<lparr>ab_now := t\<rparr>)"
  proof (rule ensures_mono)
    fix y a' assume "\<exists>u\<ge>ab_now a1. a' = a1\<lparr>ab_now := u\<rparr>"
    then obtain u where "ab_now a1 \<le> u" and "a' = a1\<lparr>ab_now := u\<rparr>" by blast
    with t a1 have "ab_now a \<le> u" and "a' = a\<lparr>ab_now := u\<rparr>" by simp_all
    then show "\<exists>t\<ge>ab_now a. a' = a\<lparr>ab_now := t\<rparr>" by blast
  qed
qed

lemma only_time_branch:
  "(b \<Longrightarrow> only_time m) \<Longrightarrow> (\<not> b \<Longrightarrow> only_time n) \<Longrightarrow> only_time (if b then m else n)"
  "only_time m \<Longrightarrow> (\<And>y. only_time (g y)) \<Longrightarrow> only_time (case x of None \<Rightarrow> m | Some y \<Rightarrow> g y)"
  by (auto split: option.split)

lemma only_time_clock: "only_time mem_clock"
  unfolding only_time_def by (intro allI, rule ensures_mono [OF mem_time.read_clock]) auto

lemma only_time_ParseToken: "only_time (ParseToken (sr_auth (mem_server S)) tok ty)"
proof -
  have sessions: "only_time (on_sessions f)" for f :: "error option \<Rightarrow> gotime \<Rightarrow> MemSessions \<Rightarrow> 'a \<times> MemSessions"
  proof -
    have ctx: "only_time (reads mw_ctx)" by (auto simp: only_time_def ensures_def intro!: exI)
    have part: "only_time (on_part mw_sessions (\<lambda>c w. w\<lparr>mw_sessions := c\<rparr>) g)" for g :: "MemSessions \<Rightarrow> 'a \<times> MemSessions"
      by (auto simp: only_time_def ensures_def mem_live_def mem_abs_def intro!: exI)
    show ?thesis unfolding on_sessions_def by (intro only_time_bind only_time_clock ctx part)
  qed
  have parts: "au_now (sr_auth (mem_server S)) = mem_clock" "au_sessions (sr_auth (mem_server S)) = mem_ss"
    by (simp_all add: mem_auth_service_def SetAfterLogin_def NewAuthService_def)
  have black: "only_time (IsBlacklisted mem_ss j)" for j by (simp add: mem_ss_def sessions)
  show ?thesis
    unfolding ParseToken_def parts Let_def
    by (intro only_time_bind only_time_branch only_time_clock only_time_return black)
qed

section \<open>The endpoints refine their specification\<close>

text \<open>The claims of a request, as the middleware reads them off the token.\<close>

definition claims_of :: "MemSetup \<Rightarrow> Ctx \<Rightarrow> MemWorld \<Rightarrow> error + Claims" where
  "claims_of S c w = fst (run_state (ParseToken (sr_auth (mem_server S)) (ExtractBearer (cx_Authorization c)) TokenTypeAccess) w)"

text \<open>
  \<open>room_api pkg e c k resp a a'\<close>: with the claims \<open>k\<close>, the request \<open>c\<close> to the route \<open>e\<close> may be answered with \<open>resp\<close>
  and take the room database from \<open>a\<close> to \<open>a'\<close>.
\<close>

definition refused :: "int \<Rightarrow> Response \<Rightarrow> room_abs \<Rightarrow> room_abs \<Rightarrow> bool" where
  "refused status resp a a' \<longleftrightarrow> rp_Status resp = status \<and> a' = a"

definition managed ::
  "Claims \<Rightarrow> Ctx \<Rightarrow> (Room \<Rightarrow> Response \<Rightarrow> room_abs \<Rightarrow> room_abs \<Rightarrow> bool) \<Rightarrow> Response \<Rightarrow> room_abs \<Rightarrow> room_abs \<Rightarrow> bool" where
  "managed k c act resp a a' \<longleftrightarrow>
     (case room_of c a of
        None \<Rightarrow> refused 404 resp a a'
      | Some room \<Rightarrow> if manages k room then act room resp a a' else refused 403 resp a a')"

definition entered ::
  "'w AuthPkg \<Rightarrow> Claims \<Rightarrow> string \<Rightarrow> (Room \<Rightarrow> Response \<Rightarrow> room_abs \<Rightarrow> room_abs \<Rightarrow> bool) \<Rightarrow> Room \<Rightarrow> Response \<Rightarrow> room_abs \<Rightarrow> room_abs \<Rightarrow> bool" where
  "entered pkg k password act room resp a a' \<longleftrightarrow>
     (if may_enter pkg k password room a then act room resp (entering pkg k password room a) a' else refused 403 resp a a')"

definition time_passes :: "room_abs \<Rightarrow> room_abs \<Rightarrow> bool" where
  "time_passes a a' \<longleftrightarrow> (\<exists>t\<ge>ab_now a. a' = a\<lparr>ab_now := t\<rparr>)"

lemma time_passesI: "ab_now a \<le> t \<Longrightarrow> time_passes a (a\<lparr>ab_now := t\<rparr>)"
  unfolding time_passes_def by blast

lemma time_passes_refl [simp]: "time_passes a a"
  unfolding time_passes_def by (rule exI [of _ "ab_now a"]) simp

definition viewed :: "int \<Rightarrow> Room \<Rightarrow> Response \<Rightarrow> room_abs \<Rightarrow> room_abs \<Rightarrow> bool" where
  "viewed status room resp a a' \<longleftrightarrow> rp_Status resp = status \<and> time_passes a a'"

definition on_room :: "Ctx \<Rightarrow> (Room \<Rightarrow> Response \<Rightarrow> room_abs \<Rightarrow> room_abs \<Rightarrow> bool) \<Rightarrow> Response \<Rightarrow> room_abs \<Rightarrow> room_abs \<Rightarrow> bool" where
  "on_room c act resp a a' \<longleftrightarrow> (case room_of c a of None \<Rightarrow> refused 404 resp a a' | Some room \<Rightarrow> act room resp a a')"

definition snapshot_password :: "Ctx \<Rightarrow> roomSnapshotRequest bound \<Rightarrow> string" where
  "snapshot_password c b = (if cx_ContentLength c \<noteq> 0 then nq_Password (snd b) else [])"

fun room_api :: "'w AuthPkg \<Rightarrow> endpoint \<Rightarrow> Ctx \<Rightarrow> Claims \<Rightarrow> Response \<Rightarrow> room_abs \<Rightarrow> room_abs \<Rightarrow> bool" where
  "room_api pkg DeleteRoom c k = managed k c (deletes False k)"
| "room_api pkg PostKick c k = managed k c (\<lambda>room resp a a'.
     if TrimSpace (cx_uid c) = [] then refused 400 resp a a' else kicks (TrimSpace (cx_uid c)) room resp a a')"
| "room_api pkg (PostControl b) c k = managed k c (\<lambda>room resp a a'.
     if control_ok b then controls k room (snd b) resp a a' else refused 400 resp a a')"
| "room_api pkg (PostJoin b) c k = on_room c (\<lambda>room resp a a'.
     if ck_UserID k = [] then refused 401 resp a a' else entered pkg k (jq_Password (snd b)) (joins k) room resp a a')"
| "room_api pkg PostLeave c k = on_room c (\<lambda>room resp a a'.
     if ck_UserID k = [] then refused 401 resp a a' else leaves k room resp a a')"
| "room_api pkg GetRoom c k = on_room c (viewed 200)"
| "room_api pkg GetState c k = on_room c (viewed 200)"
| "room_api pkg (PostSnapshot b) c k = on_room c (\<lambda>room resp a a'.
     if cx_ContentLength c \<noteq> 0 \<and> fst b \<noteq> None then refused 400 resp a a'
     else entered pkg k (snapshot_password c b) (viewed 200) room resp a a')"
| "room_api pkg GetChat c k = on_room c (entered pkg k (TrimSpace (Query c ''password'')) (viewed 503))"
| "room_api pkg _ c k = (\<lambda>resp a a'. True)"

definition room_route :: "endpoint \<Rightarrow> bool" where
  "room_route e = (case e of DeleteRoom \<Rightarrow> True | PostKick \<Rightarrow> True | PostControl _ \<Rightarrow> True | PostJoin _ \<Rightarrow> True | PostLeave \<Rightarrow> True
     | GetRoom \<Rightarrow> True | GetState \<Rightarrow> True | PostSnapshot _ \<Rightarrow> True | GetChat \<Rightarrow> True | _ \<Rightarrow> False)"

lemma with_claims [simp]:
  "currentClaims (c\<lparr>cx_claims := Some k\<rparr>) = k" "room_of (c\<lparr>cx_claims := k'\<rparr>) a = room_of c a"
  "Query (c\<lparr>cx_claims := k'\<rparr>) x = Query c x"
  by (simp_all add: currentClaims_def room_of_def Query_def)

lemmas mem_delete_spec = mem.delete_spec [OF mem_api_on]
lemmas mem_kick_spec = mem.kick_spec [OF mem_api_on]
lemmas mem_control_spec = mem.control_spec [OF mem_api_on]
lemmas mem_join_spec = mem.join_spec [OF mem_api_on]
lemmas mem_leave_spec = mem.leave_spec [OF mem_api_on]
lemmas mem_get_spec = mem.get_spec [OF mem_api_on]
lemmas mem_state_spec = mem.state_spec [OF mem_api_on]
lemmas mem_snapshot_spec = mem.snapshot_spec [OF mem_api_on refl]
lemmas mem_listRoomChat_spec = mem.listRoomChat_spec [OF mem_api_on refl]

lemma entering_now [simp]: "ab_now (entering pkg k password room a) = ab_now a"
  by (simp add: entering_def)

lemmas room_api_rules = refused_def managed_def entered_def viewed_def on_room_def snapshot_password_def Let_def

lemma handler_refines:
  assumes "room_route e" and "protected_handler (mem_server S) e = Some h"
  shows "ensures mem_live mem_abs (h (c\<lparr>cx_claims := Some k\<rparr>)) a
    (\<lambda>resp a'. room_api (sr_pkg (mem_server S)) e c k resp a a')"
proof (cases e)
  case DeleteRoom
  with assms(2) show ?thesis
    by (auto simp: room_api_rules intro!: ensures_mono [OF mem_delete_spec] split: option.splits)
next
  case PostKick
  with assms(2) show ?thesis
    by (auto simp: room_api_rules intro!: ensures_mono [OF mem_kick_spec] split: option.splits if_splits)
next
  case (PostControl b)
  with assms(2) show ?thesis
    by (auto simp: room_api_rules intro!: ensures_mono [OF mem_control_spec] split: option.splits if_splits)
next
  case (PostJoin b)
  with assms(2) show ?thesis
    by (auto simp: room_api_rules intro!: ensures_mono [OF mem_join_spec] split: option.splits if_splits)
next
  case PostLeave
  with assms(2) show ?thesis
    by (auto simp: room_api_rules intro!: ensures_mono [OF mem_leave_spec] split: option.splits if_splits)
next
  case GetRoom
  with assms(2) show ?thesis
    by (auto simp: room_api_rules intro!: ensures_mono [OF mem_get_spec] split: option.splits if_splits)
next
  case GetState
  with assms(2) show ?thesis
    by (auto simp: room_api_rules intro!: ensures_mono [OF mem_state_spec] time_passesI split: option.splits if_splits)
next
  case (PostSnapshot b)
  with assms(2) show ?thesis
    by (auto simp: room_api_rules intro!: ensures_mono [OF mem_snapshot_spec] time_passesI split: option.splits if_splits)
next
  case GetChat
  with assms(2) show ?thesis
    by (auto simp: room_api_rules intro!: ensures_mono [OF mem_listRoomChat_spec] split: option.splits if_splits)
qed (use assms(1) in \<open>simp_all add: room_route_def\<close>)

lemma serve_protected:
  assumes h: "protected_handler (mem_server S) e = Some h" and w: "mem_live w"
    and run: "run_state (serve (mem_server S) e c) w = (resp, w')"
  obtains w1 t where "mem_live w1" "mw_now w \<le> t" "mem_abs w1 = (mem_abs w)\<lparr>ab_now := t\<rparr>"
    "case claims_of S c w of Inl _ \<Rightarrow> resp = Respond (Unauthorized ''authentication required'') \<and> w' = w1
     | Inr k \<Rightarrow> run_state (h (c\<lparr>cx_claims := Some k\<rparr>)) w1 = (resp, w')"
proof -
  define p where "p = ParseToken (sr_auth (mem_server S)) (ExtractBearer (cx_Authorization c)) TokenTypeAccess"
  obtain r w1 where r: "run_state p w = (r, w1)" by fastforce
  have "ensures mem_live mem_abs p (mem_abs w) (\<lambda>_ a'. \<exists>t\<ge>ab_now (mem_abs w). a' = (mem_abs w)\<lparr>ab_now := t\<rparr>)"
    using only_time_ParseToken unfolding only_time_def p_def by blast
  from ensuresD [OF this w] r obtain t where "mem_live w1" "mw_now w \<le> t" "mem_abs w1 = (mem_abs w)\<lparr>ab_now := t\<rparr>"
    by auto
  moreover have "case claims_of S c w of Inl _ \<Rightarrow> resp = Respond (Unauthorized ''authentication required'') \<and> w' = w1
     | Inr k \<Rightarrow> run_state (h (c\<lparr>cx_claims := Some k\<rparr>)) w1 = (resp, w')"
    using run r h by (cases r) (simp_all add: serve_def requireAuth_def claims_of_def p_def Let_def)
  ultimately show ?thesis by (rule that)
qed

text \<open>
  C1: on the in-process backends the room endpoints implement their specification: without a valid access token the
  answer is 401 and nothing happens; with one, the answer and the new room database are those of \<open>room_api\<close>.
\<close>

theorem room_api_refines:
  assumes "mem_live w" and "room_route e" and "run_state (serve (mem_server S) e c) w = (resp, w')"
  shows "mem_live w' \<and> (\<exists>t\<ge>mw_now w.
    case claims_of S c w of
      Inl _ \<Rightarrow> rp_Status resp = 401 \<and> mem_abs w' = (mem_abs w)\<lparr>ab_now := t\<rparr>
    | Inr k \<Rightarrow> room_api (sr_pkg (mem_server S)) e c k resp ((mem_abs w)\<lparr>ab_now := t\<rparr>) (mem_abs w'))"
proof -
  obtain h where h: "protected_handler (mem_server S) e = Some h"
    using assms(2) by (cases e) (simp_all add: room_route_def)
  from serve_protected [OF h assms(1,3)] obtain w1 t where w1: "mem_live w1" and t: "mw_now w \<le> t"
    and a1: "mem_abs w1 = (mem_abs w)\<lparr>ab_now := t\<rparr>"
    and res: "case claims_of S c w of Inl _ \<Rightarrow> resp = Respond (Unauthorized ''authentication required'') \<and> w' = w1
     | Inr k \<Rightarrow> run_state (h (c\<lparr>cx_claims := Some k\<rparr>)) w1 = (resp, w')" .
  show ?thesis
  proof (cases "claims_of S c w")
    case (Inl err)
    with res w1 a1 t show ?thesis by (auto intro!: exI [of _ t])
  next
    case (Inr k)
    with res have "run_state (h (c\<lparr>cx_claims := Some k\<rparr>)) w1 = (resp, w')" by simp
    with ensuresD [OF handler_refines [OF assms(2) h, where c = c and k = k] w1] t
    show ?thesis unfolding Inr sum.case by (intro conjI exI [of _ t]) (simp_all add: a1)
  qed
qed

section \<open>Who may do what\<close>

lemma claims_user: "claims_of S c w = Inr k \<Longrightarrow> ck_UserID k \<noteq> []"
  by (auto simp: claims_of_def ParseToken_def Let_def split: if_splits option.splits sum.splits)

text \<open>
  C2: a room is deleted, controlled, or purged of a member only for its owner or an admin: any other request, with or
  without a valid token, is refused, and the room database stays as it is.
\<close>

theorem only_managers:
  assumes "mem_live w" and "run_state (serve (mem_server S) e c) w = (resp, w')"
    and "e = DeleteRoom \<or> e = PostKick \<or> e = PostControl b"
    and "\<And>k room. claims_of S c w = Inr k \<Longrightarrow> room_of c (mem_abs w) = Some room \<Longrightarrow> \<not> manages k room"
  shows "rp_Status resp \<in> {401, 403, 404} \<and> time_passes (mem_abs w) (mem_abs w')"
proof -
  have "room_route e" using assms(3) by (auto simp: room_route_def)
  from room_api_refines [OF assms(1) this assms(2)] obtain t where t: "mw_now w \<le> t"
    and api: "case claims_of S c w of
      Inl _ \<Rightarrow> rp_Status resp = 401 \<and> mem_abs w' = (mem_abs w)\<lparr>ab_now := t\<rparr>
    | Inr k \<Rightarrow> room_api (sr_pkg (mem_server S)) e c k resp ((mem_abs w)\<lparr>ab_now := t\<rparr>) (mem_abs w')" by blast
  have room: "room_of c ((mem_abs w)\<lparr>ab_now := t\<rparr>) = room_of c (mem_abs w)" by (simp add: room_of_def)
  show ?thesis
  proof (cases "claims_of S c w")
    case (Inl err)
    with api t show ?thesis by (simp add: time_passesI)
  next
    case (Inr k)
    with api have "room_api (sr_pkg (mem_server S)) e c k resp ((mem_abs w)\<lparr>ab_now := t\<rparr>) (mem_abs w')" by simp
    then have "(rp_Status resp = 404 \<or> rp_Status resp = 403) \<and> mem_abs w' = (mem_abs w)\<lparr>ab_now := t\<rparr>"
      using assms(3) assms(4) [OF Inr]
      by (auto simp: managed_def refused_def room simp del: mem_server_parts split: option.splits)
    with t show ?thesis by (auto simp: time_passesI)
  qed
qed

text \<open>The password that a request presents for entering a room.\<close>

definition entry_password :: "endpoint \<Rightarrow> Ctx \<Rightarrow> string option" where
  "entry_password e c =
     (case e of
        PostJoin b \<Rightarrow> Some (jq_Password (snd b))
      | PostSnapshot b \<Rightarrow> if cx_ContentLength c \<noteq> 0 \<and> fst b \<noteq> None then None else Some (snapshot_password c b)
      | GetChat \<Rightarrow> Some (TrimSpace (Query c ''password''))
      | _ \<Rightarrow> None)"

lemma joins_access: "joins k room resp a a' \<Longrightarrow> rp_Status resp \<noteq> 403 \<and> ab_access a' = ab_access a"
proof -
  have pub: "ab_access (published e r n m a) = ab_access a" for e r n m and a :: room_abs by (simp add: published_def)
  have jn: "ab_access (abs_join r u n a) = ab_access a" for r u n and a :: room_abs
    by (auto simp: abs_join_def abs_leave_def Let_def split: option.split)
  show "joins k room resp a a' \<Longrightarrow> ?thesis"
    by (elim joins_def [THEN iffD1, THEN exE] exE) (auto simp: Let_def pub jn)
qed

lemma viewed_access: "viewed n room resp a a' \<Longrightarrow> rp_Status resp = n \<and> ab_access a' = ab_access a"
  by (auto simp: viewed_def time_passes_def)

text \<open>What entering a room, or failing to, does to the grants.\<close>

lemma entered_access:
  assumes "entered pkg k password act room resp a a'"
    and "\<And>resp a a'. act room resp a a' \<Longrightarrow> rp_Status resp \<noteq> 403 \<and> ab_access a' = ab_access a"
  shows "(rp_Status resp = 403 \<longleftrightarrow> \<not> may_enter pkg k password room a) \<and>
    ab_access a' = (if may_enter pkg k password room a then ab_access (entering pkg k password room a) else ab_access a)"
  using assms(1) assms(2) [of resp "entering pkg k password room a" a']
  by (auto simp: entered_def refused_def split: if_splits)

text \<open>
  C3: a private room is closed to a user who is neither its owner nor an admin, holds no grant and presents no right
  password; the right password lets the user in and leaves a grant, so that from then on, until the room is closed,
  no password is asked for.
\<close>

theorem private_room:
  assumes w: "mem_live w" and run: "run_state (serve (mem_server S) e c) w = (resp, w')"
    and entry: "entry_password e c = Some password" and k: "claims_of S c w = Inr k"
    and room: "room_of c (mem_abs w) = Some room" "rm_Visibility room = RoomVisibilityPrivate" "rm_ID room \<noteq> []"
    and outsider: "\<not> manages k room"
  shows "(rp_Status resp = 403 \<longleftrightarrow>
      (rm_ID room, ck_UserID k) \<notin> granted (mw_access w) \<and> \<not> bc_compare (su_pkg S) (rm_PasswordHash room) password) \<and>
    granted (mw_access w') =
      (if bc_compare (su_pkg S) (rm_PasswordHash room) password
       then insert (rm_ID room, ck_UserID k) (granted (mw_access w)) else granted (mw_access w))"
proof -
  have route: "room_route e" using entry by (auto simp: entry_password_def room_route_def split: endpoint.splits)
  from room_api_refines [OF w route run] k obtain t where
    api: "room_api (sr_pkg (mem_server S)) e c k resp ((mem_abs w)\<lparr>ab_now := t\<rparr>) (mem_abs w')" by auto
  let ?a = "(mem_abs w)\<lparr>ab_now := t\<rparr>" and ?pkg = "sr_pkg (mem_server S)"
  have here: "room_of c ?a = Some room" using room(1) by (simp add: room_of_def)
  note acts = joins_access viewed_access [THEN conjunct1] viewed_access [THEN conjunct2]
  have "(rp_Status resp = 403 \<longleftrightarrow> \<not> may_enter ?pkg k password room ?a) \<and>
    ab_access (mem_abs w') = (if may_enter ?pkg k password room ?a then ab_access (entering ?pkg k password room ?a) else ab_access ?a)"
  proof (cases e)
    case (PostJoin b)
    with api entry have "entered ?pkg k password (joins k) room resp ?a (mem_abs w')"
      using claims_user [OF k] here by (simp add: on_room_def entry_password_def)
    then show ?thesis by (rule entered_access) (rule joins_access)
  next
    case (PostSnapshot b)
    with api entry have "entered ?pkg k password (viewed 200) room resp ?a (mem_abs w')"
      using here by (simp add: on_room_def entry_password_def split: if_splits)
    then show ?thesis by (rule entered_access) (auto dest: viewed_access)
  next
    case GetChat
    with api entry have "entered ?pkg k password (viewed 503) room resp ?a (mem_abs w')"
      using here by (simp add: on_room_def entry_password_def)
    then show ?thesis by (rule entered_access) (auto dest: viewed_access)
  qed (use entry in \<open>simp_all add: entry_password_def\<close>)
  moreover have free: "enters_freely k room ?a \<longleftrightarrow> (rm_ID room, ck_UserID k) \<in> granted (mw_access w)"
    using room outsider claims_user [OF k] by (simp add: enters_freely_def)
  moreover have "CheckPassword ?pkg h p = bc_compare (su_pkg S) h p" for h p by (simp add: CheckPassword_def mem_auth_pkg_def)
  ultimately show ?thesis
    using room claims_user [OF k] by (auto simp: may_enter_def entering_def simp del: mem_server_parts)
qed

text \<open>
  C4: deleting a room takes everything of it away: after a deletion by its owner or an admin the room is not stored
  any more, nobody sits in it, no state and no grant of it is left, every other room is as before, and a further
  request for it is answered with 404 (or 401, without a valid token).
\<close>

theorem delete_room_gone:
  assumes w: "mem_live w" and run: "run_state (serve (mem_server S) DeleteRoom c) w = (resp, w')"
    and k: "claims_of S c w = Inr k" and room: "room_of c (mem_abs w) = Some room" and m: "manages k room"
    and again: "room_route e" "cx_roomId c' = cx_roomId c" "run_state (serve (mem_server S) e c') w' = (resp', w'')"
  shows "map_of (mw_rooms w') = (map_of (mw_rooms w))(rm_ID room := None) \<and>
    map_of (mw_states w') = (map_of (mw_states w))(rm_ID room := None) \<and>
    seat (mw_presence w') = vacate (rm_ID room) (seat (mw_presence w)) \<and>
    granted (mw_access w') = {(r, u). (r, u) \<in> granted (mw_access w) \<and> r \<noteq> rm_ID room} \<and>
    rp_Status resp' = (if isl (claims_of S c' w') then 401 else 404)"
proof -
  from room_api_refines [OF w _ run] k obtain t where live: "mem_live w'" and
    api: "room_api (sr_pkg (mem_server S)) DeleteRoom c k resp ((mem_abs w)\<lparr>ab_now := t\<rparr>) (mem_abs w')"
    by (auto simp: room_route_def)
  have here: "room_of c ((mem_abs w)\<lparr>ab_now := t\<rparr>) = Some room" using room by (simp add: room_of_def)
  from api here m have "deletes False k room resp ((mem_abs w)\<lparr>ab_now := t\<rparr>) (mem_abs w')"
    by (simp add: managed_def)
  then obtain er where cl: "tail_closed False (rm_ID room) (Some (roomUserFromClaims (Some k) room)) er
      ((mem_abs w)\<lparr>ab_now := t, ab_rooms := (ab_rooms (mem_abs w))(rm_ID room := None),
        ab_states := (ab_states (mem_abs w))(rm_ID room := None)\<rparr>) (mem_abs w')"
    unfolding deletes_def by auto
  note gone = tail_closed_fields [OF cl]
  have "rm_ID room = TrimSpace (cx_roomId c)" using w room by (auto simp: mem_live_def rooms_inv_def room_of_def)
  then have none: "room_of c' ((mem_abs w')\<lparr>ab_now := t'\<rparr>) = None" for t'
    using gone(2) again(2) by (simp add: room_of_def)
  from room_api_refines [OF live again(1,3)] obtain t' where
    "case claims_of S c' w' of Inl _ \<Rightarrow> rp_Status resp' = 401 \<and> mem_abs w'' = (mem_abs w')\<lparr>ab_now := t'\<rparr>
     | Inr k' \<Rightarrow> room_api (sr_pkg (mem_server S)) e c' k' resp' ((mem_abs w')\<lparr>ab_now := t'\<rparr>) (mem_abs w'')" by blast
  then have "rp_Status resp' = (if isl (claims_of S c' w') then 401 else 404)"
    using again(1)
    by (cases e; cases "claims_of S c' w'")
      (auto simp: room_route_def managed_def on_room_def none refused_def simp del: mem_server_parts)
  with gone show ?thesis by simp
qed

end
