(* ===== verification/Api_Sample.thy ===== *)
theory Api_Sample
  imports Api_Memory Auth_Sample
begin

text \<open>
  A memory server with one private room of the user \<open>ann-id\<close> and the plain-text token package of theory
  \<open>Auth_Sample\<close>; requests of its owner and of a guest, for the witnesses of theory \<open>Api_Memory\<close>.
\<close>

definition sample_setup :: MemSetup where
  "sample_setup = \<lparr>su_uuid = sample_uuid, su_bgen = sample_bcrypt, su_rnd = \<lambda>n i. Inr (n + i), su_foldU = \<lambda>_ _. False,
     su_pkg = plain_pkg, su_rt = sample_runtime, su_channel = \<lambda>r. ''room:'' @ r,
     su_issue = \<lambda>r u t. Inr (r @ u, t + Hour), su_cfg = sample_cfg\<rparr>"

definition private_room_of_ann :: Room where
  "private_room_of_ann = \<lparr>rm_ID = ''r1'', rm_Name = ''Film'', rm_OwnerID = ''ann-id'', rm_Visibility = RoomVisibilityPrivate,
     rm_PasswordHash = ''$open'', rm_CurrentVideo = [], rm_CreatedAt = 1, rm_UpdatedAt = 1\<rparr>"

definition sample_api_world :: MemWorld where
  "sample_api_world = sample_accounts\<lparr>mw_rooms := [(''r1'', private_room_of_ann)]\<rparr>"

definition sample_access_claims :: "string \<Rightarrow> Claims" where
  "sample_access_claims u = \<lparr>ck_UserID = u, ck_Username = u, ck_Role = UserRoleUser, ck_Type = TokenTypeAccess,
     ck_Subject = u, ck_ID = ''j'', ck_IssuedAt = 0, ck_ExpiresAt = mw_now sample_world\<rparr>"

definition sample_request :: "string \<Rightarrow> Ctx" where
  "sample_request u = \<lparr>cx_Authorization = ''Bearer '' @ plain_token ''k'' (sample_access_claims u), cx_ClientIP = ''::1'',
     cx_roomId = ''r1'', cx_uid = ''bob'', cx_Query = [], cx_ContentLength = 1, cx_claims = None\<rparr>"

lemma ExtractBearer_token: "ExtractBearer (''Bearer '' @ plain_token k c) = plain_token k c"
proof -
  have "TrimSpace (plain_token k c) = plain_token k c" by (rule TrimSpace_keep [OF plain_token_ends(1,3,2)])
  then show ?thesis unfolding ExtractBearer_def TrimPrefix_append by (simp only: HasPrefix_append if_True)
qed

lemma sample_claims:
  assumes "mw_ctx w = None" "mw_sessions w = NewSessionCache" "mw_now w = mw_now sample_world" "mw_delays w = []" "u \<noteq> []"
  shows "claims_of sample_setup (sample_request u) w = Inr (sample_access_claims u)"
proof -
  let ?tok = "plain_token ''k'' (sample_access_claims u)"
  have p: "TrimPrefix ?tok ''Bearer '' = ?tok"
    using plain_token_ends(3) [of "''k''" "sample_access_claims u"] plain_token_ends(1) [of "''k''" "sample_access_claims u"]
    by (cases ?tok) (auto simp: TrimPrefix_def HasPrefix_def)
  have trim: "TrimSpace ?tok = ?tok" by (rule TrimSpace_keep [OF plain_token_ends(1,3,2)])
  have clock: "run_state mem_clock w = (mw_now sample_world, w)" using assms by (simp add: mem_clock_def)
  define s where "s = sr_auth (mem_server sample_setup)"
  have parts: "au_now s = mem_clock" "au_sessions s = mem_ss" "jw_parse (au_pkg s) = plain_parse" "cf_JWTSecret (au_cfg s) = ''k''"
    by (simp_all add: s_def mem_auth_service_def SetAfterLogin_def NewAuthService_def mem_auth_pkg_def sample_setup_def
      sample_cfg_def plain_pkg_def)
  have black: "run_state (IsBlacklisted mem_ss j) w = (Inr False, w)" for j
    using assms by (simp add: mem_ss_def on_sessions_def mem_IsBlacklisted_def NewSessionCache_def clock)
  have parse: "plain_parse ''k'' (mw_now sample_world) (5 * Second) ?tok = Some (sample_access_claims u)"
    by (simp add: plain_parse_def) (simp add: sample_access_claims_def Second_def)
  have auth: "cx_Authorization (sample_request u) = ''Bearer '' @ ?tok" by (simp add: sample_request_def)
  show ?thesis
    unfolding claims_of_def s_def [symmetric] auth ExtractBearer_token ParseToken_def p trim parts Let_def
    using plain_token_ends(1) [of "''k''" "sample_access_claims u"] assms(5)
    by (simp add: clock parse black) (simp add: sample_access_claims_def)
qed

lemma sample_api_live: "mem_live sample_api_world"
  using sample_world_live
  by (auto simp: sample_api_world_def sample_accounts_def mem_live_def rooms_inv_def private_room_of_ann_def presence_inv_new)

lemma sample_api_claims: "u \<noteq> [] \<Longrightarrow> claims_of sample_setup (sample_request u) sample_api_world = Inr (sample_access_claims u)"
  by (rule sample_claims) (simp_all add: sample_api_world_def sample_accounts_def sample_world_def)

lemma TrimSpace_r1: "TrimSpace ''r1'' = ''r1''"
  by code_simp

lemma sample_api_room: "room_of (sample_request u) (mem_abs sample_api_world) = Some private_room_of_ann"
  by (simp add: room_of_def sample_request_def sample_api_world_def TrimSpace_r1)

definition sample_run :: "endpoint \<Rightarrow> string \<Rightarrow> Response \<times> MemWorld" where
  "sample_run e u = run_state (serve (mem_server sample_setup) e (sample_request u)) sample_api_world"

lemma sample_serve:
  "run_state (serve (mem_server sample_setup) e (sample_request u)) sample_api_world = (fst (sample_run e u), snd (sample_run e u))"
  by (simp add: sample_run_def)

lemma sample_rights: "manages (sample_access_claims u) private_room_of_ann \<longleftrightarrow> u = ''ann-id''"
  by (auto simp: manages_def sample_access_claims_def private_room_of_ann_def)

theorem room_api_refines_witness:
  "\<exists>t\<ge>mw_now sample_api_world. room_api (sr_pkg (mem_server sample_setup)) (PostJoin (None, \<lparr>jq_Password = ''open''\<rparr>)) (sample_request ''bob'')
     (sample_access_claims ''bob'') (fst (sample_run (PostJoin (None, \<lparr>jq_Password = ''open''\<rparr>)) ''bob''))
     ((mem_abs sample_api_world)\<lparr>ab_now := t\<rparr>) (mem_abs (snd (sample_run (PostJoin (None, \<lparr>jq_Password = ''open''\<rparr>)) ''bob'')))"
proof -
  have "claims_of sample_setup (sample_request ''bob'') sample_api_world = Inr (sample_access_claims ''bob'')"
    by (rule sample_api_claims) simp
  then show ?thesis
    using room_api_refines [OF sample_api_live _ sample_serve, of "PostJoin (None, \<lparr>jq_Password = ''open''\<rparr>)" "''bob''"]
    by (simp only: sum.case) (simp add: room_route_def)
qed

theorem only_managers_witness:
  "rp_Status (fst (sample_run DeleteRoom ''bob'')) \<in> {401, 403, 404} \<and>
   time_passes (mem_abs sample_api_world) (mem_abs (snd (sample_run DeleteRoom ''bob'')))"
proof (rule only_managers [OF sample_api_live sample_serve])
  show "\<not> manages k room"
    if "claims_of sample_setup (sample_request ''bob'') sample_api_world = Inr k"
      and "room_of (sample_request ''bob'') (mem_abs sample_api_world) = Some room" for k room
    using that sample_api_claims [of "''bob''"] sample_api_room sample_rights [of "''bob''"] by simp
qed simp

theorem private_room_witness:
  "rp_Status (fst (sample_run (PostJoin (None, \<lparr>jq_Password = ''shut''\<rparr>)) ''bob'')) = 403 \<and>
   rp_Status (fst (sample_run (PostJoin (None, \<lparr>jq_Password = ''open''\<rparr>)) ''bob'')) \<noteq> 403 \<and>
   (''r1'', ''bob'') \<in> granted (mw_access (snd (sample_run (PostJoin (None, \<lparr>jq_Password = ''open''\<rparr>)) ''bob'')))"
proof -
  have room: "rm_Visibility private_room_of_ann = RoomVisibilityPrivate" "rm_ID private_room_of_ann \<noteq> []"
    by (simp_all add: private_room_of_ann_def)
  have bob: "claims_of sample_setup (sample_request ''bob'') sample_api_world = Inr (sample_access_claims ''bob'')"
    by (rule sample_api_claims) simp
  have no: "\<not> manages (sample_access_claims ''bob'') private_room_of_ann" by (simp add: sample_rights)
  have none: "granted (mw_access sample_api_world) = {}"
    by (simp add: sample_api_world_def sample_accounts_def sample_world_def NewRoomAccess_def granted_def)
  have entry: "entry_password (PostJoin (None, \<lparr>jq_Password = p\<rparr>)) c = Some p" for p c by (simp add: entry_password_def)
  note * = private_room [OF sample_api_live sample_serve entry bob sample_api_room room no]
  show ?thesis
    using * [of "''shut''"] * [of "''open''"] none
    by (simp add: sample_setup_def plain_pkg_def private_room_of_ann_def sample_access_claims_def)
qed

theorem delete_room_gone_witness:
  "map_of (mw_rooms (snd (sample_run DeleteRoom ''ann-id''))) ''r1'' = None \<and>
   rp_Status (fst (run_state (serve (mem_server sample_setup) GetRoom (sample_request ''bob''))
     (snd (sample_run DeleteRoom ''ann-id'')))) \<in> {401, 404}"
proof -
  have ann: "claims_of sample_setup (sample_request ''ann-id'') sample_api_world = Inr (sample_access_claims ''ann-id'')"
    by (rule sample_api_claims) simp
  have m: "manages (sample_access_claims ''ann-id'') private_room_of_ann" by (simp add: sample_rights)
  have same: "cx_roomId (sample_request ''bob'') = cx_roomId (sample_request ''ann-id'')" by (simp add: sample_request_def)
  have "room_route GetRoom" by (simp add: room_route_def)
  from delete_room_gone [OF sample_api_live sample_serve ann sample_api_room m this same surjective_pairing] show ?thesis
    by (simp add: private_room_of_ann_def)
qed

end
