(* ===== verification/Redis_Client.thy ===== *)
theory Redis_Client
  imports Room_Interfaces Go_Text
begin

text \<open>
  The Redis client as the server uses it: the commands it sends, the replies it reads, transactions, and scripts.
  The client library and the Redis server are not part of the repository, so a client is a record of three
  operations that every definition takes as an argument.  What the code relies on is the documented behaviour of the
  commands, written down as \<open>redis_exec\<close> on a database of keys with an expiry; the locale \<open>redis_server\<close> states it
  as the assumption about a client, and \<open>sim_redis\<close> is a client that satisfies it.
\<close>

section \<open>Commands and replies\<close>

text \<open>A time to live of 0 means none.\<close>

datatype cmd =
    SET string string duration | SETNX string string duration | GET string | DEL string | EXISTS string
  | EXPIRE string duration | TTL string | INCR string | DECR string
  | HSET string "(string \<times> string) list" | HDEL string string | HLEN string | HGETALL string
  | SADD string string | SREM string string | SMEMBERS string | SISMEMBER string string
  | ZADD string int string | ZCARD string | ZREM string string | ZRANGE string int int
  | XADD string "(string \<times> string) list" int bool | XREVRANGE string string int | XRANGE string string
  | SCAN int string int
  | PUBLISH string string

text \<open>
  \<open>XADD key fields n approx\<close> trims the stream to \<open>n\<close> entries where \<open>n\<close> is positive, exactly or, with \<open>MAXLEN ~\<close>, roughly.
  \<open>SCAN cursor prefix count\<close> asks for keys that start with the prefix.
\<close>

text \<open>\<open>XREVRANGE key before n\<close>: the \<open>n\<close> newest entries, strictly older than \<open>before\<close> unless that is empty.\<close>

datatype reply =
    NoValue | Count int | Bulk string | Remaining duration | Flag bool
  | Strings "string list" | Pairs "(string \<times> string) list"
  | Entries "(string \<times> (string \<times> string) list) list" | Cursor "string list" int | Failure string

text \<open>A script: it calls commands, looks at their replies, and returns a string.\<close>

datatype script = Return string | Call cmd "reply \<Rightarrow> script"

record 'w Redis =
  rd_Do :: "cmd \<Rightarrow> ('w, error + reply) io"
  rd_TxPipeline :: "cmd list \<Rightarrow> ('w, error + reply list) io"
  rd_Eval :: "script \<Rightarrow> ('w, error + string) io"

section \<open>Reading replies\<close>

text \<open>The methods \<open>Err\<close> and \<open>Result\<close> of the replies; a missing value is \<open>redis.Nil\<close>.\<close>

definition reply_err :: "error + reply \<Rightarrow> error option" where
  "reply_err r = (case r of Inl e \<Rightarrow> Some e | Inr (Failure m) \<Rightarrow> Some (OtherError m) | Inr _ \<Rightarrow> None)"

definition reply_as :: "(reply \<Rightarrow> 'a option) \<Rightarrow> error + reply \<Rightarrow> error + 'a" where
  "reply_as f r =
     (case r of
        Inl e \<Rightarrow> Inl e
      | Inr x \<Rightarrow> (case x of Failure m \<Rightarrow> Inl (OtherError m)
          | _ \<Rightarrow> (case f x of Some y \<Rightarrow> Inr y | None \<Rightarrow> Inl ErrRedisNil)))"

definition the_bulk :: "reply \<Rightarrow> string option" where
  "the_bulk r = (case r of Bulk s \<Rightarrow> Some s | _ \<Rightarrow> None)"

definition the_count :: "reply \<Rightarrow> int option" where
  "the_count r = (case r of Count n \<Rightarrow> Some n | _ \<Rightarrow> None)"

definition the_flag :: "reply \<Rightarrow> bool option" where
  "the_flag r = (case r of Flag b \<Rightarrow> Some b | _ \<Rightarrow> None)"

definition the_strings :: "reply \<Rightarrow> string list option" where
  "the_strings r = (case r of Strings s \<Rightarrow> Some s | _ \<Rightarrow> None)"

definition the_pairs :: "reply \<Rightarrow> (string \<times> string) list option" where
  "the_pairs r = (case r of Pairs s \<Rightarrow> Some s | _ \<Rightarrow> None)"

definition the_remaining :: "reply \<Rightarrow> duration option" where
  "the_remaining r = (case r of Remaining d \<Rightarrow> Some d | _ \<Rightarrow> None)"

definition the_entries :: "reply \<Rightarrow> (string \<times> (string \<times> string) list) list option" where
  "the_entries r = (case r of Entries es \<Rightarrow> Some es | _ \<Rightarrow> None)"

definition the_cursor :: "reply \<Rightarrow> (string list \<times> int) option" where
  "the_cursor r = (case r of Cursor ks n \<Rightarrow> Some (ks, n) | _ \<Rightarrow> None)"

definition do_err :: "'w Redis \<Rightarrow> cmd \<Rightarrow> ('w, error option) io" where
  "do_err rd c = do { r \<leftarrow> rd_Do rd c; State_Monad.return (reply_err r) }"

definition do_as :: "'w Redis \<Rightarrow> (reply \<Rightarrow> 'a option) \<Rightarrow> cmd \<Rightarrow> ('w, error + 'a) io" where
  "do_as rd f c = do { r \<leftarrow> rd_Do rd c; State_Monad.return (reply_as f r) }"

text \<open>A pipeline returns the error of the first of its commands that failed.\<close>

fun first_failure :: "reply list \<Rightarrow> error option" where
  "first_failure [] = None"
| "first_failure (r # rs) = (case reply_err (Inr r) of Some e \<Rightarrow> Some e | None \<Rightarrow> first_failure rs)"

definition tx_replies :: "'w Redis \<Rightarrow> cmd list \<Rightarrow> ('w, error + reply list) io" where
  "tx_replies rd cs = do {
     r \<leftarrow> rd_TxPipeline rd cs;
     State_Monad.return
       (case r of Inl e \<Rightarrow> Inl e | Inr rs \<Rightarrow> (case first_failure rs of Some e \<Rightarrow> Inl e | None \<Rightarrow> Inr rs))
   }"

definition tx_err :: "'w Redis \<Rightarrow> cmd list \<Rightarrow> ('w, error option) io" where
  "tx_err rd cs = do {
     r \<leftarrow> tx_replies rd cs;
     State_Monad.return (case r of Inl e \<Rightarrow> Some e | Inr _ \<Rightarrow> None)
   }"

text \<open>A field that is missing reads as the empty string, and \<open>ParseInt\<close> with its error ignored.\<close>

definition field_of :: "string \<Rightarrow> (string \<times> string) list \<Rightarrow> string" where
  "field_of k vs = (case map_of vs k of None \<Rightarrow> [] | Some v \<Rightarrow> v)"

definition number_of :: "string \<Rightarrow> int" where
  "number_of s =
     (let neg = (s \<noteq> [] \<and> hd s = CHR ''-'');
          ds = (if s \<noteq> [] \<and> (hd s = CHR ''-'' \<or> hd s = CHR ''+'') then tl s else s);
          v = (if neg then - digits_val 0 ds else digits_val 0 ds)
      in if ds = [] \<or> \<not> list_all is_digit ds then 0
         else if v > maxInt64 then maxInt64 else if v < minInt64 then minInt64 else v)"

lemma number_of_Atoi: "Atoi s = Some n \<Longrightarrow> number_of s = n"
  by (auto simp: number_of_def Atoi_def Let_def is_int64_def split: if_splits)

lemma number_of_FormatInt [simp]: "is_int64 n \<Longrightarrow> number_of (FormatInt n) = n"
  by (simp add: number_of_Atoi)

section \<open>The documented behaviour\<close>

datatype rvalue =
    RString string | RHash "(string, string) gomap" | RSet "string list"
  | RZSet "(string, int) gomap" | RStream "(string \<times> (string \<times> string) list) list"

text \<open>
  A database holds for each key a value and perhaps the instant at which it expires; an expired key is not there.
  The client library passes the time to live of \<open>SET\<close> in whole milliseconds (none when it is not positive), that of
  \<open>EXPIRE\<close> in whole seconds, at least one of them; \<open>TTL\<close> answers in seconds, rounded, and \<open>- 1\<close> or \<open>- 2\<close> nanoseconds for a
  key without expiry or without a value.
\<close>

type_synonym rdb = "(string, rvalue \<times> gotime option) gomap"

definition rget :: "gotime \<Rightarrow> rdb \<Rightarrow> string \<Rightarrow> rvalue option" where
  "rget now db k =
     (case map_of db k of
        None \<Rightarrow> None
      | Some (v, None) \<Rightarrow> Some v
      | Some (v, Some t) \<Rightarrow> if now < t then Some v else None)"

definition rttl :: "gotime \<Rightarrow> rdb \<Rightarrow> string \<Rightarrow> gotime option" where
  "rttl now db k =
     (if rget now db k = None then None else (case map_of db k of None \<Rightarrow> None | Some (v, t) \<Rightarrow> t))"

definition whole_ms :: "duration \<Rightarrow> duration" where
  "whole_ms d = max 1 (d div 1000000) * 1000000"

definition whole_s :: "duration \<Rightarrow> duration" where
  "whole_s d = max 1 (d div Second) * Second"

definition expiry :: "gotime \<Rightarrow> duration \<Rightarrow> gotime option" where
  "expiry now ttl = (if ttl \<le> 0 then None else Some (now + whole_ms ttl))"

text \<open>Storing a changed collection under a key that keeps its expiry; an empty collection takes its key away.\<close>

definition rput :: "gotime \<Rightarrow> string \<Rightarrow> rvalue \<Rightarrow> rdb \<Rightarrow> rdb" where
  "rput now k v db = mput k (v, rttl now db k) db"

definition rput_coll :: "gotime \<Rightarrow> string \<Rightarrow> rvalue \<Rightarrow> rdb \<Rightarrow> rdb" where
  "rput_coll now k v db =
     (if v = RHash [] \<or> v = RSet [] \<or> v = RZSet [] then mdelete k db else rput now k v db)"

definition wrong_type :: "rdb \<Rightarrow> reply \<times> rdb" where
  "wrong_type db = (Failure ''WRONGTYPE Operation against a key holding the wrong kind of value'', db)"

definition with_hash :: "gotime \<Rightarrow> string \<Rightarrow> rdb \<Rightarrow> ((string, string) gomap \<Rightarrow> reply \<times> rdb) \<Rightarrow> reply \<times> rdb" where
  "with_hash now k db f = (case rget now db k of None \<Rightarrow> f [] | Some (RHash h) \<Rightarrow> f h | Some _ \<Rightarrow> wrong_type db)"

definition with_set :: "gotime \<Rightarrow> string \<Rightarrow> rdb \<Rightarrow> (string list \<Rightarrow> reply \<times> rdb) \<Rightarrow> reply \<times> rdb" where
  "with_set now k db f = (case rget now db k of None \<Rightarrow> f [] | Some (RSet h) \<Rightarrow> f h | Some _ \<Rightarrow> wrong_type db)"

definition with_zset :: "gotime \<Rightarrow> string \<Rightarrow> rdb \<Rightarrow> ((string, int) gomap \<Rightarrow> reply \<times> rdb) \<Rightarrow> reply \<times> rdb" where
  "with_zset now k db f = (case rget now db k of None \<Rightarrow> f [] | Some (RZSet h) \<Rightarrow> f h | Some _ \<Rightarrow> wrong_type db)"

definition with_stream ::
  "gotime \<Rightarrow> string \<Rightarrow> rdb \<Rightarrow> ((string \<times> (string \<times> string) list) list \<Rightarrow> reply \<times> rdb) \<Rightarrow> reply \<times> rdb" where
  "with_stream now k db f = (case rget now db k of None \<Rightarrow> f [] | Some (RStream h) \<Rightarrow> f h | Some _ \<Rightarrow> wrong_type db)"

text \<open>Adding to a counter that is missing starts at 0.\<close>

definition add_to :: "gotime \<Rightarrow> int \<Rightarrow> string \<Rightarrow> rdb \<Rightarrow> reply \<times> rdb" where
  "add_to now d k db =
     (case (case rget now db k of None \<Rightarrow> Some 0 | Some (RString s) \<Rightarrow> Atoi s | Some _ \<Rightarrow> None) of
        None \<Rightarrow> (Failure ''ERR value is not an integer or out of range'', db)
      | Some n \<Rightarrow>
          if is_int64 (n + d) then (Count (n + d), rput now k (RString (FormatInt (n + d))) db)
          else (Failure ''ERR increment or decrement would overflow'', db))"

text \<open>Members of equal score stand in the order of their bytes.\<close>

fun bytes_less :: "string \<Rightarrow> string \<Rightarrow> bool" where
  "bytes_less [] [] = False"
| "bytes_less [] (d # t) = True"
| "bytes_less (c # s) [] = False"
| "bytes_less (c # s) (d # t) = (byte c < byte d \<or> c = d \<and> bytes_less s t)"

fun zinsert :: "string \<Rightarrow> int \<Rightarrow> (string, int) gomap \<Rightarrow> (string, int) gomap" where
  "zinsert m x [] = [(m, x)]"
| "zinsert m x ((n, y) # z) =
     (if x < y \<or> x = y \<and> bytes_less m n then (m, x) # (n, y) # z else (n, y) # zinsert m x z)"

definition zadd :: "string \<Rightarrow> int \<Rightarrow> (string, int) gomap \<Rightarrow> (string, int) gomap" where
  "zadd m x z = zinsert m x (mdelete m z)"

text \<open>A stream identifier is a time in milliseconds and a sequence number; a new entry gets a larger one.\<close>

definition stream_id :: "string \<Rightarrow> (int \<times> int) option" where
  "stream_id s =
     (case SplitByte (CHR ''-'') s of
        [a] \<Rightarrow> map_option (\<lambda>m. (m, 0)) (Atoi a)
      | [a, b] \<Rightarrow> (case (Atoi a, Atoi b) of (Some m, Some q) \<Rightarrow> Some (m, q) | _ \<Rightarrow> None)
      | _ \<Rightarrow> None)"

definition id_less :: "int \<times> int \<Rightarrow> int \<times> int \<Rightarrow> bool" where
  "id_less x y \<longleftrightarrow> fst x < fst y \<or> fst x = fst y \<and> snd x < snd y"

definition id_of :: "string \<times> 'a \<Rightarrow> int \<times> int" where
  "id_of e = (case stream_id (fst e) of None \<Rightarrow> (0, 0) | Some i \<Rightarrow> i)"

definition next_id :: "gotime \<Rightarrow> (string \<times> 'a) list \<Rightarrow> int \<times> int" where
  "next_id now entries =
     (let t = UnixMilli now in
      if entries = [] then (t, 0)
      else let (m, q) = id_of (last entries) in if m < t then (t, 0) else (m, q + 1))"

definition id_text :: "int \<times> int \<Rightarrow> string" where
  "id_text i = FormatInt (fst i) @ ''-'' @ FormatInt (snd i)"

text \<open>
  \<open>xadd\<close> appends an entry and drops the \<open>j\<close> oldest.  How many that are is fixed when the stream is trimmed exactly;
  \<open>MAXLEN ~ n\<close> keeps at least the \<open>n\<close> newest entries and may keep more.
\<close>

definition stream_len :: "gotime \<Rightarrow> string \<Rightarrow> rdb \<Rightarrow> nat" where
  "stream_len now k db = (case rget now db k of Some (RStream es) \<Rightarrow> length es | _ \<Rightarrow> 0)"

definition xadd :: "gotime \<Rightarrow> string \<Rightarrow> (string \<times> string) list \<Rightarrow> nat \<Rightarrow> rdb \<Rightarrow> reply \<times> rdb" where
  "xadd now k fs j db = with_stream now k db (\<lambda>es.
     let i = id_text (next_id now es) in (Bulk i, rput now k (RStream (drop j (es @ [(i, fs)]))) db))"

definition may_trim :: "int \<Rightarrow> bool \<Rightarrow> nat \<Rightarrow> nat \<Rightarrow> bool" where
  "may_trim n approx len j \<longleftrightarrow> (if n \<le> 0 then j = 0 else j \<le> len - nat n \<and> (approx \<or> j = len - nat n))"

text \<open>
  Two choices that the documentation leaves to the server: trimming takes away whole blocks of a hundred entries, and
  a scan goes through 256 slots, as many of them per page as \<open>COUNT\<close> says; a cursor of 0 says that it is complete.
\<close>

definition trims :: "int \<Rightarrow> bool \<Rightarrow> nat \<Rightarrow> nat" where
  "trims n approx len = (if n \<le> 0 then 0 else if approx then (len - nat n) div 100 * 100 else len - nat n)"

lemma may_trim_trims: "may_trim n approx len (trims n approx len)"
  by (simp add: may_trim_def trims_def)

definition slot :: "string \<Rightarrow> int" where
  "slot k = foldl (\<lambda>h c. (31 * h + int (of_char c)) mod 256) 0 k"

definition scan_page :: "gotime \<Rightarrow> int \<Rightarrow> string \<Rightarrow> int \<Rightarrow> rdb \<Rightarrow> string list \<times> int" where
  "scan_page now cur pfx n db =
     (let lo = max 0 cur; hi = lo + max 1 n in
      (filter (\<lambda>k. HasPrefix k pfx \<and> rget now db k \<noteq> None \<and> lo \<le> slot k \<and> slot k < hi) (map fst db), if hi < 256 then hi else 0))"

definition redis_exec :: "gotime \<Rightarrow> cmd \<Rightarrow> rdb \<Rightarrow> reply \<times> rdb" where
  "redis_exec now c db =
     (case c of
        SET k s ttl \<Rightarrow> (Bulk ''OK'', mput k (RString s, expiry now ttl) db)
      | SETNX k s ttl \<Rightarrow>
          if rget now db k = None then (Flag True, mput k (RString s, expiry now ttl) db) else (Flag False, db)
      | GET k \<Rightarrow> (case rget now db k of None \<Rightarrow> (NoValue, db) | Some (RString s) \<Rightarrow> (Bulk s, db) | Some _ \<Rightarrow> wrong_type db)
      | DEL k \<Rightarrow> (Count (if rget now db k = None then 0 else 1), mdelete k db)
      | EXISTS k \<Rightarrow> (Count (if rget now db k = None then 0 else 1), db)
      | EXPIRE k ttl \<Rightarrow>
          (case rget now db k of
             None \<Rightarrow> (Flag False, db)
           | Some v \<Rightarrow> (Flag True, if ttl \<le> 0 then mdelete k db else mput k (v, Some (now + whole_s ttl)) db))
      | TTL k \<Rightarrow>
          (if rget now db k = None then (Remaining (- 2), db)
           else (Remaining (case rttl now db k of None \<Rightarrow> - 1 | Some t \<Rightarrow> ((t - now) div 1000000 + 500) div 1000 * Second), db))
      | INCR k \<Rightarrow> add_to now 1 k db
      | DECR k \<Rightarrow> add_to now (- 1) k db
      | HSET k fs \<Rightarrow> with_hash now k db (\<lambda>h.
          (Count (int (length (remdups (filter (\<lambda>f. map_of h f = None) (map fst fs))))),
           rput_coll now k (RHash (fold (\<lambda>(f, v). mput f v) fs h)) db))
      | HDEL k f \<Rightarrow> with_hash now k db (\<lambda>h.
          (Count (if map_of h f = None then 0 else 1), rput_coll now k (RHash (mdelete f h)) db))
      | HLEN k \<Rightarrow> with_hash now k db (\<lambda>h. (Count (int (length h)), db))
      | HGETALL k \<Rightarrow> with_hash now k db (\<lambda>h. (Pairs h, db))
      | SADD k m \<Rightarrow> with_set now k db (\<lambda>s.
          if m \<in> set s then (Count 0, db) else (Count 1, rput_coll now k (RSet (s @ [m])) db))
      | SREM k m \<Rightarrow> with_set now k db (\<lambda>s.
          (Count (if m \<in> set s then 1 else 0), rput_coll now k (RSet (filter (\<lambda>x. x \<noteq> m) s)) db))
      | SMEMBERS k \<Rightarrow> with_set now k db (\<lambda>s. (Strings s, db))
      | SISMEMBER k m \<Rightarrow> with_set now k db (\<lambda>s. (Flag (m \<in> set s), db))
      | ZADD k x m \<Rightarrow> with_zset now k db (\<lambda>z.
          (Count (if map_of z m = None then 1 else 0), rput_coll now k (RZSet (zadd m x z)) db))
      | ZCARD k \<Rightarrow> with_zset now k db (\<lambda>z. (Count (int (length z)), db))
      | ZREM k m \<Rightarrow> with_zset now k db (\<lambda>z.
          (Count (if map_of z m = None then 0 else 1), rput_coll now k (RZSet (mdelete m z)) db))
      | ZRANGE k i j \<Rightarrow> with_zset now k db (\<lambda>z. (Strings (take (nat (j - i + 1)) (drop (nat i) (map fst z))), db))
      | XADD k fs n approx \<Rightarrow> xadd now k fs (trims n approx (Suc (stream_len now k db))) db
      | XREVRANGE k before n \<Rightarrow> with_stream now k db (\<lambda>es.
          (case (if before = [] then Some None else map_option Some (stream_id before)) of
             None \<Rightarrow> (Failure ''ERR Invalid stream ID specified as stream command argument'', db)
           | Some b \<Rightarrow>
               (Entries (take (nat n) (rev (filter (\<lambda>e. case b of None \<Rightarrow> True | Some i \<Rightarrow> id_less (id_of e) i) es))), db)))
      | XRANGE k i \<Rightarrow> with_stream now k db (\<lambda>es.
          (case stream_id i of
             None \<Rightarrow> (Failure ''ERR Invalid stream ID specified as stream command argument'', db)
           | Some x \<Rightarrow> (Entries (filter (\<lambda>e. id_of e = x) es), db)))
      | SCAN cur pfx n \<Rightarrow> (case scan_page now cur pfx n db of (keys, nxt) \<Rightarrow> (Cursor keys nxt, db))
      | PUBLISH ch s \<Rightarrow> (Count 0, db))"

fun redis_execs :: "gotime \<Rightarrow> cmd list \<Rightarrow> rdb \<Rightarrow> reply list \<times> rdb" where
  "redis_execs now [] db = ([], db)"
| "redis_execs now (c # cs) db =
     (case redis_exec now c db of (r, db1) \<Rightarrow> (case redis_execs now cs db1 of (rs, db2) \<Rightarrow> (r # rs, db2)))"

text \<open>A command that fails ends its script.\<close>

primrec run_script :: "gotime \<Rightarrow> script \<Rightarrow> rdb \<Rightarrow> (error + string) \<times> rdb" where
  "run_script now (Return s) = (\<lambda>db. (Inr s, db))"
| "run_script now (Call c f) = (\<lambda>db.
     case redis_exec now c db of (r, db1) \<Rightarrow>
       (case r of Failure m \<Rightarrow> (Inl (OtherError m), db1) | _ \<Rightarrow> run_script now (f r) db1))"

text \<open>The commands whose outcome the documentation determines, and scripts that run into no other.\<close>

definition determined :: "cmd \<Rightarrow> bool" where
  "determined c \<longleftrightarrow> (case c of XADD k fs n approx \<Rightarrow> \<not> approx | SCAN cur pfx n \<Rightarrow> False | _ \<Rightarrow> True)"

primrec determined_run :: "gotime \<Rightarrow> script \<Rightarrow> rdb \<Rightarrow> bool" where
  "determined_run now (Return s) = (\<lambda>db. True)"
| "determined_run now (Call c f) = (\<lambda>db.
     determined c \<and> (case redis_exec now c db of (r, db1) \<Rightarrow> determined_run now (f r) db1))"

section \<open>The assumption about a client\<close>

text \<open>
  A healthy client executes each request at the time of the server, commands of a transaction and of a script
  without anything in between.  Where the documentation leaves a choice, so do the laws: an approximate trim may drop
  any number of entries that \<open>may_trim\<close> allows.
\<close>

record redis_abs =
  ra_db :: rdb
  ra_now :: gotime

locale redis_server =
  fixes rd :: "'w Redis" and clk :: "('w, gotime) io" and A :: "'w \<Rightarrow> redis_abs" and live :: "'w \<Rightarrow> bool"
  assumes do_law: "determined c \<Longrightarrow> ensures live A (rd_Do rd c) a
      (\<lambda>x a'. x = Inr (fst (redis_exec (ra_now a) c (ra_db a))) \<and> a' = a\<lparr>ra_db := snd (redis_exec (ra_now a) c (ra_db a))\<rparr>)"
    and tx_law: "list_all determined cs \<Longrightarrow> ensures live A (rd_TxPipeline rd cs) a
      (\<lambda>x a'. x = Inr (fst (redis_execs (ra_now a) cs (ra_db a))) \<and> a' = a\<lparr>ra_db := snd (redis_execs (ra_now a) cs (ra_db a))\<rparr>)"
    and eval_law: "determined_run (ra_now a) sc (ra_db a) \<Longrightarrow> ensures live A (rd_Eval rd sc) a
      (\<lambda>x a'. x = fst (run_script (ra_now a) sc (ra_db a)) \<and> a' = a\<lparr>ra_db := snd (run_script (ra_now a) sc (ra_db a))\<rparr>)"
    and clock_law: "ensures live A clk a (\<lambda>t a'. ra_now a \<le> t \<and> a' = a\<lparr>ra_now := t\<rparr>)"
    and xadd_law: "ensures live A (rd_Do rd (XADD k fs n approx)) a
      (\<lambda>x a'. \<exists>j. may_trim n approx (Suc (stream_len (ra_now a) k (ra_db a))) j \<and>
         x = Inr (fst (xadd (ra_now a) k fs j (ra_db a))) \<and> a' = a\<lparr>ra_db := snd (xadd (ra_now a) k fs j (ra_db a))\<rparr>)"

text \<open>
  A scan: \<open>seg c\<close> are the keys that are still to come at the cursor \<open>c\<close>, \<open>pages c\<close> bounds the pages that are left.  Keys that
  are there all the time are returned at least once; a page may hold any number of keys, none and repeated ones
  included, whatever \<open>COUNT\<close> says.
\<close>

locale redis_scan = redis_server rd clk A live
  for rd :: "'w Redis" and clk :: "('w, gotime) io" and A :: "'w \<Rightarrow> redis_abs" and live :: "'w \<Rightarrow> bool" +
  fixes seg :: "int \<Rightarrow> string set" and pages :: "int \<Rightarrow> nat"
  assumes scan_start: "seg 0 = UNIV"
    and scan_law: "ensures live A (rd_Do rd (SCAN c pfx n)) a
      (\<lambda>x a'. a' = a \<and> (\<exists>keys nxt. x = Inr (Cursor keys nxt) \<and> (nxt = 0 \<or> pages nxt < pages c) \<and>
         (\<forall>k \<in> set keys. HasPrefix k pfx) \<and>
         (\<forall>k \<in> seg c - (if nxt = 0 then {} else seg nxt). HasPrefix k pfx \<longrightarrow> rget (ra_now a) (ra_db a) k \<noteq> None \<longrightarrow> k \<in> set keys)))"

text \<open>
  A simulated world: a database, a clock, the delays between the readings of the clock, and the messages that a realtime
  publisher has been given.
\<close>

record RedisWorld =
  rw_db :: rdb
  rw_now :: gotime
  rw_delays :: "nat list"
  rw_sent :: "(string \<times> string \<times> pub_data) list"

definition sim_redis :: "RedisWorld Redis" where
  "sim_redis = \<lparr>
     rd_Do = \<lambda>c. State (\<lambda>w. case redis_exec (rw_now w) c (rw_db w) of (r, db) \<Rightarrow> (Inr r, w\<lparr>rw_db := db\<rparr>)),
     rd_TxPipeline = \<lambda>cs. State (\<lambda>w. case redis_execs (rw_now w) cs (rw_db w) of (r, db) \<Rightarrow> (Inr r, w\<lparr>rw_db := db\<rparr>)),
     rd_Eval = \<lambda>sc. State (\<lambda>w. case run_script (rw_now w) sc (rw_db w) of (r, db) \<Rightarrow> (r, w\<lparr>rw_db := db\<rparr>))\<rparr>"

definition sim_clock :: "(RedisWorld, gotime) io" where
  "sim_clock = State (\<lambda>w. case rw_delays w of
     [] \<Rightarrow> (rw_now w, w)
   | d # ds \<Rightarrow> (rw_now w + int d, w\<lparr>rw_now := rw_now w + int d, rw_delays := ds\<rparr>))"

definition sim_abs :: "RedisWorld \<Rightarrow> redis_abs" where
  "sim_abs w = \<lparr>ra_db = rw_db w, ra_now = rw_now w\<rparr>"

interpretation sim: redis_server sim_redis sim_clock sim_abs "\<lambda>_. True"
proof
  fix c a
  show "ensures (\<lambda>_. True) sim_abs (rd_Do sim_redis c) a
      (\<lambda>x a'. x = Inr (fst (redis_exec (ra_now a) c (ra_db a))) \<and> a' = a\<lparr>ra_db := snd (redis_exec (ra_now a) c (ra_db a))\<rparr>)"
    by (auto simp: ensures_def sim_redis_def sim_abs_def case_prod_beta)
next
  fix cs a
  show "ensures (\<lambda>_. True) sim_abs (rd_TxPipeline sim_redis cs) a
      (\<lambda>x a'. x = Inr (fst (redis_execs (ra_now a) cs (ra_db a))) \<and> a' = a\<lparr>ra_db := snd (redis_execs (ra_now a) cs (ra_db a))\<rparr>)"
    by (auto simp: ensures_def sim_redis_def sim_abs_def case_prod_beta)
next
  fix sc a
  show "ensures (\<lambda>_. True) sim_abs (rd_Eval sim_redis sc) a
      (\<lambda>x a'. x = fst (run_script (ra_now a) sc (ra_db a)) \<and> a' = a\<lparr>ra_db := snd (run_script (ra_now a) sc (ra_db a))\<rparr>)"
    by (auto simp: ensures_def sim_redis_def sim_abs_def case_prod_beta)
next
  fix a
  show "ensures (\<lambda>_. True) sim_abs sim_clock a (\<lambda>t a'. ra_now a \<le> t \<and> a' = a\<lparr>ra_now := t\<rparr>)"
    by (auto simp: ensures_def sim_clock_def sim_abs_def split: list.split)
next
  fix k fs n approx a
  show "ensures (\<lambda>_. True) sim_abs (rd_Do sim_redis (XADD k fs n approx)) a
      (\<lambda>x a'. \<exists>j. may_trim n approx (Suc (stream_len (ra_now a) k (ra_db a))) j \<and>
         x = Inr (fst (xadd (ra_now a) k fs j (ra_db a))) \<and> a' = a\<lparr>ra_db := snd (xadd (ra_now a) k fs j (ra_db a))\<rparr>)"
  proof (rule ensuresI, goal_cases)
    case (1 w)
    let ?j = "trims n approx (Suc (stream_len (rw_now w) k (rw_db w)))"
    have "run_state (rd_Do sim_redis (XADD k fs n approx)) w =
        (Inr (fst (xadd (rw_now w) k fs ?j (rw_db w))), w\<lparr>rw_db := snd (xadd (rw_now w) k fs ?j (rw_db w))\<rparr>)"
      by (simp add: sim_redis_def redis_exec_def case_prod_beta)
    moreover have "may_trim n approx (Suc (stream_len (rw_now w) k (rw_db w))) ?j" by (rule may_trim_trims)
    ultimately show ?case using 1 by (auto simp: sim_abs_def)
  qed
qed

lemma slot_range: "0 \<le> slot k \<and> slot k < 256"
  unfolding slot_def by (cases k rule: rev_cases) simp_all

lemma scan_page_complete:
  assumes "scan_page now c pfx n db = (keys, nxt)"
  shows "nxt = 0 \<or> nat (256 - nxt) < nat (256 - c)" and "k \<in> set keys \<Longrightarrow> HasPrefix k pfx"
    and "c \<le> slot k \<Longrightarrow> nxt = 0 \<or> slot k < nxt \<Longrightarrow> HasPrefix k pfx \<Longrightarrow> rget now db k \<noteq> None \<Longrightarrow> k \<in> set keys"
proof -
  show "nxt = 0 \<or> nat (256 - nxt) < nat (256 - c)" and "k \<in> set keys \<Longrightarrow> HasPrefix k pfx"
    using assms by (auto simp: scan_page_def Let_def split: if_splits)
  assume "c \<le> slot k" "nxt = 0 \<or> slot k < nxt" "HasPrefix k pfx" "rget now db k \<noteq> None"
  moreover from this(4) have "k \<in> set (map fst db)"
    by (cases "map_of db k") (auto simp: rget_def map_of_eq_None_iff dest: map_of_SomeD intro: rev_image_eqI)
  ultimately show "k \<in> set keys"
    using assms slot_range [of k] by (auto simp: scan_page_def Let_def simp del: set_map split: if_splits)
qed

interpretation sim_scan: redis_scan sim_redis sim_clock sim_abs "\<lambda>_. True" "\<lambda>c. {k. c \<le> slot k}" "\<lambda>c. nat (256 - c)"
proof
  show "{k. 0 \<le> slot k} = UNIV" using slot_range by blast
next
  fix c pfx n a
  show "ensures (\<lambda>_. True) sim_abs (rd_Do sim_redis (SCAN c pfx n)) a
      (\<lambda>x a'. a' = a \<and> (\<exists>keys nxt. x = Inr (Cursor keys nxt) \<and> (nxt = 0 \<or> nat (256 - nxt) < nat (256 - c)) \<and>
         (\<forall>k \<in> set keys. HasPrefix k pfx) \<and>
         (\<forall>k \<in> {k. c \<le> slot k} - (if nxt = 0 then {} else {k. nxt \<le> slot k}).
            HasPrefix k pfx \<longrightarrow> rget (ra_now a) (ra_db a) k \<noteq> None \<longrightarrow> k \<in> set keys)))"
  proof (rule ensuresI, goal_cases)
    case (1 w)
    obtain keys nxt where page: "scan_page (rw_now w) c pfx n (rw_db w) = (keys, nxt)" by (cases "scan_page (rw_now w) c pfx n (rw_db w)")
    then have run: "run_state (rd_Do sim_redis (SCAN c pfx n)) w = (Inr (Cursor keys nxt), w)"
      by (simp add: sim_redis_def redis_exec_def)
    have seg: "c \<le> slot k \<and> (nxt = 0 \<or> slot k < nxt)" if "k \<in> {k. c \<le> slot k} - (if nxt = 0 then {} else {k. nxt \<le> slot k})" for k
      using that by (auto split: if_splits)
    have now: "ra_now a = rw_now w" "ra_db a = rw_db w" using 1(2) by (auto simp: sim_abs_def)
    show ?case
      unfolding run fst_conv snd_conv now using 1 scan_page_complete [OF page] seg by blast
  qed
qed

end
