(* ===== verification/Redis_Caches.thy ===== *)
theory Redis_Caches
  imports Redis_Client Session_Memory
begin

text \<open>
  The caches on Redis, \<^verbatim>\<open>internal/cache/redis\<close>: sessions, playback states, access grants, room presence and the
  room chat.  Each operation is the commands it sends through the client of theory \<open>Redis_Client\<close> and what it
  makes of the replies; each cache is a value of the interface that its in-process counterpart implements.
\<close>

section \<open>Sessions\<close>

definition refreshTokenKey :: "string \<Rightarrow> string" where
  "refreshTokenKey userID = ''session:refresh:'' @ userID"

definition blacklistKey :: "string \<Rightarrow> string" where
  "blacklistKey jti = ''session:blacklist:'' @ jti"

definition rc_SetRefreshToken :: "'w Redis \<Rightarrow> string \<Rightarrow> string \<Rightarrow> duration \<Rightarrow> ('w, error option) io" where
  "rc_SetRefreshToken rd userID token ttl = do_err rd (SET (refreshTokenKey userID) token ttl)"

definition rc_GetRefreshToken :: "'w Redis \<Rightarrow> string \<Rightarrow> ('w, error + string) io" where
  "rc_GetRefreshToken rd userID = do {
     r \<leftarrow> do_as rd the_bulk (GET (refreshTokenKey userID));
     State_Monad.return (if r = Inl ErrRedisNil then Inr [] else r)
   }"

definition rc_DeleteRefreshToken :: "'w Redis \<Rightarrow> string \<Rightarrow> ('w, error option) io" where
  "rc_DeleteRefreshToken rd userID = do_err rd (DEL (refreshTokenKey userID))"

definition rc_BlacklistToken :: "'w Redis \<Rightarrow> string \<Rightarrow> duration \<Rightarrow> ('w, error option) io" where
  "rc_BlacklistToken rd jti ttl = do_err rd (SET (blacklistKey jti) ''1'' ttl)"

definition rc_IsBlacklisted :: "'w Redis \<Rightarrow> string \<Rightarrow> ('w, error + bool) io" where
  "rc_IsBlacklisted rd jti = do {
     r \<leftarrow> do_as rd the_count (EXISTS (blacklistKey jti));
     State_Monad.return (case r of Inl e \<Rightarrow> Inl e | Inr n \<Rightarrow> Inr (n > 0))
   }"

definition rc_sessions :: "'w Redis \<Rightarrow> 'w SessionCache" where
  "rc_sessions rd = \<lparr>SetRefreshToken = rc_SetRefreshToken rd, GetRefreshToken = rc_GetRefreshToken rd,
     DeleteRefreshToken = rc_DeleteRefreshToken rd, BlacklistToken = rc_BlacklistToken rd,
     IsBlacklisted = rc_IsBlacklisted rd\<rparr>"

section \<open>Playback states\<close>

text \<open>\<open>marshal\<close> and \<open>unmarshal\<close> are \<open>json.Marshal\<close> and \<open>json.Unmarshal\<close> at type \<open>RoomState\<close>.\<close>

definition roomStateTTL :: duration where
  "roomStateTTL = 7 * 24 * Hour"

definition roomStateKey :: "string \<Rightarrow> string" where
  "roomStateKey roomID = ''room:state:'' @ roomID"

definition rc_SetRoomState ::
  "'w Redis \<Rightarrow> ('w, gotime) io \<Rightarrow> (RoomState \<Rightarrow> error + string) \<Rightarrow> string \<Rightarrow> RoomState \<Rightarrow> ('w, error option) io" where
  "rc_SetRoomState rd timeNow marshal roomID state = do {
     copyState \<leftarrow> (if IsZero (rs_UpdatedAt state) then do { now \<leftarrow> timeNow; State_Monad.return (state\<lparr>rs_UpdatedAt := now\<rparr>) }
                   else State_Monad.return state);
     case marshal (copyState\<lparr>rs_RoomID := roomID\<rparr>) of
       Inl err \<Rightarrow> State_Monad.return (Some err)
     | Inr payload \<Rightarrow> do_err rd (SET (roomStateKey roomID) payload roomStateTTL)
   }"

definition rc_GetRoomState ::
  "'w Redis \<Rightarrow> (string \<Rightarrow> error + RoomState) \<Rightarrow> string \<Rightarrow> ('w, error + RoomState) io" where
  "rc_GetRoomState rd unmarshal roomID = do {
     r \<leftarrow> do_as rd the_bulk (GET (roomStateKey roomID));
     State_Monad.return
       (case r of
          Inl err \<Rightarrow> Inl (if err = ErrRedisNil then ErrNotFound else err)
        | Inr payload \<Rightarrow> unmarshal payload)
   }"

definition rc_DeleteRoomState :: "'w Redis \<Rightarrow> string \<Rightarrow> ('w, error option) io" where
  "rc_DeleteRoomState rd roomID = do_err rd (DEL (roomStateKey roomID))"

definition rc_states ::
  "'w Redis \<Rightarrow> ('w, gotime) io \<Rightarrow> (RoomState \<Rightarrow> error + string) \<Rightarrow> (string \<Rightarrow> error + RoomState) \<Rightarrow> 'w RoomStateCache" where
  "rc_states rd timeNow marshal unmarshal = \<lparr>SetRoomState = rc_SetRoomState rd timeNow marshal,
     GetRoomState = rc_GetRoomState rd unmarshal, DeleteRoomState = rc_DeleteRoomState rd\<rparr>"

section \<open>Access grants\<close>

definition roomAccessKeyTTL :: duration where
  "roomAccessKeyTTL = 30 * 24 * Hour"

definition roomAccessKey :: "string \<Rightarrow> string" where
  "roomAccessKey roomID = ''room:access:'' @ roomID"

definition rc_GrantRoomAccess :: "'w Redis \<Rightarrow> string \<Rightarrow> string \<Rightarrow> ('w, error option) io" where
  "rc_GrantRoomAccess rd roomID userID =
     (if roomID = [] \<or> userID = [] then State_Monad.return None
      else tx_err rd [SADD (roomAccessKey roomID) userID, EXPIRE (roomAccessKey roomID) roomAccessKeyTTL])"

definition rc_HasRoomAccess :: "'w Redis \<Rightarrow> string \<Rightarrow> string \<Rightarrow> ('w, error + bool) io" where
  "rc_HasRoomAccess rd roomID userID =
     (if roomID = [] \<or> userID = [] then State_Monad.return (Inr False)
      else do_as rd the_flag (SISMEMBER (roomAccessKey roomID) userID))"

definition rc_DeleteRoomAccess :: "'w Redis \<Rightarrow> string \<Rightarrow> ('w, error option) io" where
  "rc_DeleteRoomAccess rd roomID =
     (if roomID = [] then State_Monad.return None else do_err rd (DEL (roomAccessKey roomID)))"

definition rc_access :: "'w Redis \<Rightarrow> 'w RoomAccessCache" where
  "rc_access rd = \<lparr>GrantRoomAccess = rc_GrantRoomAccess rd, HasRoomAccess = rc_HasRoomAccess rd,
     DeleteRoomAccess = rc_DeleteRoomAccess rd\<rparr>"

section \<open>Presence\<close>

definition roomMemberTTL :: duration where "roomMemberTTL = 7 * 24 * Hour"
definition globalKeyTTL :: duration where "globalKeyTTL = 30 * 24 * Hour"

definition membersKey :: "string \<Rightarrow> string" where "membersKey roomID = ''room:members:'' @ roomID"
definition userRoomKey :: "string \<Rightarrow> string" where "userRoomKey userID = ''user:room:'' @ userID"

definition keyActiveRooms :: string where "keyActiveRooms = ''room:active''"
definition keyPendingEmpty :: string where "keyPendingEmpty = ''room:pending_empty''"
definition keyLastCleanup :: string where "keyLastCleanup = ''global:last_room_cleanup_at''"
definition keyCleanupLock :: string where "keyCleanupLock = ''global:room_cleanup_lock''"

text \<open>The script of a join, in the order of its commands: first the user leaves another room, then joins the new one.\<close>

definition join_part :: "string \<Rightarrow> string \<Rightarrow> string \<Rightarrow> string \<Rightarrow> string \<Rightarrow> string \<Rightarrow> string \<Rightarrow> duration \<Rightarrow> string \<Rightarrow> script" where
  "join_part userKey newMembersKey activeKey pendingKey newRoom userId username memberTTL leftRoom =
     Call (HSET newMembersKey [(userId, username)]) (\<lambda>_.
     Call (EXPIRE newMembersKey memberTTL) (\<lambda>_.
     Call (SET userKey newRoom memberTTL) (\<lambda>_.
     Call (SADD activeKey newRoom) (\<lambda>_.
     Call (EXPIRE activeKey memberTTL) (\<lambda>_.
     Call (SREM pendingKey newRoom) (\<lambda>_. Return leftRoom))))))"

definition leave_part :: "string \<Rightarrow> string \<Rightarrow> string \<Rightarrow> string \<Rightarrow> duration \<Rightarrow> script \<Rightarrow> script" where
  "leave_part activeKey pendingKey oldRoom userId globalTTL rest =
     Call (HDEL (''room:members:'' @ oldRoom) userId) (\<lambda>_.
     Call (HLEN (''room:members:'' @ oldRoom)) (\<lambda>n.
       if n = Count 0 then
         Call (SREM activeKey oldRoom) (\<lambda>_.
         Call (DEL (''room:members:'' @ oldRoom)) (\<lambda>_.
         Call (SADD pendingKey oldRoom) (\<lambda>_.
         Call (EXPIRE pendingKey globalTTL) (\<lambda>_. rest))))
       else rest))"

definition joinScriptMigrate ::
  "string \<Rightarrow> string \<Rightarrow> string \<Rightarrow> string \<Rightarrow> string \<Rightarrow> string \<Rightarrow> string \<Rightarrow> duration \<Rightarrow> duration \<Rightarrow> script" where
  "joinScriptMigrate userKey newMembersKey activeKey pendingKey newRoom userId username memberTTL globalTTL =
     Call (GET userKey) (\<lambda>r.
       case the_bulk r of
         None \<Rightarrow> join_part userKey newMembersKey activeKey pendingKey newRoom userId username memberTTL []
       | Some oldRoom \<Rightarrow>
           if oldRoom \<noteq> newRoom then
             leave_part activeKey pendingKey oldRoom userId globalTTL
               (join_part userKey newMembersKey activeKey pendingKey newRoom userId username memberTTL oldRoom)
           else join_part userKey newMembersKey activeKey pendingKey newRoom userId username memberTTL [])"

definition rc_JoinRoom :: "'w Redis \<Rightarrow> string \<Rightarrow> string \<Rightarrow> string \<Rightarrow> ('w, error + string) io" where
  "rc_JoinRoom rd roomID userID username =
     rd_Eval rd (joinScriptMigrate (userRoomKey userID) (membersKey roomID) keyActiveRooms keyPendingEmpty
       roomID userID username roomMemberTTL globalKeyTTL)"

definition rc_removeMember :: "'w Redis \<Rightarrow> string \<Rightarrow> string \<Rightarrow> ('w, error option) io" where
  "rc_removeMember rd roomID userID = do {
     e \<leftarrow> tx_err rd [HDEL (membersKey roomID) userID, DEL (userRoomKey userID)];
     case e of
       Some err \<Rightarrow> State_Monad.return (Some err)
     | None \<Rightarrow> do {
         r \<leftarrow> do_as rd the_count (HLEN (membersKey roomID));
         case r of
           Inl err \<Rightarrow> State_Monad.return (Some err)
         | Inr n \<Rightarrow>
             if n = 0 then do {
               _ \<leftarrow> do_err rd (SREM keyActiveRooms roomID);
               _ \<leftarrow> do_err rd (DEL (membersKey roomID));
               _ \<leftarrow> do_err rd (SADD keyPendingEmpty roomID);
               _ \<leftarrow> do_err rd (EXPIRE keyPendingEmpty globalKeyTTL);
               State_Monad.return None
             }
             else State_Monad.return None
       }
   }"

definition rc_LeaveRoom :: "'w Redis \<Rightarrow> string \<Rightarrow> string \<Rightarrow> ('w, error option) io" where
  "rc_LeaveRoom rd roomID userID = rc_removeMember rd roomID userID"

definition rc_RemoveMember :: "'w Redis \<Rightarrow> string \<Rightarrow> string \<Rightarrow> ('w, error option) io" where
  "rc_RemoveMember rd roomID userID = rc_removeMember rd roomID userID"

definition rc_PendingEmptyRooms :: "'w Redis \<Rightarrow> ('w, error + string list) io" where
  "rc_PendingEmptyRooms rd = do_as rd the_strings (SMEMBERS keyPendingEmpty)"

definition rc_ClearPendingEmpty :: "'w Redis \<Rightarrow> string \<Rightarrow> ('w, error option) io" where
  "rc_ClearPendingEmpty rd roomID = do_err rd (SREM keyPendingEmpty roomID)"

definition rc_ListMembers :: "'w Redis \<Rightarrow> string \<Rightarrow> ('w, error + RoomMember list) io" where
  "rc_ListMembers rd roomID = do {
     r \<leftarrow> do_as rd the_pairs (HGETALL (membersKey roomID));
     State_Monad.return
       (case r of Inl err \<Rightarrow> Inl err | Inr m \<Rightarrow> Inr (map (\<lambda>(uid, name). \<lparr>mb_UserID = uid, mb_Username = name\<rparr>) m))
   }"

definition rc_MemberCount :: "'w Redis \<Rightarrow> string \<Rightarrow> ('w, error + int) io" where
  "rc_MemberCount rd roomID = do_as rd the_count (HLEN (membersKey roomID))"

definition rc_GetUserRoom :: "'w Redis \<Rightarrow> string \<Rightarrow> ('w, error + string) io" where
  "rc_GetUserRoom rd userID = do {
     r \<leftarrow> do_as rd the_bulk (GET (userRoomKey userID));
     State_Monad.return (if r = Inl ErrRedisNil then Inr [] else r)
   }"

definition rc_DeleteRoomPresence :: "'w Redis \<Rightarrow> string \<Rightarrow> ('w, error option) io" where
  "rc_DeleteRoomPresence rd roomID = do {
     r \<leftarrow> do_as rd the_pairs (HGETALL (membersKey roomID));
     case r of
       Inl err \<Rightarrow> State_Monad.return (Some err)
     | Inr members \<Rightarrow>
         tx_err rd (map (\<lambda>(uid, name). DEL (userRoomKey uid)) members @
           [DEL (membersKey roomID), SREM keyActiveRooms roomID, SREM keyPendingEmpty roomID])
   }"

definition from_UnixMilli :: "int \<Rightarrow> gotime" where
  "from_UnixMilli ms = (ms + 62135596800000) * 1000000"

definition rc_GetLastRoomCleanupAt :: "'w Redis \<Rightarrow> ('w, error + gotime) io" where
  "rc_GetLastRoomCleanupAt rd = do {
     r \<leftarrow> do_as rd the_bulk (GET keyLastCleanup);
     State_Monad.return
       (case r of
          Inl err \<Rightarrow> if err = ErrRedisNil then Inr 0 else Inl err
        | Inr s \<Rightarrow> (case Atoi s of None \<Rightarrow> Inl (OtherError ''strconv.ParseInt'') | Some ms \<Rightarrow> Inr (from_UnixMilli ms)))
   }"

definition rc_SetLastRoomCleanupAt :: "'w Redis \<Rightarrow> gotime \<Rightarrow> ('w, error option) io" where
  "rc_SetLastRoomCleanupAt rd t = do_err rd (SET keyLastCleanup (FormatInt (UnixMilli t)) globalKeyTTL)"

definition rc_TryAcquireCleanupLock :: "'w Redis \<Rightarrow> duration \<Rightarrow> ('w, error + bool) io" where
  "rc_TryAcquireCleanupLock rd ttl = do_as rd the_flag (SETNX keyCleanupLock ''1'' ttl)"

definition rc_ReleaseCleanupLock :: "'w Redis \<Rightarrow> ('w, error option) io" where
  "rc_ReleaseCleanupLock rd = do_err rd (DEL keyCleanupLock)"

definition rc_ListRoomsWithMembers :: "'w Redis \<Rightarrow> ('w, error + string list) io" where
  "rc_ListRoomsWithMembers rd = do_as rd the_strings (SMEMBERS keyActiveRooms)"

definition rc_presence :: "'w Redis \<Rightarrow> 'w RoomPresence" where
  "rc_presence rd = \<lparr>JoinRoom = rc_JoinRoom rd, LeaveRoom = rc_LeaveRoom rd, RemoveMember = rc_RemoveMember rd,
     ListMembers = rc_ListMembers rd, MemberCount = rc_MemberCount rd, GetUserRoom = rc_GetUserRoom rd,
     DeleteRoomPresence = rc_DeleteRoomPresence rd, PendingEmptyRooms = rc_PendingEmptyRooms rd,
     ClearPendingEmpty = rc_ClearPendingEmpty rd, GetLastRoomCleanupAt = rc_GetLastRoomCleanupAt rd,
     SetLastRoomCleanupAt = rc_SetLastRoomCleanupAt rd, TryAcquireCleanupLock = rc_TryAcquireCleanupLock rd,
     ReleaseCleanupLock = rc_ReleaseCleanupLock rd, ListRoomsWithMembers = rc_ListRoomsWithMembers rd\<rparr>"

section \<open>Chat\<close>

definition roomChatPendingPrefix :: string where "roomChatPendingPrefix = ''room:chat:ably_pending:''"
definition chatStreamKey :: "string \<Rightarrow> string" where "chatStreamKey roomID = ''room:chat:stream:'' @ roomID"
definition chatSeqKey :: "string \<Rightarrow> string" where "chatSeqKey roomID = ''room:chat:seq:'' @ roomID"
definition chatPendingKey :: "string \<Rightarrow> string" where "chatPendingKey roomID = roomChatPendingPrefix @ roomID"
definition chatRateKey :: "string \<Rightarrow> string \<Rightarrow> string" where
  "chatRateKey roomID userID = ''room:chat:ratelimit:'' @ roomID @ '':'' @ userID"

definition rc_PendingCount :: "'w Redis \<Rightarrow> string \<Rightarrow> ('w, error + int) io" where
  "rc_PendingCount rd roomID = do_as rd the_count (ZCARD (chatPendingKey roomID))"

definition rc_NextSeq :: "'w Redis \<Rightarrow> string \<Rightarrow> ('w, error + int) io" where
  "rc_NextSeq rd roomID = do_as rd the_count (INCR (chatSeqKey roomID))"

definition rc_AppendMessage :: "'w Redis \<Rightarrow> string \<Rightarrow> int \<Rightarrow> string \<Rightarrow> int \<Rightarrow> ('w, error + string) io" where
  "rc_AppendMessage rd roomID seq payloadJSON streamMaxLen =
     do_as rd the_bulk (XADD (chatStreamKey roomID) [(''seq'', FormatInt seq), (''payload'', payloadJSON)]
       (if streamMaxLen > 0 then streamMaxLen else 0) (streamMaxLen > 0))"

definition chat_entry :: "string \<times> (string \<times> string) list \<Rightarrow> RoomChatMessage" where
  "chat_entry m = \<lparr>rc_StreamID = fst m, rc_Seq = number_of (field_of ''seq'' (snd m)), rc_Payload = field_of ''payload'' (snd m)\<rparr>"

definition rc_ListMessagesRev :: "'w Redis \<Rightarrow> string \<Rightarrow> string \<Rightarrow> int \<Rightarrow> ('w, error + RoomChatMessage list) io" where
  "rc_ListMessagesRev rd roomID beforeID limit0 =
     (let limit1 = (if limit0 \<le> 0 then 50 else limit0);
          limit = (if limit1 > 200 then 200 else limit1)
      in do {
        r \<leftarrow> do_as rd the_entries
          (XREVRANGE (chatStreamKey roomID) (if TrimSpace beforeID = [] then [] else beforeID) limit);
        State_Monad.return (case r of Inl err \<Rightarrow> Inl err | Inr raw \<Rightarrow> Inr (map chat_entry raw))
      })"

definition rc_GetPayload :: "'w Redis \<Rightarrow> string \<Rightarrow> string \<Rightarrow> ('w, error + string) io" where
  "rc_GetPayload rd roomID streamID = do {
     r \<leftarrow> do_as rd the_entries (XRANGE (chatStreamKey roomID) streamID);
     State_Monad.return
       (case r of
          Inl err \<Rightarrow> Inl err
        | Inr msgs \<Rightarrow> (case msgs of [] \<Rightarrow> Inl ErrRedisNil | m # _ \<Rightarrow> Inr (field_of ''payload'' (snd m))))
   }"

definition rc_EnqueuePending :: "'w Redis \<Rightarrow> ('w, gotime) io \<Rightarrow> string \<Rightarrow> string \<Rightarrow> ('w, error option) io" where
  "rc_EnqueuePending rd timeNow roomID streamID = do {
     now \<leftarrow> timeNow;
     do_err rd (ZADD (chatPendingKey roomID) (Unix now) streamID)
   }"

definition rc_RemovePending :: "'w Redis \<Rightarrow> string \<Rightarrow> string \<Rightarrow> ('w, error option) io" where
  "rc_RemovePending rd roomID streamID = do_err rd (ZREM (chatPendingKey roomID) streamID)"

definition rc_PendingStreamIDs :: "'w Redis \<Rightarrow> string \<Rightarrow> int \<Rightarrow> ('w, error + string list) io" where
  "rc_PendingStreamIDs rd roomID max0 =
     (let m = (if max0 \<le> 0 then 50 else max0) in do_as rd the_strings (ZRANGE (chatPendingKey roomID) 0 (m - 1)))"

definition rc_DeleteRoom :: "'w Redis \<Rightarrow> string \<Rightarrow> ('w, error option) io" where
  "rc_DeleteRoom rd roomID = tx_err rd [DEL (chatStreamKey roomID), DEL (chatSeqKey roomID), DEL (chatPendingKey roomID)]"

definition rc_AllowChatSend :: "'w Redis \<Rightarrow> string \<Rightarrow> string \<Rightarrow> int \<Rightarrow> ('w, error + bool) io" where
  "rc_AllowChatSend rd roomID userID maxPerSecond =
     (if maxPerSecond \<le> 0 then State_Monad.return (Inr True)
      else do {
        r \<leftarrow> do_as rd the_count (INCR (chatRateKey roomID userID));
        case r of
          Inl err \<Rightarrow> State_Monad.return (Inl err)
        | Inr n \<Rightarrow> do {
            _ \<leftarrow> (if n = 1 then do_err rd (EXPIRE (chatRateKey roomID userID) Second) else State_Monad.return None);
            State_Monad.return (Inr (n \<le> maxPerSecond))
          }
      })"

definition rc_ScanPendingRooms :: "'w Redis \<Rightarrow> int \<Rightarrow> int \<Rightarrow> ('w, error + (string list \<times> int)) io" where
  "rc_ScanPendingRooms rd cur count0 =
     do_as rd the_cursor (SCAN cur roomChatPendingPrefix (if count0 \<le> 0 then 50 else count0))"

definition rc_chat :: "'w Redis \<Rightarrow> ('w, gotime) io \<Rightarrow> 'w RoomChat" where
  "rc_chat rd timeNow = \<lparr>PendingCount = rc_PendingCount rd, NextSeq = rc_NextSeq rd, AppendMessage = rc_AppendMessage rd,
     ListMessagesRev = rc_ListMessagesRev rd, GetPayload = rc_GetPayload rd, EnqueuePending = rc_EnqueuePending rd timeNow,
     RemovePending = rc_RemovePending rd, PendingStreamIDs = rc_PendingStreamIDs rd, ChatDeleteRoom = rc_DeleteRoom rd,
     AllowChatSend = rc_AllowChatSend rd, ScanPendingRooms = rc_ScanPendingRooms rd\<rparr>"

end
