(* ===== verification/Redis_Views.thy ===== *)
theory Redis_Views
  imports Redis_Caches
begin

text \<open>
  What the commands of the server do to the visible part of a database: the map from keys to the values that have not
  expired.  At a fixed time every command is a function on this view; the lemmas of this theory say which.
\<close>

section \<open>Views\<close>

type_synonym view = "string \<Rightarrow> rvalue option"

definition hash_at :: "view \<Rightarrow> string \<Rightarrow> (string, string) gomap" where
  "hash_at V k = (case V k of Some (RHash h) \<Rightarrow> h | _ \<Rightarrow> [])"

definition set_at :: "view \<Rightarrow> string \<Rightarrow> string list" where
  "set_at V k = (case V k of Some (RSet s) \<Rightarrow> s | _ \<Rightarrow> [])"

definition string_at :: "view \<Rightarrow> string \<Rightarrow> string option" where
  "string_at V k = (case V k of Some (RString s) \<Rightarrow> Some s | _ \<Rightarrow> None)"

definition hash_ok :: "view \<Rightarrow> string \<Rightarrow> bool" where
  "hash_ok V k \<longleftrightarrow> (case V k of None \<Rightarrow> True | Some (RHash h) \<Rightarrow> distinct (map fst h) | Some _ \<Rightarrow> False)"

definition set_ok :: "view \<Rightarrow> string \<Rightarrow> bool" where
  "set_ok V k \<longleftrightarrow> (case V k of None \<Rightarrow> True | Some (RSet s) \<Rightarrow> distinct s | Some _ \<Rightarrow> False)"

definition string_ok :: "view \<Rightarrow> string \<Rightarrow> bool" where
  "string_ok V k \<longleftrightarrow> (case V k of None \<Rightarrow> True | Some (RString s) \<Rightarrow> True | Some _ \<Rightarrow> False)"

definition put_hash :: "string \<Rightarrow> (string, string) gomap \<Rightarrow> view \<Rightarrow> view" where
  "put_hash k h V = V(k := if h = [] then None else Some (RHash h))"

definition put_set :: "string \<Rightarrow> string list \<Rightarrow> view \<Rightarrow> view" where
  "put_set k s V = V(k := if s = [] then None else Some (RSet s))"

definition put_string :: "string \<Rightarrow> string \<Rightarrow> view \<Rightarrow> view" where
  "put_string k s V = V(k \<mapsto> RString s)"

definition put_none :: "string \<Rightarrow> view \<Rightarrow> view" where
  "put_none k V = V(k := None)"

lemmas put_defs = put_hash_def put_set_def put_string_def put_none_def

named_theorems view_at \<open>reading a view after an update\<close>

lemma put_none_commute:
  "k \<noteq> k' \<Longrightarrow> put_none k (put_hash k' h V) = put_hash k' h (put_none k V)"
  "k \<noteq> k' \<Longrightarrow> put_none k (put_set k' s V) = put_set k' s (put_none k V)"
  "k \<noteq> k' \<Longrightarrow> put_none k (put_none k' V) = put_none k' (put_none k V)"
  by (simp_all add: put_defs fun_upd_twist)

lemma hash_at_upd [view_at]:
  "hash_at (put_hash k h V) k' = (if k' = k then h else hash_at V k')"
  "k' \<noteq> k \<Longrightarrow> hash_at (put_set k s V) k' = hash_at V k'"
  "k' \<noteq> k \<Longrightarrow> hash_at (put_string k t V) k' = hash_at V k'"
  "hash_at (put_none k V) k' = (if k' = k then [] else hash_at V k')"
  by (simp_all add: hash_at_def put_defs)

lemma set_at_upd [view_at]:
  "k' \<noteq> k \<Longrightarrow> set_at (put_hash k h V) k' = set_at V k'"
  "set_at (put_set k s V) k' = (if k' = k then s else set_at V k')"
  "k' \<noteq> k \<Longrightarrow> set_at (put_string k t V) k' = set_at V k'"
  "set_at (put_none k V) k' = (if k' = k then [] else set_at V k')"
  by (simp_all add: set_at_def put_defs)

lemma string_at_upd [view_at]:
  "k' \<noteq> k \<Longrightarrow> string_at (put_hash k h V) k' = string_at V k'"
  "k' \<noteq> k \<Longrightarrow> string_at (put_set k s V) k' = string_at V k'"
  "string_at (put_string k t V) k' = (if k' = k then Some t else string_at V k')"
  "string_at (put_none k V) k' = (if k' = k then None else string_at V k')"
  by (simp_all add: string_at_def put_defs)

lemma hash_ok_upd [view_at]:
  "hash_ok (put_hash k h V) k' = (if k' = k then distinct (map fst h) else hash_ok V k')"
  "k' \<noteq> k \<Longrightarrow> hash_ok (put_set k s V) k' = hash_ok V k'"
  "k' \<noteq> k \<Longrightarrow> hash_ok (put_string k t V) k' = hash_ok V k'"
  "hash_ok (put_none k V) k' = (k' = k \<or> hash_ok V k')"
  by (simp_all add: hash_ok_def put_defs)

lemma set_ok_upd [view_at]:
  "k' \<noteq> k \<Longrightarrow> set_ok (put_hash k h V) k' = set_ok V k'"
  "set_ok (put_set k s V) k' = (if k' = k then distinct s else set_ok V k')"
  "k' \<noteq> k \<Longrightarrow> set_ok (put_string k t V) k' = set_ok V k'"
  "set_ok (put_none k V) k' = (k' = k \<or> set_ok V k')"
  by (simp_all add: set_ok_def put_defs)

lemma string_ok_upd [view_at]:
  "k' \<noteq> k \<Longrightarrow> string_ok (put_hash k h V) k' = string_ok V k'"
  "k' \<noteq> k \<Longrightarrow> string_ok (put_set k s V) k' = string_ok V k'"
  "string_ok (put_string k t V) k' = (k' = k \<or> string_ok V k')"
  "string_ok (put_none k V) k' = (k' = k \<or> string_ok V k')"
  by (simp_all add: string_ok_def put_defs)

lemma hash_at_wf [view_at]: "hash_ok V k \<Longrightarrow> wf_map (hash_at V k)"
  and set_at_distinct [view_at]: "set_ok V k \<Longrightarrow> distinct (set_at V k)"
  by (auto simp: hash_ok_def hash_at_def set_ok_def set_at_def split: option.splits rvalue.splits)

section \<open>The database\<close>

lemma rget_mdelete: "rget now (mdelete k db) = put_none k (rget now db)"
  by (auto simp: rget_def put_none_def delete_conv')

lemma rget_mput:
  "rget now (mput k (v, e) db) =
     (rget now db)(k := (case e of None \<Rightarrow> Some v | Some t \<Rightarrow> if now < t then Some v else None))"
  by (auto simp: rget_def update_conv' split: option.split)

lemma rget_rput [simp]: "rget now (rput now k v db) = (rget now db)(k \<mapsto> v)"
  by (auto simp: rput_def rget_mput rttl_def rget_def split: option.splits if_splits)

lemma rput_coll_view:
  "rget now (rput_coll now k (RHash h) db) = put_hash k h (rget now db)"
  "rget now (rput_coll now k (RSet s) db) = put_set k s (rget now db)"
  by (auto simp: rput_coll_def rget_mdelete put_defs)

lemma whole_s_pos: "0 < whole_s d" and whole_ms_pos: "0 < whole_ms d"
  by (auto simp: whole_s_def whole_ms_def Second_def)

section \<open>Commands\<close>

text \<open>\<open>execs now V c r W\<close>: on every database with the view \<open>V\<close>, the command \<open>c\<close> answers \<open>r\<close> and leaves the view \<open>W\<close>.\<close>

definition execs :: "gotime \<Rightarrow> view \<Rightarrow> cmd \<Rightarrow> reply \<Rightarrow> view \<Rightarrow> bool" where
  "execs now V c r W \<longleftrightarrow> determined c \<and>
     (\<forall>db. rget now db = V \<longrightarrow> fst (redis_exec now c db) = r \<and> rget now (snd (redis_exec now c db)) = W)"

lemma exec_strings:
  "0 < ttl \<Longrightarrow> execs now V (SET k s ttl) (Bulk ''OK'') (put_string k s V)"
  "string_ok V k \<Longrightarrow> execs now V (GET k) (case string_at V k of None \<Rightarrow> NoValue | Some s \<Rightarrow> Bulk s) V"
  "execs now V (DEL k) (Count (if V k = None then 0 else 1)) (put_none k V)"
  "0 < ttl \<Longrightarrow> execs now V (EXPIRE k ttl) (Flag (V k \<noteq> None)) V"
  using whole_s_pos [of ttl] whole_ms_pos [of ttl]
  by (auto simp: execs_def determined_def redis_exec_def rget_mput rget_mdelete put_string_def expiry_def string_ok_def string_at_def
      wrong_type_def split: option.splits rvalue.splits)

lemma exec_hashes:
  assumes "hash_ok V k"
  shows "execs now V (HSET k [(f, v)]) (Count (if map_of (hash_at V k) f = None then 1 else 0)) (put_hash k (mput f v (hash_at V k)) V)"
    and "execs now V (HDEL k f) (Count (if map_of (hash_at V k) f = None then 0 else 1)) (put_hash k (mdelete f (hash_at V k)) V)"
    and "execs now V (HLEN k) (Count (int (length (hash_at V k)))) V"
    and "execs now V (HGETALL k) (Pairs (hash_at V k)) V"
  using assms by (auto simp: execs_def determined_def redis_exec_def with_hash_def hash_ok_def hash_at_def rput_coll_view
      split: option.splits rvalue.splits)

definition sadd :: "string \<Rightarrow> string list \<Rightarrow> string list" where
  "sadd x s = (if x \<in> set s then s else s @ [x])"

definition srem :: "string \<Rightarrow> string list \<Rightarrow> string list" where
  "srem x s = filter (\<lambda>y. y \<noteq> x) s"

lemma set_sadd [simp]: "set (sadd x s) = insert x (set s)" and set_srem [simp]: "set (srem x s) = set s - {x}"
  and distinct_sadd [simp]: "distinct s \<Longrightarrow> distinct (sadd x s)" and distinct_srem [simp]: "distinct s \<Longrightarrow> distinct (srem x s)"
  by (auto simp: sadd_def srem_def)

lemma exec_sets:
  assumes "set_ok V k"
  shows "execs now V (SADD k m) (Count (if m \<in> set (set_at V k) then 0 else 1)) (put_set k (sadd m (set_at V k)) V)"
    and "execs now V (SREM k m) (Count (if m \<in> set (set_at V k) then 1 else 0)) (put_set k (srem m (set_at V k)) V)"
    and "execs now V (SMEMBERS k) (Strings (set_at V k)) V"
  using assms by (auto simp: execs_def determined_def redis_exec_def with_set_def set_ok_def set_at_def rput_coll_view put_set_def sadd_def
      srem_def fun_eq_iff split: option.splits rvalue.splits)

lemmas exec_view = exec_strings exec_hashes exec_sets

section \<open>Scripts, transactions and single commands\<close>

definition scripts :: "gotime \<Rightarrow> view \<Rightarrow> script \<Rightarrow> string \<Rightarrow> view \<Rightarrow> bool" where
  "scripts now V sc x W \<longleftrightarrow>
     (\<forall>db. rget now db = V \<longrightarrow> determined_run now sc db \<and> fst (run_script now sc db) = Inr x \<and> rget now (snd (run_script now sc db)) = W)"

lemma scripts_Return: "x = y \<Longrightarrow> V = W \<Longrightarrow> scripts now V (Return x) y W"
  by (simp add: scripts_def)

lemma scripts_Call:
  assumes "execs now V c r V1" and "reply_err (Inr r) = None" and "scripts now V1 (f r) x W"
  shows "scripts now V (Call c f) x W"
  unfolding scripts_def
proof (intro allI impI)
  fix db
  assume "rget now db = V"
  with assms show "determined_run now (Call c f) db \<and> fst (run_script now (Call c f) db) = Inr x \<and> rget now (snd (run_script now (Call c f) db)) = W"
    by (cases "redis_exec now c db") (fastforce simp: scripts_def execs_def reply_err_def split: reply.splits)
qed

lemmas script_steps = exec_view [THEN scripts_Call]

definition txs :: "gotime \<Rightarrow> view \<Rightarrow> cmd list \<Rightarrow> view \<Rightarrow> bool" where
  "txs now V cs W \<longleftrightarrow> list_all determined cs \<and>
     (\<forall>db. rget now db = V \<longrightarrow>
        first_failure (fst (redis_execs now cs db)) = None \<and> rget now (snd (redis_execs now cs db)) = W)"

lemma txs_Nil: "V = W \<Longrightarrow> txs now V [] W"
  by (simp add: txs_def)

lemma txs_Cons:
  assumes "execs now V c r V1" and "reply_err (Inr r) = None" and "txs now V1 cs W"
  shows "txs now V (c # cs) W"
  unfolding txs_def
proof (rule conjI)
  show "list_all determined (c # cs)" using assms by (simp add: execs_def txs_def)
  have "first_failure (fst (redis_execs now (c # cs) db)) = None \<and> rget now (snd (redis_execs now (c # cs) db)) = W"
    if "rget now db = V" for db
    using that assms by (cases "redis_exec now c db") (auto simp: txs_def execs_def case_prod_beta)
  then show "\<forall>db. rget now db = V \<longrightarrow>
      first_failure (fst (redis_execs now (c # cs) db)) = None \<and> rget now (snd (redis_execs now (c # cs) db)) = W" by simp
qed

lemmas tx_steps = exec_view [THEN txs_Cons]

definition sees :: "gotime \<Rightarrow> view \<Rightarrow> redis_abs \<Rightarrow> bool" where
  "sees now V a \<longleftrightarrow> ra_now a = now \<and> rget now (ra_db a) = V"

context redis_server
begin

lemma do_err_view:
  assumes "execs now V c r W" and "sees now V a"
  shows "ensures live A (do_err rd c) a (\<lambda>x a'. x = reply_err (Inr r) \<and> sees now W a')"
  unfolding do_err_def using assms
  by (intro ensures_step [OF do_law] ensures_return) (auto simp: execs_def sees_def)

lemma do_as_view:
  assumes "execs now V c r W" and "sees now V a"
  shows "ensures live A (do_as rd f c) a (\<lambda>x a'. x = reply_as f (Inr r) \<and> sees now W a')"
  unfolding do_as_def using assms
  by (intro ensures_step [OF do_law] ensures_return) (auto simp: execs_def sees_def)

lemma do_err_then:
  assumes "sees now V a" and "execs now V c r W"
    and "\<And>a'. sees now W a' \<Longrightarrow> ensures live A (f (reply_err (Inr r))) a' Q"
  shows "ensures live A (do_err rd c \<bind> f) a Q"
  by (rule ensures_step [OF do_err_view [OF assms(2,1)]]) (use assms(3) in simp)

lemma do_as_then:
  assumes "sees now V a" and "execs now V c r W"
    and "\<And>a'. sees now W a' \<Longrightarrow> ensures live A (f (reply_as g (Inr r))) a' Q"
  shows "ensures live A (do_as rd g c \<bind> f) a Q"
  by (rule ensures_step [OF do_as_view [OF assms(2,1)]]) (use assms(3) in simp)

lemma tx_err_view:
  assumes "txs now V cs W" and "sees now V a"
  shows "ensures live A (tx_err rd cs) a (\<lambda>x a'. x = None \<and> sees now W a')"
  unfolding tx_err_def tx_replies_def using assms
  by (intro ensures_step [OF ensures_step [OF tx_law ensures_return]] ensures_return) (auto simp: txs_def sees_def)

lemma tx_err_then:
  assumes "sees now V a" and "txs now V cs W" and "\<And>a'. sees now W a' \<Longrightarrow> ensures live A (f None) a' Q"
  shows "ensures live A (tx_err rd cs \<bind> f) a Q"
  by (rule ensures_step [OF tx_err_view [OF assms(2,1)]]) (use assms(3) in simp)

lemma eval_view:
  assumes "scripts now V sc x W" and "sees now V a"
  shows "ensures live A (rd_Eval rd sc) a (\<lambda>y a'. y = Inr x \<and> sees now W a')"
  by (rule ensures_mono [OF eval_law]) (use assms in \<open>auto simp: scripts_def sees_def\<close>)

end

end
