(* ===== verification/Redis_Presence.thy ===== *)
theory Redis_Presence
  imports Redis_Views
begin

text \<open>
  The room presence on Redis: its keys as a seating plan, what a join and a leave do to the plan, and where a leave
  that names the wrong room breaks it.
\<close>

section \<open>The seating plan of a view\<close>

lemma presence_keys [simp]:
  "membersKey r = membersKey r' \<longleftrightarrow> r = r'" "userRoomKey u = userRoomKey u' \<longleftrightarrow> u = u'"
  "membersKey r \<noteq> userRoomKey u" "membersKey r \<noteq> keyActiveRooms" "membersKey r \<noteq> keyPendingEmpty"
  "userRoomKey u \<noteq> keyActiveRooms" "userRoomKey u \<noteq> keyPendingEmpty" "keyActiveRooms \<noteq> keyPendingEmpty"
  "userRoomKey u \<noteq> membersKey r" "keyActiveRooms \<noteq> membersKey r" "keyPendingEmpty \<noteq> membersKey r"
  "keyActiveRooms \<noteq> userRoomKey u" "keyPendingEmpty \<noteq> userRoomKey u" "keyPendingEmpty \<noteq> keyActiveRooms"
  by (simp_all add: membersKey_def userRoomKey_def keyActiveRooms_def keyPendingEmpty_def)

definition seats :: "view \<Rightarrow> seating" where
  "seats V u =
     (case string_at V (userRoomKey u) of
        None \<Rightarrow> None
      | Some r \<Rightarrow> map_option (Pair r) (map_of (hash_at V (membersKey r)) u))"

text \<open>The keys of the presence have their types and agree with each other: each user is in the room that the user's key names.\<close>

definition keys_ok :: "view \<Rightarrow> bool" where
  "keys_ok V \<longleftrightarrow> (\<forall>r. hash_ok V (membersKey r)) \<and> (\<forall>u. string_ok V (userRoomKey u)) \<and>
     set_ok V keyActiveRooms \<and> set_ok V keyPendingEmpty"

definition presence_ok :: "view \<Rightarrow> bool" where
  "presence_ok V \<longleftrightarrow> keys_ok V \<and>
     (\<forall>r u. map_of (hash_at V (membersKey r)) u \<noteq> None \<longleftrightarrow> string_at V (userRoomKey u) = Some r) \<and>
     (\<forall>r. r \<in> set (set_at V keyActiveRooms) \<longleftrightarrow> hash_at V (membersKey r) \<noteq> [])"

definition presence_key :: "string \<Rightarrow> bool" where
  "presence_key k \<longleftrightarrow> k = keyActiveRooms \<or> k = keyPendingEmpty \<or> (\<exists>r. k = membersKey r) \<or> (\<exists>u. k = userRoomKey u)"

lemma seats_eq:
  "presence_ok V \<Longrightarrow> seats V u = Some (r, n) \<longleftrightarrow> map_of (hash_at V (membersKey r)) u = Some n"
  unfolding presence_ok_def seats_def by (auto split: option.splits) (metis option.distinct(1) option.inject)+

lemma occupants_seats:
  "presence_ok V \<Longrightarrow> occupants (seats V) r = dom (map_of (hash_at V (membersKey r)))"
  by (auto simp: occupants_def seats_eq)

section \<open>Joining\<close>

definition join_view :: "string \<Rightarrow> string \<Rightarrow> string \<Rightarrow> view \<Rightarrow> view" where
  "join_view r u n V =
     (let V1 = put_hash (membersKey r) (mput u n (hash_at V (membersKey r))) V;
          V2 = put_set keyActiveRooms (sadd r (set_at V keyActiveRooms)) (put_string (userRoomKey u) r V1)
      in put_set keyPendingEmpty (srem r (set_at V keyPendingEmpty)) V2)"

definition close_view :: "string \<Rightarrow> view \<Rightarrow> view" where
  "close_view r V =
     put_set keyPendingEmpty (sadd r (set_at V keyPendingEmpty))
       (put_none (membersKey r) (put_set keyActiveRooms (srem r (set_at V keyActiveRooms)) V))"

definition leave_view :: "string \<Rightarrow> string \<Rightarrow> view \<Rightarrow> view" where
  "leave_view r u V =
     (let V1 = put_hash (membersKey r) (mdelete u (hash_at V (membersKey r))) V
      in if mdelete u (hash_at V (membersKey r)) = [] then close_view r V1 else V1)"

lemma ttls_pos: "0 < roomMemberTTL" "0 < globalKeyTTL"
  by (simp_all add: roomMemberTTL_def globalKeyTTL_def Hour_def Minute_def Second_def)

lemma join_part_view:
  assumes "hash_ok V (membersKey r)" "set_ok V keyActiveRooms" "set_ok V keyPendingEmpty"
  shows "scripts now V (join_part (userRoomKey u) (membersKey r) keyActiveRooms keyPendingEmpty r u n roomMemberTTL x) x
    (join_view r u n V)"
  unfolding join_part_def join_view_def Let_def
  by (intro script_steps scripts_Return) (use assms in \<open>simp_all add: view_at reply_err_def ttls_pos\<close>)

lemma leave_part_view:
  assumes "hash_ok V (membersKey r)" "set_ok V keyActiveRooms" "set_ok V keyPendingEmpty"
    and "scripts now (leave_view r u V) rest x W"
  shows "scripts now V (leave_part keyActiveRooms keyPendingEmpty r u globalKeyTTL rest) x W"
proof -
  let ?V = "put_hash (membersKey r) (mdelete u (hash_at V (membersKey r))) V"
  have ok: "hash_ok ?V (membersKey r)" "set_ok ?V keyActiveRooms" "set_ok ?V keyPendingEmpty"
    using assms(1-3) by (simp_all add: view_at distinct_delete)
  have "scripts now ?V
     (if Count (int (length (hash_at ?V (membersKey r)))) = Count 0 then
        Call (SREM keyActiveRooms r) (\<lambda>_. Call (DEL (membersKey r)) (\<lambda>_.
        Call (SADD keyPendingEmpty r) (\<lambda>_. Call (EXPIRE keyPendingEmpty globalKeyTTL) (\<lambda>_. rest))))
      else rest) x W"
  proof (cases "mdelete u (hash_at V (membersKey r)) = []")
    case True
    have "scripts now (close_view r ?V) rest x W" using assms(4) True by (simp add: leave_view_def Let_def)
    then show ?thesis
      by (simp add: True view_at, intro script_steps)
        (use ok in \<open>simp_all add: True view_at reply_err_def ttls_pos close_view_def\<close>)
  next
    case False
    then show ?thesis using assms(4) by (simp add: leave_view_def Let_def view_at)
  qed
  then show ?thesis
    unfolding leave_part_def membersKey_def [symmetric]
    by (intro script_steps) (use assms(1) ok in \<open>simp_all add: reply_err_def\<close>)
qed

lemma keys_ok_leave: "keys_ok V \<Longrightarrow> keys_ok (leave_view r u V)"
  by (simp add: keys_ok_def leave_view_def close_view_def Let_def view_at distinct_delete)

lemma keys_ok_join: "keys_ok V \<Longrightarrow> keys_ok (join_view r u n V)"
  by (simp add: keys_ok_def join_view_def Let_def view_at distinct_update)

definition switch_view :: "string \<Rightarrow> string \<Rightarrow> string \<Rightarrow> view \<Rightarrow> view" where
  "switch_view r u n V =
     (case string_at V (userRoomKey u) of
        None \<Rightarrow> join_view r u n V
      | Some r' \<Rightarrow> if r' \<noteq> r then join_view r u n (leave_view r' u V) else join_view r u n V)"

definition left_room :: "string \<Rightarrow> string \<Rightarrow> view \<Rightarrow> string" where
  "left_room r u V = (case string_at V (userRoomKey u) of None \<Rightarrow> [] | Some r' \<Rightarrow> if r' \<noteq> r then r' else [])"

lemma joinScriptMigrate_view:
  assumes "keys_ok V"
  shows "scripts now V (joinScriptMigrate (userRoomKey u) (membersKey r) keyActiveRooms keyPendingEmpty r u n
    roomMemberTTL globalKeyTTL) (left_room r u V) (switch_view r u n V)"
proof -
  have ok: "hash_ok V (membersKey r')" "string_ok V (userRoomKey u)" "set_ok V keyActiveRooms" "set_ok V keyPendingEmpty" for r'
    using assms by (simp_all add: keys_ok_def)
  have "keys_ok (leave_view r' u V)" for r' using assms by (rule keys_ok_leave)
  then have ok': "hash_ok (leave_view r' u V) (membersKey r)" "set_ok (leave_view r' u V) keyActiveRooms"
    "set_ok (leave_view r' u V) keyPendingEmpty" for r' by (simp_all add: keys_ok_def)
  show ?thesis
    unfolding joinScriptMigrate_def
    by (intro script_steps)
      (use ok ok' in \<open>auto simp: reply_err_def the_bulk_def left_room_def switch_view_def
         split: option.split intro!: join_part_view leave_part_view\<close>)
qed

text \<open>What the views have to do with the abstract seating plan.\<close>

definition plan :: "view \<Rightarrow> room_abs \<Rightarrow> bool" where
  "plan V b \<longleftrightarrow> presence_ok V \<and> ab_seat b = seats V \<and> ab_pending b = set (set_at V keyPendingEmpty)"

lemma string_at_seats: "presence_ok V \<Longrightarrow> string_at V (userRoomKey u) = map_option fst (seats V u)"
proof (cases "string_at V (userRoomKey u)")
  case (Some r)
  assume "presence_ok V"
  then have "map_of (hash_at V (membersKey r)) u \<noteq> None" using Some unfolding presence_ok_def by blast
  then show ?thesis using Some by (auto simp: seats_def)
qed (simp add: seats_def)

lemma left_room_eq: "presence_ok V \<Longrightarrow> left_room r u V = (case room_left (seats V) r u of Some r' \<Rightarrow> r' | None \<Rightarrow> [])"
  by (auto simp: left_room_def room_left_def string_at_seats split: option.split)

lemma leave_at [view_at]:
  "hash_at (leave_view r u V) (membersKey r') = (if r' = r then mdelete u (hash_at V (membersKey r)) else hash_at V (membersKey r'))"
  "string_at (leave_view r u V) (userRoomKey u') = string_at V (userRoomKey u')"
  "set (set_at (leave_view r u V) keyActiveRooms) =
     set (set_at V keyActiveRooms) - (if mdelete u (hash_at V (membersKey r)) = [] then {r} else {})"
  "set (set_at (leave_view r u V) keyPendingEmpty) =
     set (set_at V keyPendingEmpty) \<union> (if mdelete u (hash_at V (membersKey r)) = [] then {r} else {})"
  by (auto simp: leave_view_def close_view_def Let_def view_at)

lemma join_at [view_at]:
  "hash_at (join_view r u n V) (membersKey r') = (if r' = r then mput u n (hash_at V (membersKey r)) else hash_at V (membersKey r'))"
  "string_at (join_view r u n V) (userRoomKey u') = (if u' = u then Some r else string_at V (userRoomKey u'))"
  "set (set_at (join_view r u n V) keyActiveRooms) = insert r (set (set_at V keyActiveRooms))"
  "set (set_at (join_view r u n V) keyPendingEmpty) = set (set_at V keyPendingEmpty) - {r}"
  by (auto simp: join_view_def Let_def view_at)

text \<open>The room that a join leaves falls empty exactly when nobody else is in it.\<close>

lemma last_one:
  assumes "presence_ok V" and "string_at V (userRoomKey u) = Some r"
  shows "mdelete u (hash_at V (membersKey r)) = [] \<longleftrightarrow> occupants (seats V) r = {u}"
  using assms by (auto simp: mdelete_Nil_iff occupants_seats presence_ok_def)

lemma presence_ok_put:
  assumes "keys_ok W" and "presence_ok V"
    and "\<And>r v. map_of (hash_at W (membersKey r)) v = (if v = u then (if s = Some r then Some n else None) else map_of (hash_at V (membersKey r)) v)"
    and "\<And>v. string_at W (userRoomKey v) = (if v = u then s else string_at V (userRoomKey v))"
    and "\<And>r. r \<in> set (set_at W keyActiveRooms) \<longleftrightarrow> hash_at W (membersKey r) \<noteq> []"
  shows "presence_ok W" and "seats W = (seats V)(u := map_option (\<lambda>r. (r, n)) s)"
proof -
  show ok: "presence_ok W" using assms by (auto simp: presence_ok_def)
  show "seats W = (seats V)(u := map_option (\<lambda>r. (r, n)) s)"
    using assms(3,4) by (auto simp: fun_eq_iff seats_def split: option.split)
qed

lemma plan_switch:
  assumes "plan V b"
  shows "plan (switch_view r u n V) (abs_join r u n b)"
proof -
  let ?W = "switch_view r u n V"
  from assms have ok: "presence_ok V" and b: "ab_seat b = seats V" "ab_pending b = set (set_at V keyPendingEmpty)"
    by (simp_all add: plan_def)
  then have P: "\<And>r u. map_of (hash_at V (membersKey r)) u \<noteq> None \<longleftrightarrow> string_at V (userRoomKey u) = Some r"
    "\<And>r. r \<in> set (set_at V keyActiveRooms) \<longleftrightarrow> hash_at V (membersKey r) \<noteq> []" "keys_ok V" by (auto simp: presence_ok_def)
  have 1: "keys_ok ?W" using P(3) by (auto simp: switch_view_def keys_ok_leave keys_ok_join split: option.split)
  have 2: "map_of (hash_at ?W (membersKey r')) v =
      (if v = u then (if Some r = Some r' then Some n else None) else map_of (hash_at V (membersKey r')) v)" for r' v
    using P(1) [of r' u] by (auto simp: switch_view_def view_at update_conv' delete_conv' split: option.split)
  have 3: "string_at ?W (userRoomKey v) = (if v = u then Some r else string_at V (userRoomKey v))" for v
    by (auto simp: switch_view_def view_at split: option.split)
  have 4: "r' \<in> set (set_at ?W keyActiveRooms) \<longleftrightarrow> hash_at ?W (membersKey r') \<noteq> []" for r'
    by (cases "string_at V (userRoomKey u)") (simp_all add: switch_view_def view_at P(2), auto)
  note put = presence_ok_put [OF 1 ok 2 3 4]
  have "set (set_at ?W keyPendingEmpty) = ab_pending (abs_join r u n b)"
    unfolding abs_join_pending b
    using last_one [OF ok, of u]
    by (auto simp: switch_view_def view_at room_left_def string_at_seats [OF ok] split: option.splits if_splits)
  then show ?thesis using put by (simp add: plan_def abs_join_seat b)
qed

text \<open>A leave followed by the removal of the user's own key.\<close>

lemma plan_leave:
  assumes "plan V b" and "u \<in> occupants (seats V) r"
  shows "plan (put_none (userRoomKey u) (leave_view r u V)) (abs_leave r u b)"
proof -
  let ?W = "put_none (userRoomKey u) (leave_view r u V)"
  from assms have ok: "presence_ok V" and b: "ab_seat b = seats V" "ab_pending b = set (set_at V keyPendingEmpty)"
    by (simp_all add: plan_def)
  then have P: "\<And>r u. map_of (hash_at V (membersKey r)) u \<noteq> None \<longleftrightarrow> string_at V (userRoomKey u) = Some r"
    "\<And>r. r \<in> set (set_at V keyActiveRooms) \<longleftrightarrow> hash_at V (membersKey r) \<noteq> []" "keys_ok V" by (auto simp: presence_ok_def)
  have u: "string_at V (userRoomKey u) = Some r"
    using assms(2) P(1) by (auto simp: occupants_seats [OF ok])
  have 1: "keys_ok ?W" using keys_ok_leave [OF P(3)] by (simp add: keys_ok_def view_at)
  have 2: "map_of (hash_at ?W (membersKey r')) v =
      (if v = u then (if None = Some r' then Some n else None) else map_of (hash_at V (membersKey r')) v)" for r' v n
    using P(1) [of r' u] u by (auto simp: view_at delete_conv')
  have 3: "string_at ?W (userRoomKey v) = (if v = u then None else string_at V (userRoomKey v))" for v
    by (simp add: view_at)
  have 4: "r' \<in> set (set_at ?W keyActiveRooms) \<longleftrightarrow> hash_at ?W (membersKey r') \<noteq> []" for r'
    by (simp add: view_at P(2), auto)
  note put = presence_ok_put [OF 1 ok 2 3 4]
  show ?thesis
    using put assms(2) last_one [OF ok u] by (auto simp: plan_def abs_leave_def b view_at)
qed

section \<open>Operations\<close>

context redis_server
begin

lemma JoinRoom_view:
  assumes "sees now V a" and "plan V b"
  shows "ensures live A (rc_JoinRoom rd r u n) a (\<lambda>x a'. sees now (switch_view r u n V) a' \<and>
    x = Inr (case room_left (ab_seat b) r u of Some r' \<Rightarrow> r' | None \<Rightarrow> []))"
proof -
  have ok: "presence_ok V" "keys_ok V" "ab_seat b = seats V" using assms(2) by (auto simp: plan_def presence_ok_def)
  show ?thesis
    unfolding rc_JoinRoom_def
    by (rule ensures_mono [OF eval_view [OF joinScriptMigrate_view [OF ok(2)] assms(1)]])
      (simp add: left_room_eq [OF ok(1)] ok(3))
qed

lemma removeMember_view:
  assumes "sees now V a" and "keys_ok V"
  shows "ensures live A (rc_removeMember rd r u) a
    (\<lambda>x a'. x = None \<and> sees now (put_none (userRoomKey u) (leave_view r u V)) a')"
proof -
  let ?V = "put_none (userRoomKey u) (put_hash (membersKey r) (mdelete u (hash_at V (membersKey r))) V)"
  let ?W = "put_none (userRoomKey u) (leave_view r u V)"
  have ok: "hash_ok V (membersKey r)" "set_ok V keyActiveRooms" "set_ok V keyPendingEmpty" using assms(2) by (simp_all add: keys_ok_def)
  have ok': "hash_ok ?V (membersKey r)" "set_ok ?V keyActiveRooms" "set_ok ?V keyPendingEmpty"
    using ok by (simp_all add: view_at distinct_delete)
  have tx: "txs now V [HDEL (membersKey r) u, DEL (userRoomKey u)] ?V"
    by (intro tx_steps txs_Nil) (use ok in \<open>simp_all add: reply_err_def\<close>)
  have W: "?W = (if mdelete u (hash_at V (membersKey r)) = [] then close_view r ?V else ?V)"
    by (simp add: leave_view_def close_view_def Let_def view_at put_none_commute)
  show ?thesis
    unfolding rc_removeMember_def
    apply (rule tx_err_then [OF assms(1) tx])
    apply (simp only: option.case)
    apply (rule do_as_then, assumption, rule exec_hashes(3) [OF ok'(1)])
    apply (simp add: reply_as_def the_count_def view_at W, intro conjI impI)
    apply (rule do_err_then, assumption, rule exec_view, use ok' in simp)
    apply (rule do_err_then, assumption, rule exec_view)
    apply (rule do_err_then, assumption, rule exec_view, use ok' in \<open>simp add: view_at\<close>)
    apply (rule do_err_then, assumption, rule exec_view, simp add: ttls_pos)
    apply (rule ensures_return, simp add: close_view_def view_at)
    apply (rule ensures_return, simp)
    done
qed

end

text \<open>
  C24: joining on Redis implements the seating plan, as the in-process presence does: on a healthy server, \<open>JoinRoom\<close>
  answers the room that the user left, and the keys then stand for the plan after the join.  Leaving the room
  in which one sits implements the plan as well.
\<close>

theorem rc_JoinRoom_refines:
  assumes "redis_server rd clk A live" and "sees now V a" and "plan V b"
  shows "ensures live A (rc_JoinRoom rd r u n) a
    (\<lambda>x a'. \<exists>W. sees now W a' \<and> plan W (abs_join r u n b) \<and>
       x = Inr (case room_left (ab_seat b) r u of Some r' \<Rightarrow> r' | None \<Rightarrow> []))"
  by (rule ensures_mono [OF redis_server.JoinRoom_view [OF assms]]) (use plan_switch [OF assms(3)] in auto)

theorem rc_LeaveRoom_refines:
  assumes "redis_server rd clk A live" and "sees now V a" and "plan V b" and "u \<in> occupants (ab_seat b) r"
  shows "ensures live A (rc_LeaveRoom rd r u) a (\<lambda>x a'. \<exists>W. sees now W a' \<and> plan W (abs_leave r u b) \<and> x = None)"
proof -
  have "keys_ok V" "u \<in> occupants (seats V) r" using assms(3,4) by (simp_all add: plan_def presence_ok_def)
  then show ?thesis
    unfolding rc_LeaveRoom_def
    by (intro ensures_mono [OF redis_server.removeMember_view [OF assms(1,2)]]) (use plan_leave [OF assms(3)] in auto)
qed

text \<open>
  C25: a leave that names another room than the one the user sits in (the user has moved on meanwhile) takes the user's
  key away and leaves the seat: the next join then puts the user into a second room, although the contract of
  \<^verbatim>\<open>cache/room_presence.go\<close> promises one room for each user.
\<close>

theorem rc_stale_leave:
  assumes "redis_server rd clk A live" and "sees now V a" and "plan V b"
    and "u \<in> occupants (ab_seat b) r" and "r' \<noteq> r" and "r'' \<noteq> r"
  shows "ensures live A (do { _ \<leftarrow> rc_LeaveRoom rd r' u; rc_JoinRoom rd r'' u n }) a
    (\<lambda>x a'. \<exists>W. sees now W a' \<and> x = Inr [] \<and>
       map_of (hash_at W (membersKey r)) u \<noteq> None \<and> map_of (hash_at W (membersKey r'')) u \<noteq> None)"
proof -
  let ?V = "put_none (userRoomKey u) (leave_view r' u V)"
  from assms(3) have ok: "presence_ok V" "keys_ok V" "ab_seat b = seats V" by (simp_all add: plan_def presence_ok_def)
  have "keys_ok ?V" using keys_ok_leave [OF ok(2), of r' u] by (simp add: keys_ok_def view_at)
  note join = redis_server.eval_view [OF assms(1) joinScriptMigrate_view [OF this]]
  have sw: "switch_view r'' u n ?V = join_view r'' u n ?V" "left_room r'' u ?V = []"
    by (simp_all add: switch_view_def left_room_def view_at)
  have in_r: "map_of (hash_at (join_view r'' u n ?V) (membersKey r)) u \<noteq> None"
    "map_of (hash_at (join_view r'' u n ?V) (membersKey r'')) u \<noteq> None"
    using assms(4-6) by (auto simp: ok(3) occupants_seats [OF ok(1)] view_at update_conv')
  show ?thesis
    unfolding rc_LeaveRoom_def rc_JoinRoom_def
  proof (rule ensures_step [OF redis_server.removeMember_view [OF assms(1,2) ok(2)]], goal_cases)
    case (1 x a')
    then have "sees now ?V a'" by simp
    then show ?case by (rule ensures_mono [OF join]) (use in_r in \<open>auto simp: sw\<close>)
  qed
qed

section \<open>A simulated server\<close>

definition sim_start :: RedisWorld where
  "sim_start = \<lparr>rw_db = [], rw_now = 0, rw_delays = [], rw_sent = []\<rparr>"

definition empty_plan :: room_abs where
  "empty_plan = \<lparr>ab_states = Map.empty, ab_seat = Map.empty, ab_pending = {}, ab_lock = False, ab_lastCleanup = 0,
     ab_access = {}, ab_rooms = Map.empty, ab_chat = {}, ab_log = [], ab_now = 0\<rparr>"

lemma sim_start_sees: "sees 0 Map.empty (sim_abs sim_start)"
  by (simp add: sees_def sim_abs_def sim_start_def rget_def fun_eq_iff)

lemma plan_empty: "plan Map.empty empty_plan"
  by (simp add: plan_def presence_ok_def keys_ok_def hash_ok_def set_ok_def string_ok_def hash_at_def set_at_def string_at_def
      seats_def empty_plan_def fun_eq_iff)

lemma sim_join: "sees 0 (switch_view r u n Map.empty) (sim_abs (snd (run_state (rc_JoinRoom sim_redis r u n) sim_start)))"
  using ensuresD [OF sim.JoinRoom_view [OF sim_start_sees plan_empty]] by simp

theorem rc_JoinRoom_refines_witness:
  "fst (run_state (rc_JoinRoom sim_redis ''b'' ''u'' ''Ann'') (snd (run_state (rc_JoinRoom sim_redis ''a'' ''u'' ''Ann'') sim_start))) =
     Inr ''a''"
proof -
  note plan = plan_switch [OF plan_empty, of "''a''" "''u''" "''Ann''"]
  from ensuresD [OF rc_JoinRoom_refines [OF sim.redis_server_axioms sim_join plan, of "''b''" "''u''" "''Ann''"]]
  show ?thesis by (auto simp: room_left_def abs_join_seat)
qed

theorem rc_stale_leave_witness:
  "\<exists>W. map_of (hash_at W (membersKey ''a'')) ''u'' \<noteq> None \<and> map_of (hash_at W (membersKey ''c'')) ''u'' \<noteq> None \<and>
     sees 0 W (sim_abs (snd (run_state (do { _ \<leftarrow> rc_LeaveRoom sim_redis ''b'' ''u''; rc_JoinRoom sim_redis ''c'' ''u'' ''Ann'' })
       (snd (run_state (rc_JoinRoom sim_redis ''a'' ''u'' ''Ann'') sim_start)))))"
proof -
  note plan = plan_switch [OF plan_empty, of "''a''" "''u''" "''Ann''"]
  have "''u'' \<in> occupants (ab_seat (abs_join ''a'' ''u'' ''Ann'' empty_plan)) ''a''"
    by (simp add: abs_join_seat occupants_def)
  from ensuresD [OF rc_stale_leave [OF sim.redis_server_axioms sim_join plan this, of "''b''" "''c''" "''Ann''"]]
  show ?thesis by auto
qed

end
