(* ===== verification/Go_Date.thy ===== *)
theory Go_Date
  imports Go_Text
begin

text \<open>
  The date layout of \<^verbatim>\<open>time.Format\<close> in the proleptic Gregorian calendar, as \<^verbatim>\<open>utcDay\<close> of \<^verbatim>\<open>internal/emailcode/store.go\<close>
  uses it: the text of a day, and the proof that reading the text gives the day back.
\<close>

section \<open>Dates\<close>

text \<open>\<open>t.UTC().Format\<close> with the layout of a date: the civil date of the day with the number \<open>n\<close>, day 0 being January 1 of year 1.\<close>

definition is_leap :: "int \<Rightarrow> bool" where
  "is_leap y \<longleftrightarrow> y mod 4 = 0 \<and> (y mod 100 \<noteq> 0 \<or> y mod 400 = 0)"

definition month_lengths :: "int \<Rightarrow> int list" where
  "month_lengths y = [31, if is_leap y then 29 else 28, 31, 30, 31, 30, 31, 31, 30, 31, 30, 31]"

fun month_day :: "int list \<Rightarrow> int \<Rightarrow> int \<Rightarrow> int \<times> int" where
  "month_day [] m d = (m, d + 1)"
| "month_day (l # ls) m d = (if d < l then (m, d + 1) else month_day ls (m + 1) (d - l))"

definition year_day :: "int \<Rightarrow> int \<times> int" where
  "year_day n =
     (let r = n mod 146097; c = min 3 (r div 36524);
          r1 = r - c * 36524; q = r1 div 1461;
          r2 = r1 - q * 1461; y = min 3 (r2 div 365)
      in (400 * (n div 146097) + 100 * c + 4 * q + y + 1, r2 - 365 * y))"

definition civil :: "int \<Rightarrow> int \<times> int \<times> int" where
  "civil n = (case year_day n of (y, d) \<Rightarrow> (y, month_day (month_lengths y) 1 d))"

definition zero_pad :: "nat \<Rightarrow> int \<Rightarrow> string" where
  "zero_pad w n = (let s = FormatInt (abs n) in (if n < 0 then ''-'' else []) @ replicate (w - length s) (CHR ''0'') @ s)"

definition day_text :: "int \<Rightarrow> string" where
  "day_text n = (case civil n of (y, m, d) \<Rightarrow> zero_pad 4 y @ ''-'' @ zero_pad 2 m @ ''-'' @ zero_pad 2 d)"

section \<open>Reading a date back\<close>

definition year_start :: "int \<Rightarrow> int" where
  "year_start y = 365 * (y - 1) + (y - 1) div 4 - (y - 1) div 100 + (y - 1) div 400"

definition day_number :: "int \<times> int \<times> int \<Rightarrow> int" where
  "day_number = (\<lambda>(y, m, d). year_start y + sum_list (take (nat (m - 1)) (month_lengths y)) + (d - 1))"

lemma year_split:
  fixes e c q y :: int
  assumes "0 \<le> y" "y \<le> 3" "0 \<le> q" "q \<le> 24" "0 \<le> c" "c \<le> 3"
  shows "(400 * e + 100 * c + 4 * q + y) div 4 = 100 * e + 25 * c + q"
    and "(400 * e + 100 * c + 4 * q + y) div 100 = 4 * e + c"
    and "(400 * e + 100 * c + 4 * q + y) div 400 = e"
proof -
  show "(400 * e + 100 * c + 4 * q + y) div 4 = 100 * e + 25 * c + q"
    by (rule int_div_pos_eq [where r = y]) (use assms in simp_all)
  show "(400 * e + 100 * c + 4 * q + y) div 100 = 4 * e + c"
    by (rule int_div_pos_eq [where r = "4 * q + y"]) (use assms in simp_all)
  show "(400 * e + 100 * c + 4 * q + y) div 400 = e"
    by (rule int_div_pos_eq [where r = "100 * c + 4 * q + y"]) (use assms in simp_all)
qed

text \<open>Splitting off a unit: the quotient, capped at \<open>k\<close>, and the rest.\<close>

lemma capped_split:
  fixes r u k :: int
  assumes "0 \<le> r" and "0 < u" and "0 \<le> k"
  shows "0 \<le> min k (r div u)" and "0 \<le> r - min k (r div u) * u" and "min k (r div u) < k \<Longrightarrow> r - min k (r div u) * u < u"
proof -
  have *: "0 \<le> r div u" using assms by (simp add: pos_imp_zdiv_nonneg_iff)
  then show "0 \<le> min k (r div u)" using assms(3) by simp
  have "min k (r div u) * u \<le> r div u * u" using assms(2) by (intro mult_right_mono) auto
  also have "r div u * u \<le> r" using assms(2) by (metis minus_mod_eq_div_mult minus_mod_int_eq le_add_same_cancel1 diff_le_eq pos_mod_sign)
  finally show "0 \<le> r - min k (r div u) * u" by simp
  have "r - r div u * u < u" using assms(2) by (simp add: minus_div_mult_eq_mod)
  then show "min k (r div u) < k \<Longrightarrow> r - min k (r div u) * u < u" by (simp add: min_def split: if_splits)
qed

lemma year_parts:
  assumes "year_day n = (y, d)"
  obtains e c q k where "y = 400 * e + 100 * c + 4 * q + k + 1" and "n = 146097 * e + 36524 * c + 1461 * q + 365 * k + d"
    and "e = n div 146097"
    and "0 \<le> c" "c \<le> 3" "0 \<le> q" "q \<le> 24" "0 \<le> k" "k \<le> 3" "0 \<le> d" "d \<le> (if k = 3 \<and> (q = 24 \<longrightarrow> c = 3) then 365 else 364)"
proof -
  define e r c r1 q r2 k where defs: "e = n div 146097" "r = n mod 146097" "c = min 3 (r div 36524)"
    "r1 = r - c * 36524" "q = r1 div 1461" "r2 = r1 - q * 1461" "k = min 3 (r2 div 365)"
  have r: "0 \<le> r" "r < 146097" "n = 146097 * e + r" by (simp_all add: defs)
  have c: "0 \<le> c" "c \<le> 3" "0 \<le> r1" "c < 3 \<Longrightarrow> r1 < 36524"
    using capped_split [OF r(1), of 36524 3] by (simp_all add: defs(3,4))
  have r1: "r1 \<le> 36524" using c(2,4) r(2) defs(4) by linarith
  have q: "0 \<le> q" using c(3) defs(5) by (simp add: pos_imp_zdiv_nonneg_iff)
  have r2: "0 \<le> r2" "r2 < 1461" by (simp_all add: defs(5,6) minus_div_mult_eq_mod)
  have q24: "q \<le> 24" using r1 r2(1) defs(6) by linarith
  have r2': "r2 \<le> 1459" if "q = 24" "c < 3" using c(4) [OF that(2)] that(1) defs(6) by linarith
  have k: "0 \<le> k" "k \<le> 3" "0 \<le> r2 - k * 365" "k < 3 \<Longrightarrow> r2 - k * 365 < 365"
    using capped_split [OF r2(1), of 365 3] by (simp_all add: defs(7))
  have yd: "y = 400 * e + 100 * c + 4 * q + k + 1" "d = r2 - 365 * k"
    using assms by (simp_all add: year_day_def Let_def flip: defs)
  have "d \<le> (if k = 3 \<and> (q = 24 \<longrightarrow> c = 3) then 365 else 364)"
    using yd(2) k(2,4) r2(2) r2' c(2) by (cases "k = 3"; cases "q = 24"; cases "c = 3") auto
  moreover have "n = 146097 * e + 36524 * c + 1461 * q + 365 * k + d"
    using yd(2) r(3) defs(4,6) by simp
  moreover have "0 \<le> d" using yd(2) k(3) by simp
  ultimately show thesis using that yd(1) c(1,2) q q24 k(1,2) defs(1) by blast
qed

lemma year_day_ok:
  assumes "year_day n = (y, d)"
  shows "year_start y + d = n" and "0 \<le> d" and "d \<le> (if is_leap y then 365 else 364)" and "0 \<le> n \<Longrightarrow> 1 \<le> y"
proof -
  obtain e c q k where *: "y = 400 * e + 100 * c + 4 * q + k + 1" "n = 146097 * e + 36524 * c + 1461 * q + 365 * k + d"
    "e = n div 146097" "0 \<le> c" "c \<le> 3" "0 \<le> q" "q \<le> 24" "0 \<le> k" "k \<le> 3" "0 \<le> d"
    "d \<le> (if k = 3 \<and> (q = 24 \<longrightarrow> c = 3) then 365 else 364)"
    by (rule year_parts [OF assms])
  have y1: "y - 1 = 400 * e + 100 * c + 4 * q + k" using *(1) by simp
  show "year_start y + d = n"
    unfolding year_start_def y1 year_split [OF *(8,9,6,7,4,5)] using *(2) by simp
  show "0 \<le> d" by fact
  show "0 \<le> n \<Longrightarrow> 1 \<le> y" using *(1,3,4,6,8) by (simp add: pos_imp_zdiv_nonneg_iff)
  have "is_leap y" if "k = 3" "q = 24 \<longrightarrow> c = 3"
  proof (cases "q = 24")
    case True
    then have "y = 400 * (e + 1)" using *(1) that by simp
    then show ?thesis by (simp add: is_leap_def)
  next
    case False
    then have "y mod 100 = 4 * q + 4"
      by (intro int_mod_pos_eq [where q = "4 * e + c"]) (use *(1,6,7) that in simp_all)
    moreover have "y = (100 * e + 25 * c + q + 1) * 4" using *(1) that(1) by simp
    then have "y mod 4 = 0" by simp
    ultimately show ?thesis using *(6) by (simp add: is_leap_def)
  qed
  then show "d \<le> (if is_leap y then 365 else 364)" using *(11) by (auto split: if_splits)
qed

lemma month_day_ok:
  assumes "month_day ls m d = (m', d')" and "0 \<le> d" and "d < sum_list ls"
  shows "m \<le> m' \<and> m' < m + int (length ls) \<and> sum_list (take (nat (m' - m)) ls) + (d' - 1) = d \<and> 1 \<le> d' \<and>
    d' \<le> ls ! nat (m' - m)"
  using assms
proof (induction ls m d arbitrary: m' d' rule: month_day.induct)
  case (2 l ls m d)
  show ?case
  proof (cases "d < l")
    case False
    with 2 have *: "m + 1 \<le> m' \<and> m' < m + 1 + int (length ls) \<and> sum_list (take (nat (m' - (m + 1))) ls) + (d' - 1) = d - l \<and>
      1 \<le> d' \<and> d' \<le> ls ! nat (m' - (m + 1))" by simp
    then have "nat (m' - m) = Suc (nat (m' - (m + 1)))" by linarith
    with * show ?thesis by simp
  qed (use 2 in auto)
qed simp

lemma civil_ok:
  assumes "civil n = (y, m, d)"
  shows "day_number (y, m, d) = n" and "1 \<le> m" and "m \<le> 12" and "1 \<le> d" and "d \<le> 31"
proof -
  obtain k where y: "year_day n = (y, k)" and md: "month_day (month_lengths y) 1 k = (m, d)"
    using assms by (auto simp: civil_def split: prod.splits)
  note ok = year_day_ok [OF y]
  have "k < sum_list (month_lengths y)" using ok(3) by (simp add: month_lengths_def split: if_splits)
  from month_day_ok [OF md ok(2) this]
  have *: "1 \<le> m" "m < 1 + int (length (month_lengths y))" "sum_list (take (nat (m - 1)) (month_lengths y)) + (d - 1) = k"
    "1 \<le> d" "d \<le> month_lengths y ! nat (m - 1)" by auto
  show "day_number (y, m, d) = n" using ok(1) *(3) by (simp add: day_number_def)
  show "1 \<le> m" "m \<le> 12" "1 \<le> d" using * by (simp_all add: month_lengths_def)
  have "nat (m - 1) < length (month_lengths y)" using *(1,2) by linarith
  then have "month_lengths y ! nat (m - 1) \<in> set (month_lengths y)" by (rule nth_mem)
  moreover have "\<forall>l \<in> set (month_lengths y). l \<le> 31" by (simp add: month_lengths_def)
  ultimately show "d \<le> 31" using *(5) by fastforce
qed

lemma year_pos: "0 \<le> n \<Longrightarrow> civil n = (y, m, d) \<Longrightarrow> 1 \<le> y"
  by (auto simp: civil_def split: prod.splits dest: year_day_ok(4))

lemma digits_val_zeros [simp]: "digits_val 0 (replicate k (CHR ''0'') @ s) = digits_val 0 s"
  by (induction k) (simp_all add: byte_def)

lemma nat_digits_length: "n < 10 ^ Suc w \<Longrightarrow> length (nat_digits k n) \<le> Suc w"
proof (induction k arbitrary: n w)
  case (Suc k)
  show ?case
  proof (cases "n < 10")
    case False
    with Suc.prems obtain v where v: "w = Suc v" by (cases w) auto
    with Suc.prems have "n div 10 < 10 ^ Suc v" by simp
    from Suc.IH [OF this] False v show ?thesis by simp
  qed simp
qed simp

lemma zero_pad_ok:
  assumes "0 \<le> n"
  shows "digits_val 0 (zero_pad w n) = n" and "n < 10 ^ w \<Longrightarrow> 0 < w \<Longrightarrow> length (zero_pad w n) = w"
proof -
  show "digits_val 0 (zero_pad w n) = n"
    using assms nat_digits_ok [of "nat n" "Suc (nat n)"] by (simp add: zero_pad_def FormatInt_def Let_def del: nat_digits.simps)
  assume n: "n < 10 ^ w" and "0 < w"
  then obtain v where v: "w = Suc v" by (cases w) auto
  with n assms have "nat n < 10 ^ Suc v" by (simp add: nat_less_iff)
  from nat_digits_length [OF this] show "length (zero_pad w n) = w"
    using assms v by (simp add: zero_pad_def FormatInt_def Let_def del: nat_digits.simps)
qed

definition parse_day :: "string \<Rightarrow> int" where
  "parse_day s = (let l = length s in
     day_number (digits_val 0 (take (l - 6) s), digits_val 0 (take 2 (drop (l - 5) s)), digits_val 0 (drop (l - 2) s)))"

text \<open>
  The text of a UTC day determines the day: parsing it back gives the number of the day, so two days never share the
  key of a daily counter.
\<close>

theorem day_text_roundtrip:
  assumes "0 \<le> n"
  shows "parse_day (day_text n) = n"
proof -
  obtain y m d where c: "civil n = (y, m, d)" by (cases "civil n")
  note ok = civil_ok [OF c]
  have len: "length (zero_pad 2 m) = 2" "length (zero_pad 2 d) = 2"
    using ok by (auto intro: zero_pad_ok(2))
  let ?s = "zero_pad 4 y @ ''-'' @ zero_pad 2 m @ ''-'' @ zero_pad 2 d"
  have "take (length ?s - 6) ?s = zero_pad 4 y" "take 2 (drop (length ?s - 5) ?s) = zero_pad 2 m"
    "drop (length ?s - 2) ?s = zero_pad 2 d" by (simp_all add: len)
  then have "parse_day ?s = day_number (y, m, d)"
    using ok year_pos [OF assms c] by (simp add: parse_day_def Let_def zero_pad_ok(1))
  then show ?thesis using ok(1) by (simp add: day_text_def c)
qed

theorem day_text_roundtrip_witness: "day_text 739309 = ''2025-02-28'' \<and> parse_day (day_text 739309) = 739309"
  by (intro conjI day_text_roundtrip) (code_simp, simp)

end
