(* ===== verification/Redis_Codes.thy ===== *)
theory Redis_Codes
  imports Redis_Views Go_Date Email_Code Api_Context
begin

text \<open>
  Verification codes kept in Redis: the branches of \<^verbatim>\<open>internal/emailcode/store.go\<close> with a client, and the
  keys they use.  The theory shows what these branches
  promise on a healthy server: the daily quota, one use for each code, a bounded number of guesses.
\<close>

section \<open>Keys\<close>

definition keyCode :: "(string \<Rightarrow> string) \<Rightarrow> string \<Rightarrow> string \<Rightarrow> string" where
  "keyCode lowU purpose email = ''email:code:v1:'' @ purpose @ '':'' @ ToLower lowU (TrimSpace email)"

definition keyCooldown :: "(string \<Rightarrow> string) \<Rightarrow> string \<Rightarrow> string \<Rightarrow> string" where
  "keyCooldown lowU purpose email = ''email:cool:v1:'' @ purpose @ '':'' @ ToLower lowU (TrimSpace email)"

definition keyDaily :: "(string \<Rightarrow> string) \<Rightarrow> string \<Rightarrow> string \<Rightarrow> string \<Rightarrow> string" where
  "keyDaily lowU purpose email day = ''email:daily:v1:'' @ purpose @ '':'' @ ToLower lowU (TrimSpace email) @ '':'' @ day"

section \<open>Sending\<close>

definition precheckSendRedis ::
  "'w Redis \<Rightarrow> (string \<Rightarrow> string) \<Rightarrow> string \<Rightarrow> string \<Rightarrow> int \<Rightarrow> gotime \<Rightarrow> ('w, error option) io" where
  "precheckSendRedis rd lowU email purpose dailyLimit now = do {
     t \<leftarrow> do_as rd the_remaining (TTL (keyCooldown lowU purpose email));
     case t of
       Inl err \<Rightarrow> State_Monad.return (Some err)
     | Inr ttl \<Rightarrow>
         if ttl > 0 then State_Monad.return (Some (ErrCooldown ttl))
         else
           let dailyKey = keyDaily lowU purpose email (day_text (utcDay now)) in do {
             r \<leftarrow> tx_replies rd [INCR dailyKey, EXPIRE dailyKey (secondsUntilUTCEndOfDay now)];
             case r of
               Inl err \<Rightarrow> State_Monad.return (Some err)
             | Inr replies \<Rightarrow>
                 (case (case replies of [] \<Rightarrow> Inr 0 | incr # _ \<Rightarrow> reply_as the_count (Inr incr)) of
                    Inl err \<Rightarrow> State_Monad.return (Some err)
                  | Inr n \<Rightarrow>
                      if n > dailyLimit then do {
                        _ \<leftarrow> do_err rd (DECR dailyKey);
                        State_Monad.return (Some ErrDailyLimit)
                      }
                      else State_Monad.return None)
           }
   }"

definition rk_PrecheckSend ::
  "'w Redis \<Rightarrow> (string \<Rightarrow> string) \<Rightarrow> string \<Rightarrow> string \<Rightarrow> int \<Rightarrow> gotime \<Rightarrow> ('w, error option) io" where
  "rk_PrecheckSend rd lowU email0 purpose dailyLimit now =
     (let email = ToLower lowU (TrimSpace email0) in
      if email = [] \<or> purpose = [] then State_Monad.return (Some (OtherError ''emailcode: empty email or purpose''))
      else precheckSendRedis rd lowU email purpose dailyLimit now)"

definition rk_RollbackPrecheck ::
  "'w Redis \<Rightarrow> (string \<Rightarrow> string) \<Rightarrow> string \<Rightarrow> string \<Rightarrow> gotime \<Rightarrow> ('w, error option) io" where
  "rk_RollbackPrecheck rd lowU email0 purpose now =
     do_err rd (DECR (keyDaily lowU purpose (ToLower lowU (TrimSpace email0)) (day_text (utcDay now))))"

definition commitSendRedis ::
  "'w Redis \<Rightarrow> (string \<Rightarrow> string) \<Rightarrow> string \<Rightarrow> string \<Rightarrow> string \<Rightarrow> duration \<Rightarrow> duration \<Rightarrow> gotime \<Rightarrow> ('w, error option) io" where
  "commitSendRedis rd lowU email purpose codeHash codeHashTTL cooldown now = do {
     e \<leftarrow> do_err rd (HSET (keyCode lowU purpose email)
       [(''h'', codeHash), (''exp'', FormatInt (Unix (now + codeHashTTL))), (''n'', ''0'')]);
     case e of
       Some err \<Rightarrow> State_Monad.return (Some err)
     | None \<Rightarrow> do {
         e \<leftarrow> do_err rd (EXPIRE (keyCode lowU purpose email) codeHashTTL);
         case e of
           Some err \<Rightarrow> State_Monad.return (Some err)
         | None \<Rightarrow> do_err rd (SET (keyCooldown lowU purpose email) ''1'' cooldown)
       }
   }"

definition rk_CommitSend ::
  "'w Redis \<Rightarrow> (string \<Rightarrow> string) \<Rightarrow> error + string \<Rightarrow> string \<Rightarrow> string \<Rightarrow> duration \<Rightarrow> duration \<Rightarrow> gotime \<Rightarrow>
   ('w, error option) io" where
  "rk_CommitSend rd lowU hashed email purpose codeHashTTL cooldown now =
     (case hashed of
        Inl err \<Rightarrow> State_Monad.return (Some err)
      | Inr hash \<Rightarrow> commitSendRedis rd lowU (ToLower lowU (TrimSpace email)) purpose hash codeHashTTL cooldown now)"

section \<open>Verifying\<close>

definition verifyRedis ::
  "'w Redis \<Rightarrow> (string \<Rightarrow> string) \<Rightarrow> (string \<Rightarrow> string \<Rightarrow> bool) \<Rightarrow> string \<Rightarrow> string \<Rightarrow> string \<Rightarrow> int \<Rightarrow> gotime \<Rightarrow>
   ('w, error option) io" where
  "verifyRedis rd lowU cmp email purpose plain maxAttempts now =
     (let key = keyCode lowU purpose email in do {
       r \<leftarrow> do_as rd the_pairs (HGETALL key);
       case r of
         Inl err \<Rightarrow> State_Monad.return (Some err)
       | Inr h \<Rightarrow>
           if length h = 0 then State_Monad.return (Some ErrInvalidCode)
           else if Unix now > number_of (field_of ''exp'' h) then do {
             _ \<leftarrow> do_err rd (DEL key);
             State_Monad.return (Some ErrExpired)
           }
           else if \<not> cmp (field_of ''h'' h) (TrimSpace plain) then
             let n = wrap64 (number_of (field_of ''n'' h) + 1) in do {
               _ \<leftarrow> do_err rd (HSET key [(''n'', FormatInt n)]);
               if n \<ge> maxAttempts then do {
                 _ \<leftarrow> do_err rd (DEL key);
                 State_Monad.return (Some ErrMaxAttempts)
               }
               else State_Monad.return (Some ErrInvalidCode)
             }
           else do {
             _ \<leftarrow> do_err rd (DEL key);
             State_Monad.return None
           }
     })"

definition rk_Verify ::
  "'w Redis \<Rightarrow> (string \<Rightarrow> string) \<Rightarrow> (string \<Rightarrow> string \<Rightarrow> bool) \<Rightarrow> string \<Rightarrow> string \<Rightarrow> string \<Rightarrow> int \<Rightarrow> gotime \<Rightarrow>
   ('w, error option) io" where
  "rk_Verify rd lowU cmp email purpose plain maxAttempts now =
     verifyRedis rd lowU cmp (ToLower lowU (TrimSpace email)) purpose plain maxAttempts now"

text \<open>The store as the handlers use it; \<open>bcrypt\<close> is the package that hashes a code.\<close>

definition redis_codes ::
  "'w Redis \<Rightarrow> (string \<Rightarrow> string) \<Rightarrow> (string \<Rightarrow> ('w, error + string) io) \<Rightarrow> (string \<Rightarrow> string \<Rightarrow> bool) \<Rightarrow> 'w EmailCodes" where
  "redis_codes rd lowU bcrypt cmp = \<lparr>
     ec_PrecheckSend = \<lambda>m p cooldown limit now. rk_PrecheckSend rd lowU m p limit now,
     ec_RollbackPrecheck = rk_RollbackPrecheck rd lowU,
     ec_CommitSend = \<lambda>m p code ttl cooldown now. do {
       h \<leftarrow> bcrypt code;
       rk_CommitSend rd lowU h m p ttl cooldown now
     },
     ec_Verify = rk_Verify rd lowU cmp\<rparr>"

section \<open>Digest for logs and the fixed code of tests\<close>

definition hex_digit :: "nat \<Rightarrow> char" where
  "hex_digit n = ''0123456789abcdef'' ! (n mod 16)"

definition HashForAudit :: "(string \<Rightarrow> nat list) \<Rightarrow> string \<Rightarrow> string" where
  "HashForAudit sum256 code = concat (map (\<lambda>b. [hex_digit (b div 16), hex_digit b]) (take 8 (sum256 code)))"

definition UseDeterministicEmailCodeForTests :: "string \<Rightarrow> string \<Rightarrow> string" where
  "UseDeterministicEmailCodeForTests code deterministicTestCode = code"

definition ClearDeterministicEmailCodeForTest :: "string \<Rightarrow> string" where
  "ClearDeterministicEmailCodeForTest deterministicTestCode = []"

lemma whole_s_less: "d < whole_s d + Second"
proof -
  have "d div Second * Second + d mod Second = d" by simp
  moreover have "d mod Second < Second" by (simp add: Second_def)
  moreover have "d div Second * Second \<le> max 1 (d div Second) * Second" by (rule mult_right_mono) (simp_all add: Second_def)
  ultimately show ?thesis unfolding whole_s_def by linarith
qed

section \<open>The daily quota\<close>

text \<open>
  Requests for codes one after the other: each is let through or not, and for those that are the mail goes out and the
  code is stored, or the mail fails and the reserved slot is given back, as the next flag says.  The result is the number of
  mails that went out.
\<close>

fun redis_sends ::
  "'w Redis \<Rightarrow> ('w, gotime) io \<Rightarrow> (string \<Rightarrow> string) \<Rightarrow> (string \<Rightarrow> ('w, error + string) io) \<Rightarrow> Config \<Rightarrow> string \<Rightarrow> string \<Rightarrow>
   (bool \<times> string) list \<Rightarrow> nat \<Rightarrow> ('w, nat) io" where
  "redis_sends rd clk lowU bcrypt cfg email purpose [] n = State_Monad.return n"
| "redis_sends rd clk lowU bcrypt cfg email purpose ((delivered, code) # rs) n = do {
     now \<leftarrow> clk;
     e \<leftarrow> rk_PrecheckSend rd lowU email purpose (cf_EmailCodeDailyLimit cfg) now;
     if e \<noteq> None then redis_sends rd clk lowU bcrypt cfg email purpose rs n
     else do {
       now \<leftarrow> clk;
       if delivered then do {
         h \<leftarrow> bcrypt code;
         _ \<leftarrow> rk_CommitSend rd lowU h email purpose (cf_EmailCodeTTL cfg) (cf_EmailCodeSendInterval cfg) now;
         redis_sends rd clk lowU bcrypt cfg email purpose rs (Suc n)
       }
       else do {
         _ \<leftarrow> rk_RollbackPrecheck rd lowU email purpose now;
         redis_sends rd clk lowU bcrypt cfg email purpose rs n
       }
     }
   }"

text \<open>\<open>n\<close> slots are taken: the counter under the key has counted them, and lives at least until \<open>t\<close>.\<close>

definition counted :: "string \<Rightarrow> gotime \<Rightarrow> nat \<Rightarrow> redis_abs \<Rightarrow> bool" where
  "counted k t n a \<longleftrightarrow>
     n = 0 \<and> rget (ra_now a) (ra_db a) k = None \<or>
     (\<exists>c e. map_of (ra_db a) k = Some (RString (FormatInt c), Some e) \<and> is_int64 c \<and> int n \<le> c \<and> t \<le> e)"

lemma counted_later:
  assumes "counted k t n a" and "ra_now a \<le> s"
  shows "counted k t n (a\<lparr>ra_now := s\<rparr>)"
  using assms by (auto simp: counted_def rget_def split: option.splits if_splits)

text \<open>The commands on a counter.\<close>

lemma rget_alive: "map_of db k = Some (v, Some e) \<Longrightarrow> now < e \<Longrightarrow> rget now db k = Some v"
  by (simp add: rget_def)

lemma rput_alive: "map_of db k = Some (v, Some e) \<Longrightarrow> now < e \<Longrightarrow> rput now k v' db = mput k (v', Some e) db"
  by (simp add: rput_def rttl_def rget_def)

lemma add_alive:
  assumes "map_of db k = Some (RString (FormatInt c), Some e)" and "now < e" and "is_int64 c"
  shows "add_to now d k db =
    (if is_int64 (c + d) then (Count (c + d), mput k (RString (FormatInt (c + d)), Some e) db)
     else (Failure ''ERR increment or decrement would overflow'', db))"
  using assms by (simp add: add_to_def rget_alive rput_alive)

lemma expire_alive:
  assumes "rget now db k = Some v" and "0 < d"
  shows "redis_exec now (EXPIRE k d) db = (Flag True, mput k (v, Some (now + whole_s d)) db)"
  using assms by (simp add: redis_exec_def)

lemma one_int64: "is_int64 1" "is_int64 0"
  by (simp_all add: is_int64_def minInt64_def maxInt64_def)

lemma is_int64_between: "is_int64 c \<Longrightarrow> is_int64 c' \<Longrightarrow> c \<le> x \<Longrightarrow> x \<le> c' \<Longrightarrow> is_int64 x"
  by (simp add: is_int64_def)

text \<open>The transaction of a request on a counter that is alive, and taking it back.\<close>

lemma count_up:
  assumes "counted k t n a" and "ra_now a < t" and "t \<le> ra_now a + whole_s d" and "0 < d"
  defines "r \<equiv> redis_execs (ra_now a) [INCR k, EXPIRE k d] (ra_db a)"
  shows "first_failure (fst r) \<noteq> None \<and> counted k t n (a\<lparr>ra_db := snd r\<rparr>) \<or>
    (\<exists>c. int n < c \<and> fst r = [Count c, Flag True] \<and>
       counted k t (Suc n) (a\<lparr>ra_db := snd r\<rparr>) \<and> counted k t n (a\<lparr>ra_db := snd (redis_exec (ra_now a) (DECR k) (snd r))\<rparr>))"
proof -
  let ?now = "ra_now a" and ?e = "ra_now a + whole_s d"
  have incr: "redis_exec ?now (INCR k) db = add_to ?now 1 k db" and decr: "redis_exec ?now (DECR k) db = add_to ?now (- 1) k db" for db
    by (simp_all add: redis_exec_def)
  have up: "counted k t m (a\<lparr>ra_db := mput k (RString (FormatInt c), Some ?e) db\<rparr>)" if "int m \<le> c" "is_int64 c" for m c db
    using that assms(3) by (auto simp: counted_def update_conv')
  have down: "snd (redis_exec ?now (DECR k) (mput k (RString (FormatInt (c + 1)), Some ?e) db)) =
      mput k (RString (FormatInt c), Some ?e) (mput k (RString (FormatInt (c + 1)), Some ?e) db)"
    if "is_int64 c" "is_int64 (c + 1)" for c db
    using that whole_s_pos [of d] by (subst decr, subst add_alive [where c = "c + 1" and e = ?e]) (simp_all add: update_conv')
  have counted_up: ?thesis if c: "is_int64 c" "is_int64 (c + 1)" "int n \<le> c"
    and i: "redis_exec ?now (INCR k) (ra_db a) = (Count (c + 1), db)" "rget ?now db k = Some (RString (FormatInt (c + 1)))" for c db
  proof -
    have r: "r = ([Count (c + 1), Flag True], mput k (RString (FormatInt (c + 1)), Some ?e) db)"
      using i expire_alive [OF i(2) assms(4)] by (simp add: r_def)
    show ?thesis using c up [of "Suc n" "c + 1" db] up [of n c] down [OF c(1,2)] by (auto simp: r)
  qed
  from assms(1) consider "n = 0" "rget ?now (ra_db a) k = None"
    | c e where "map_of (ra_db a) k = Some (RString (FormatInt c), Some e)" "is_int64 c" "int n \<le> c" "t \<le> e"
    by (auto simp: counted_def)
  then show ?thesis
  proof cases
    case 1
    then show ?thesis by (intro counted_up [of 0 "rput ?now k (RString (FormatInt 1)) (ra_db a)"]) (simp_all add: incr add_to_def one_int64)
  next
    case (2 c e)
    then have e: "?now < e" using assms(2) by simp
    note add = add_alive [OF 2(1) e 2(2), of 1]
    show ?thesis
    proof (cases "is_int64 (c + 1)")
      case True
      with 2 e show ?thesis by (intro counted_up [of c "mput k (RString (FormatInt (c + 1)), Some e) (ra_db a)"]) (simp_all add: incr add rget_mput)
    next
      case False
      then have "r = ([Failure ''ERR increment or decrement would overflow'', Flag True], mput k (RString (FormatInt c), Some ?e) (ra_db a))"
        using expire_alive [OF rget_alive [OF 2(1) e] assms(4)] by (simp add: r_def incr add)
      then show ?thesis using up [OF 2(3,2)] by (simp add: reply_err_def)
    qed
  qed
qed

lemma exec_other_key:
  assumes "k' \<noteq> k"
  shows "map_of (snd (redis_exec now (HSET k' fs) db)) k = map_of db k" "map_of (snd (redis_exec now (EXPIRE k' d) db)) k = map_of db k"
    "map_of (snd (redis_exec now (SET k' v d) db)) k = map_of db k"
  using assms
  by (auto simp: redis_exec_def with_hash_def rput_coll_def rput_def wrong_type_def update_conv' delete_conv'
      split: option.split rvalue.split)

lemma counted_same: "counted k t n a \<Longrightarrow> map_of (ra_db b) k = map_of (ra_db a) k \<Longrightarrow> ra_now a \<le> ra_now b \<Longrightarrow> counted k t n b"
  by (auto simp: counted_def rget_def split: option.splits if_splits)

context redis_server
begin

lemma tx_replies_law: "list_all determined cs \<Longrightarrow> ensures live A (tx_replies rd cs) a
    (\<lambda>r a'. a' = a\<lparr>ra_db := snd (redis_execs (ra_now a) cs (ra_db a))\<rparr> \<and>
       r = (case first_failure (fst (redis_execs (ra_now a) cs (ra_db a))) of
              Some e \<Rightarrow> Inl e | None \<Rightarrow> Inr (fst (redis_execs (ra_now a) cs (ra_db a)))))"
  unfolding tx_replies_def by (rule ensures_step [OF tx_law]) (auto intro!: ensures_return)

lemma do_err_law: "determined c \<Longrightarrow> ensures live A (do_err rd c) a (\<lambda>x a'. a' = a\<lparr>ra_db := snd (redis_exec (ra_now a) c (ra_db a))\<rparr>)"
  unfolding do_err_def by (rule ensures_step [OF do_law]) (auto intro!: ensures_return)

lemma precheck_counts:
  assumes a: "counted k t n a" "ra_now a < t" "t \<le> ra_now a + whole_s (secondsUntilUTCEndOfDay (ra_now a))"
    and k: "k = keyDaily lowU purpose email (day_text (utcDay (ra_now a)))" and "0 < secondsUntilUTCEndOfDay (ra_now a)"
  shows "ensures live A (precheckSendRedis rd lowU email purpose dailyLimit (ra_now a)) a
    (\<lambda>e a'. ra_now a' = ra_now a \<and> counted k t (if e = None then Suc n else n) a' \<and> (e = None \<longrightarrow> int n < dailyLimit))"
proof -
  let ?now = "ra_now a" and ?d = "secondsUntilUTCEndOfDay (ra_now a)"
  define R where "R = redis_execs ?now [INCR k, EXPIRE k ?d] (ra_db a)"
  note count = count_up [OF a assms(5), folded R_def]
  have tx: "ensures live A (tx_replies rd [INCR k, EXPIRE k ?d]) a (\<lambda>r a'. a' = a\<lparr>ra_db := snd R\<rparr> \<and>
      r = (case first_failure (fst R) of Some e \<Rightarrow> Inl e | None \<Rightarrow> Inr (fst R)))"
    unfolding R_def by (rule tx_replies_law) (simp add: determined_def)
  have ttl: "ensures live A (do_as rd the_remaining (TTL x)) a (\<lambda>r a'. a' = a)" for x
    unfolding do_as_def by (rule ensures_step [OF do_law]) (auto simp: redis_exec_def determined_def)
  show ?thesis
    unfolding precheckSendRedis_def Let_def k [symmetric]
  proof (rule ensures_step [OF ttl], goal_cases)
    case (1 x a1)
    then have a1: "a1 = a" by simp
    show ?case
      unfolding a1
    proof (intro ensures_sum ensures_if ensures_return, goal_cases)
      case (3 ttl)
      show ?case
      proof (rule ensures_step [OF tx], goal_cases)
        case (1 r a2)
        from count show ?case
        proof (elim disjE conjE exE)
          assume "first_failure (fst R) \<noteq> None" "counted k t n (a\<lparr>ra_db := snd R\<rparr>)"
          then obtain e where "first_failure (fst R) = Some e" "counted k t n (a\<lparr>ra_db := snd R\<rparr>)" by blast
          with 1 show ?case by (auto intro!: ensures_return)
        next
          fix c
          assume c: "int n < c" "fst R = [Count c, Flag True]" "counted k t (Suc n) (a\<lparr>ra_db := snd R\<rparr>)"
            "counted k t n (a\<lparr>ra_db := snd (redis_exec (ra_now a) (DECR k) (snd R))\<rparr>)"
          then have r: "r = Inr [Count c, Flag True]" and a2: "a2 = a\<lparr>ra_db := snd R\<rparr>" using 1 by (simp_all add: reply_err_def)
          have "ensures live A (do { _ \<leftarrow> do_err rd (DECR k); State_Monad.return (Some ErrDailyLimit) }) a2
            (\<lambda>e a'. ra_now a' = ra_now a \<and> counted k t (if e = None then Suc n else n) a' \<and> (e = None \<longrightarrow> int n < dailyLimit))"
            by (rule ensures_step [OF do_err_law], simp add: determined_def, rule ensures_return) (use c(4) in \<open>simp add: a2\<close>)
          then show ?case using c(1,3) by (auto simp: r a2 reply_as_def the_count_def intro!: ensures_if ensures_return)
        qed
      qed
    qed (use assms in auto)
  qed
qed

lemma precheck_now: "ensures live A (precheckSendRedis rd lowU email purpose dailyLimit now) a (\<lambda>e a'. ra_now a' = ra_now a)"
proof -
  have as: "ensures live A (do_as rd f (TTL k)) b (\<lambda>x b'. ra_now b' = ra_now b)" for f k b
    unfolding do_as_def by (rule ensures_step [OF do_law]) (auto simp: determined_def intro!: ensures_return)
  have tx: "ensures live A (tx_replies rd [INCR k, EXPIRE k d]) b (\<lambda>x b'. ra_now b' = ra_now b)" for k d b
    by (rule ensures_mono [OF tx_replies_law]) (simp_all add: determined_def)
  have err: "ensures live A (do_err rd (DECR k)) b (\<lambda>x b'. ra_now b' = ra_now b)" for k b
    by (rule ensures_mono [OF do_err_law]) (simp_all add: determined_def)
  show ?thesis
    unfolding precheckSendRedis_def Let_def
    by (rule ensures_step [OF as], (intro ensures_sum ensures_if ensures_return ensures_step [OF tx] ensures_step [OF err] | simp)+)
qed

lemma precheck_now': "ensures live A (rk_PrecheckSend rd lowU email purpose dailyLimit now) a (\<lambda>e a'. ra_now a' = ra_now a)"
  unfolding rk_PrecheckSend_def Let_def by (intro ensures_if ensures_return precheck_now) simp

text \<open>Storing a code leaves the counter alone, and giving a slot back takes it down by one.\<close>

lemma commit_keeps:
  assumes "k = keyDaily lowU purpose email' day"
  shows "ensures live A (rk_CommitSend rd lowU h email purpose ttl cooldown now) a
    (\<lambda>_ a'. ra_now a' = ra_now a \<and> map_of (ra_db a') k = map_of (ra_db a) k)"
proof -
  let ?P = "\<lambda>a'. ra_now a' = ra_now a \<and> map_of (ra_db a') k = map_of (ra_db a) k"
  have key: "keyCode lowU p m \<noteq> k" "keyCooldown lowU p m \<noteq> k" for p m
    by (simp_all add: assms keyCode_def keyCooldown_def keyDaily_def)
  have hset: "ensures live A (do_err rd (HSET k' fs)) b (\<lambda>_ a'. ?P a')" if "k' \<noteq> k" "?P b" for k' fs b
    by (rule ensures_mono [OF do_err_law]) (use that in \<open>simp_all add: determined_def exec_other_key\<close>)
  have expire: "ensures live A (do_err rd (EXPIRE k' d)) b (\<lambda>_ a'. ?P a')" if "k' \<noteq> k" "?P b" for k' d b
    by (rule ensures_mono [OF do_err_law]) (use that in \<open>simp_all add: determined_def exec_other_key\<close>)
  have set: "ensures live A (do_err rd (SET k' v d)) b (\<lambda>_ a'. ?P a')" if "k' \<noteq> k" "?P b" for k' v d b
    by (rule ensures_mono [OF do_err_law]) (use that in \<open>simp_all add: determined_def exec_other_key\<close>)
  have "ensures live A (commitSendRedis rd lowU m purpose hash ttl cooldown now) a (\<lambda>_ a'. ?P a')" for m hash
    unfolding commitSendRedis_def
    by (rule ensures_step [OF hset [OF key(1)]], simp, rule ensures_option, rule ensures_step [OF expire [OF key(1)]], assumption,
      rule ensures_option) (auto intro!: ensures_return set key)
  then show ?thesis unfolding rk_CommitSend_def by (auto intro!: ensures_sum ensures_return)
qed

lemma rollback_counts:
  assumes a: "counted k t (Suc n) a" "ra_now a < t"
    and k: "k = keyDaily lowU purpose (ToLower lowU (TrimSpace email)) (day_text (utcDay (ra_now a)))"
  shows "ensures live A (rk_RollbackPrecheck rd lowU email purpose (ra_now a)) a (\<lambda>_ a'. ra_now a' = ra_now a \<and> counted k t n a')"
proof -
  from a(1) obtain c e where c: "map_of (ra_db a) k = Some (RString (FormatInt c), Some e)" "is_int64 c" "int (Suc n) \<le> c" "t \<le> e"
    by (auto simp: counted_def)
  then have e: "ra_now a < e" using a(2) by simp
  have "is_int64 (c + - 1)" by (rule is_int64_between [OF one_int64(2) c(2)]) (use c(3) in auto)
  then have "redis_exec (ra_now a) (DECR k) (ra_db a) = (Count (c + - 1), mput k (RString (FormatInt (c + - 1)), Some e) (ra_db a))"
    using add_alive [OF c(1) e c(2), of "- 1"] by (simp add: redis_exec_def)
  with \<open>is_int64 (c + - 1)\<close> c(3,4) show ?thesis
    unfolding rk_RollbackPrecheck_def k [symmetric]
    by (intro ensures_mono [OF do_err_law]) (auto simp: determined_def counted_def update_conv')
qed

lemma rollback_now: "ensures live A (rk_RollbackPrecheck rd lowU email purpose now) a (\<lambda>_ a'. ra_now a' = ra_now a)"
  unfolding rk_RollbackPrecheck_def by (rule ensures_mono [OF do_err_law]) (auto simp: determined_def)

lemma sends_now:
  assumes hash: "\<And>p a. ensures live A (bcrypt p) a (\<lambda>_ a'. ra_now a \<le> ra_now a' \<and> ra_db a' = ra_db a)"
  shows "ensures live A (redis_sends rd clk lowU bcrypt cfg email purpose rs n) a (\<lambda>_ a'. ra_now a \<le> ra_now a')"
proof (induction rs arbitrary: n a)
  case (Cons r rs)
  obtain delivered code where r: "r = (delivered, code)" by (cases r)
  have rest: "ensures live A (redis_sends rd clk lowU bcrypt cfg email purpose rs m) b (\<lambda>_ a'. ra_now a \<le> ra_now a')"
    if "ra_now a \<le> ra_now b" for m b
    by (rule ensures_mono [OF Cons.IH]) (use that in simp)
  show ?case
    unfolding r redis_sends.simps
  proof (rule ensures_step [OF clock_law], rule ensures_step [OF precheck_now'], rule ensures_if, goal_cases)
    case (1 now b e c)
    then show ?case by (intro rest) simp
  next
    case (2 now b e c)
    then have "ra_now a \<le> ra_now c" by simp
    then show ?case
      by (intro ensures_step [OF clock_law] ensures_if ensures_step [OF hash] ensures_step [OF commit_keeps [OF refl]]
        ensures_step [OF rollback_now] rest) auto
  qed
qed (auto intro: ensures_return)

lemma sends_counted:
  assumes hash: "\<And>p a. ensures live A (bcrypt p) a (\<lambda>_ a'. ra_now a \<le> ra_now a' \<and> ra_db a' = ra_db a)"
    and "counted k t n a" and t: "t = (day + 1) * (24 * Hour) - Second" and "day * (24 * Hour) \<le> ra_now a"
    and k: "k = keyDaily lowU purpose (ToLower lowU (TrimSpace email)) (day_text day)" and "int n \<le> max 0 (cf_EmailCodeDailyLimit cfg)"
  shows "ensures live A (redis_sends rd clk lowU bcrypt cfg email purpose rs n) a
    (\<lambda>n a'. ra_now a' < t \<longrightarrow> int n \<le> max 0 (cf_EmailCodeDailyLimit cfg))"
  using assms(2,4,6)
proof (induction rs arbitrary: n a)
  case (Cons r rs)
  let ?D = "24 * Hour" and ?limit = "cf_EmailCodeDailyLimit cfg"
  let ?Q = "\<lambda>n a'. ra_now a' < t \<longrightarrow> int n \<le> max 0 ?limit"
  note late = ensures_mono [OF sends_now [OF hash]]
  have pos: "(0 :: int) < Second" by (simp add: Second_def)
  have day: "utcDay now = day" if "day * ?D \<le> now" "now < t" for now
    unfolding utcDay_def by (rule int_div_pos_eq [where r = "now - day * ?D"]) (use that pos in \<open>simp_all add: t algebra_simps\<close>)
  have sent: "ensures live A (do {
        h \<leftarrow> bcrypt (snd r);
        _ \<leftarrow> rk_CommitSend rd lowU h email purpose (cf_EmailCodeTTL cfg) (cf_EmailCodeSendInterval cfg) now;
        redis_sends rd clk lowU bcrypt cfg email purpose rs (Suc n)}) b ?Q"
    if b: "counted k t (Suc n) b" "day * ?D \<le> ra_now b" "int n < ?limit" for b now
  proof (rule ensures_step [OF hash], rule ensures_step [OF commit_keeps [OF k]], goal_cases)
    case (1 h c x d)
    then have "counted k t (Suc n) d" by (intro counted_same [OF b(1)]) simp_all
    then show ?case by (rule Cons.IH) (use 1 b in auto)
  qed
  have failed: "ensures live A (do {
        _ \<leftarrow> rk_RollbackPrecheck rd lowU email purpose (ra_now b);
        redis_sends rd clk lowU bcrypt cfg email purpose rs n}) b ?Q"
    if b: "counted k t (Suc n) b" "day * ?D \<le> ra_now b" "ra_now b < t" for b
    by (rule ensures_step [OF rollback_counts [OF b(1,3)]], simp add: day [OF b(2,3)] k, rule Cons.IH)
      (use b Cons.prems in auto)
  have passed: "ensures live A (do {
        now \<leftarrow> clk;
        if fst r then do {
          h \<leftarrow> bcrypt (snd r);
          _ \<leftarrow> rk_CommitSend rd lowU h email purpose (cf_EmailCodeTTL cfg) (cf_EmailCodeSendInterval cfg) now;
          redis_sends rd clk lowU bcrypt cfg email purpose rs (Suc n) }
        else do {
          _ \<leftarrow> rk_RollbackPrecheck rd lowU email purpose now;
          redis_sends rd clk lowU bcrypt cfg email purpose rs n }}) b ?Q"
    if b: "counted k t (Suc n) b" "day * ?D \<le> ra_now b" "int n < ?limit" for b
  proof (rule ensures_step [OF clock_law], rule ensures_if, goal_cases)
    case (1 now c)
    then show ?case by (intro sent) (use b counted_later [OF b(1)] in auto)
  next
    case (2 now c)
    then have now: "now = ra_now c" by simp
    show ?case
    proof (cases "now < t")
      case True
      show ?thesis unfolding now by (rule failed) (use 2 True b counted_later [OF b(1)] in auto)
    next
      case False
      then show ?thesis by (intro ensures_step [OF rollback_now] late) (use 2 in auto)
    qed
  qed
  obtain delivered code where r: "r = (delivered, code)" by (cases r)
  show ?case
    unfolding r redis_sends.simps
  proof (rule ensures_step [OF clock_law], goal_cases)
    case (1 now a1)
    then have a1: "a1 = a\<lparr>ra_now := now\<rparr>" "ra_now a \<le> now" by simp_all
    have later: "day * ?D \<le> ra_now a1" "counted k t n a1" using Cons.prems(2) counted_later [OF Cons.prems(1) a1(2)] a1 by simp_all
    note rest = passed [unfolded r fst_conv snd_conv]
    show ?case
    proof (cases "now < t")
      case True
      have today: "utcDay now = day" using later(1) True a1 by (intro day) simp_all
      then have left: "secondsUntilUTCEndOfDay now = t + Second - now" by (simp add: secondsUntilUTCEndOfDay_def t)
      have long: "t \<le> now + whole_s (secondsUntilUTCEndOfDay now)" using whole_s_less [of "secondsUntilUTCEndOfDay now"] left by simp
      have "ensures live A (precheckSendRedis rd lowU (ToLower lowU (TrimSpace email)) purpose ?limit (ra_now a1)) a1
          (\<lambda>e a'. ra_now a' = ra_now a1 \<and> counted k t (if e = None then Suc n else n) a' \<and> (e = None \<longrightarrow> int n < ?limit))"
        by (rule precheck_counts) (use later True long left pos in \<open>simp_all add: k today a1\<close>)
      then have pre: "ensures live A (rk_PrecheckSend rd lowU email purpose ?limit now) a1
          (\<lambda>e a'. ra_now a' = ra_now a1 \<and> counted k t (if e = None then Suc n else n) a' \<and> (e = None \<longrightarrow> int n < ?limit))"
        unfolding rk_PrecheckSend_def Let_def using later by (intro ensures_if ensures_return) (simp_all add: a1)
      show ?thesis
      proof (rule ensures_step [OF pre], rule ensures_if, goal_cases)
        case (1 e b)
        then show ?case by (intro Cons.IH) (use later Cons.prems in auto)
      next
        case (2 e b)
        then show ?case by (intro rest) (use later in auto)
      qed
    next
      case False
      show ?thesis
        by (rule ensures_step [OF precheck_now'], rule ensures_if, rule late, use False a1 in simp)
          (rule ensures_step [OF clock_law], rule ensures_if,
            rule ensures_step [OF hash], rule ensures_step [OF commit_keeps [OF k]], rule late, use False a1 in simp,
            rule ensures_step [OF rollback_now], rule late, use False a1 in simp)
    qed
  qed
qed (auto intro: ensures_return)

end

text \<open>
  C29: the daily quota on Redis, for one address and one purpose: on a day that starts without a counter, of any number of
  requests for codes, with their mails delivered or failing and their slots then given back, no more mails go out than the
  configured number, as long as the clock has not reached the last second of the day (\<open>EXPIRE\<close> counts in whole seconds, so
  the counter may lapse in that second).
\<close>

theorem redis_daily_quota:
  assumes "redis_server rd clk A live" and "\<And>p a. ensures live A (bcrypt p) a (\<lambda>_ a'. ra_now a \<le> ra_now a' \<and> ra_db a' = ra_db a)"
    and "day * (24 * Hour) \<le> ra_now a"
    and "rget (ra_now a) (ra_db a) (keyDaily lowU purpose (ToLower lowU (TrimSpace email)) (day_text day)) = None"
  shows "ensures live A (redis_sends rd clk lowU bcrypt cfg email purpose rs 0) a
    (\<lambda>n a'. ra_now a' < (day + 1) * (24 * Hour) - Second \<longrightarrow> int n \<le> max 0 (cf_EmailCodeDailyLimit cfg))"
  by (rule redis_server.sends_counted [OF assms(1,2) _ refl assms(3) refl]) (use assms(4) in \<open>auto simp: counted_def\<close>)

text \<open>On 1 January 1970, two requests at a limit of one and without a noticeable cooldown: one mail goes out.\<close>

definition sim_morning :: RedisWorld where
  "sim_morning = \<lparr>rw_db = [], rw_now = 719162 * (24 * Hour), rw_delays = [1, 2, 3, 4], rw_sent = []\<rparr>"

definition sim_limits :: Config where
  "sim_limits = Default\<lparr>cf_EmailCodeTTL := 9 * Second, cf_EmailCodeDailyLimit := 1, cf_EmailCodeSendInterval := 1000000\<rparr>"

definition sim_requests :: "(RedisWorld, nat) io" where
  "sim_requests = redis_sends sim_redis sim_clock (\<lambda>s. s) (\<lambda>p. State_Monad.return (Inr p)) sim_limits
     ''ann@x.org'' ''register'' [(True, ''1''), (True, ''2'')] 0"

lemma sim_requests_run:
  "case run_state sim_requests sim_morning of (n, w) \<Rightarrow> n = 1 \<and> rw_now w < 719163 * (24 * Hour) - Second"
  by code_simp

theorem redis_daily_quota_witness:
  "fst (run_state sim_requests sim_morning) \<le> 1 \<and> 0 < fst (run_state sim_requests sim_morning)"
proof -
  have hash: "ensures (\<lambda>_. True) sim_abs (State_Monad.return (Inr p :: error + string)) a (\<lambda>_ a'. ra_now a \<le> ra_now a' \<and> ra_db a' = ra_db a)" for p a
    by (rule ensures_return) simp
  have "ensures (\<lambda>_. True) sim_abs sim_requests (sim_abs sim_morning)
    (\<lambda>n a'. ra_now a' < (719162 + 1) * (24 * Hour) - Second \<longrightarrow> int n \<le> max 0 (cf_EmailCodeDailyLimit sim_limits))"
    unfolding sim_requests_def
    by (rule redis_daily_quota [OF sim.redis_server_axioms hash]) (simp_all add: sim_abs_def sim_morning_def rget_def)
  from ensuresD [OF this TrueI] show ?thesis using sim_requests_run by (simp add: sim_abs_def sim_limits_def case_prod_beta)
qed

section \<open>Guessing\<close>

lemma fold_mput_wf: "wf_map h \<Longrightarrow> wf_map (fold (\<lambda>(f, v). mput f v) fs h)"
  by (induction fs arbitrary: h) (auto simp: distinct_update)

lemma exec_HSET:
  assumes "hash_ok V k" and "fs \<noteq> []"
  shows "\<exists>n. execs now V (HSET k fs) (Count n) (put_hash k (fold (\<lambda>(f, v). mput f v) fs (hash_at V k)) V)"
  using assms by (auto simp: execs_def determined_def redis_exec_def with_hash_def hash_ok_def hash_at_def rput_coll_view
      split: option.splits rvalue.splits)

text \<open>\<open>attempts k h m a\<close>: the code with the hash \<open>h\<close> has seen \<open>m\<close> wrong guesses, unless it is gone already.\<close>

definition attempts :: "string \<Rightarrow> string \<Rightarrow> int \<Rightarrow> redis_abs \<Rightarrow> bool" where
  "attempts k h m a \<longleftrightarrow>
     (case rget (ra_now a) (ra_db a) k of
        None \<Rightarrow> True
      | Some (RHash g) \<Rightarrow> g \<noteq> [] \<and> wf_map g \<and> field_of ''h'' g = h \<and> number_of (field_of ''n'' g) = m
      | Some _ \<Rightarrow> False)"

lemma rget_later: "now \<le> t \<Longrightarrow> rget t db k = None \<or> rget t db k = rget now db k"
  by (auto simp: rget_def split: option.splits)

lemma attempts_later: "attempts k h m a \<Longrightarrow> ra_now a \<le> t \<Longrightarrow> attempts k h m (a\<lparr>ra_now := t\<rparr>)"
  using rget_later [of "ra_now a" t "ra_db a" k] by (auto simp: attempts_def)

lemma field_of_mput [simp]: "field_of f (mput f' v g) = (if f = f' then v else field_of f g)"
  by (simp add: field_of_def update_conv')

context redis_server
begin

lemma verify_wrong:
  assumes a: "attempts (keyCode lowU purpose email) h m a" and wrong: "\<not> cmp h (TrimSpace plain)"
    and m: "0 \<le> m" "m < maxAttempts" "is_int64 maxAttempts"
  shows "ensures live A (verifyRedis rd lowU cmp email purpose plain maxAttempts t) a (\<lambda>x a'. x \<noteq> None \<and> ra_now a' = ra_now a \<and>
    (rget (ra_now a') (ra_db a') (keyCode lowU purpose email) = None \<or>
     attempts (keyCode lowU purpose email) h (m + 1) a' \<and> m + 1 < maxAttempts))"
proof -
  define k where "k = keyCode lowU purpose email"
  define V where "V = rget (ra_now a) (ra_db a)"
  have sees: "sees (ra_now a) V a" by (simp add: sees_def V_def)
  have ok: "hash_ok V k" using a by (auto simp: attempts_def hash_ok_def V_def k_def split: option.splits rvalue.splits)
  have range: "wrap64 (m + 1) = m + 1" "is_int64 (m + 1)"
  proof -
    show i: "is_int64 (m + 1)" by (rule is_int64_between [OF one_int64(2) m(3)]) (use m in simp_all)
    show "wrap64 (m + 1) = m + 1" by (rule wrap64_id [OF i])
  qed
  let ?g = "hash_at V k"
  have g: "?g = [] \<Longrightarrow> V k = None" "?g \<noteq> [] \<Longrightarrow> field_of ''h'' ?g = h \<and> number_of (field_of ''n'' ?g) = m"
    using a by (auto simp: attempts_def hash_at_def V_def k_def split: option.splits rvalue.splits)
  have gone: "sees (ra_now a) (put_none k W) b \<Longrightarrow> ra_now b = ra_now a \<and> rget (ra_now a) (ra_db b) k = None" for W b
    by (simp add: sees_def put_none_def)
  have counted: "sees (ra_now a) (put_hash k (mput ''n'' (FormatInt (m + 1)) ?g) V) b \<Longrightarrow> ?g \<noteq> [] \<Longrightarrow>
      ra_now b = ra_now a \<and> attempts k h (m + 1) b" for b
    using g(2) range ok by (simp add: sees_def attempts_def put_hash_def distinct_update hash_at_wf)
  have DEL: "ensures live A (do { _ \<leftarrow> do_err rd (DEL k); State_Monad.return (Some e) }) b (\<lambda>x a'. x \<noteq> None \<and>
      ra_now a' = ra_now a \<and> (rget (ra_now a') (ra_db a') k = None \<or> attempts k h (m + 1) a' \<and> m + 1 < maxAttempts))"
    if "sees (ra_now a) W b" for W b e
    by (rule do_err_then [OF that exec_strings(3)], rule ensures_return, drule gone, simp)
  show ?thesis
    unfolding verifyRedis_def Let_def k_def [symmetric]
  proof (rule do_as_then [OF sees exec_hashes(4) [OF ok]], goal_cases)
    case (1 a1)
    have s1: "sees (ra_now a) V a1" by fact
    show ?case
      unfolding reply_as_def the_pairs_def sum.case reply.case option.case
    proof (intro ensures_if ensures_return DEL [OF s1], goal_cases)
      case 1
      then show ?case using g(1) s1 by (simp add: sees_def)
    next
      case 2
      then have n: "wrap64 (number_of (field_of ''n'' ?g) + 1) = m + 1" and ne: "?g \<noteq> []" using g(2) by (simp_all add: range)
      show ?case
        unfolding n
      proof (rule do_err_then [OF s1 exec_hashes(1) [OF ok]], intro ensures_if ensures_return DEL, assumption, goal_cases)
        case (1 a2)
        then show ?case using counted [OF 1(1) ne] by simp
      qed
    qed (use g wrong in auto)
  qed
qed
end

text \<open>Guesses one after the other, each at the clock's reading.\<close>

fun redis_guesses ::
  "'w Redis \<Rightarrow> ('w, gotime) io \<Rightarrow> (string \<Rightarrow> string) \<Rightarrow> (string \<Rightarrow> string \<Rightarrow> bool) \<Rightarrow> string \<Rightarrow> string \<Rightarrow> int \<Rightarrow>
   string list \<Rightarrow> ('w, unit) io" where
  "redis_guesses rd clk lowU cmp email purpose maxAttempts [] = State_Monad.return ()"
| "redis_guesses rd clk lowU cmp email purpose maxAttempts (plain # gs) = do {
     now \<leftarrow> clk;
     _ \<leftarrow> verifyRedis rd lowU cmp email purpose plain maxAttempts now;
     redis_guesses rd clk lowU cmp email purpose maxAttempts gs
   }"

context redis_server
begin

lemma gone_later: "rget (ra_now a) (ra_db a) k = None \<Longrightarrow> ra_now a \<le> t \<Longrightarrow> rget t (ra_db a) k = None"
  using rget_later [of "ra_now a" t "ra_db a" k] by auto

lemma verify_gone:
  assumes "rget (ra_now a) (ra_db a) (keyCode lowU purpose email) = None"
  shows "ensures live A (verifyRedis rd lowU cmp email purpose plain maxAttempts t) a
    (\<lambda>x a'. x = Some ErrInvalidCode \<and> ra_now a' = ra_now a \<and> rget (ra_now a') (ra_db a') (keyCode lowU purpose email) = None)"
proof -
  have "sees (ra_now a) (rget (ra_now a) (ra_db a)) a" by (simp add: sees_def)
  moreover have "hash_ok (rget (ra_now a) (ra_db a)) (keyCode lowU purpose email)" using assms by (simp add: hash_ok_def)
  ultimately show ?thesis
    unfolding verifyRedis_def Let_def
    by (rule do_as_then [OF _ exec_hashes(4)])
      (use assms in \<open>auto simp: reply_as_def the_pairs_def hash_at_def sees_def intro!: ensures_return\<close>)
qed

lemma guesses_end:
  assumes "rget (ra_now a) (ra_db a) (keyCode lowU purpose email) = None \<or>
      attempts (keyCode lowU purpose email) h m a \<and> m < maxAttempts"
    and "0 \<le> m" and "is_int64 maxAttempts" and "\<And>plain. plain \<in> set gs \<Longrightarrow> \<not> cmp h (TrimSpace plain)"
    and "maxAttempts \<le> m + int (length gs)"
  shows "ensures live A (redis_guesses rd clk lowU cmp email purpose maxAttempts gs) a
    (\<lambda>_ a'. rget (ra_now a') (ra_db a') (keyCode lowU purpose email) = None)"
  using assms
proof (induction gs arbitrary: a m)
  case Nil
  then show ?case by (auto intro: ensures_return)
next
  case (Cons plain gs)
  let ?k = "keyCode lowU purpose email"
  show ?case
    unfolding redis_guesses.simps
  proof (rule ensures_step [OF clock_law], goal_cases)
    case (1 now a1)
    then have a1: "ra_now a1 = now" "a1 = a\<lparr>ra_now := now\<rparr>" "ra_now a \<le> now" by simp_all
    have wrong: "\<not> cmp h (TrimSpace plain)" using Cons.prems(4) by simp
    have *: "ensures live A (verifyRedis rd lowU cmp email purpose plain maxAttempts now) a1 (\<lambda>_ a'.
        rget (ra_now a') (ra_db a') ?k = None \<or> attempts ?k h (m + 1) a' \<and> m + 1 < maxAttempts)"
      using Cons.prems(1)
    proof (elim disjE conjE)
      assume "rget (ra_now a) (ra_db a) ?k = None"
      then have "rget (ra_now a1) (ra_db a1) ?k = None" using gone_later a1 by simp
      from verify_gone [OF this] show ?thesis by (rule ensures_mono) metis
    next
      assume "attempts ?k h m a" "m < maxAttempts"
      then have "attempts ?k h m a1" using attempts_later a1 by simp
      from verify_wrong [where cmp = cmp, OF this wrong Cons.prems(2) \<open>m < maxAttempts\<close> Cons.prems(3)] show ?thesis
        by (rule ensures_mono) blast
    qed
    show ?case
      by (rule ensures_step [OF *], rule Cons.IH [where m = "m + 1"]) (use Cons.prems(2-5) in simp_all)
  qed
qed

lemma commit_attempts:
  assumes "hash_ok (rget (ra_now a) (ra_db a)) (keyCode lowU purpose email)" and "0 < codeHashTTL" and "0 < cooldown"
  shows "ensures live A (commitSendRedis rd lowU email purpose h codeHashTTL cooldown now) a
    (\<lambda>x a'. x = None \<and> attempts (keyCode lowU purpose email) h 0 a')"
proof -
  let ?k = "keyCode lowU purpose email" and ?V = "rget (ra_now a) (ra_db a)"
  let ?fs = "[(''h'', h), (''exp'', FormatInt (Unix (now + codeHashTTL))), (''n'', ''0'')]"
  let ?g = "fold (\<lambda>(f, v). mput f v) ?fs (hash_at ?V ?k)"
  have s: "sees (ra_now a) ?V a" by (simp add: sees_def)
  obtain n where HSET: "execs (ra_now a) ?V (HSET ?k ?fs) (Count n) (put_hash ?k ?g ?V)"
    using exec_HSET [OF assms(1), of ?fs] by blast
  have ne: "?k \<noteq> keyCooldown lowU purpose email" by (simp add: keyCode_def keyCooldown_def)
  have wf: "wf_map ?g" using fold_mput_wf [OF hash_at_wf [OF assms(1)]] .
  have "number_of ''0'' = 0" by code_simp
  then have fresh: "attempts ?k h 0 b" if "sees (ra_now a) (put_string (keyCooldown lowU purpose email) ''1'' (put_hash ?k ?g ?V)) b" for b
    using that ne wf by (simp add: sees_def attempts_def put_defs)
  show ?thesis
    unfolding commitSendRedis_def
    by (rule do_err_then [OF s HSET], simp only: reply_err_def sum.case reply.case option.case,
        rule do_err_then, assumption, rule exec_strings(4) [OF assms(2)], simp only: reply_err_def sum.case reply.case option.case,
        rule ensures_mono, rule do_err_view [OF exec_strings(1) [OF assms(3)]], assumption)
      (simp add: reply_err_def fresh)
qed

end

text \<open>
  C30: guessing on Redis is bounded: after a code was stored, a run of \<open>maxAttempts\<close> wrong guesses, whenever they come,
  destroys it (or it has expired), and every further attempt is refused, the right code included.
\<close>

theorem redis_guessing_bounded:
  assumes "redis_server rd clk A live"
    and "hash_ok (rget (ra_now a) (ra_db a)) (keyCode lowU purpose email)" and "0 < codeHashTTL" and "0 < cooldown"
    and "\<And>plain. plain \<in> set gs \<Longrightarrow> \<not> cmp h (TrimSpace plain)"
    and "0 < maxAttempts" and "is_int64 maxAttempts" and "int (length gs) = maxAttempts"
  shows "ensures live A (do {
       _ \<leftarrow> commitSendRedis rd lowU email purpose h codeHashTTL cooldown now;
       _ \<leftarrow> redis_guesses rd clk lowU cmp email purpose maxAttempts gs;
       t \<leftarrow> clk;
       verifyRedis rd lowU cmp email purpose plain maxAttempts t
     }) a (\<lambda>x a'. x = Some ErrInvalidCode)"
proof (rule ensures_step [OF redis_server.commit_attempts [OF assms(1-4)]], goal_cases)
  case (1 x a1)
  then have "rget (ra_now a1) (ra_db a1) (keyCode lowU purpose email) = None \<or>
      attempts (keyCode lowU purpose email) h 0 a1 \<and> 0 < maxAttempts" using assms(6) by blast
  note guesses = redis_server.guesses_end [where cmp = cmp and gs = gs, OF assms(1) this order_refl assms(7,5)]
  show ?case
  proof (rule ensures_step [OF guesses], goal_cases)
    case (3 y a2)
    show ?case
    proof (rule ensures_step [OF redis_server.clock_law [OF assms(1)]], goal_cases)
      case (1 t a3)
      then have "rget (ra_now a3) (ra_db a3) (keyCode lowU purpose email) = None"
        using rget_later [of "ra_now a2" t "ra_db a2" "keyCode lowU purpose email"] 3 by auto
      from redis_server.verify_gone [OF assms(1) this] show ?case by (rule ensures_mono) simp
    qed
  qed (use assms(8) in simp_all)
qed

theorem redis_guessing_bounded_witness:
  "fst (run_state (do {
       _ \<leftarrow> commitSendRedis sim_redis (\<lambda>s. s) ''ann@x.org'' ''register'' ''123456'' (10 * Minute) Minute 0;
       _ \<leftarrow> redis_guesses sim_redis sim_clock (\<lambda>s. s) (=) ''ann@x.org'' ''register'' 2 [''000000'', ''111111''];
       t \<leftarrow> sim_clock;
       verifyRedis sim_redis (\<lambda>s. s) (=) ''ann@x.org'' ''register'' ''123456'' 2 t
     }) sim_morning) = Some ErrInvalidCode"
proof -
  have trim: "TrimSpace ''000000'' = ''000000''" "TrimSpace ''111111'' = ''111111''" by code_simp+
  show ?thesis
    by (rule conjunct2 [OF ensuresD [OF redis_guessing_bounded [OF sim.redis_server_axioms] TrueI]])
      (auto simp: trim hash_ok_def sim_abs_def sim_morning_def rget_def Minute_def Second_def is_int64_def minInt64_def maxInt64_def)
qed

end
