(* ===== verification/Chat_Queue.thy ===== *)
theory Chat_Queue
  imports Room_Chat
begin

text \<open>
  Redelivery of chat messages, \<^verbatim>\<open>ProcessGlobalChatPending\<close> of \<^verbatim>\<open>internal/room/chat.go\<close>: when its loop over the pages of
  a scan ends, and what a pass does on a store that keeps what it is told and a publisher that works.  The contract of
  the store is the locale \<open>chat_queue\<close>.
\<close>

section \<open>The scan ends\<close>

lemma scan_pending_returns:
  assumes "\<And>c w. case fst (run_state (ScanPendingRooms chat c 40) w) of
      Inl _ \<Rightarrow> True | Inr (keys, nxt) \<Rightarrow> nxt = 0 \<or> pages nxt < pages c"
    and "pages c < fuel"
  shows "fst (run_state (scan_pending fuel s chat c) w) \<noteq> None"
  using assms(2)
proof (induction fuel arbitrary: c w)
  case (Suc fuel)
  show ?case
  proof (cases "fst (run_state (ScanPendingRooms chat c 40) w)")
    case (Inr kn)
    obtain keys nxt where kn: "kn = (keys, nxt)" by (cases kn)
    with assms(1) [of c w] Inr have "nxt = 0 \<or> pages nxt < pages c" by simp
    with Suc show ?thesis by (auto simp: Inr kn)
  qed simp
qed simp

lemma scan_pending_more_fuel:
  assumes "fst (run_state (scan_pending fuel s chat c) w) \<noteq> None" and "fuel \<le> fuel'"
  shows "run_state (scan_pending fuel' s chat c) w = run_state (scan_pending fuel s chat c) w"
  using assms
proof (induction fuel arbitrary: fuel' c w)
  case (Suc fuel)
  then obtain f where f: "fuel' = Suc f" "fuel \<le> f" by (cases fuel') auto
  show ?case
    using Suc.prems(1) Suc.IH [OF _ f(2)]
    by (auto simp: f(1) split: sum.splits prod.splits if_splits)
qed simp

text \<open>
  C27: the redelivery loop ends: if the cursors of a scan come closer to its end with every page, as Redis documents
  (\<open>pages\<close> counts the pages that are left), the loop returns, whatever the publisher and the other operations
  of the store do, and more fuel than that changes nothing.
\<close>

theorem redelivery_returns:
  assumes "sv_roomChat s = Some chat"
    and "\<And>c w. case fst (run_state (ScanPendingRooms chat c 40) w) of
      Inl _ \<Rightarrow> True | Inr (keys, nxt) \<Rightarrow> nxt = 0 \<or> pages nxt < pages c"
    and "pages 0 < fuel"
  shows "fst (run_state (ProcessGlobalChatPending fuel s) w) \<noteq> None \<and>
    run_state (ProcessGlobalChatPending fuel s) w = run_state (ProcessGlobalChatPending (Suc (pages 0)) s) w"
  using assms(1) scan_pending_returns [OF assms(2,3), where s = s and w = w]
    scan_pending_returns [OF assms(2), of 0 "Suc (pages 0)" s w]
    scan_pending_more_fuel [of "Suc (pages 0)" s chat 0 w fuel] assms(3)
  by (auto simp: ProcessGlobalChatPending_def split: option.split)

section \<open>A pass over a healthy store\<close>

record chat_abs =
  ca_pending :: "string \<Rightarrow> string list"
  ca_payload :: "string \<Rightarrow> string \<Rightarrow> string option"
  ca_sent :: "(string \<times> pub_data) list"

text \<open>What redelivery publishes for one pending entry.\<close>

definition chat_out :: "'w Service \<Rightarrow> chat_abs \<Rightarrow> string \<Rightarrow> string \<Rightarrow> (string \<times> pub_data) list" where
  "chat_out s a r i =
     (case ca_payload a r i of
        None \<Rightarrow> []
      | Some p \<Rightarrow>
          if TrimSpace p = [] then []
          else case unmarshalChat (sv_rt s) p of
            Inl _ \<Rightarrow> []
          | Inr w \<Rightarrow> (case marshalChat (sv_rt s) (w\<lparr>cm_StreamID := i\<rparr>) of Inl _ \<Rightarrow> [] | Inr q \<Rightarrow> [(r, PubRaw q)]))"

definition pending_key :: "string \<Rightarrow> string" where
  "pending_key r = ''room:chat:ably_pending:'' @ r"

lemma pending_key_parse: "ParseRoomChatPendingKey (pending_key r) = (r, True)"
  unfolding ParseRoomChatPendingKey_def pending_key_def by (simp only: HasPrefix_append TrimPrefix_append simp_thms if_False)

lemma pending_key_cases:
  obtains r where "key = pending_key r" | "ParseRoomChatPendingKey key = ([], False)" "\<And>r. key \<noteq> pending_key r"
proof (cases "HasPrefix key ''room:chat:ably_pending:''")
  case True
  then show ?thesis using that(1) by (metis HasPrefix_prefix prefix_def pending_key_def)
next
  case False
  then show ?thesis
    using that(2) HasPrefix_append unfolding ParseRoomChatPendingKey_def pending_key_def by metis
qed

lemma pending_key_eq [simp]: "pending_key r = pending_key r' \<longleftrightarrow> r = r'"
  by (simp add: pending_key_def)

text \<open>Every waiting message can be sent: with its stream identifier it still encodes, within the size limit.\<close>

definition sendable :: "'w Service \<Rightarrow> chat_abs \<Rightarrow> string \<Rightarrow> string \<Rightarrow> bool" where
  "sendable s a r i \<longleftrightarrow>
     (\<forall>p w. ca_payload a r i = Some p \<longrightarrow> unmarshalChat (sv_rt s) p = Inr w \<longrightarrow>
        (\<exists>q. marshalChat (sv_rt s) (w\<lparr>cm_StreamID := i\<rparr>) = Inr q \<and> int (length q) \<le> cl_MaxPayloadBytes (sv_chat s)))"

definition deliverable :: "'w Service \<Rightarrow> chat_abs \<Rightarrow> bool" where
  "deliverable s a \<longleftrightarrow> (\<forall>r. \<forall>i \<in> set (ca_pending a r). sendable s a r i)"

locale chat_queue =
  fixes s :: "'w Service" and ch :: "'w RoomChat" and pub :: "'w Publisher" and A :: "'w \<Rightarrow> chat_abs" and live :: "'w \<Rightarrow> bool"
    and pages :: "int \<Rightarrow> nat" and seg :: "int \<Rightarrow> string set"
  assumes service: "sv_roomChat s = Some ch" "sv_publisher s = Some pub"
    and distinct_pending: "live w \<Longrightarrow> distinct (ca_pending (A w) r)"
    and pending_ids: "0 < n \<Longrightarrow> ensures live A (PendingStreamIDs ch r n) a
      (\<lambda>x a'. a' = a \<and> x = Inr (take (nat n) (ca_pending a r)))"
    and get_payload: "ensures live A (GetPayload ch r i) a
      (\<lambda>x a'. a' = a \<and> (case ca_payload a r i of None \<Rightarrow> \<exists>e. x = Inl e | Some p \<Rightarrow> x = Inr p))"
    and remove_pending: "ensures live A (RemovePending ch r i) a
      (\<lambda>x a'. a' = a\<lparr>ca_pending := (ca_pending a)(r := filter (\<lambda>j. j \<noteq> i) (ca_pending a r))\<rparr>)"
    and scan_page: "ensures live A (ScanPendingRooms ch c 40) a
      (\<lambda>x a'. a' = a \<and> (\<exists>keys nxt. x = Inr (keys, nxt) \<and> (nxt = 0 \<or> pages nxt < pages c) \<and>
         (\<forall>r. r \<in> seg c - (if nxt = 0 then {} else seg nxt) \<longrightarrow> ca_pending a r \<noteq> [] \<longrightarrow>
            pending_key r \<in> set keys)))"
    and scan_all: "seg 0 = UNIV"
    and publish: "ensures live A (PublishRoomMessage pub r MessageRoomChat d) a
      (\<lambda>x a'. x = None \<and> a' = a\<lparr>ca_sent := ca_sent a @ [(r, d)]\<rparr>)"
    and clock: "ensures live A (sv_now s) a (\<lambda>t a'. a' = a)"
    and context_live: "ensures live A (rt_ctxErr (sv_rt s) t) a (\<lambda>x a'. x = None \<and> a' = a)"
begin

lemma publishAblyChat_spec:
  "ensures live A (publishAblyChat s r d) a (\<lambda>x a'. x = None \<and> a' = a\<lparr>ca_sent := ca_sent a @ [(r, d)]\<rparr>)"
proof -
  have attempts: "ensures live A (publish_attempts (sv_rt s) pub r d t i (Suc n) e) a
      (\<lambda>x a'. x = None \<and> a' = a\<lparr>ca_sent := ca_sent a @ [(r, d)]\<rparr>)" for t i n e a
    unfolding publish_attempts.simps
    by (rule ensures_step [OF context_live], simp, rule ensures_step [OF publish]) (auto intro: ensures_return)
  let ?n = "nat (if wrap64 (1 + cl_AblyPublishRetry (sv_chat s)) < 1 then 1 else wrap64 (1 + cl_AblyPublishRetry (sv_chat s)))"
  obtain n where n: "?n = Suc n" by (cases ?n) (auto split: if_splits)
  show ?thesis
    unfolding publishAblyChat_def Let_def service option.case n
    by (rule ensures_step [OF clock]) (simp only: attempts)
qed

lemma drain_ids_spec:
  assumes "\<And>i. i \<in> set ids \<Longrightarrow> sendable s a r i"
  shows "ensures live A (drain_ids s ch r ids) a (\<lambda>_ a'. a' = a\<lparr>
      ca_pending := (ca_pending a)(r := filter (\<lambda>j. j \<notin> set ids) (ca_pending a r)),
      ca_sent := ca_sent a @ concat (map (chat_out s a r) ids)\<rparr>)"
  using assms
proof (induction ids arbitrary: a)
  case (Cons i ids)
  let ?a = "a\<lparr>ca_pending := (ca_pending a)(r := filter (\<lambda>j. j \<noteq> i) (ca_pending a r)), ca_sent := ca_sent a @ chat_out s a r i\<rparr>"
  have out: "chat_out s ?a = chat_out s a" and ok: "\<And>j. j \<in> set ids \<Longrightarrow> sendable s ?a r j"
    using Cons.prems by (simp_all add: chat_out_def sendable_def fun_eq_iff)
  have rest: "ensures live A (drain_ids s ch r ids) ?a (\<lambda>_ a'. a' = a\<lparr>
      ca_pending := (ca_pending a)(r := filter (\<lambda>j. j \<notin> set (i # ids)) (ca_pending a r)),
      ca_sent := ca_sent a @ concat (map (chat_out s a r) (i # ids))\<rparr>)"
  proof (rule ensures_mono, rule Cons.IH, erule ok, goal_cases)
    case (1 x a')
    have "filter (\<lambda>j. j \<notin> set ids) (filter (\<lambda>j. j \<noteq> i) l) = filter (\<lambda>j. j \<notin> set (i # ids)) l" for l
      by (simp add: conj_commute)
    with 1 [unfolded out] show ?case by (simp add: fun_upd_def cong: if_cong del: filter_filter)
  qed
  have gone: "ensures live A (do { _ \<leftarrow> RemovePending ch r i; State_Monad.return () }) b (\<lambda>_ a'. a' = ?a)"
    if "b = a\<lparr>ca_sent := ca_sent a @ chat_out s a r i\<rparr>" for b
    by (rule ensures_step [OF remove_pending]) (simp add: that, rule ensures_return, simp)
  show ?case
    unfolding drain_ids.simps
  proof (rule ensures_step [OF get_payload], goal_cases)
    case (1 x a1)
    then have a1: "a1 = a" and x: "case ca_payload a r i of None \<Rightarrow> \<exists>e. x = Inl e | Some p \<Rightarrow> x = Inr p" by simp_all
    show ?case
      unfolding a1
    proof (rule ensures_step [where R = "\<lambda>_ a'. a' = ?a"], goal_cases)
      case 1
      show ?case
      proof (cases x)
        case (Inl e)
        with x have "chat_out s a r i = []" by (auto simp: chat_out_def split: option.splits)
        then show ?thesis unfolding Inl sum.case by (intro gone) simp
      next
        case (Inr p)
        with x have p: "ca_payload a r i = Some p" by (auto split: option.splits)
        show ?thesis
          unfolding Inr sum.case
        proof (rule ensures_if, goal_cases)
          case 1
          then show ?case by (intro gone) (simp add: chat_out_def p)
        next
          case 2
          note blank = 2
          show ?case
          proof (rule ensures_sum, goal_cases)
            case (1 e)
            then show ?case by (intro gone) (simp add: chat_out_def p)
          next
            case (2 w)
            with Cons.prems [of i] p obtain q where q: "marshalChat (sv_rt s) (w\<lparr>cm_StreamID := i\<rparr>) = Inr q"
              "\<not> cl_MaxPayloadBytes (sv_chat s) < int (length q)" by (fastforce simp: sendable_def)
            with 2 blank have out: "chat_out s a r i = [(r, PubRaw q)]" by (simp add: chat_out_def p)
            show ?case
              unfolding q(1) sum.case if_not_P [OF q(2)]
              by (rule ensures_step [OF publishAblyChat_spec]) (use gone [OF refl] in \<open>simp add: out\<close>)
          qed
        qed
      qed
    next
      case (2 y a2)
      show ?case unfolding 2 by (rule rest)
    qed
  qed
qed (auto intro: ensures_return)

end

text \<open>What a pass may do: take entries off the front of the queues, after publishing what they hold.\<close>

definition progress :: "'w Service \<Rightarrow> chat_abs \<Rightarrow> chat_abs \<Rightarrow> bool" where
  "progress s a a' \<longleftrightarrow> ca_payload a' = ca_payload a \<and> set (ca_sent a) \<subseteq> set (ca_sent a') \<and>
     (\<forall>r. \<exists>k. ca_pending a' r = drop k (ca_pending a r) \<and>
        (\<forall>i \<in> set (take k (ca_pending a r)). set (chat_out s a r i) \<subseteq> set (ca_sent a')))"

lemma progress_out: "progress s a a' \<Longrightarrow> chat_out s a' = chat_out s a"
  by (simp add: progress_def chat_out_def fun_eq_iff)

lemma progress_deliverable: "progress s a a' \<Longrightarrow> deliverable s a \<Longrightarrow> deliverable s a'"
  unfolding progress_def deliverable_def sendable_def by (metis in_set_dropD)

lemma progress_refl: "progress s a a"
  by (auto simp: progress_def intro: exI [of _ 0])

lemma progress_trans:
  assumes "progress s a b" and "progress s b c"
  shows "progress s a c"
proof -
  have "\<exists>k. ca_pending c r = drop k (ca_pending a r) \<and>
      (\<forall>i \<in> set (take k (ca_pending a r)). set (chat_out s a r i) \<subseteq> set (ca_sent c))" for r
  proof -
    from assms obtain k l where k: "ca_pending b r = drop k (ca_pending a r)"
        "\<forall>i \<in> set (take k (ca_pending a r)). set (chat_out s a r i) \<subseteq> set (ca_sent b)"
      and l: "ca_pending c r = drop l (ca_pending b r)"
        "\<forall>i \<in> set (take l (ca_pending b r)). set (chat_out s b r i) \<subseteq> set (ca_sent c)"
      unfolding progress_def by meson
    have "set (ca_sent b) \<subseteq> set (ca_sent c)" using assms(2) by (simp add: progress_def)
    with k l have "\<forall>i \<in> set (take (k + l) (ca_pending a r)). set (chat_out s a r i) \<subseteq> set (ca_sent c)"
      by (auto simp: take_add progress_out [OF assms(1)])
    moreover have "ca_pending c r = drop (k + l) (ca_pending a r)" using k(1) l(1) by (simp add: add.commute)
    ultimately show ?thesis by blast
  qed
  with assms show ?thesis unfolding progress_def by auto
qed

lemma progress_length: "progress s a a' \<Longrightarrow> length (ca_pending a' r) \<le> length (ca_pending a r)"
  unfolding progress_def by (metis diff_le_self length_drop)

lemma drop_distinct: "distinct l \<Longrightarrow> filter (\<lambda>j. j \<notin> set (take n l)) l = drop n l"
proof -
  assume "distinct l"
  then have *: "distinct (take n l @ drop n l)" by simp
  then have "filter (\<lambda>j. j \<notin> set (take n l)) (take n l @ drop n l) = drop n l"
    unfolding filter_append distinct_append by (auto simp: filter_empty_conv intro!: filter_True)
  then show ?thesis by simp
qed

context chat_queue
begin

lemma drainRoomPending_spec:
  assumes "deliverable s a"
  shows "ensures live A (drainRoomPending s ch r) a (\<lambda>_ a'. progress s a a' \<and> length (ca_pending a' r) \<le> length (ca_pending a r) - 30)"
proof (rule ensures_live)
  fix w
  assume "live w" "A w = a"
  then have d: "distinct (ca_pending a r)" using distinct_pending by blast
  let ?ids = "take 30 (ca_pending a r)"
  show "ensures live A (drainRoomPending s ch r) a (\<lambda>_ a'. progress s a a' \<and> length (ca_pending a' r) \<le> length (ca_pending a r) - 30)"
    unfolding drainRoomPending_def
  proof (rule ensures_step [OF pending_ids], simp, goal_cases)
    case (1 x a1)
    then have x: "x = Inr ?ids" and a1: "a1 = a" by simp_all
    show ?case
      unfolding x a1 sum.case
    proof (rule ensures_if, goal_cases)
      case 1
      then show ?case by (intro ensures_return) (simp add: progress_refl min_def split: if_splits)
    next
      case 2
      have "progress s a (a\<lparr>ca_pending := (ca_pending a)(r := drop 30 (ca_pending a r)),
          ca_sent := ca_sent a @ concat (map (chat_out s a r) ?ids)\<rparr>)"
        unfolding progress_def by (auto intro: exI [of _ 30] exI [of _ 0])
      then show ?case
        by (intro ensures_step [OF drain_ids_spec] ensures_return)
          (use assms in \<open>auto simp: drop_distinct [OF d] deliverable_def dest: in_set_takeD\<close>)
    qed
  qed
qed

lemma drain_keys_spec:
  assumes "deliverable s a"
  shows "ensures live A (drain_keys s ch keys) a (\<lambda>_ a'. progress s a a' \<and>
    (\<forall>r. pending_key r \<in> set keys \<longrightarrow> length (ca_pending a' r) \<le> length (ca_pending a r) - 30))"
  using assms
proof (induction keys arbitrary: a)
  case Nil
  then show ?case by (auto simp: progress_refl intro!: ensures_return)
next
  case (Cons key keys)
  show ?case
  proof (cases key rule: pending_key_cases)
    case (1 r)
    note key = this
    have parse: "ParseRoomChatPendingKey key = (r, True)" unfolding key by (rule pending_key_parse)
    show ?thesis
      unfolding drain_keys.simps parse prod.case
    proof (simp only: simp_thms if_False, rule ensures_step [OF drainRoomPending_spec [OF Cons.prems]], goal_cases)
      case (1 x b)
      then have b: "progress s a b" "length (ca_pending b r) \<le> length (ca_pending a r) - 30" by simp_all
      have "deliverable s b" by (rule progress_deliverable [OF b(1) Cons.prems])
      from Cons.IH [OF this] show ?case
      proof (rule ensures_mono, goal_cases)
        case (1 y c)
        then have c: "progress s b c" by simp
        show ?case
        proof (intro conjI allI impI)
          show "progress s a c" by (rule progress_trans [OF b(1) c])
          fix r'
          assume "pending_key r' \<in> set (key # keys)"
          then consider "r' = r" | "pending_key r' \<in> set keys" by (auto simp: key)
          then show "length (ca_pending c r') \<le> length (ca_pending a r') - 30"
          proof cases
            case 1
            then show ?thesis using b(2) progress_length [OF c, of r] by simp
          next
            case 2
            with \<open>progress s b c \<and> _\<close> have "length (ca_pending c r') \<le> length (ca_pending b r') - 30" by blast
            then show ?thesis using progress_length [OF b(1), of r'] by linarith
          qed
        qed
      qed
    qed
  next
    case 2
    show ?thesis
      unfolding drain_keys.simps 2(1) prod.case simp_thms if_True
      by (rule ensures_mono [OF Cons.IH [OF Cons.prems]]) (use 2(2) in auto)
  qed
qed

lemma scan_spec:
  assumes "deliverable s a" and "pages c < fuel"
  shows "ensures live A (scan_pending fuel s ch c) a (\<lambda>x a'. x = Some None \<and> progress s a a' \<and>
    (\<forall>r \<in> seg c. length (ca_pending a' r) \<le> length (ca_pending a r) - 30))"
  using assms
proof (induction fuel arbitrary: a c)
  case (Suc fuel)
  show ?case
    unfolding scan_pending.simps
  proof (rule ensures_step [OF scan_page], goal_cases)
    case (1 x a1)
    then obtain keys nxt where x: "x = Inr (keys, nxt)" and a1: "a1 = a" and nxt: "nxt = 0 \<or> pages nxt < pages c"
      and keys: "\<And>r. r \<in> seg c - (if nxt = 0 then {} else seg nxt) \<Longrightarrow> ca_pending a r \<noteq> [] \<Longrightarrow> pending_key r \<in> set keys"
      unfolding pending_key_def by blast
    show ?case
      unfolding x a1 sum.case prod.case
    proof (rule ensures_step [OF drain_keys_spec [OF Suc.prems(1)]], goal_cases)
      case (1 y b)
      then have b: "progress s a b" and short: "\<And>r. pending_key r \<in> set keys \<Longrightarrow> length (ca_pending b r) \<le> length (ca_pending a r) - 30"
        by simp_all
      have here: "length (ca_pending b r) \<le> length (ca_pending a r) - 30" if "r \<in> seg c - (if nxt = 0 then {} else seg nxt)" for r
        using keys [OF that] short progress_length [OF b, of r] by (cases "ca_pending a r = []") auto
      show ?case
      proof (rule ensures_if, goal_cases)
        case 1
        then show ?case using b here by (intro ensures_return) auto
      next
        case 2
        have ok: "deliverable s b" by (rule progress_deliverable [OF b Suc.prems(1)])
        have "pages nxt < fuel" using nxt 2 Suc.prems(2) by auto
        from Suc.IH [OF ok this] show ?case
        proof (rule ensures_mono, goal_cases)
          case (1 z d)
          then have d: "progress s b d" "\<And>r. r \<in> seg nxt \<Longrightarrow> length (ca_pending d r) \<le> length (ca_pending b r) - 30" by simp_all
          have "length (ca_pending d r) \<le> length (ca_pending a r) - 30" if "r \<in> seg c" for r
          proof (cases "r \<in> seg nxt")
            case True
            then show ?thesis using d(2) [OF True] progress_length [OF b, of r] by linarith
          next
            case False
            then show ?thesis using here [of r] that 2 progress_length [OF d(1), of r] by simp
          qed
          with 1 progress_trans [OF b d(1)] show ?case by simp
        qed
      qed
    qed
  qed
qed simp

lemma pass_spec:
  assumes "deliverable s a" and "pages 0 < fuel"
  shows "ensures live A (ProcessGlobalChatPending fuel s) a (\<lambda>x a'. x = Some None \<and> progress s a a' \<and>
    (\<forall>r. length (ca_pending a' r) \<le> length (ca_pending a r) - 30))"
  unfolding ProcessGlobalChatPending_def service option.case
  by (rule ensures_mono [OF scan_spec [OF assms]]) (simp add: scan_all)

end

text \<open>Passes one after the other, as the cleanup job of the server runs them.\<close>

fun redeliver :: "nat \<Rightarrow> 'w Service \<Rightarrow> nat \<Rightarrow> ('w, bool) io" where
  "redeliver fuel s 0 = State_Monad.return True"
| "redeliver fuel s (Suc n) = do {
     x \<leftarrow> ProcessGlobalChatPending fuel s;
     ok \<leftarrow> redeliver fuel s n;
     State_Monad.return (x = Some None \<and> ok)
   }"

context chat_queue
begin

lemma redeliver_spec:
  assumes "deliverable s a" and "pages 0 < fuel" and "\<And>r. length (ca_pending a r) \<le> 30 * n"
  shows "ensures live A (redeliver fuel s n) a (\<lambda>ok a'. ok \<and> progress s a a' \<and> (\<forall>r. ca_pending a' r = []))"
  using assms(1,3)
proof (induction n arbitrary: a)
  case 0
  then show ?case by (auto simp: progress_refl intro!: ensures_return)
next
  case (Suc n)
  show ?case
    unfolding redeliver.simps
  proof (rule ensures_step [OF pass_spec [OF Suc.prems(1) assms(2)]], goal_cases)
    case (1 x b)
    then have x: "x = Some None" and b: "progress s a b" "\<And>r. length (ca_pending b r) \<le> length (ca_pending a r) - 30" by simp_all
    have ok: "deliverable s b" by (rule progress_deliverable [OF b(1) Suc.prems(1)])
    have "length (ca_pending b r) \<le> 30 * n" for r using b(2) [of r] Suc.prems(2) [of r] by simp
    note IH = Suc.IH [OF ok this]
    show ?case
      by (rule ensures_step [OF IH]) (auto simp: x intro!: ensures_return progress_trans [OF b(1)])
  qed
qed

text \<open>With the queue empty, everything that waited has been published.\<close>

lemma redeliver_sends:
  assumes "deliverable s a" and "pages 0 < fuel" and "\<And>r. length (ca_pending a r) \<le> 30 * n"
  shows "ensures live A (redeliver fuel s n) a (\<lambda>ok a'. ok \<and> (\<forall>r. ca_pending a' r = []) \<and>
    (\<forall>r. \<forall>i \<in> set (ca_pending a r). set (chat_out s a r i) \<subseteq> set (ca_sent a')))"
proof (rule ensures_mono [OF redeliver_spec [OF assms]], goal_cases)
  case (1 ok a')
  then have "progress s a a'" and empty: "\<And>r. ca_pending a' r = []" by simp_all
  then have "\<exists>k. [] = drop k (ca_pending a r) \<and> (\<forall>i \<in> set (take k (ca_pending a r)). set (chat_out s a r i) \<subseteq> set (ca_sent a'))" for r
    unfolding progress_def by metis
  then have "\<forall>i \<in> set (ca_pending a r). set (chat_out s a r i) \<subseteq> set (ca_sent a')" for r
    by (metis drop_eq_Nil take_all_iff)
  with 1 show ?case by simp
qed

end

end
