(* ===== verification/Redis_Chat.thy ===== *)
theory Redis_Chat
  imports Redis_Presence Redis_Codes Chat_Queue
begin

text \<open>
  The room chat on Redis: appending to the stream and reading it back, and the redelivery of pending messages over the
  Redis queue.
\<close>

section \<open>Streams\<close>

type_synonym stream = "(string \<times> (string \<times> string) list) list"

definition stream_at :: "view \<Rightarrow> string \<Rightarrow> stream" where
  "stream_at V k = (case V k of Some (RStream es) \<Rightarrow> es | _ \<Rightarrow> [])"

definition stream_ok :: "view \<Rightarrow> string \<Rightarrow> bool" where
  "stream_ok V k \<longleftrightarrow> (case V k of None \<Rightarrow> True | Some (RStream es) \<Rightarrow> True | Some _ \<Rightarrow> False)"

definition put_stream :: "string \<Rightarrow> stream \<Rightarrow> view \<Rightarrow> view" where
  "put_stream k es V = V(k \<mapsto> RStream es)"

lemma stream_at_put [simp]: "stream_at (put_stream k es V) k = es" "stream_ok (put_stream k es V) k"
  by (simp_all add: stream_at_def stream_ok_def put_stream_def)

lemma exec_streams:
  assumes "stream_ok V k"
  shows "execs now V (XREVRANGE k [] n) (Entries (take (nat n) (rev (stream_at V k)))) V"
    and "stream_id i = Some x \<Longrightarrow> execs now V (XRANGE k i) (Entries (filter (\<lambda>e. id_of e = x) (stream_at V k))) V"
  using assms by (auto simp: execs_def determined_def redis_exec_def with_stream_def stream_ok_def stream_at_def Let_def
      split: option.splits rvalue.splits)

lemma xadd_view:
  assumes "stream_ok V k" and "rget now db = V"
  defines "i \<equiv> id_text (next_id now (stream_at V k))"
  shows "fst (xadd now k fs j db) = Bulk i"
    and "rget now (snd (xadd now k fs j db)) = put_stream k (drop j (stream_at V k @ [(i, fs)])) V"
    and "stream_len now k db = length (stream_at V k)"
  using assms by (auto simp: xadd_def with_stream_def stream_ok_def stream_at_def stream_len_def put_stream_def Let_def
      split: option.splits rvalue.splits)

text \<open>Identifiers: their text determines them, and the entries of a stream stand in increasing order.\<close>

lemma SplitByte_none: "c \<notin> set s \<Longrightarrow> SplitByte c s = [s]"
  by (induction s) auto

lemma SplitByte_sep: "c \<notin> set s \<Longrightarrow> SplitByte c (s @ c # t) = s # SplitByte c t"
  by (induction s) auto

lemma FormatInt_digits: "0 \<le> n \<Longrightarrow> list_all is_digit (FormatInt n)"
  using nat_digits_ok [of "nat n" "Suc (nat n)"] by (simp add: FormatInt_def del: nat_digits.simps)

lemma stream_id_text:
  assumes "0 \<le> m" and "is_int64 m" and "0 \<le> q" and "is_int64 q"
  shows "stream_id (id_text (m, q)) = Some (m, q)"
proof -
  have "CHR ''-'' \<notin> set (FormatInt n)" if "0 \<le> n" for n
    using FormatInt_digits [OF that] by (auto simp: list_all_iff is_digit_def byte_def)
  then show ?thesis using assms by (simp add: stream_id_def id_text_def SplitByte_sep SplitByte_none)
qed

definition ordered :: "stream \<Rightarrow> bool" where
  "ordered es \<longleftrightarrow> sorted_wrt id_less (map id_of es) \<and>
     (\<forall>e \<in> set es. 0 \<le> fst (id_of e) \<and> 0 \<le> snd (id_of e) \<and> is_int64 (fst (id_of e)) \<and> is_int64 (snd (id_of e) + 1))"

lemma next_id_larger:
  assumes "ordered es" and "e \<in> set es"
  shows "id_less (id_of e) (next_id now es)"
proof -
  have "e = last es \<or> id_less (id_of e) (id_of (last es))"
  proof -
    have "es = butlast es @ [last es]" using assms(2) by (metis append_butlast_last_id empty_iff empty_set)
    then have "sorted_wrt id_less (map id_of (butlast es @ [last es]))" "e \<in> set (butlast es @ [last es])"
      using assms by (metis ordered_def)+
    then show ?thesis by (auto simp: sorted_wrt_append)
  qed
  then show ?thesis using assms(2) by (auto simp: next_id_def id_less_def Let_def split: prod.splits if_splits)
qed

lemma next_id_range:
  assumes "ordered es" and "0 \<le> UnixMilli now" and "is_int64 (UnixMilli now)"
  obtains m q where "next_id now es = (m, q)" and "0 \<le> m" and "is_int64 m" and "0 \<le> q" and "is_int64 q"
proof (cases "es = []")
  case True
  then show ?thesis using that [of "UnixMilli now" 0] assms by (simp add: next_id_def is_int64_def minInt64_def maxInt64_def)
next
  case False
  then have "last es \<in> set es" by simp
  with assms(1) have *: "0 \<le> fst (id_of (last es))" "0 \<le> snd (id_of (last es))" "is_int64 (fst (id_of (last es)))"
    "is_int64 (snd (id_of (last es)) + 1)" by (auto simp: ordered_def)
  obtain m q where last: "id_of (last es) = (m, q)" by (cases "id_of (last es)")
  show ?thesis
  proof (cases "m < UnixMilli now")
    case True
    then show ?thesis using that [of "UnixMilli now" 0] last False assms(2,3) by (simp add: next_id_def one_int64)
  next
    case m: False
    have "is_int64 (q + 1)" "0 \<le> q + 1" using * last by simp_all
    then show ?thesis using that [of m "q + 1"] last False m * by (simp add: next_id_def)
  qed
qed

section \<open>Appending and reading back\<close>

definition append_and_read ::
  "'w Redis \<Rightarrow> string \<Rightarrow> int \<Rightarrow> string \<Rightarrow> int \<Rightarrow> int \<Rightarrow> ('w, error + (string \<times> (error + string) \<times> (error + RoomChatMessage list))) io" where
  "append_and_read rd roomID seq payload maxLen limit = do {
     x \<leftarrow> rc_AppendMessage rd roomID seq payload maxLen;
     case x of
       Inl e \<Rightarrow> State_Monad.return (Inl e)
     | Inr sid \<Rightarrow> do {
         p \<leftarrow> rc_GetPayload rd roomID sid;
         l \<leftarrow> rc_ListMessagesRev rd roomID [] limit;
         State_Monad.return (Inr (sid, p, l))
       }
   }"

lemma rc_GetPayload_stream:
  assumes "redis_server rd clk A live" and "sees now V b" and "stream_ok V (chatStreamKey roomID)" and "stream_id sid = Some i"
    and "filter (\<lambda>e. id_of e = i) (stream_at V (chatStreamKey roomID)) = [(sid, fs)]"
  shows "ensures live A (rc_GetPayload rd roomID sid) b (\<lambda>x b'. x = Inr (field_of ''payload'' fs) \<and> sees now V b')"
proof -
  have XRANGE: "execs now V (XRANGE (chatStreamKey roomID) sid) (Entries [(sid, fs)]) V"
    using exec_streams(2) [OF assms(3,4)] by (simp only: assms(5))
  show ?thesis
    unfolding rc_GetPayload_def
    by (rule redis_server.do_as_then [OF assms(1,2) XRANGE], rule ensures_return) (simp add: reply_as_def the_entries_def)
qed

lemma rc_ListMessagesRev_stream:
  assumes "redis_server rd clk A live" and "sees now V b" and "stream_ok V (chatStreamKey roomID)" and "0 < limit" and "limit \<le> 200"
  shows "ensures live A (rc_ListMessagesRev rd roomID [] limit) b
    (\<lambda>x b'. x = Inr (map chat_entry (take (nat limit) (rev (stream_at V (chatStreamKey roomID))))))"
proof -
  have lim: "(if limit \<le> 0 then 50 else limit) = limit" "(if 200 < limit then 200 else limit) = limit" using assms(4,5) by simp_all
  show ?thesis
    unfolding rc_ListMessagesRev_def lim Let_def TrimSpace_Nil simp_thms if_True
    by (rule redis_server.do_as_then [OF assms(1,2) exec_streams(1) [OF assms(3)]], rule ensures_return)
      (simp add: reply_as_def the_entries_def)
qed

text \<open>
  \<open>trimmed n es kept\<close>: \<open>kept\<close> is what a stream of the entries \<open>es\<close> may still hold of them after an append with \<open>MAXLEN ~ n\<close>:
  the newest ones, at least \<open>n - 1\<close> of them if there are so many, and all of them if \<open>n\<close> is not positive.
\<close>

definition trimmed :: "int \<Rightarrow> 'a list \<Rightarrow> 'a list \<Rightarrow> bool" where
  "trimmed n es kept \<longleftrightarrow> (\<exists>j. kept = drop j es \<and> (if 0 < n then j \<le> length es - (nat n - 1) else j = 0))"

lemma trimmed_drop:
  assumes "may_trim (if n > 0 then n else 0) approx (Suc (length es)) j"
  shows "trimmed n es (drop j es)" and "drop j (es @ [e]) = drop j es @ [e]"
  using assms by (auto simp: may_trim_def trimmed_def split: if_splits)

lemma rc_AppendMessage_stream:
  fixes seq :: int and payload :: string
  assumes "redis_server rd clk A live" and "sees now V a" and "stream_ok V (chatStreamKey roomID)"
    and "stream_at V (chatStreamKey roomID) = es"
  shows "ensures live A (rc_AppendMessage rd roomID seq payload maxLen) a (\<lambda>x a'. x = Inr (id_text (next_id now es)) \<and>
    (\<exists>kept. trimmed maxLen es kept \<and> sees now (put_stream (chatStreamKey roomID)
       (kept @ [(id_text (next_id now es), [(''seq'', FormatInt seq), (''payload'', payload)])]) V) a'))"
proof -
  let ?fs = "[(''seq'', FormatInt seq), (''payload'', payload)]"
  from assms(2) have a: "ra_now a = now" "rget now (ra_db a) = V" by (simp_all add: sees_def)
  note view = xadd_view [OF assms(3) a(2), unfolded assms(4)]
  show ?thesis
    unfolding rc_AppendMessage_def do_as_def
  proof (rule ensures_step [OF redis_server.xadd_law [OF assms(1)]], goal_cases)
    case (1 x b)
    then obtain j where j: "may_trim (if maxLen > 0 then maxLen else 0) (maxLen > 0) (Suc (length es)) j"
      and x: "x = Inr (Bulk (id_text (next_id now es)))" and b: "b = a\<lparr>ra_db := snd (xadd now (chatStreamKey roomID) ?fs j (ra_db a))\<rparr>"
      by (auto simp: a(1) view)
    from trimmed_drop [OF j] view(2) [of ?fs j] a show ?case
      by (intro ensures_return) (auto simp: x b reply_as_def the_bulk_def sees_def)
  qed
qed

text \<open>
  C28: a chat message reads back: on a healthy server, a message that is appended to the stream of a room is found under the
  identifier that the append returned, and a listing shows it first, followed by the earlier messages that the
  stream still holds, the newest of them first.  These are the newest ones; how many the approximate trimming keeps is up to
  the server, but it keeps at least as many as the configured length allows beside the new message.
\<close>

theorem chat_roundtrip:
  assumes "redis_server rd clk A live" and "sees now V a" and "stream_ok V (chatStreamKey roomID)"
    and "stream_at V (chatStreamKey roomID) = es" and "ordered es" and "0 \<le> UnixMilli now" and "is_int64 (UnixMilli now)"
    and "is_int64 seq" and "0 < limit" and "limit \<le> 200"
  shows "ensures live A (append_and_read rd roomID seq payload maxLen limit) a (\<lambda>x a'. \<exists>sid kept. trimmed maxLen es kept \<and>
     x = Inr (sid, Inr payload, Inr (take (nat limit)
       (\<lparr>rc_StreamID = sid, rc_Seq = seq, rc_Payload = payload\<rparr> # map chat_entry (rev kept)))))"
proof -
  let ?k = "chatStreamKey roomID" and ?id = "id_text (next_id now es)"
  let ?fs = "[(''seq'', FormatInt seq), (''payload'', payload)]"
  let ?V = "\<lambda>kept. put_stream ?k (kept @ [(?id, ?fs)]) V"
  obtain m q where nid: "next_id now es = (m, q)" and mq: "stream_id ?id = Some (m, q)"
    using next_id_range [OF assms(5-7)] stream_id_text by metis
  have "id_of e \<noteq> (m, q)" if "e \<in> set kept" "trimmed maxLen es kept" for e kept
  proof -
    have "e \<in> set es" using that by (auto simp: trimmed_def dest: in_set_dropD)
    from next_id_larger [OF assms(5) this, of now] show ?thesis by (cases "id_of e") (auto simp: nid id_less_def)
  qed
  then have found: "filter (\<lambda>e. id_of e = (m, q)) (kept @ [(?id, ?fs)]) = [(?id, ?fs)]" if "trimmed maxLen es kept" for kept
    using mq that by (auto simp: id_of_def filter_empty_conv)
  have new: "chat_entry (?id, ?fs) = \<lparr>rc_StreamID = ?id, rc_Seq = seq, rc_Payload = payload\<rparr>"
    using assms(8) by (simp add: chat_entry_def field_of_def)
  have ok: "stream_ok (?V kept) ?k" and at: "stream_at (?V kept) ?k = kept @ [(?id, ?fs)]" for kept by simp_all
  have get: "ensures live A (rc_GetPayload rd roomID ?id) b (\<lambda>x b'. x = Inr payload \<and> sees now (?V kept) b')"
    if "sees now (?V kept) b" "trimmed maxLen es kept" for b kept
    using rc_GetPayload_stream [OF assms(1) that(1) ok mq] found [OF that(2)] by (simp add: at field_of_def)
  have list: "ensures live A (rc_ListMessagesRev rd roomID [] limit) b
      (\<lambda>x b'. x = Inr (map chat_entry (take (nat limit) (rev (kept @ [(?id, ?fs)])))))" if "sees now (?V kept) b" for b kept
    using rc_ListMessagesRev_stream [OF assms(1) that ok assms(9,10)] by (simp only: at)
  show ?thesis
    unfolding append_and_read_def
  proof (rule ensures_step [OF rc_AppendMessage_stream [OF assms(1-4)]], elim conjE exE, goal_cases)
    case (1 x b kept)
    then have x: "x = Inr ?id" and kept: "trimmed maxLen es kept" by simp_all
    show ?case
      unfolding x sum.case
    proof (rule ensures_step [OF get [OF 1(3) kept]], goal_cases)
      case (1 p c)
      then have p: "p = Inr payload" and c: "sees now (?V kept) c" by simp_all
      show ?case
        unfolding p
        by (rule ensures_step [OF list [OF c]], rule ensures_return) (use kept in \<open>auto simp: new simp flip: take_map\<close>)
    qed
  qed
qed

text \<open>A simulated world that starts in 1970, with delays of its clock.\<close>

definition sim_epoch :: RedisWorld where
  "sim_epoch = \<lparr>rw_db = [], rw_now = 62135596800 * Second, rw_delays = [], rw_sent = []\<rparr>"

theorem chat_roundtrip_witness:
  "\<exists>sid. fst (run_state (append_and_read sim_redis ''r'' 7 ''hello'' 100 50) sim_epoch) =
     Inr (sid, Inr ''hello'', Inr [\<lparr>rc_StreamID = sid, rc_Seq = 7, rc_Payload = ''hello''\<rparr>])"
proof -
  have "sees (62135596800 * Second) Map.empty (sim_abs sim_epoch)"
    by (simp add: sees_def sim_abs_def sim_epoch_def rget_def fun_eq_iff)
  then have "ensures (\<lambda>_. True) sim_abs (append_and_read sim_redis ''r'' 7 ''hello'' 100 50) (sim_abs sim_epoch) (\<lambda>x a'. \<exists>sid kept.
     trimmed 100 ([] :: stream) kept \<and>
     x = Inr (sid, Inr ''hello'', Inr (take (nat 50) (\<lparr>rc_StreamID = sid, rc_Seq = 7, rc_Payload = ''hello''\<rparr> # map chat_entry (rev kept)))))"
    by (rule chat_roundtrip [OF sim.redis_server_axioms])
      (simp_all add: stream_ok_def stream_at_def ordered_def UnixMilli_def is_int64_def minInt64_def maxInt64_def Second_def)
  from ensuresD [OF this TrueI] show ?thesis by (auto simp: trimmed_def)
qed

section \<open>Redelivery\<close>

text \<open>The queue and the stream of a room; neither key has an expiry.\<close>

definition queue_of :: "rdb \<Rightarrow> string \<Rightarrow> (string, int) gomap" where
  "queue_of db r = (case map_of db (chatPendingKey r) of Some (RZSet z, None) \<Rightarrow> z | _ \<Rightarrow> [])"

definition stream_of :: "rdb \<Rightarrow> string \<Rightarrow> stream" where
  "stream_of db r = (case map_of db (chatStreamKey r) of Some (RStream es, None) \<Rightarrow> es | _ \<Rightarrow> [])"

definition chat_ok :: "rdb \<Rightarrow> string \<Rightarrow> bool" where
  "chat_ok db r \<longleftrightarrow>
     (map_of db (chatPendingKey r) = None \<or> (\<exists>z. map_of db (chatPendingKey r) = Some (RZSet z, None) \<and> z \<noteq> [] \<and> wf_map z)) \<and>
     (map_of db (chatStreamKey r) = None \<or> (\<exists>es. map_of db (chatStreamKey r) = Some (RStream es, None)))"

definition payload_of :: "stream \<Rightarrow> string \<Rightarrow> string option" where
  "payload_of es i =
     (case stream_id i of
        None \<Rightarrow> None
      | Some x \<Rightarrow> (case filter (\<lambda>e. id_of e = x) es of [] \<Rightarrow> None | e # _ \<Rightarrow> Some (field_of ''payload'' (snd e))))"

definition chat_view :: "rdb \<Rightarrow> (string \<times> pub_data) list \<Rightarrow> chat_abs" where
  "chat_view db sent = \<lparr>ca_pending = \<lambda>r. map fst (queue_of db r), ca_payload = \<lambda>r. payload_of (stream_of db r), ca_sent = sent\<rparr>"

definition chat_live :: "rdb \<Rightarrow> bool" where
  "chat_live db \<longleftrightarrow> (\<forall>r. chat_ok db r)"

lemma chat_keys [simp]:
  "chatPendingKey r = chatPendingKey r' \<longleftrightarrow> r = r'" "chatStreamKey r = chatStreamKey r' \<longleftrightarrow> r = r'"
  "chatPendingKey r \<noteq> chatStreamKey r'" "chatStreamKey r \<noteq> chatPendingKey r'"
  by (simp_all add: chatPendingKey_def chatStreamKey_def roomChatPendingPrefix_def)

lemma chat_ok_queue:
  assumes "chat_ok db r"
  shows "wf_map (queue_of db r)"
    and "rget now db (chatPendingKey r) = (if queue_of db r = [] then None else Some (RZSet (queue_of db r)))"
    and "rttl now db (chatPendingKey r) = None"
  using assms by (auto simp: chat_ok_def queue_of_def rget_def rttl_def)

lemma chat_ok_stream:
  assumes "chat_ok db r"
  shows "stream_ok (rget now db) (chatStreamKey r)" and "stream_at (rget now db) (chatStreamKey r) = stream_of db r"
  using assms by (auto simp: chat_ok_def stream_ok_def stream_at_def stream_of_def rget_def)

lemma exec_queue:
  assumes "chat_ok db r"
  shows "0 < n \<Longrightarrow> redis_exec now (ZRANGE (chatPendingKey r) 0 (n - 1)) db = (Strings (take (nat n) (map fst (queue_of db r))), db)"
    and "redis_exec now (ZREM (chatPendingKey r) i) db = (Count (if map_of (queue_of db r) i = None then 0 else 1),
       if mdelete i (queue_of db r) = [] then mdelete (chatPendingKey r) db
       else mput (chatPendingKey r) (RZSet (mdelete i (queue_of db r)), None) db)"
  using chat_ok_queue [OF assms]
  by (auto simp: redis_exec_def with_zset_def rput_coll_def rput_def split: option.splits)

lemma exec_payload:
  assumes "chat_ok db r"
  shows "redis_exec now (XRANGE (chatStreamKey r) i) db =
    (case stream_id i of None \<Rightarrow> (Failure ''ERR Invalid stream ID specified as stream command argument'', db)
     | Some x \<Rightarrow> (Entries (filter (\<lambda>e. id_of e = x) (stream_of db r)), db))"
  using chat_ok_stream [OF assms, of now]
  by (auto simp: redis_exec_def with_stream_def stream_ok_def stream_at_def split: option.splits rvalue.splits)

lemma keys_mdelete: "map fst (mdelete i z) = filter (\<lambda>j. j \<noteq> i) (map fst z)"
  by (induction z) auto

lemma queue_after:
  "queue_of (if z = [] then mdelete (chatPendingKey r) db else mput (chatPendingKey r) (RZSet z, None) db) r' =
     (if r' = r then z else queue_of db r')"
  "stream_of (if z = [] then mdelete (chatPendingKey r) db else mput (chatPendingKey r) (RZSet z, None) db) r' = stream_of db r'"
  "wf_map z \<Longrightarrow> chat_ok db r' \<Longrightarrow> chat_ok (if z = [] then mdelete (chatPendingKey r) db else mput (chatPendingKey r) (RZSet z, None) db) r'"
  by (auto simp: queue_of_def stream_of_def chat_ok_def update_conv' delete_conv')

text \<open>
  The room service on Redis: \<open>S\<close> are the messages that the publisher has been given.  Requests to Redis send no message, the
  publisher accepts every message and, like the clock and the deadline of the context, leaves the database alone; the
  deadline is not reached.
\<close>

locale redis_chat = redis_scan rd clk A live seg pages
  for rd :: "'w Redis" and clk :: "('w, gotime) io" and A :: "'w \<Rightarrow> redis_abs" and live :: "'w \<Rightarrow> bool"
    and seg :: "int \<Rightarrow> string set" and pages :: "int \<Rightarrow> nat" +
  fixes s :: "'w Service" and pub :: "'w Publisher" and S :: "'w \<Rightarrow> (string \<times> pub_data) list"
  assumes parts: "sv_roomChat s = Some (rc_chat rd clk)" "sv_publisher s = Some pub"
    and requests_send_nothing: "live w \<Longrightarrow> S (snd (run_state (rd_Do rd c) w)) = S w"
    and accepted: "live w \<Longrightarrow> run_state (PublishRoomMessage pub r MessageRoomChat d) w = (x, w') \<Longrightarrow>
      x = None \<and> live w' \<and> ra_db (A w') = ra_db (A w) \<and> S w' = S w @ [(r, d)]"
    and clock_reading: "live w \<Longrightarrow> run_state (sv_now s) w = (t, w') \<Longrightarrow> live w' \<and> ra_db (A w') = ra_db (A w) \<and> S w' = S w"
    and in_time: "live w \<Longrightarrow> run_state (rt_ctxErr (sv_rt s) t) w = (x, w') \<Longrightarrow>
      x = None \<and> live w' \<and> ra_db (A w') = ra_db (A w) \<and> S w' = S w"
begin

lemma do_run:
  assumes "determined c" and "live w" and "run_state (rd_Do rd c) w = (x, w')"
  shows "live w' \<and> x = Inr (fst (redis_exec (ra_now (A w)) c (ra_db (A w)))) \<and>
    ra_db (A w') = snd (redis_exec (ra_now (A w)) c (ra_db (A w))) \<and> S w' = S w"
  using ensuresD [OF do_law [OF assms(1)] assms(2)] requests_send_nothing [OF assms(2), of c] by (simp add: assms(3))

lemma do_run_fst_snd:
  assumes "determined c" and "live w"
  shows "fst (run_state (rd_Do rd c) w) = Inr (fst (redis_exec (ra_now (A w)) c (ra_db (A w))))"
    and "live (snd (run_state (rd_Do rd c) w))" and "S (snd (run_state (rd_Do rd c) w)) = S w"
    and "ra_db (A (snd (run_state (rd_Do rd c) w))) = snd (redis_exec (ra_now (A w)) c (ra_db (A w)))"
  using do_run [OF assms surjective_pairing] by simp_all

abbreviation cview :: "'w \<Rightarrow> chat_abs" where
  "cview w \<equiv> chat_view (ra_db (A w)) (S w)"

abbreviation clive :: "'w \<Rightarrow> bool" where
  "clive w \<equiv> live w \<and> chat_live (ra_db (A w))"

lemma queue_ids: "0 < n \<Longrightarrow> ensures clive cview (PendingStreamIDs (rc_chat rd clk) r n) a
    (\<lambda>x a'. a' = a \<and> x = Inr (take (nat n) (ca_pending a r)))"
  by (rule ensuresI)
    (auto simp: rc_chat_def rc_PendingStreamIDs_def Let_def do_as_def case_prod_beta do_run_fst_snd determined_def exec_queue
      chat_live_def chat_view_def reply_as_def the_strings_def)

lemma queue_payload: "ensures clive cview (GetPayload (rc_chat rd clk) r i) a
    (\<lambda>x a'. a' = a \<and> (case ca_payload a r i of None \<Rightarrow> \<exists>e. x = Inl e | Some p \<Rightarrow> x = Inr p))"
proof (rule ensuresI, goal_cases)
  case (1 w)
  then have ok: "chat_ok (ra_db (A w)) r" by (simp add: chat_live_def)
  have p: "ca_payload a r i = payload_of (stream_of (ra_db (A w)) r) i" using 1(2) by (auto simp: chat_view_def)
  obtain x w' where run: "run_state (rd_Do rd (XRANGE (chatStreamKey r) i)) w = (x, w')"
    by (cases "run_state (rd_Do rd (XRANGE (chatStreamKey r) i)) w")
  have det: "determined (XRANGE (chatStreamKey r) i)" by (simp add: determined_def)
  note r = do_run [OF det conjunct1 [OF 1(1)] run]
  have "run_state (rc_GetPayload rd r i) w =
      (case payload_of (stream_of (ra_db (A w)) r) i of
         Some p \<Rightarrow> Inr p
       | None \<Rightarrow> if stream_id i = None then Inl (OtherError ''ERR Invalid stream ID specified as stream command argument'') else Inl ErrRedisNil, w')"
    using r by (simp add: rc_GetPayload_def do_as_def run exec_payload [OF ok] reply_as_def the_entries_def payload_of_def
      split: option.split list.split)
  moreover have "ra_db (A w') = ra_db (A w)" using r by (simp add: exec_payload [OF ok] split: option.splits)
  ultimately show ?case using 1 r by (simp add: p rc_chat_def split: option.split)
qed

lemma queue_remove: "ensures clive cview (RemovePending (rc_chat rd clk) r i) a
    (\<lambda>x a'. a' = a\<lparr>ca_pending := (ca_pending a)(r := filter (\<lambda>j. j \<noteq> i) (ca_pending a r))\<rparr>)"
proof (rule ensuresI, goal_cases)
  case (1 w)
  then have ok: "chat_ok (ra_db (A w)) r'" for r' by (simp add: chat_live_def)
  have z: "wf_map (mdelete i (queue_of (ra_db (A w)) r))" using chat_ok_queue(1) [OF ok] by (rule distinct_delete)
  show ?case
    using 1 queue_after(3) [OF z ok]
    by (auto simp: rc_chat_def rc_RemovePending_def do_err_def case_prod_beta do_run_fst_snd determined_def exec_queue(2) [OF ok]
      chat_live_def chat_view_def queue_after(1,2) keys_mdelete fun_eq_iff simp del: fst_conv)
qed

lemma queue_scan: "ensures clive cview (ScanPendingRooms (rc_chat rd clk) c 40) a
    (\<lambda>x a'. a' = a \<and> (\<exists>keys nxt. x = Inr (keys, nxt) \<and> (nxt = 0 \<or> pages nxt < pages c) \<and>
       (\<forall>r. r \<in> {r. chatPendingKey r \<in> seg c} - (if nxt = 0 then {} else {r. chatPendingKey r \<in> seg nxt}) \<longrightarrow>
          ca_pending a r \<noteq> [] \<longrightarrow> pending_key r \<in> set keys)))"
proof (rule ensuresI, goal_cases)
  case (1 w)
  obtain x w' where run: "run_state (rd_Do rd (SCAN c roomChatPendingPrefix 40)) w = (x, w')"
    by (cases "run_state (rd_Do rd (SCAN c roomChatPendingPrefix 40)) w")
  from ensuresD [OF scan_law conjunct1 [OF 1(1)], of c roomChatPendingPrefix 40] run obtain keys nxt
    where w': "live w'" "A w' = A w" and x: "x = Inr (Cursor keys nxt)" and nxt: "nxt = 0 \<or> pages nxt < pages c"
      and keys: "\<forall>k \<in> seg c - (if nxt = 0 then {} else seg nxt).
        HasPrefix k roomChatPendingPrefix \<longrightarrow> rget (ra_now (A w)) (ra_db (A w)) k \<noteq> None \<longrightarrow> k \<in> set keys" by auto
  have sent: "S w' = S w" using requests_send_nothing [OF conjunct1 [OF 1(1)]] run by (metis snd_conv)
  have "pending_key r \<in> set keys"
    if "r \<in> {r. chatPendingKey r \<in> seg c} - (if nxt = 0 then {} else {r. chatPendingKey r \<in> seg nxt})" "ca_pending a r \<noteq> []" for r
  proof -
    have "queue_of (ra_db (A w)) r \<noteq> []" using that(2) 1(2) by (auto simp: chat_view_def)
    moreover have "chat_ok (ra_db (A w)) r" using 1(1) by (simp add: chat_live_def)
    ultimately have "rget (ra_now (A w)) (ra_db (A w)) (chatPendingKey r) \<noteq> None" using chat_ok_queue(2) by simp
    moreover have "HasPrefix (chatPendingKey r) roomChatPendingPrefix" unfolding chatPendingKey_def by (rule HasPrefix_append)
    moreover have "chatPendingKey r \<in> seg c - (if nxt = 0 then {} else seg nxt)" using that(1) by (auto split: if_splits)
    ultimately have "chatPendingKey r \<in> set keys" using keys by blast
    then show ?thesis unfolding pending_key_def chatPendingKey_def roomChatPendingPrefix_def .
  qed
  with 1 w' nxt show ?case
    by (auto simp: rc_chat_def rc_ScanPendingRooms_def do_as_def run x reply_as_def the_cursor_def sent)
qed

lemma queue_publish: "ensures clive cview (PublishRoomMessage pub r MessageRoomChat d) a
    (\<lambda>x a'. x = None \<and> a' = a\<lparr>ca_sent := ca_sent a @ [(r, d)]\<rparr>)"
proof (rule ensuresI, goal_cases)
  case (1 w)
  with accepted [OF conjunct1 [OF 1(1)] surjective_pairing, of r d] show ?case by (auto simp: chat_view_def)
qed

end

sublocale redis_chat \<subseteq> queue: chat_queue s "rc_chat rd clk" pub "\<lambda>w. chat_view (ra_db (A w)) (S w)"
  "\<lambda>w. live w \<and> chat_live (ra_db (A w))" pages "\<lambda>c. {r. chatPendingKey r \<in> seg c}"
proof (unfold_locales, goal_cases)
  case 1
  show ?case by (rule parts)
next
  case 2
  show ?case by (rule parts)
next
  case (3 w r)
  then show ?case by (simp add: chat_view_def chat_live_def chat_ok_queue(1))
next
  case (4 n r a)
  then show ?case by (rule queue_ids)
next
  case (5 r i a)
  show ?case by (rule queue_payload)
next
  case (6 r i a)
  show ?case by (rule queue_remove)
next
  case (7 c a)
  show ?case by (rule queue_scan)
next
  case 8
  show ?case by (simp add: scan_start)
next
  case (9 r d a)
  show ?case by (rule queue_publish)
next
  case (10 a)
  show ?case
  proof (rule ensuresI, goal_cases)
    case (1 w)
    with clock_reading [OF conjunct1 [OF 1(1)] surjective_pairing] show ?case by simp
  qed
next
  case (11 t a)
  show ?case
  proof (rule ensuresI, goal_cases)
    case (1 w)
    with in_time [OF conjunct1 [OF 1(1)] surjective_pairing, of t] show ?case by simp
  qed
qed

context redis_chat
begin

lemma sends_all:
  assumes "live w" and "chat_live (ra_db (A w))" and "deliverable s (chat_view (ra_db (A w)) (S w))"
    and "\<And>r. length (queue_of (ra_db (A w)) r) \<le> 30 * n" and "pages 0 < fuel" and "run_state (redeliver fuel s n) w = (ok, w')"
  shows "ok \<and> (\<forall>r. queue_of (ra_db (A w')) r = []) \<and>
    (\<forall>r. \<forall>i \<in> set (map fst (queue_of (ra_db (A w)) r)). set (chat_out s (chat_view (ra_db (A w)) (S w)) r i) \<subseteq> set (S w'))"
proof -
  have "length (ca_pending (chat_view (ra_db (A w)) (S w)) r) \<le> 30 * n" for r using assms(4) by (simp add: chat_view_def)
  from ensuresD [OF queue.redeliver_sends [OF assms(3,5) this]] assms(1,2,6) show ?thesis by (simp add: chat_view_def)
qed

end

text \<open>
  C26: redelivery succeeds in the end, on every Redis whose scans keep the documented guarantee, with any number of pages:
  when the publisher accepts what it is given, the deadline is not reached, and every waiting message can be sent, then with
  fuel for more than the pages of a scan \<open>n\<close> passes succeed and empty every queue of up to \<open>30 n\<close> entries, and everything that
  waited and still has a readable payload has been published with its stream identifier.
\<close>

theorem redelivery_succeeds:
  assumes "redis_chat rd clk A live seg pages s pub S" and "live w" and "chat_live (ra_db (A w))"
    and "deliverable s (chat_view (ra_db (A w)) (S w))"
    and "\<And>r. length (queue_of (ra_db (A w)) r) \<le> 30 * n" and "pages 0 < fuel" and "run_state (redeliver fuel s n) w = (ok, w')"
  shows "ok \<and> (\<forall>r. queue_of (ra_db (A w')) r = []) \<and>
    (\<forall>r. \<forall>i \<in> set (map fst (queue_of (ra_db (A w)) r)). set (chat_out s (chat_view (ra_db (A w)) (S w)) r i) \<subseteq> set (S w'))"
  using assms by (rule redis_chat.sends_all)

text \<open>The publisher and the runtime of the simulated world, and the service on top of it; the JSON encoders are arguments.\<close>

definition sim_pub :: "RedisWorld Publisher" where
  "sim_pub = \<lparr>PublishRoomMessage = \<lambda>r name d. State (\<lambda>w. (None, w\<lparr>rw_sent := rw_sent w @ [(r, name, d)]\<rparr>))\<rparr>"

definition sim_rt :: "(ChatMessage \<Rightarrow> error + string) \<Rightarrow> (string \<Rightarrow> error + ChatMessage) \<Rightarrow> RedisWorld Runtime" where
  "sim_rt m u = \<lparr>rt_ctxErr = \<lambda>_. State_Monad.return None, rt_wait = \<lambda>_ _. State_Monad.return None,
     rt_IntN = \<lambda>_. State_Monad.return 0, marshalChat = m, unmarshalChat = u\<rparr>"

definition sim_service ::
  "(RoomState \<Rightarrow> error + string) \<Rightarrow> (string \<Rightarrow> error + RoomState) \<Rightarrow> (ChatMessage \<Rightarrow> error + string) \<Rightarrow>
   (string \<Rightarrow> error + ChatMessage) \<Rightarrow> ChatLimits \<Rightarrow> RedisWorld Service" where
  "sim_service ms us m u limits =
     NewService sim_clock (sim_rt m u) (rc_states sim_redis sim_clock ms us) (Some (rc_presence sim_redis)) None
       (Some (rc_access sim_redis)) (Some sim_pub) (Some (rc_chat sim_redis sim_clock)) limits"

definition sim_published :: "RedisWorld \<Rightarrow> (string \<times> pub_data) list" where
  "sim_published w = map (\<lambda>(r, name, d). (r, d)) (rw_sent w)"

interpretation rq: redis_chat sim_redis sim_clock sim_abs "\<lambda>_. True" "\<lambda>c. {k. c \<le> slot k}" "\<lambda>c. nat (256 - c)"
  "sim_service ms us m u limits" sim_pub sim_published
  for ms us m u limits
proof (unfold_locales, goal_cases)
  case 1
  show ?case by (simp add: sim_service_def NewService_def)
next
  case 2
  show ?case by (simp add: sim_service_def NewService_def)
next
  case (3 w c)
  show ?case by (simp add: sim_redis_def sim_published_def case_prod_beta)
next
  case (4 w r d x w')
  then show ?case by (auto simp: sim_pub_def sim_published_def sim_abs_def)
next
  case (5 w t w')
  then show ?case by (auto simp: sim_service_def NewService_def sim_clock_def sim_published_def sim_abs_def split: list.splits)
next
  case (6 w t x w')
  then show ?case by (auto simp: sim_service_def NewService_def sim_rt_def)
qed

text \<open>Two rooms whose queues a scan visits on different pages.\<close>

definition sim_waiting :: RedisWorld where
  "sim_waiting = \<lparr>rw_db =
     [(chatPendingKey ''r'', RZSet [(''1-0'', 5)], None), (chatStreamKey ''r'', RStream [(''1-0'', [(''payload'', ''hi'')])], None),
      (chatPendingKey ''a'', RZSet [(''2-0'', 6)], None), (chatStreamKey ''a'', RStream [(''2-0'', [(''payload'', ''ho'')])], None)],
     rw_now = 62135596800 * Second, rw_delays = [], rw_sent = []\<rparr>"

definition sim_encode :: "ChatMessage \<Rightarrow> error + string" where
  "sim_encode m = Inr (cm_StreamID m @ '' '' @ cm_Text m)"

definition sim_decode :: "string \<Rightarrow> error + ChatMessage" where
  "sim_decode p = Inr \<lparr>cm_Type = ''chat'', cm_Seq = 1, cm_StreamID = [], cm_RoomID = ''r'', cm_User = HubUser0, cm_Text = p, cm_SentAt = 0\<rparr>"

definition sim_chat :: "RedisWorld Service" where
  "sim_chat = sim_service (\<lambda>_. Inr []) (\<lambda>_. Inl ErrNotFound) sim_encode sim_decode (ChatLimitsFromConfig Default)"

lemma sim_waiting_queues:
  "chat_live (ra_db (sim_abs sim_waiting))"
  "queue_of (ra_db (sim_abs sim_waiting)) r = (if r = ''r'' then [(''1-0'', 5)] else if r = ''a'' then [(''2-0'', 6)] else [])"
  by (auto simp: chat_live_def chat_ok_def queue_of_def sim_waiting_def sim_abs_def)

lemma sim_waiting_payloads:
  "ca_payload (chat_view (ra_db (sim_abs sim_waiting)) sent) ''r'' ''1-0'' = Some ''hi''"
  "ca_payload (chat_view (ra_db (sim_abs sim_waiting)) sent) ''a'' ''2-0'' = Some ''ho''"
proof -
  have "payload_of [(''1-0'', [(''payload'', ''hi'')])] ''1-0'' = Some ''hi''" "payload_of [(''2-0'', [(''payload'', ''ho'')])] ''2-0'' = Some ''ho''"
    by code_simp+
  then show "ca_payload (chat_view (ra_db (sim_abs sim_waiting)) sent) ''r'' ''1-0'' = Some ''hi''"
    "ca_payload (chat_view (ra_db (sim_abs sim_waiting)) sent) ''a'' ''2-0'' = Some ''ho''"
    by (simp_all add: chat_view_def stream_of_def sim_waiting_def sim_abs_def)
qed

lemma sim_chat_parts:
  "marshalChat (sv_rt sim_chat) = sim_encode" "unmarshalChat (sv_rt sim_chat) = sim_decode" "cl_MaxPayloadBytes (sv_chat sim_chat) = 61440"
proof -
  have "cl_MaxPayloadBytes (ChatLimitsFromConfig Default) = 61440" by code_simp
  then show "marshalChat (sv_rt sim_chat) = sim_encode" "unmarshalChat (sv_rt sim_chat) = sim_decode"
    "cl_MaxPayloadBytes (sv_chat sim_chat) = 61440"
    by (simp_all add: sim_chat_def sim_service_def NewService_def sim_rt_def)
qed

theorem redelivery_succeeds_witness:
  "slot (chatPendingKey ''r'') div 40 \<noteq> slot (chatPendingKey ''a'') div 40 \<and>
   (\<forall>r. queue_of (rw_db (snd (run_state (redeliver 257 sim_chat 1) sim_waiting))) r = []) \<and>
   {(''r'', PubRaw ''1-0 hi''), (''a'', PubRaw ''2-0 ho'')} \<subseteq> set (sim_published (snd (run_state (redeliver 257 sim_chat 1) sim_waiting)))"
proof -
  note facts = sim_waiting_queues(2) sim_waiting_payloads sim_chat_parts
  have slots: "slot (chatPendingKey ''r'') div 40 \<noteq> slot (chatPendingKey ''a'') div 40" by code_simp
  have trim: "TrimSpace ''hi'' = ''hi''" "TrimSpace ''ho'' = ''ho''" by code_simp+
  let ?v = "chat_view (ra_db (sim_abs sim_waiting)) (sim_published sim_waiting)"
  have out: "chat_out sim_chat ?v ''r'' ''1-0'' = [(''r'', PubRaw ''1-0 hi'')]" "chat_out sim_chat ?v ''a'' ''2-0'' = [(''a'', PubRaw ''2-0 ho'')]"
    by (simp_all add: chat_out_def facts trim sim_encode_def sim_decode_def)
  have pending: "ca_pending ?v r = map fst (queue_of (ra_db (sim_abs sim_waiting)) r)" for r by (simp add: chat_view_def)
  have del: "deliverable sim_chat ?v"
    unfolding deliverable_def pending by (auto simp: facts sendable_def sim_encode_def sim_decode_def split: if_splits)
  from redelivery_succeeds [OF rq.redis_chat_axioms TrueI sim_waiting_queues(1) del [unfolded sim_chat_def] _ _ surjective_pairing, of 1 257]
  have all: "(\<forall>r. queue_of (ra_db (sim_abs (snd (run_state (redeliver 257 sim_chat 1) sim_waiting)))) r = []) \<and>
    (\<forall>r. \<forall>i \<in> set (map fst (queue_of (ra_db (sim_abs sim_waiting)) r)).
       set (chat_out sim_chat ?v r i) \<subseteq> set (sim_published (snd (run_state (redeliver 257 sim_chat 1) sim_waiting))))"
    by (simp add: facts(1) sim_chat_def [symmetric])
  have "set (chat_out sim_chat ?v ''r'' ''1-0'') \<subseteq> set (sim_published (snd (run_state (redeliver 257 sim_chat 1) sim_waiting)))"
    "set (chat_out sim_chat ?v ''a'' ''2-0'') \<subseteq> set (sim_published (snd (run_state (redeliver 257 sim_chat 1) sim_waiting)))"
    by (rule bspec [OF spec [OF conjunct2 [OF all]]], simp add: facts(1))+
  with slots out conjunct1 [OF all] show ?thesis by (simp add: sim_abs_def)
qed

theorem redelivery_returns_witness:
  "fst (run_state (ProcessGlobalChatPending 300 sim_chat) sim_waiting) \<noteq> None"
proof -
  have "sv_roomChat sim_chat = Some (rc_chat sim_redis sim_clock)" by (simp add: sim_chat_def sim_service_def NewService_def)
  moreover have "case fst (run_state (ScanPendingRooms (rc_chat sim_redis sim_clock) c 40) w) of
      Inl _ \<Rightarrow> True | Inr (keys, nxt) \<Rightarrow> nxt = 0 \<or> nat (256 - nxt) < nat (256 - c)" for c w
  proof -
    obtain keys nxt where page: "scan_page (rw_now w) c roomChatPendingPrefix 40 (rw_db w) = (keys, nxt)"
      by (cases "scan_page (rw_now w) c roomChatPendingPrefix 40 (rw_db w)")
    from scan_page_complete(1) [OF page] show ?thesis
      by (simp add: rc_chat_def rc_ScanPendingRooms_def do_as_def sim_redis_def redis_exec_def page reply_as_def the_cursor_def)
  qed
  ultimately have "fst (run_state (ProcessGlobalChatPending 300 sim_chat) sim_waiting) \<noteq> None \<and>
      run_state (ProcessGlobalChatPending 300 sim_chat) sim_waiting = run_state (ProcessGlobalChatPending (Suc (nat (256 - 0))) sim_chat) sim_waiting"
    by (rule redelivery_returns [where pages = "\<lambda>c. nat (256 - c)"]) simp
  then show ?thesis ..
qed

end
