(* ===== verification/Postgres_Store.thy ===== *)
theory Postgres_Store
  imports Auth_Service Room_Interfaces Go_Text
begin

text \<open>
  The stores on PostgreSQL, \<^verbatim>\<open>internal/store/postgres/stores.go\<close>: the statements with their arguments, and what the
  code makes of rows, results and errors.  The driver and the database are not part of the repository; a database is a
  record of the three calls that the code makes, and an argument of every definition.
\<close>

section \<open>The database handle\<close>

datatype sqlval = VText string | VTime gotime | VInt int

type_synonym sqlrow = "sqlval list"

text \<open>
  \<open>db_QueryRow\<close> is \<open>QueryRowContext\<close>, whose error surfaces in \<open>Scan\<close>; \<open>db_Query\<close> returns the rows and \<open>rows.Err()\<close>;
  \<open>db_Exec\<close> returns a result whose \<open>RowsAffected\<close> may fail.
\<close>

record 'w SqlDB =
  db_QueryRow :: "string \<Rightarrow> sqlval list \<Rightarrow> ('w, error + sqlrow) io"
  db_Query :: "string \<Rightarrow> sqlval list \<Rightarrow> ('w, error + (sqlrow list \<times> error option)) io"
  db_Exec :: "string \<Rightarrow> sqlval list \<Rightarrow> ('w, error + (error + int)) io"

definition ErrNoRows :: error where
  "ErrNoRows = OtherError ''sql: no rows in result set''"

definition ErrScan :: error where
  "ErrScan = OtherError ''sql: Scan error''"

text \<open>\<open>time.Now().UTC().Truncate(time.Microsecond)\<close>\<close>

definition utcNow :: "('w, gotime) io \<Rightarrow> ('w, gotime) io" where
  "utcNow timeNow = do { t \<leftarrow> timeNow; State_Monad.return (t div 1000 * 1000) }"

definition wrapNotFound :: "error \<Rightarrow> error" where
  "wrapNotFound err = (if err = ErrNoRows then ErrNotFound else err)"

text \<open>\<open>unique\<close> recognises a \<open>PgError\<close> with code 23505; the wrapped error is \<open>ErrConflict\<close> for \<open>errors.Is\<close>.\<close>

definition wrapConstraint :: "(error \<Rightarrow> bool) \<Rightarrow> error option \<Rightarrow> error option" where
  "wrapConstraint unique e =
     (case e of None \<Rightarrow> None | Some err \<Rightarrow> if unique err then Some ErrConflict else Some err)"

definition requireRows :: "error + int \<Rightarrow> error option" where
  "requireRows res = (case res of Inl err \<Rightarrow> Some err | Inr rows \<Rightarrow> if rows = 0 then Some ErrNotFound else None)"

definition normalizePage :: "int \<Rightarrow> int \<Rightarrow> int \<times> int" where
  "normalizePage limit offset =
     (if limit \<le> 0 \<or> limit > 100 then 50 else limit, if offset < 0 then 0 else offset)"

section \<open>Rows\<close>

fun user_of_row :: "sqlrow \<Rightarrow> User option" where
  "user_of_row [VText i, VText email, VText name, VText h, VText nick, VText avatar, VText role, VTime c, VTime u] =
     Some \<lparr>u_ID = i, u_Email = email, u_Username = name, u_PasswordHash = h, u_Nickname = nick, u_AvatarURL = avatar,
       u_Role = role, u_CreatedAt = c, u_UpdatedAt = u\<rparr>"
| "user_of_row _ = None"

fun room_of_row :: "sqlrow \<Rightarrow> Room option" where
  "room_of_row [VText i, VText name, VText owner, VText vis, VText h, VText video, VTime c, VTime u] =
     Some \<lparr>rm_ID = i, rm_Name = name, rm_OwnerID = owner, rm_Visibility = vis, rm_PasswordHash = h, rm_CurrentVideo = video,
       rm_CreatedAt = c, rm_UpdatedAt = u\<rparr>"
| "room_of_row _ = None"

definition scanUser :: "error + sqlrow \<Rightarrow> error + User" where
  "scanUser r =
     (case r of
        Inl err \<Rightarrow> Inl (wrapNotFound err)
      | Inr vs \<Rightarrow> (case user_of_row vs of None \<Rightarrow> Inl (wrapNotFound ErrScan) | Some user \<Rightarrow> Inr user))"

definition scanRoom :: "error + sqlrow \<Rightarrow> error + Room" where
  "scanRoom r =
     (case r of
        Inl err \<Rightarrow> Inl (wrapNotFound err)
      | Inr vs \<Rightarrow> (case room_of_row vs of None \<Rightarrow> Inl (wrapNotFound ErrScan) | Some room \<Rightarrow> Inr room))"

section \<open>Users\<close>

text \<open>The statements on users.\<close>

definition sql_user_by_id :: string where
  "sql_user_by_id = ''SELECT id, email, username, password_hash, nickname, avatar_url, role, created_at, updated_at FROM users WHERE id = $1''"

definition sql_user_by_name :: string where
  "sql_user_by_name = ''SELECT id, email, username, password_hash, nickname, avatar_url, role, created_at, updated_at FROM users WHERE LOWER(username) = LOWER($1)''"

definition sql_user_by_email :: string where
  "sql_user_by_email = ''SELECT id, email, username, password_hash, nickname, avatar_url, role, created_at, updated_at FROM users WHERE LOWER(email) = LOWER($1)''"

definition sql_insert_user :: string where
  "sql_insert_user = ''INSERT INTO users (id, email, username, password_hash, nickname, avatar_url, role, created_at, updated_at) VALUES ($1, $2, $3, $4, $5, $6, $7, $8, $9)''"

definition sql_update_user :: string where
  "sql_update_user = ''UPDATE users SET email = $1, username = $2, password_hash = $3, nickname = $4, avatar_url = $5, role = $6, updated_at = $7 WHERE id = $8''"

definition pg_GetUserByID :: "'w SqlDB \<Rightarrow> string \<Rightarrow> ('w, error + User) io" where
  "pg_GetUserByID db i = do {
     r \<leftarrow> db_QueryRow db sql_user_by_id [VText i];
     State_Monad.return (scanUser r)
   }"

definition pg_GetUserByUsername :: "'w SqlDB \<Rightarrow> string \<Rightarrow> ('w, error + User) io" where
  "pg_GetUserByUsername db username = do {
     r \<leftarrow> db_QueryRow db sql_user_by_name [VText username];
     State_Monad.return (scanUser r)
   }"

definition pg_GetUserByEmail :: "'w SqlDB \<Rightarrow> string \<Rightarrow> ('w, error + User) io" where
  "pg_GetUserByEmail db email = do {
     r \<leftarrow> db_QueryRow db sql_user_by_email [VText email];
     State_Monad.return (scanUser r)
   }"

definition exec_err :: "error + (error + int) \<Rightarrow> error option" where
  "exec_err r = (case r of Inl err \<Rightarrow> Some err | Inr _ \<Rightarrow> None)"

text \<open>A result whose affected rows are looked at; an error of the statement itself goes through \<open>f\<close>.\<close>

definition exec_rows :: "(error \<Rightarrow> error option) \<Rightarrow> error + (error + int) \<Rightarrow> error option" where
  "exec_rows f r = (case r of Inl err \<Rightarrow> f err | Inr res \<Rightarrow> requireRows res)"

definition pg_CreateUser ::
  "'w SqlDB \<Rightarrow> (error \<Rightarrow> bool) \<Rightarrow> ('w, gotime) io \<Rightarrow> ('w, string) io \<Rightarrow> User \<Rightarrow> ('w, error + User) io" where
  "pg_CreateUser db unique timeNow newString user0 = do {
     now \<leftarrow> utcNow timeNow;
     user1 \<leftarrow> (if u_ID user0 = [] then do { i \<leftarrow> newString; State_Monad.return (user0\<lparr>u_ID := i\<rparr>) } else State_Monad.return user0);
     let user2 = (if u_Role user1 = [] then user1\<lparr>u_Role := UserRoleUser\<rparr> else user1);
         user3 = (if IsZero (u_CreatedAt user2) then user2\<lparr>u_CreatedAt := now\<rparr> else user2);
         user = user3\<lparr>u_UpdatedAt := now\<rparr> in do {
     r \<leftarrow> db_Exec db sql_insert_user
       [VText (u_ID user), VText (u_Email user), VText (u_Username user), VText (u_PasswordHash user), VText (u_Nickname user),
        VText (u_AvatarURL user), VText (u_Role user), VTime (u_CreatedAt user), VTime (u_UpdatedAt user)];
     State_Monad.return (case wrapConstraint unique (exec_err r) of Some err \<Rightarrow> Inl err | None \<Rightarrow> Inr user)
   }}"

definition pg_UpdateUser ::
  "'w SqlDB \<Rightarrow> (error \<Rightarrow> bool) \<Rightarrow> ('w, gotime) io \<Rightarrow> User \<Rightarrow> ('w, error option) io" where
  "pg_UpdateUser db unique timeNow user = do {
     now \<leftarrow> utcNow timeNow;
     r \<leftarrow> db_Exec db sql_update_user
       [VText (u_Email user), VText (u_Username user), VText (u_PasswordHash user), VText (u_Nickname user),
        VText (u_AvatarURL user), VText (u_Role user), VTime now, VText (u_ID user)];
     State_Monad.return (exec_rows (\<lambda>err. wrapConstraint unique (Some err)) r)
   }"

definition pg_users ::
  "'w SqlDB \<Rightarrow> (error \<Rightarrow> bool) \<Rightarrow> ('w, gotime) io \<Rightarrow> ('w, string) io \<Rightarrow> 'w UserStore" where
  "pg_users db unique timeNow newString = \<lparr>UserStore_GetByID = pg_GetUserByID db,
     UserStore_GetByUsername = pg_GetUserByUsername db, UserStore_GetByEmail = pg_GetUserByEmail db,
     UserStore_Create = pg_CreateUser db unique timeNow newString, UserStore_Update = pg_UpdateUser db unique timeNow\<rparr>"

section \<open>Rooms\<close>

text \<open>The statements on rooms; the two of a list are continued by its conditions.\<close>

definition sql_insert_room :: string where
  "sql_insert_room = ''INSERT INTO rooms (id, name, owner_id, visibility, password_hash, current_video_id, created_at, updated_at) VALUES ($1, $2, $3, $4, $5, $6, $7, $8)''"

definition sql_get_room :: string where
  "sql_get_room = ''SELECT id, name, owner_id, visibility, password_hash, current_video_id, created_at, updated_at FROM rooms WHERE id = $1''"

definition sql_update_room :: string where
  "sql_update_room = ''UPDATE rooms SET name = $1, owner_id = $2, visibility = $3, password_hash = $4, current_video_id = $5, updated_at = $6 WHERE id = $7''"

definition sql_delete_room :: string where
  "sql_delete_room = ''DELETE FROM rooms WHERE id = $1''"

definition sql_count_rooms :: string where
  "sql_count_rooms = ''SELECT COUNT(*) FROM rooms''"

definition sql_select_rooms :: string where
  "sql_select_rooms = ''SELECT id, name, owner_id, visibility, password_hash, current_video_id, created_at, updated_at FROM rooms''"

definition pg_CreateRoom ::
  "'w SqlDB \<Rightarrow> (error \<Rightarrow> bool) \<Rightarrow> ('w, gotime) io \<Rightarrow> ('w, string) io \<Rightarrow> Room \<Rightarrow> ('w, error + Room) io" where
  "pg_CreateRoom db unique timeNow newString room0 = do {
     now \<leftarrow> utcNow timeNow;
     room1 \<leftarrow> (if rm_ID room0 = [] then do { i \<leftarrow> newString; State_Monad.return (room0\<lparr>rm_ID := i\<rparr>) } else State_Monad.return room0);
     let room2 = (if rm_Visibility room1 = [] then room1\<lparr>rm_Visibility := RoomVisibilityPublic\<rparr> else room1);
         room3 = (if IsZero (rm_CreatedAt room2) then room2\<lparr>rm_CreatedAt := now\<rparr> else room2);
         room = room3\<lparr>rm_UpdatedAt := now\<rparr> in do {
     r \<leftarrow> db_Exec db sql_insert_room
       [VText (rm_ID room), VText (rm_Name room), VText (rm_OwnerID room), VText (rm_Visibility room), VText (rm_PasswordHash room),
        VText (rm_CurrentVideo room), VTime (rm_CreatedAt room), VTime (rm_UpdatedAt room)];
     State_Monad.return (case wrapConstraint unique (exec_err r) of Some err \<Rightarrow> Inl err | None \<Rightarrow> Inr room)
   }}"

definition pg_GetRoomByID :: "'w SqlDB \<Rightarrow> string \<Rightarrow> ('w, error + Room) io" where
  "pg_GetRoomByID db i = do {
     r \<leftarrow> db_QueryRow db sql_get_room [VText i];
     State_Monad.return (scanRoom r)
   }"

text \<open>The conditions of a list, numbered as their arguments are appended.\<close>

definition list_where :: "ListRoomsOpts \<Rightarrow> string list \<times> sqlval list" where
  "list_where opts =
     (let (where1, args1) =
            (if lo_Query opts \<noteq> [] then
               (let args = [VText (''%'' @ lo_Query opts @ ''%'')] in ([''name ILIKE $'' @ FormatInt (int (length args))], args))
             else ([], []))
      in if lo_OwnerID opts \<noteq> [] then
           (let args = args1 @ [VText (lo_OwnerID opts)] in (where1 @ [''owner_id = $'' @ FormatInt (int (length args))], args))
         else (where1, args1))"

fun joinSep :: "string \<Rightarrow> string list \<Rightarrow> string" where
  "joinSep sep [] = []"
| "joinSep sep [p] = p"
| "joinSep sep (p # q # ps) = p @ sep @ joinSep sep (q # ps)"

definition where_sql :: "string list \<Rightarrow> string" where
  "where_sql wh = (if length wh > 0 then '' WHERE '' @ joinSep '' AND '' wh else [])"

fun scan_rooms :: "sqlrow list \<Rightarrow> error + Room list" where
  "scan_rooms [] = Inr []"
| "scan_rooms (r # rs) =
     (case scanRoom (Inr r) of
        Inl err \<Rightarrow> Inl err
      | Inr room \<Rightarrow> (case scan_rooms rs of Inl err \<Rightarrow> Inl err | Inr rooms \<Rightarrow> Inr (room # rooms)))"

definition scan_count :: "error + sqlrow \<Rightarrow> error + int" where
  "scan_count r = (case r of Inl err \<Rightarrow> Inl err | Inr [VInt n] \<Rightarrow> Inr n | Inr _ \<Rightarrow> Inl ErrScan)"

definition pg_ListRooms :: "'w SqlDB \<Rightarrow> ListRoomsOpts \<Rightarrow> ('w, error + (Room list \<times> int)) io" where
  "pg_ListRooms db opts =
     (let (limit, offset) = normalizePage (lo_Limit opts) (lo_Offset opts);
          (wh, args0) = list_where opts;
          whereSQL = where_sql wh in do {
     c \<leftarrow> db_QueryRow db (sql_count_rooms @ whereSQL) args0;
     case scan_count c of
       Inl err \<Rightarrow> State_Monad.return (Inl err)
     | Inr n \<Rightarrow>
         let args = args0 @ [VInt limit, VInt offset] in do {
         q \<leftarrow> db_Query db (sql_select_rooms @ whereSQL @
           '' ORDER BY created_at DESC LIMIT $'' @ FormatInt (int (length args) - 1) @ '' OFFSET $'' @ FormatInt (int (length args))) args;
         State_Monad.return
           (case q of
              Inl err \<Rightarrow> Inl err
            | Inr (rows, rowsErr) \<Rightarrow>
                (case scan_rooms rows of
                   Inl err \<Rightarrow> Inl err
                 | Inr rooms \<Rightarrow> (case rowsErr of Some err \<Rightarrow> Inl err | None \<Rightarrow> Inr (rooms, n))))
         }
     })"

definition pg_UpdateRoom ::
  "'w SqlDB \<Rightarrow> (error \<Rightarrow> bool) \<Rightarrow> ('w, gotime) io \<Rightarrow> Room \<Rightarrow> ('w, error option) io" where
  "pg_UpdateRoom db unique timeNow room = do {
     now \<leftarrow> utcNow timeNow;
     r \<leftarrow> db_Exec db sql_update_room
       [VText (rm_Name room), VText (rm_OwnerID room), VText (rm_Visibility room), VText (rm_PasswordHash room),
        VText (rm_CurrentVideo room), VTime now, VText (rm_ID room)];
     State_Monad.return (exec_rows (\<lambda>err. wrapConstraint unique (Some err)) r)
   }"

definition pg_DeleteRoom :: "'w SqlDB \<Rightarrow> string \<Rightarrow> ('w, error option) io" where
  "pg_DeleteRoom db i = do {
     r \<leftarrow> db_Exec db sql_delete_room [VText i];
     State_Monad.return (exec_rows Some r)
   }"

definition pg_rooms ::
  "'w SqlDB \<Rightarrow> (error \<Rightarrow> bool) \<Rightarrow> ('w, gotime) io \<Rightarrow> ('w, string) io \<Rightarrow> 'w RoomStore" where
  "pg_rooms db unique timeNow newString = \<lparr>RoomStore_Create = pg_CreateRoom db unique timeNow newString,
     RoomStore_GetByID = pg_GetRoomByID db, RoomStore_List = pg_ListRooms db,
     RoomStore_Update = pg_UpdateRoom db unique timeNow, RoomStore_Delete = pg_DeleteRoom db\<rparr>"

section \<open>The statements of a list\<close>

definition where_text :: "bool \<Rightarrow> bool \<Rightarrow> string" where
  "where_text q w =
     (if q then (if w then '' WHERE name ILIKE $1 AND owner_id = $2'' else '' WHERE name ILIKE $1'')
      else if w then '' WHERE owner_id = $1'' else [])"

definition page_text :: "bool \<Rightarrow> bool \<Rightarrow> string" where
  "page_text q w =
     (if q \<and> w then '' ORDER BY created_at DESC LIMIT $3 OFFSET $4''
      else if q \<or> w then '' ORDER BY created_at DESC LIMIT $2 OFFSET $3''
      else '' ORDER BY created_at DESC LIMIT $1 OFFSET $2'')"

definition count_sql :: "bool \<Rightarrow> bool \<Rightarrow> string" where
  "count_sql q w = sql_count_rooms @ where_text q w"

definition list_sql :: "bool \<Rightarrow> bool \<Rightarrow> string" where
  "list_sql q w = sql_select_rooms @ where_text q w @ page_text q w"

definition list_args :: "ListRoomsOpts \<Rightarrow> sqlval list" where
  "list_args opts =
     (if lo_Query opts \<noteq> [] then [VText (''%'' @ lo_Query opts @ ''%'')] else []) @
     (if lo_OwnerID opts \<noteq> [] then [VText (lo_OwnerID opts)] else [])"

lemma FormatInt_small: "FormatInt 1 = ''1''" "FormatInt 2 = ''2''" "FormatInt 3 = ''3''" "FormatInt 4 = ''4''"
  by code_simp+

lemma where_sql_eq: "where_sql (fst (list_where opts)) = where_text (lo_Query opts \<noteq> []) (lo_OwnerID opts \<noteq> [])"
  and list_where_args: "snd (list_where opts) = list_args opts"
  by (simp_all add: list_where_def where_sql_def where_text_def list_args_def FormatInt_small)

lemma page_text_eq:
  "'' ORDER BY created_at DESC LIMIT $'' @ FormatInt (int (length (list_args opts @ [l, k])) - 1) @
   '' OFFSET $'' @ FormatInt (int (length (list_args opts @ [l, k]))) = page_text (lo_Query opts \<noteq> []) (lo_OwnerID opts \<noteq> [])"
  by (simp add: list_args_def page_text_def FormatInt_small)

lemma pg_ListRooms_eq:
  "pg_ListRooms db opts =
     (let q = (lo_Query opts \<noteq> []); w = (lo_OwnerID opts \<noteq> []);
          (limit, offset) = normalizePage (lo_Limit opts) (lo_Offset opts) in do {
     c \<leftarrow> db_QueryRow db (count_sql q w) (list_args opts);
     case scan_count c of
       Inl err \<Rightarrow> State_Monad.return (Inl err)
     | Inr n \<Rightarrow> do {
         q \<leftarrow> db_Query db (list_sql q w) (list_args opts @ [VInt limit, VInt offset]);
         State_Monad.return
           (case q of
              Inl err \<Rightarrow> Inl err
            | Inr (rows, rowsErr) \<Rightarrow>
                (case scan_rooms rows of
                   Inl err \<Rightarrow> Inl err
                 | Inr rooms \<Rightarrow> (case rowsErr of Some err \<Rightarrow> Inl err | None \<Rightarrow> Inr (rooms, n))))
       }
     })"
proof -
  obtain wh args0 where l: "list_where opts = (wh, args0)" by (cases "list_where opts")
  have wh: "where_sql wh = where_text (lo_Query opts \<noteq> []) (lo_OwnerID opts \<noteq> [])" and a: "args0 = list_args opts"
    using where_sql_eq [of opts] list_where_args [of opts] by (simp_all add: l)
  obtain limit offset where p: "normalizePage (lo_Limit opts) (lo_Offset opts) = (limit, offset)"
    by (cases "normalizePage (lo_Limit opts) (lo_Offset opts)")
  show ?thesis
    unfolding pg_ListRooms_def l p Let_def prod.case wh a page_text_eq count_sql_def list_sql_def ..
qed

text \<open>
  C32: the text of the statements that list rooms is one of eight fixed ones, whatever the query and the owner are: these
  are only ever arguments.  On two databases that answer the eight statements alike, a list answers alike.
\<close>

theorem list_statements_fixed:
  assumes "\<And>q w args. db_QueryRow db (count_sql q w) args = db_QueryRow db' (count_sql q w) args"
    and "\<And>q w args. db_Query db (list_sql q w) args = db_Query db' (list_sql q w) args"
  shows "pg_ListRooms db opts = pg_ListRooms db' opts"
  unfolding pg_ListRooms_eq assms ..

section \<open>The embedded schema\<close>

text \<open>The lines of \<^verbatim>\<open>schema.sql\<close>.\<close>

definition schema_lines :: "string list" where
  "schema_lines = [
     ''CREATE TABLE IF NOT EXISTS users ('',
     ''    id TEXT PRIMARY KEY,'',
     ''    username TEXT NOT NULL UNIQUE,'',
     ''    password_hash TEXT NOT NULL,'',
     ''    nickname TEXT NOT NULL DEFAULT '' @ [CHR 0x27, CHR 0x27] @ '','',
     ''    avatar_url TEXT NOT NULL DEFAULT '' @ [CHR 0x27, CHR 0x27] @ '','',
     ''    role TEXT NOT NULL,'',
     ''    created_at TIMESTAMPTZ NOT NULL,'',
     ''    updated_at TIMESTAMPTZ NOT NULL'',
     '');'',
     '''',
     ''CREATE TABLE IF NOT EXISTS rooms ('',
     ''    id TEXT PRIMARY KEY,'',
     ''    name TEXT NOT NULL,'',
     ''    owner_id TEXT NOT NULL,'',
     ''    visibility TEXT NOT NULL,'',
     ''    password_hash TEXT NOT NULL DEFAULT '' @ [CHR 0x27, CHR 0x27] @ '','',
     ''    current_video_id TEXT NOT NULL DEFAULT '' @ [CHR 0x27, CHR 0x27] @ '','',
     ''    created_at TIMESTAMPTZ NOT NULL,'',
     ''    updated_at TIMESTAMPTZ NOT NULL'',
     '');'',
     '''',
     ''CREATE INDEX IF NOT EXISTS idx_rooms_created_at ON rooms(created_at DESC);'']"

definition schema_sql :: string where
  "schema_sql = concat (map (\<lambda>l. l @ [CHR 10]) schema_lines)"

fun occurs :: "string \<Rightarrow> string \<Rightarrow> bool" where
  "occurs w [] \<longleftrightarrow> w = []"
| "occurs w (c # cs) \<longleftrightarrow> take (length w) (c # cs) = w \<or> occurs w cs"

lemma schema_no_email: "\<not> occurs ''email'' schema_sql"
  by code_simp

lemma users_name_email:
  "occurs ''email'' sql_user_by_id" "occurs ''email'' sql_user_by_name" "occurs ''email'' sql_user_by_email"
  "occurs ''email'' sql_insert_user" "occurs ''email'' sql_update_user"
  by code_simp+

text \<open>
  So the table of users that the embedded schema creates has no column \<open>email\<close>, while each of the five statements on
  users names it; the tables of the migrations have the column.  A database without rows, for the witnesses:
\<close>

definition fresh_db :: "'w SqlDB" where
  "fresh_db = \<lparr>
     db_QueryRow = (\<lambda>sql args. State_Monad.return (Inl ErrNoRows)),
     db_Query = (\<lambda>sql args. State_Monad.return (Inr ([], None))),
     db_Exec = (\<lambda>sql args. State_Monad.return (Inr (Inr 0)))\<rparr>"

text \<open>A database that rejects every statement but the eight, and a query that tries to leave its quotes.\<close>

definition only_lists :: "'w SqlDB \<Rightarrow> 'w SqlDB" where
  "only_lists db = \<lparr>
     db_QueryRow = (\<lambda>sql args. if sql \<in> {count_sql q w | q w. True} then db_QueryRow db sql args else State_Monad.return (Inl ErrScan)),
     db_Query = (\<lambda>sql args. if sql \<in> {list_sql q w | q w. True} then db_Query db sql args else State_Monad.return (Inl ErrScan)),
     db_Exec = (\<lambda>sql args. State_Monad.return (Inl ErrScan))\<rparr>"

theorem list_statements_fixed_witness:
  "pg_ListRooms (only_lists (fresh_db :: unit SqlDB))
     \<lparr>lo_Limit = 20, lo_Offset = 0, lo_Query = [CHR 0x27] @ ''; DROP TABLE rooms; --'', lo_OwnerID = []\<rparr> =
   pg_ListRooms fresh_db
     \<lparr>lo_Limit = 20, lo_Offset = 0, lo_Query = [CHR 0x27] @ ''; DROP TABLE rooms; --'', lo_OwnerID = []\<rparr>"
  by (rule list_statements_fixed) (auto simp: only_lists_def)

end
