(* ===== verification/Postgres_Rooms.thy ===== *)
theory Postgres_Rooms
  imports Postgres_Store "HOL-Library.Multiset"
begin

text \<open>
  The room store on PostgreSQL against the documented behaviour of its statements on a table of rooms, the locale
  \<open>sql_rooms\<close>: what each operation does to the table, and that the store keeps the contract \<open>room_store\<close> of the room
  service, with the page size that the store really uses.
\<close>

section \<open>The statements on a table\<close>

fun room_row :: "Room \<Rightarrow> sqlrow" where
  "room_row r = [VText (rm_ID r), VText (rm_Name r), VText (rm_OwnerID r), VText (rm_Visibility r), VText (rm_PasswordHash r),
     VText (rm_CurrentVideo r), VTime (rm_CreatedAt r), VTime (rm_UpdatedAt r)]"

definition update_args :: "Room \<Rightarrow> gotime \<Rightarrow> sqlval list" where
  "update_args r now = [VText (rm_Name r), VText (rm_OwnerID r), VText (rm_Visibility r), VText (rm_PasswordHash r),
     VText (rm_CurrentVideo r), VTime now, VText (rm_ID r)]"

text \<open>The rooms that the conditions select; \<open>ilike\<close> is the operator, \<open>None\<close> means that the condition is not there.\<close>

definition selected :: "(string \<Rightarrow> string \<Rightarrow> bool) \<Rightarrow> string option \<Rightarrow> string option \<Rightarrow> Room \<Rightarrow> bool" where
  "selected ilike q w r \<longleftrightarrow>
     (case q of None \<Rightarrow> True | Some pat \<Rightarrow> ilike (rm_Name r) pat) \<and> (case w of None \<Rightarrow> True | Some u \<Rightarrow> rm_OwnerID r = u)"

definition text_args :: "string option \<Rightarrow> string option \<Rightarrow> sqlval list" where
  "text_args q w = (case q of None \<Rightarrow> [] | Some s \<Rightarrow> [VText s]) @ (case w of None \<Rightarrow> [] | Some s \<Rightarrow> [VText s])"

text \<open>\<open>ORDER BY created_at DESC\<close> leaves the order of rooms with equal times open.\<close>

definition newest_first :: "Room list \<Rightarrow> bool" where
  "newest_first ps \<longleftrightarrow> sorted_wrt (\<lambda>x y. rm_CreatedAt y \<le> rm_CreatedAt x) ps"

text \<open>A timestamp is kept in microseconds.\<close>

definition in_micros :: "Room \<Rightarrow> bool" where
  "in_micros r \<longleftrightarrow> rm_CreatedAt r mod 1000 = 0 \<and> rm_UpdatedAt r mod 1000 = 0"

locale sql_rooms =
  fixes db :: "'w SqlDB" and A :: "'w \<Rightarrow> Room list" and live :: "'w \<Rightarrow> bool"
    and ilike :: "string \<Rightarrow> string \<Rightarrow> bool" and unique :: "error \<Rightarrow> bool"
  assumes primary_key: "live w \<Longrightarrow> distinct (map rm_ID (A w))"
    and get_law: "ensures live A (db_QueryRow db sql_get_room [VText i]) a
      (\<lambda>x a'. a' = a \<and> x = (case find (\<lambda>r. rm_ID r = i) a of None \<Rightarrow> Inl ErrNoRows | Some r \<Rightarrow> Inr (room_row r)))"
    and count_law: "ensures live A (db_QueryRow db (count_sql (q \<noteq> None) (v \<noteq> None)) (text_args q v)) a
      (\<lambda>x a'. a' = a \<and> x = Inr [VInt (int (length (filter (selected ilike q v) a)))])"
    and list_law: "0 \<le> l \<Longrightarrow> 0 \<le> k \<Longrightarrow>
      ensures live A (db_Query db (list_sql (q \<noteq> None) (v \<noteq> None)) (text_args q v @ [VInt l, VInt k])) a
      (\<lambda>x a'. a' = a \<and> (\<exists>ps. mset ps = mset (filter (selected ilike q v) a) \<and> newest_first ps \<and>
         x = Inr (map room_row (take (nat l) (drop (nat k) ps)), None)))"
    and insert_law: "in_micros r \<Longrightarrow> ensures live A (db_Exec db sql_insert_room (room_row r)) a
      (\<lambda>x a'. if rm_ID r \<in> rm_ID ` set a then a' = a \<and> (\<exists>e. x = Inl e \<and> unique e) else a' = a @ [r] \<and> x = Inr (Inr 1))"
    and update_law: "now mod 1000 = 0 \<Longrightarrow> ensures live A (db_Exec db sql_update_room (update_args r now)) a
      (\<lambda>x a'. x = Inr (Inr (if rm_ID r \<in> rm_ID ` set a then 1 else 0)) \<and>
         a' = map (\<lambda>r'. if rm_ID r' = rm_ID r then r\<lparr>rm_CreatedAt := rm_CreatedAt r', rm_UpdatedAt := now\<rparr> else r') a)"
    and delete_law: "ensures live A (db_Exec db sql_delete_room [VText i]) a
      (\<lambda>x a'. x = Inr (Inr (if i \<in> rm_ID ` set a then 1 else 0)) \<and> a' = filter (\<lambda>r. rm_ID r \<noteq> i) a)"

section \<open>The operations of the store\<close>

lemma room_of_row_row [simp]: "room_of_row (room_row r) = Some r"
  by simp

lemma scanRoom_row [simp]: "scanRoom (Inr (room_row r)) = Inr r"
  by (simp add: scanRoom_def)

lemma scan_rooms_rows [simp]: "scan_rooms (map room_row rs) = Inr rs"
  by (induction rs) (simp_all del: room_row.simps)

lemma find_keys: "find (\<lambda>r. rm_ID r = i) a = None \<longleftrightarrow> i \<notin> rm_ID ` set a"
  by (auto simp: find_None_iff)

definition cond_query :: "ListRoomsOpts \<Rightarrow> string option" where
  "cond_query opts = (if lo_Query opts = [] then None else Some (''%'' @ lo_Query opts @ ''%''))"

definition cond_owner :: "ListRoomsOpts \<Rightarrow> string option" where
  "cond_owner opts = (if lo_OwnerID opts = [] then None else Some (lo_OwnerID opts))"

lemma list_args_eq: "list_args opts = text_args (cond_query opts) (cond_owner opts)"
  by (simp add: list_args_def text_args_def cond_query_def cond_owner_def)

lemma conds: "(lo_Query opts \<noteq> []) = (cond_query opts \<noteq> None)" "(lo_OwnerID opts \<noteq> []) = (cond_owner opts \<noteq> None)"
  by (simp_all add: cond_query_def cond_owner_def)

definition pg_page :: "int \<Rightarrow> nat" where
  "pg_page limit = nat (fst (normalizePage limit 0))"

context sql_rooms
begin

lemma get_spec: "ensures live A (pg_GetRoomByID db i) a
    (\<lambda>x a'. a' = a \<and> x = (case find (\<lambda>r. rm_ID r = i) a of None \<Rightarrow> Inl ErrNotFound | Some r \<Rightarrow> Inr r))"
  unfolding pg_GetRoomByID_def
proof (rule ensures_step [OF get_law], goal_cases)
  case (1 x a')
  have "scanRoom (Inl ErrNoRows) = Inl ErrNotFound" by (simp add: scanRoom_def wrapNotFound_def)
  then show ?case
    using 1 by (intro ensures_return) (simp del: room_row.simps split: option.split)
qed

lemma delete_spec: "ensures live A (pg_DeleteRoom db i) a
    (\<lambda>x a'. x = (if i \<in> rm_ID ` set a then None else Some ErrNotFound) \<and> a' = filter (\<lambda>r. rm_ID r \<noteq> i) a)"
  unfolding pg_DeleteRoom_def
  by (rule ensures_step [OF delete_law]) (auto simp: exec_rows_def requireRows_def intro!: ensures_return)

lemma list_spec: "ensures live A (pg_ListRooms db opts) a
    (\<lambda>x a'. a' = a \<and> (\<exists>ps. mset ps = mset (filter (selected ilike (cond_query opts) (cond_owner opts)) a) \<and> newest_first ps \<and>
       x = Inr (take (pg_page (lo_Limit opts)) (drop (nat (lo_Offset opts)) ps), int (length ps))))"
proof -
  obtain l k where p: "normalizePage (lo_Limit opts) (lo_Offset opts) = (l, k)" by (cases "normalizePage (lo_Limit opts) (lo_Offset opts)")
  then have lk: "0 \<le> l" "0 \<le> k" "nat l = pg_page (lo_Limit opts)" "nat k = nat (lo_Offset opts)"
    by (auto simp: normalizePage_def pg_page_def split: if_splits)
  show ?thesis
    unfolding pg_ListRooms_eq p Let_def prod.case conds list_args_eq
  proof (rule ensures_step [OF count_law], goal_cases)
    case (1 c a1)
    then have c: "scan_count c = Inr (int (length (filter (selected ilike (cond_query opts) (cond_owner opts)) a)))" and a1: "a1 = a"
      by (simp_all add: scan_count_def)
    show ?case
      unfolding c a1 sum.case
    proof (rule ensures_step [OF list_law [OF lk(1,2)]], goal_cases)
      case (1 x a2)
      then obtain ps where ps: "mset ps = mset (filter (selected ilike (cond_query opts) (cond_owner opts)) a)" "newest_first ps"
        and x: "x = Inr (map room_row (take (nat l) (drop (nat k) ps)), None)" and a2: "a2 = a" by blast
      show ?case
        using ps mset_eq_length [OF ps(1)] by (intro ensures_return) (auto simp: x a2 lk simp del: room_row.simps)
    qed
  qed
qed

lemma utcNow_spec:
  assumes "\<And>a. ensures live A clk a (\<lambda>t a'. a' = a)"
  shows "ensures live A (utcNow clk) a (\<lambda>t a'. a' = a \<and> t mod 1000 = 0)"
  unfolding utcNow_def by (rule ensures_step [OF assms]) (auto intro!: ensures_return)

lemma create_spec:
  assumes clk: "\<And>a. ensures live A clk a (\<lambda>t a'. a' = a)" and r: "rm_ID r \<noteq> []" "rm_Visibility r \<noteq> []" "IsZero (rm_CreatedAt r)"
  shows "ensures live A (pg_CreateRoom db unique clk newString r) a
    (\<lambda>x a'. if rm_ID r \<in> rm_ID ` set a then x = Inl ErrConflict \<and> a' = a
       else \<exists>t. x = Inr (r\<lparr>rm_CreatedAt := t, rm_UpdatedAt := t\<rparr>) \<and> a' = a @ [r\<lparr>rm_CreatedAt := t, rm_UpdatedAt := t\<rparr>])"
  unfolding pg_CreateRoom_def
proof (rule ensures_step [OF utcNow_spec [OF clk]], goal_cases)
  case (1 t a1)
  let ?r = "r\<lparr>rm_CreatedAt := t, rm_UpdatedAt := t\<rparr>"
  have law: "ensures live A (db_Exec db sql_insert_room (room_row ?r)) a
      (\<lambda>x a'. if rm_ID r \<in> rm_ID ` set a then a' = a \<and> (\<exists>e. x = Inl e \<and> unique e) else a' = a @ [?r] \<and> x = Inr (Inr 1))"
    using insert_law [of ?r a] 1 by (simp add: in_micros_def)
  show ?case
    using 1 r by (simp add: Let_def) (rule ensures_step [OF law [simplified]],
      auto simp: exec_err_def wrapConstraint_def split: if_splits intro!: ensures_return)
qed

lemma update_spec:
  assumes clk: "\<And>a. ensures live A clk a (\<lambda>t a'. a' = a)"
  shows "ensures live A (pg_UpdateRoom db unique clk r) a
    (\<lambda>x a'. x = (if rm_ID r \<in> rm_ID ` set a then None else Some ErrNotFound) \<and>
       (\<exists>t. a' = map (\<lambda>r'. if rm_ID r' = rm_ID r then r\<lparr>rm_CreatedAt := rm_CreatedAt r', rm_UpdatedAt := t\<rparr> else r') a))"
  unfolding pg_UpdateRoom_def update_args_def [symmetric]
proof (rule ensures_step [OF utcNow_spec [OF clk]], goal_cases)
  case (1 t a1)
  then have t: "a1 = a" "t mod 1000 = 0" by simp_all
  show ?case
    unfolding t(1)
  proof (rule ensures_step [OF update_law [OF t(2)]], goal_cases)
    case (1 x a2)
    then show ?case by (intro ensures_return) (auto simp: exec_rows_def requireRows_def)
  qed
qed

end

section \<open>The contract of the room service\<close>

text \<open>The abstract database of the room service with the rooms of the table and nothing else.\<close>

definition by_id :: "Room list \<Rightarrow> string \<Rightarrow> Room option" where
  "by_id a i = find (\<lambda>r. rm_ID r = i) a"

definition rooms_abs :: "Room list \<Rightarrow> room_abs" where
  "rooms_abs a = \<lparr>ab_states = Map.empty, ab_seat = Map.empty, ab_pending = {}, ab_lock = False, ab_lastCleanup = 0,
     ab_access = {}, ab_rooms = by_id a, ab_chat = {}, ab_log = [], ab_now = 0\<rparr>"

lemma by_id_key: "by_id a i = Some r \<Longrightarrow> r \<in> set a \<and> rm_ID r = i"
  by (auto simp: by_id_def find_Some_iff)

lemma by_id_None: "by_id a i = None \<longleftrightarrow> i \<notin> rm_ID ` set a"
  by (simp add: by_id_def find_keys)

lemma by_id_delete: "by_id (filter (\<lambda>r. rm_ID r \<noteq> i) a) = (by_id a)(i := None)"
  by (rule ext, induction a) (auto simp: by_id_def)

lemma dom_by_id: "dom (by_id a) = rm_ID ` set a"
proof (rule set_eqI)
  show "i \<in> dom (by_id a) \<longleftrightarrow> i \<in> rm_ID ` set a" for i
    unfolding domIff by_id_None by simp
qed

lemma by_id_of: "distinct (map rm_ID a) \<Longrightarrow> r \<in> set a \<Longrightarrow> by_id a (rm_ID r) = Some r"
  by (induction a) (auto simp: by_id_def)

lemma ran_by_id: "distinct (map rm_ID a) \<Longrightarrow> ran (by_id a) = set a"
  by (auto simp: ran_def dest: by_id_key by_id_of)

text \<open>A program that is verified over the table is verified over any view of it.\<close>

lemma ensures_view:
  assumes "\<And>a. g a = b \<Longrightarrow> ensures live A m a (\<lambda>x a'. Q x (g a'))"
  shows "ensures live (\<lambda>w. g (A w)) m b Q"
proof (rule ensuresI)
  fix w
  assume "live w" and "g (A w) = b"
  then show "live (snd (run_state m w)) \<and> Q (fst (run_state m w)) (g (A (snd (run_state m w))))"
    using ensuresD [OF assms] by blast
qed

context sql_rooms
begin

lemma list_contract:
  assumes "distinct (map rm_ID a)"
  shows "ensures live A (pg_ListRooms db opts) a
    (\<lambda>x a'. a' = a \<and> (\<exists>l t. x = Inr (l, t) \<and> set l \<subseteq> ran (by_id a) \<and> length l \<le> pg_page (lo_Limit opts) \<and>
       (lo_Offset opts = 0 \<and> lo_Query opts = [] \<and> lo_OwnerID opts = [] \<and>
          card (dom (by_id a)) \<le> pg_page (lo_Limit opts) \<longrightarrow> set l = ran (by_id a))))"
proof (rule ensures_mono [OF list_spec], goal_cases)
  case (1 x a')
  then obtain ps where a: "a' = a" and ps: "mset ps = mset (filter (selected ilike (cond_query opts) (cond_owner opts)) a)"
    and x: "x = Inr (take (pg_page (lo_Limit opts)) (drop (nat (lo_Offset opts)) ps), int (length ps))" by blast
  have sub: "set ps \<subseteq> set a" using mset_eq_setD [OF ps] by auto
  moreover have "set (take (pg_page (lo_Limit opts)) (drop (nat (lo_Offset opts)) ps)) \<subseteq> set ps"
    by (meson order_trans set_drop_subset set_take_subset)
  moreover have "take (pg_page (lo_Limit opts)) ps = ps \<and> set ps = set a"
    if "lo_Query opts = []" "lo_OwnerID opts = []" "card (dom (by_id a)) \<le> pg_page (lo_Limit opts)"
  proof -
    have m: "mset ps = mset a" using ps that(1,2) by (simp add: selected_def cond_query_def cond_owner_def)
    have "length ps = card (dom (by_id a))"
      using mset_eq_length [OF m] distinct_card [OF assms] by (simp add: dom_by_id)
    then show ?thesis using that(3) mset_eq_setD [OF m] by simp
  qed
  ultimately show ?case using assms by (auto simp: a x ran_by_id)
qed

end

sublocale sql_rooms \<subseteq> contract: room_store "pg_rooms db unique clk newString" "\<lambda>w. rooms_abs (A w)" live pg_page
proof (unfold_locales, goal_cases)
  case (1 w r rm)
  then show ?case by (auto simp: rooms_abs_def dest: by_id_key)
next
  case (2 w)
  then show ?case by (simp add: rooms_abs_def dom_by_id)
next
  case (3 r a)
  show ?case
    unfolding pg_rooms_def RoomStore.simps
    by (rule ensures_view, rule ensures_mono [OF get_spec]) (auto simp: rooms_abs_def by_id_def)
next
  case (4 r a)
  show ?case
    unfolding pg_rooms_def RoomStore.simps
    by (rule ensures_view, rule ensures_mono [OF delete_spec]) (force simp: rooms_abs_def by_id_delete by_id_None)
next
  case (5 opts a)
  show ?case
    unfolding pg_rooms_def RoomStore.simps
  proof (rule ensures_view [where g = rooms_abs and A = A], rule ensures_live, goal_cases)
    case (1 a1 w)
    then show ?case
      by (intro ensures_mono [OF list_contract]) (auto simp: rooms_abs_def dest: primary_key)
  qed
qed

context sql_rooms
begin

lemma contract_store: "room_store (pg_rooms db unique clk newString) (\<lambda>w. rooms_abs (A w)) live pg_page"
  by (rule contract.room_store_axioms)

lemma created_then_found:
  assumes clk: "\<And>a. ensures live A clk a (\<lambda>t a'. a' = a)" and r: "rm_ID r \<noteq> []" "rm_Visibility r \<noteq> []" "IsZero (rm_CreatedAt r)"
  shows "ensures live A (do { x \<leftarrow> pg_CreateRoom db unique clk newString r; y \<leftarrow> pg_GetRoomByID db (rm_ID r); State_Monad.return (x, y) }) a
    (\<lambda>(x, y) a'. if rm_ID r \<in> rm_ID ` set a then x = Inl ErrConflict \<and> a' = a
       else \<exists>t. x = Inr (r\<lparr>rm_CreatedAt := t, rm_UpdatedAt := t\<rparr>) \<and> y = x \<and> a' = a @ [r\<lparr>rm_CreatedAt := t, rm_UpdatedAt := t\<rparr>])"
proof (rule ensures_step [OF create_spec [OF assms]], rule ensures_step [OF get_spec], rule ensures_return, goal_cases)
  case (1 x a1 y a2)
  show ?case
  proof (cases "rm_ID r \<in> rm_ID ` set a")
    case True
    then show ?thesis using 1 by simp
  next
    case False
    then have "find (\<lambda>r'. rm_ID r' = rm_ID r) (a @ [r']) = Some r'" if "rm_ID r' = rm_ID r" for r'
      using that by (induction a) auto
    then show ?thesis using 1 False by auto
  qed
qed

end

section \<open>A table in memory\<close>

text \<open>A server with the table of rooms that keeps the laws, and its clock.\<close>

record PgWorld =
  pw_rooms :: "Room list"
  pw_now :: gotime

definition pw_distinct :: "PgWorld \<Rightarrow> bool" where
  "pw_distinct w \<longleftrightarrow> distinct (map rm_ID (pw_rooms w))"

definition shapes :: "(bool \<times> bool) list" where
  "shapes = [(False, False), (False, True), (True, False), (True, True)]"

fun conds_of :: "bool \<times> bool \<Rightarrow> sqlval list \<Rightarrow> (string option \<times> string option \<times> sqlval list) option" where
  "conds_of (False, False) vs = Some (None, None, vs)"
| "conds_of (True, False) (VText q # vs) = Some (Some q, None, vs)"
| "conds_of (False, True) (VText v # vs) = Some (None, Some v, vs)"
| "conds_of (True, True) (VText q # VText v # vs) = Some (Some q, Some v, vs)"
| "conds_of _ _ = None"

definition ErrSyntax :: error where
  "ErrSyntax = OtherError ''ERROR: syntax error (SQLSTATE 42601)''"

definition ErrDuplicate :: error where
  "ErrDuplicate = OtherError ''ERROR: duplicate key value violates unique constraint (SQLSTATE 23505)''"

definition sim_QueryRow :: "(string \<Rightarrow> string \<Rightarrow> bool) \<Rightarrow> string \<Rightarrow> sqlval list \<Rightarrow> (PgWorld, error + sqlrow) io" where
  "sim_QueryRow ilike sql args = reads (\<lambda>w.
       (if sql = sql_get_room then
          (case args of
             [VText i] \<Rightarrow> (case find (\<lambda>r. rm_ID r = i) (pw_rooms w) of None \<Rightarrow> Inl ErrNoRows | Some r \<Rightarrow> Inr (room_row r))
           | _ \<Rightarrow> Inl ErrSyntax)
        else case find (\<lambda>(q, v). sql = count_sql q v) shapes of
          None \<Rightarrow> Inl ErrSyntax
        | Some s \<Rightarrow>
            (case conds_of s args of
               Some (q, v, []) \<Rightarrow> Inr [VInt (int (length (filter (selected ilike q v) (pw_rooms w))))]
             | _ \<Rightarrow> Inl ErrSyntax)))"

definition sim_Query ::
  "(string \<Rightarrow> string \<Rightarrow> bool) \<Rightarrow> string \<Rightarrow> sqlval list \<Rightarrow> (PgWorld, error + (sqlrow list \<times> error option)) io" where
  "sim_Query ilike sql args = reads (\<lambda>w.
       (case find (\<lambda>(q, v). sql = list_sql q v) shapes of
          None \<Rightarrow> Inl ErrSyntax
        | Some s \<Rightarrow>
            (case conds_of s args of
               Some (q, v, [VInt l, VInt k]) \<Rightarrow>
                 Inr (map room_row (take (nat l) (drop (nat k)
                   (sort_key (\<lambda>r. - rm_CreatedAt r) (filter (selected ilike q v) (pw_rooms w))))), None)
             | _ \<Rightarrow> Inl ErrSyntax)))"

definition to_micros :: "gotime \<Rightarrow> gotime" where
  "to_micros t = t div 1000 * 1000"

definition sim_Exec :: "string \<Rightarrow> sqlval list \<Rightarrow> (PgWorld, error + (error + int)) io" where
  "sim_Exec sql args = do {
     w \<leftarrow> State_Monad.get;
     let rooms = pw_rooms w in
     if sql = sql_insert_room then
       (case room_of_row args of
          None \<Rightarrow> State_Monad.return (Inl ErrSyntax)
        | Some r \<Rightarrow>
            if rm_ID r \<in> rm_ID ` set rooms then State_Monad.return (Inl ErrDuplicate)
            else do {
              State_Monad.set (w\<lparr>pw_rooms := rooms @ [r\<lparr>rm_CreatedAt := to_micros (rm_CreatedAt r), rm_UpdatedAt := to_micros (rm_UpdatedAt r)\<rparr>]\<rparr>);
              State_Monad.return (Inr (Inr 1))
            })
     else if sql = sql_update_room then
       (case args of
          [VText name, VText owner, VText vis, VText h, VText video, VTime t, VText i] \<Rightarrow> do {
            State_Monad.set (w\<lparr>pw_rooms := map (\<lambda>r. if rm_ID r = i then r\<lparr>rm_Name := name, rm_OwnerID := owner, rm_Visibility := vis,
              rm_PasswordHash := h, rm_CurrentVideo := video, rm_UpdatedAt := to_micros t\<rparr> else r) rooms\<rparr>);
            State_Monad.return (Inr (Inr (int (length (filter (\<lambda>r. rm_ID r = i) rooms)))))
          }
        | _ \<Rightarrow> State_Monad.return (Inl ErrSyntax))
     else if sql = sql_delete_room then
       (case args of
          [VText i] \<Rightarrow> do {
            State_Monad.set (w\<lparr>pw_rooms := filter (\<lambda>r. rm_ID r \<noteq> i) rooms\<rparr>);
            State_Monad.return (Inr (Inr (int (length (filter (\<lambda>r. rm_ID r = i) rooms)))))
          }
        | _ \<Rightarrow> State_Monad.return (Inl ErrSyntax))
     else State_Monad.return (Inl ErrSyntax)
   }"

definition sim_db :: "(string \<Rightarrow> string \<Rightarrow> bool) \<Rightarrow> PgWorld SqlDB" where
  "sim_db ilike = \<lparr>db_QueryRow = sim_QueryRow ilike, db_Query = sim_Query ilike, db_Exec = sim_Exec\<rparr>"

lemma count_sql_eq: "count_sql q v = count_sql q' v' \<longleftrightarrow> q = q' \<and> v = v'"
  by (cases q; cases v; cases q'; cases v') (simp_all add: count_sql_def where_text_def)

lemma list_sql_eq: "list_sql q v = list_sql q' v' \<longleftrightarrow> q = q' \<and> v = v'"
  by (cases q; cases v; cases q'; cases v') (simp_all add: list_sql_def where_text_def page_text_def)

lemma get_not_count: "count_sql q v \<noteq> sql_get_room"
  by (simp add: count_sql_def sql_count_rooms_def sql_get_room_def)

lemma find_count: "find (\<lambda>(q', v'). count_sql q v = count_sql q' v') shapes = Some (q, v)"
  by (cases q; cases v) (simp_all add: shapes_def count_sql_eq)

lemma find_list: "find (\<lambda>(q', v'). list_sql q v = list_sql q' v') shapes = Some (q, v)"
  by (cases q; cases v) (simp_all add: shapes_def list_sql_eq)

lemma conds_of_args: "conds_of (q \<noteq> None, v \<noteq> None) (text_args q v @ vs) = Some (q, v, vs)"
  by (cases q; cases v) (simp_all add: text_args_def)

lemma exec_texts: "sql_update_room \<noteq> sql_insert_room" "sql_delete_room \<noteq> sql_insert_room" "sql_delete_room \<noteq> sql_update_room"
  by (simp_all add: sql_update_room_def sql_insert_room_def sql_delete_room_def)

lemma newest_first_sort: "newest_first (sort_key (\<lambda>r. - rm_CreatedAt r) rs)"
  using sorted_sort_key [of "\<lambda>r. - rm_CreatedAt r" rs] by (simp add: newest_first_def sorted_wrt_map)

lemma one_row:
  "distinct (map rm_ID rs) \<Longrightarrow> int (length (filter (\<lambda>r. rm_ID r = i) rs)) = (if i \<in> rm_ID ` set rs then 1 else 0)"
  by (induction rs) (auto simp: filter_empty_conv)


lemma to_micros_id: "t mod 1000 = 0 \<Longrightarrow> to_micros t = t"
  by (auto simp: to_micros_def)

text \<open>The sort above is one of the orders that \<open>ORDER BY\<close> allows, so this server keeps the laws.\<close>

interpretation sim: sql_rooms "sim_db ilike" pw_rooms pw_distinct ilike "\<lambda>e. e = ErrDuplicate"
proof (unfold_locales, goal_cases)
  case (1 w)
  then show ?case by (simp add: pw_distinct_def)
next
  case (2 i a)
  show ?case by (rule ensuresI) (simp add: sim_db_def sim_QueryRow_def)
next
  case (3 q v a)
  show ?case
    by (rule ensuresI) (simp add: sim_db_def sim_QueryRow_def get_not_count find_count conds_of_args [where vs = "[]", simplified])
next
  case (4 l k q v a)
  show ?case
  proof (rule ensuresI, goal_cases)
    case (1 w)
    have "db_Query (sim_db ilike) (list_sql (q \<noteq> None) (v \<noteq> None)) (text_args q v @ [VInt l, VInt k]) =
        reads (\<lambda>w. Inr (map room_row (take (nat l) (drop (nat k)
          (sort_key (\<lambda>r. - rm_CreatedAt r) (filter (selected ilike q v) (pw_rooms w))))), None))"
      unfolding sim_db_def sim_Query_def SqlDB.simps find_list option.case conds_of_args by simp
    then show ?case
      using 1 by (auto simp: newest_first_sort intro!: exI [of _ "sort_key (\<lambda>r. - rm_CreatedAt r) (filter (selected ilike q v) a)"])
  qed
next
  case (5 r a)
  then have "r\<lparr>rm_CreatedAt := to_micros (rm_CreatedAt r), rm_UpdatedAt := to_micros (rm_UpdatedAt r)\<rparr> = r"
    by (simp add: in_micros_def to_micros_id)
  then show ?case
    by (intro ensuresI) (auto simp: sim_db_def sim_Exec_def pw_distinct_def Let_def simp del: Room.update_convs room_row.simps split: if_splits)
next
  case (6 now r a)
  let ?g = "\<lambda>r'. if rm_ID r' = rm_ID r then r\<lparr>rm_CreatedAt := rm_CreatedAt r', rm_UpdatedAt := now\<rparr> else r'"
  show ?case
  proof (rule ensuresI, goal_cases)
    case (1 w)
    have "(\<lambda>r'. if rm_ID r' = rm_ID r then r'\<lparr>rm_Name := rm_Name r, rm_OwnerID := rm_OwnerID r, rm_Visibility := rm_Visibility r,
        rm_PasswordHash := rm_PasswordHash r, rm_CurrentVideo := rm_CurrentVideo r, rm_UpdatedAt := to_micros now\<rparr> else r') = ?g"
      using 6 by (auto simp: to_micros_id fun_eq_iff)
    then have "run_state (db_Exec (sim_db ilike) sql_update_room (update_args r now)) w =
        (Inr (Inr (int (length (filter (\<lambda>r'. rm_ID r' = rm_ID r) a)))), w\<lparr>pw_rooms := map ?g a\<rparr>)"
      using 1 by (simp add: sim_db_def sim_Exec_def update_args_def exec_texts Let_def)
    moreover have "map rm_ID (map ?g a) = map rm_ID a" by simp
    ultimately show ?case
      using 1 by (simp add: pw_distinct_def one_row del: map_map)
  qed
next
  case (7 i a)
  show ?case
    by (rule ensuresI) (auto simp: sim_db_def sim_Exec_def exec_texts pw_distinct_def one_row Let_def distinct_map_filter)
qed

section \<open>What the store promises\<close>

text \<open>
  C11: the room store on PostgreSQL keeps the contract that the room service relies on, with pages of at most \<open>pg_page\<close>
  rows, on every database that keeps the laws of its statements: lookups and deletions answer as on a map from ids to
  rooms, and a list answers with stored rooms, all of them when they fit on a page.
\<close>

theorem pg_rooms_contract:
  assumes "sql_rooms db A live ilike unique"
  shows "room_store (pg_rooms db unique clk newString) (\<lambda>w. rooms_abs (A w)) live pg_page"
  using assms by (rule sql_rooms.contract_store)

text \<open>\<open>ILIKE\<close> for the patterns of the store on ASCII names: the text between the two percent signs occurs in the name.\<close>

definition ilike_within :: "string \<Rightarrow> string \<Rightarrow> bool" where
  "ilike_within name pat = occurs (map lower_byte (butlast (tl pat))) (map lower_byte name)"

theorem pg_rooms_contract_witness:
  "room_store (pg_rooms (sim_db ilike_within) (\<lambda>e. e = ErrDuplicate) (reads pw_now) (State_Monad.return ''new''))
     (\<lambda>w. rooms_abs (pw_rooms w)) pw_distinct pg_page"
  by (rule pg_rooms_contract) (rule sim.sql_rooms_axioms)

text \<open>
  C12: a list changes nothing and answers with the page that its limit and offset select from the matching rooms, newest
  first, and with the number of all matching rooms; a limit outside 1 to 100 counts as 50 and a negative offset as 0.
\<close>

theorem pg_ListRooms_page:
  assumes "sql_rooms db A live ilike unique" and "live w" and "run_state (pg_ListRooms db opts) w = (x, w')"
  shows "A w' = A w \<and> (\<exists>ps. mset ps = mset (filter (selected ilike (cond_query opts) (cond_owner opts)) (A w)) \<and> newest_first ps \<and>
    x = Inr (take (if 0 < lo_Limit opts \<and> lo_Limit opts \<le> 100 then nat (lo_Limit opts) else 50) (drop (nat (lo_Offset opts)) ps),
      int (length ps)))"
proof -
  have "pg_page (lo_Limit opts) = (if 0 < lo_Limit opts \<and> lo_Limit opts \<le> 100 then nat (lo_Limit opts) else 50)"
    by (auto simp: pg_page_def normalizePage_def)
  then show ?thesis
    using ensuresD [OF sql_rooms.list_spec [OF assms(1)] assms(2), of opts] by (simp add: assms(3))
qed

text \<open>Fifty-one rooms and the limit of the cleanup sweep: one room is not on the page.\<close>

definition sample_room :: "nat \<Rightarrow> Room" where
  "sample_room n = \<lparr>rm_ID = FormatInt (int n), rm_Name = ''Film'', rm_OwnerID = ''u1'', rm_Visibility = ''public'', rm_PasswordHash = [],
     rm_CurrentVideo = [], rm_CreatedAt = int n * 1000, rm_UpdatedAt = int n * 1000\<rparr>"

lemma sample_rooms_distinct: "pw_distinct \<lparr>pw_rooms = map sample_room [0..<51], pw_now = 0\<rparr>"
  by code_simp

theorem pg_ListRooms_page_witness:
  "\<exists>l. fst (run_state (pg_ListRooms (sim_db (\<lambda>_ _. True)) \<lparr>lo_Limit = 500, lo_Offset = 0, lo_Query = [], lo_OwnerID = []\<rparr>)
     \<lparr>pw_rooms = map sample_room [0..<51], pw_now = 0\<rparr>) = Inr (l, 51) \<and> length l = 50"
proof -
  let ?w = "\<lparr>pw_rooms = map sample_room [0..<51], pw_now = 0\<rparr>"
  let ?opts = "\<lparr>lo_Limit = 500, lo_Offset = 0, lo_Query = [], lo_OwnerID = []\<rparr>"
  obtain x w' where run: "run_state (pg_ListRooms (sim_db (\<lambda>_ _. True)) ?opts) ?w = (x, w')"
    by (cases "run_state (pg_ListRooms (sim_db (\<lambda>_ _. True)) ?opts) ?w")
  from pg_ListRooms_page [OF sim.sql_rooms_axioms sample_rooms_distinct run] obtain ps :: "Room list"
    where ps: "mset ps = mset (map sample_room [0..<51])" and x: "x = Inr (take 50 ps, int (length ps))"
    by (auto simp: selected_def cond_query_def cond_owner_def)
  from mset_eq_length [OF ps] have "length ps = 51" by simp
  then show ?thesis by (simp add: run x)
qed

text \<open>
  Creating a room under a fresh id and looking it up gives back the room as the creation left it; under an id that is
  taken the creation answers with a conflict and changes nothing.
\<close>

theorem pg_created_then_found:
  assumes "sql_rooms db A live ilike unique" and "\<And>a. ensures live A clk a (\<lambda>t a'. a' = a)" and "live w"
    and "rm_ID r \<noteq> []" "rm_Visibility r \<noteq> []" "IsZero (rm_CreatedAt r)"
    and "run_state (pg_CreateRoom db unique clk newString r) w = (x, w1)" and "run_state (pg_GetRoomByID db (rm_ID r)) w1 = (y, w2)"
  shows "if rm_ID r \<in> rm_ID ` set (A w) then x = Inl ErrConflict \<and> A w2 = A w
    else \<exists>t. x = Inr (r\<lparr>rm_CreatedAt := t, rm_UpdatedAt := t\<rparr>) \<and> y = x \<and> A w2 = A w @ [r\<lparr>rm_CreatedAt := t, rm_UpdatedAt := t\<rparr>]"
  using ensuresD [OF sql_rooms.created_then_found [where newString = newString, OF assms(1,2,4,5,6)] assms(3)]
  by (simp add: assms(7,8))

theorem pg_created_then_found_witness:
  "\<exists>t. fst (run_state (do {
       pg_CreateRoom (sim_db (\<lambda>_ _. True)) (\<lambda>e. e = ErrDuplicate) (reads pw_now) (State_Monad.return ''new'') (sample_room 0);
       pg_GetRoomByID (sim_db (\<lambda>_ _. True)) ''0''}) \<lparr>pw_rooms = [sample_room 7], pw_now = 1234567\<rparr>) =
     Inr ((sample_room 0)\<lparr>rm_CreatedAt := t, rm_UpdatedAt := t\<rparr>)"
proof -
  let ?db = "sim_db (\<lambda>_ _. True)" and ?w = "\<lparr>pw_rooms = [sample_room 7], pw_now = 1234567\<rparr>"
  let ?create = "pg_CreateRoom ?db (\<lambda>e. e = ErrDuplicate) (reads pw_now) (State_Monad.return ''new'') (sample_room 0)"
  obtain x w1 where r1: "run_state ?create ?w = (x, w1)" by (cases "run_state ?create ?w")
  obtain y w2 where r2: "run_state (pg_GetRoomByID ?db (rm_ID (sample_room 0))) w1 = (y, w2)"
    by (cases "run_state (pg_GetRoomByID ?db (rm_ID (sample_room 0))) w1")
  have id0: "rm_ID (sample_room 0) = ''0''" and id7: "rm_ID (sample_room 7) = ''7''" by code_simp+
  have clk: "ensures pw_distinct pw_rooms (reads pw_now) a (\<lambda>t a'. a' = a)" for a by (simp add: ensures_def)
  have r: "pw_distinct ?w" "rm_ID (sample_room 0) \<noteq> []" "rm_Visibility (sample_room 0) \<noteq> []" "IsZero (rm_CreatedAt (sample_room 0))"
    by code_simp+
  have "\<exists>t. y = Inr ((sample_room 0)\<lparr>rm_CreatedAt := t, rm_UpdatedAt := t\<rparr>)"
    using pg_created_then_found [OF sim.sql_rooms_axioms clk r r1 r2] by (auto simp: id0 id7)
  then show ?thesis using r1 r2 by (auto simp: id0)
qed

end
