(* ===== verification/Postgres_Users.thy ===== *)
theory Postgres_Users
  imports Postgres_Rooms Auth_Contracts
begin

text \<open>
  The user store on PostgreSQL against the documented behaviour of its statements on the table of users, the locale
  \<open>sql_users\<close>: the outcome of each operation, conflicts included, and that the store keeps the contract \<open>user_store\<close>
  of the account service.  The table is that of the migrations, with its unique user names and its unique index on the
  folded e-mail addresses that are not empty.
\<close>

section \<open>The statements on a table\<close>

fun user_row :: "User \<Rightarrow> sqlrow" where
  "user_row u = [VText (u_ID u), VText (u_Email u), VText (u_Username u), VText (u_PasswordHash u), VText (u_Nickname u),
     VText (u_AvatarURL u), VText (u_Role u), VTime (u_CreatedAt u), VTime (u_UpdatedAt u)]"

definition user_update_args :: "User \<Rightarrow> gotime \<Rightarrow> sqlval list" where
  "user_update_args u now = [VText (u_Email u), VText (u_Username u), VText (u_PasswordHash u), VText (u_Nickname u),
     VText (u_AvatarURL u), VText (u_Role u), VTime now, VText (u_ID u)]"

text \<open>
  Another row has the same user name or an e-mail address with the same folding; \<open>low\<close> is \<open>LOWER\<close>.  The constraint on
  user names compares them as they are written.
\<close>

definition clashes :: "(string \<Rightarrow> string) \<Rightarrow> User \<Rightarrow> User \<Rightarrow> bool" where
  "clashes low u v \<longleftrightarrow> u_ID v \<noteq> u_ID u \<and>
     (u_Username v = u_Username u \<or> u_Email v \<noteq> [] \<and> u_Email u \<noteq> [] \<and> low (u_Email v) = low (u_Email u))"

definition taken :: "(string \<Rightarrow> string) \<Rightarrow> (string \<Rightarrow> User option) \<Rightarrow> User \<Rightarrow> bool" where
  "taken low m u \<longleftrightarrow> (\<exists>v\<in>ran m. clashes low u v)"

text \<open>The answer to a query for one row with the property \<open>P\<close>: no row, or one of them.\<close>

definition one_of :: "(User \<Rightarrow> bool) \<Rightarrow> (string \<Rightarrow> User option) \<Rightarrow> error + sqlrow \<Rightarrow> bool" where
  "one_of P m x \<longleftrightarrow>
     (case x of Inl e \<Rightarrow> e = ErrNoRows \<and> (\<forall>u\<in>ran m. \<not> P u) | Inr r \<Rightarrow> \<exists>u\<in>ran m. P u \<and> r = user_row u)"

locale sql_users =
  fixes db :: "'w SqlDB" and A :: "'w \<Rightarrow> auth_abs" and live :: "'w \<Rightarrow> bool" and low :: "string \<Rightarrow> string"
    and unique :: "error \<Rightarrow> bool" and clk :: "('w, gotime) io" and uid :: "('w, string) io"
  assumes user_rows: "live w \<Longrightarrow> aa_users (A w) i = Some u \<Longrightarrow> u_ID u = i \<and> user_ok u"
    and by_id_law: "ensures live A (db_QueryRow db sql_user_by_id [VText i]) a
      (\<lambda>x a'. a' = a \<and> x = (case aa_users a i of None \<Rightarrow> Inl ErrNoRows | Some u \<Rightarrow> Inr (user_row u)))"
    and by_name_law: "ensures live A (db_QueryRow db sql_user_by_name [VText n]) a
      (\<lambda>x a'. a' = a \<and> one_of (\<lambda>u. low (u_Username u) = low n) (aa_users a) x)"
    and by_email_law: "ensures live A (db_QueryRow db sql_user_by_email [VText m]) a
      (\<lambda>x a'. a' = a \<and> one_of (\<lambda>u. low (u_Email u) = low m) (aa_users a) x)"
    and insert_user_law: "user_ok u \<Longrightarrow> u_CreatedAt u mod 1000 = 0 \<Longrightarrow> u_UpdatedAt u mod 1000 = 0 \<Longrightarrow>
      ensures live A (db_Exec db sql_insert_user (user_row u)) a
      (\<lambda>x a'. if aa_users a (u_ID u) \<noteq> None \<or> taken low (aa_users a) u then a' = a \<and> (\<exists>e. x = Inl e \<and> unique e)
         else x = Inr (Inr 1) \<and> a' = a\<lparr>aa_users := (aa_users a)(u_ID u \<mapsto> u)\<rparr>)"
    and update_user_law: "user_ok u \<Longrightarrow> t mod 1000 = 0 \<Longrightarrow>
      ensures live A (db_Exec db sql_update_user (user_update_args u t)) a
      (\<lambda>x a'. case aa_users a (u_ID u) of
           None \<Rightarrow> x = Inr (Inr 0) \<and> a' = a
         | Some u0 \<Rightarrow> if taken low (aa_users a) u then a' = a \<and> (\<exists>e. x = Inl e \<and> unique e)
             else x = Inr (Inr 1) \<and>
               a' = a\<lparr>aa_users := (aa_users a)(u_ID u \<mapsto> u\<lparr>u_CreatedAt := u_CreatedAt u0, u_UpdatedAt := t\<rparr>)\<rparr>)"
    and time_law: "ensures live A clk a (\<lambda>t a'. aa_now a \<le> t \<and> a' = tick t a)"
    and uuid_law: "ensures live A uid a (\<lambda>x a'. x \<noteq> [] \<and> is_ascii x \<and> a' = a\<lparr>aa_ids := insert x (aa_ids a)\<rparr>)"

section \<open>The operations of the store\<close>

lemma scanUser_row [simp]: "scanUser (Inr (user_row u)) = Inr u"
  by (simp add: scanUser_def)

lemma scanUser_NoRows [simp]: "scanUser (Inl ErrNoRows) = Inl ErrNotFound"
  by (simp add: scanUser_def wrapNotFound_def)

definition one_user :: "(User \<Rightarrow> bool) \<Rightarrow> (string \<Rightarrow> User option) \<Rightarrow> error + User \<Rightarrow> bool" where
  "one_user P m x \<longleftrightarrow> (case x of Inl e \<Rightarrow> e = ErrNotFound \<and> (\<forall>u\<in>ran m. \<not> P u) | Inr u \<Rightarrow> u \<in> ran m \<and> P u)"

lemma one_user_scan: "one_of P m x \<Longrightarrow> one_user P m (scanUser x)"
  by (auto simp: one_of_def one_user_def simp del: user_row.simps split: sum.splits)

context sql_users
begin

lemma by_id_spec: "ensures live A (pg_GetUserByID db i) a
    (\<lambda>x a'. a' = a \<and> x = (case aa_users a i of None \<Rightarrow> Inl ErrNotFound | Some u \<Rightarrow> Inr u))"
  unfolding pg_GetUserByID_def
  by (rule ensures_step [OF by_id_law]) (auto simp del: user_row.simps intro!: ensures_return split: option.split)

lemma by_name_spec: "ensures live A (pg_GetUserByUsername db n) a
    (\<lambda>x a'. a' = a \<and> one_user (\<lambda>u. low (u_Username u) = low n) (aa_users a) x)"
  unfolding pg_GetUserByUsername_def
  by (rule ensures_step [OF by_name_law]) (auto intro!: ensures_return one_user_scan)

lemma by_email_spec: "ensures live A (pg_GetUserByEmail db m) a
    (\<lambda>x a'. a' = a \<and> one_user (\<lambda>u. low (u_Email u) = low m) (aa_users a) x)"
  unfolding pg_GetUserByEmail_def
  by (rule ensures_step [OF by_email_law]) (auto intro!: ensures_return one_user_scan)

lemma now_spec: "ensures live A (utcNow clk) a (\<lambda>t' a'. t' mod 1000 = 0 \<and> (\<exists>t\<ge>aa_now a. t' = to_micros t \<and> a' = tick t a))"
  unfolding utcNow_def by (rule ensures_step [OF time_law]) (auto simp: to_micros_def intro!: ensures_return)

text \<open>A creation fills in the id and the times; a clash answers with a conflict and leaves the table as it was.\<close>

lemma create_user_spec:
  assumes u: "u_ID u = []" "u_Role u \<noteq> []" "IsZero (u_CreatedAt u)" "is_ascii (u_Username u)" "is_ascii (u_Role u)"
  shows "ensures live A (pg_CreateUser db unique clk uid u) a
    (\<lambda>x a'. \<exists>t\<ge>aa_now a. \<exists>i v. v = u\<lparr>u_ID := i, u_CreatedAt := to_micros t, u_UpdatedAt := to_micros t\<rparr> \<and>
       (if aa_users a i \<noteq> None \<or> taken low (aa_users a) v
        then x = Inl ErrConflict \<and> a' = (tick t a)\<lparr>aa_ids := insert i (aa_ids a)\<rparr>
        else x = Inr v \<and> a' = (tick t a)\<lparr>aa_ids := insert i (aa_ids a), aa_users := (aa_users a)(i \<mapsto> v)\<rparr>))"
  unfolding pg_CreateUser_def
proof (rule ensures_step [OF now_spec], elim conjE exE, goal_cases)
  case (1 now a1 t)
  note t = 1
  show ?case
    unfolding bind_assoc if_P [OF u(1)]
  proof (rule ensures_step [OF uuid_law], elim conjE, goal_cases)
    case (1 i a2)
    let ?v = "u\<lparr>u_ID := i, u_CreatedAt := now, u_UpdatedAt := now\<rparr>"
    have ok: "user_ok ?v" "u_CreatedAt ?v mod 1000 = 0" "u_UpdatedAt ?v mod 1000 = 0"
      using u 1 t by (simp_all add: user_ok_def)
    have us: "aa_users a2 = aa_users a" using 1 t by simp
    note law = insert_user_law [OF ok, of a2, unfolded us, simplified]
    show ?case
      using u(2,3) apply (simp add: Let_def del: One_nat_def)
      apply (rule ensures_step [OF law])
      apply (rule ensures_return)
      apply (rule exI [of _ t])
      using t 1 by (auto simp: exec_err_def wrapConstraint_def split: if_splits)
  qed
qed

text \<open>An update keeps the stored time of creation.\<close>

lemma update_user_spec:
  assumes u: "user_ok u"
  shows "ensures live A (pg_UpdateUser db unique clk u) a
    (\<lambda>x a'. \<exists>t\<ge>aa_now a. case aa_users a (u_ID u) of
         None \<Rightarrow> x = Some ErrNotFound \<and> a' = tick t a
       | Some u0 \<Rightarrow> if taken low (aa_users a) u then x = Some ErrConflict \<and> a' = tick t a
           else x = None \<and> a' = (tick t a)\<lparr>aa_users := (aa_users a)
             (u_ID u \<mapsto> u\<lparr>u_CreatedAt := u_CreatedAt u0, u_UpdatedAt := to_micros t\<rparr>)\<rparr>)"
  unfolding pg_UpdateUser_def user_update_args_def [symmetric]
proof (rule ensures_step [OF now_spec], elim conjE exE, goal_cases)
  case (1 now a1 t)
  note t = 1
  show ?case
  proof (rule ensures_step [OF update_user_law [OF u t(1)]], goal_cases)
    case (1 x a2)
    then show ?case
      using t by (intro ensures_return exI [of _ t])
        (auto simp: exec_rows_def requireRows_def wrapConstraint_def split: option.splits if_splits)
  qed
qed

end

section \<open>The contract of the account service\<close>

sublocale sql_users \<subseteq> contract: user_store "pg_users db unique clk uid" A live "\<lambda>x y. low x = low y" "\<lambda>x y. low x = low y"
proof (unfold_locales, goal_cases)
  case (1 w i u)
  then show ?case by (rule user_rows)
next
  case (2 i a)
  show ?case unfolding pg_users_def UserStore.simps by (rule by_id_spec)
next
  case (3 m a)
  show ?case unfolding pg_users_def UserStore.simps by (rule by_email_spec [unfolded one_user_def])
next
  case (4 n a)
  show ?case unfolding pg_users_def UserStore.simps by (rule by_name_spec [unfolded one_user_def])
next
  case (5 u a)
  show ?case
    unfolding pg_users_def UserStore.simps
  proof (rule ensures_mono [OF create_user_spec [OF 5]], elim exE conjE, goal_cases)
    case (1 x a' t i v)
    then show ?case
      by (intro exI [of _ t] exI [of _ "insert i (aa_ids a)"]) (auto split: if_splits)
  qed
next
  case (6 u a)
  then have keep: "u\<lparr>u_CreatedAt := u_CreatedAt u0\<rparr> = u" if "aa_users a (u_ID u) = Some u0" for u0 using that by simp
  show ?case
    unfolding pg_users_def UserStore.simps
  proof (rule ensures_mono [OF update_user_spec [OF 6(1)]], elim exE conjE, goal_cases)
    case (1 x a' t)
    then show ?case
      by (intro exI [of _ t] exI [of _ "to_micros t"] conjI) (auto simp: keep split: option.splits if_splits)
  qed
qed

text \<open>
  A user name is used up by the same name, an e-mail address by one with the same folding; an account without an
  address uses up none.
\<close>

definition in_use :: "(string \<Rightarrow> string) \<Rightarrow> (string \<Rightarrow> User option) \<Rightarrow> User \<Rightarrow> bool" where
  "in_use low m u \<longleftrightarrow>
     (\<exists>v\<in>ran m. u_Username v = u_Username u \<or> u_Email v \<noteq> [] \<and> u_Email u \<noteq> [] \<and> low (u_Email v) = low (u_Email u))"

lemma in_use_taken:
  assumes "\<And>i v. m i = Some v \<Longrightarrow> u_ID v = i"
  shows "in_use low m u \<Longrightarrow> m (u_ID u) \<noteq> None \<or> taken low m u"
    and "taken low m u \<Longrightarrow> in_use low m u"
  using assms by (auto simp: in_use_def taken_def clashes_def ran_def)

lemma one_user_only:
  assumes "one_user P m x" and "v \<in> ran m" "P v" and "\<And>v'. v' \<in> ran m \<Longrightarrow> P v' \<Longrightarrow> v' = v"
  shows "x = Inr v"
proof (cases x)
  case (Inl e)
  then show ?thesis using assms(1-3) by (simp add: one_user_def)
next
  case (Inr u)
  then show ?thesis using assms(1) assms(4) [of u] by (simp add: one_user_def)
qed

context sql_users
begin

lemma contract_store: "user_store (pg_users db unique clk uid) A live (\<lambda>x y. low x = low y) (\<lambda>x y. low x = low y)"
  by (rule contract.user_store_axioms)

lemma find_created:
  assumes fold: "\<forall>x. low x = low [] \<longrightarrow> x = []"
    and w: "live w" and m: "aa_users (A w) = m(u_ID v \<mapsto> v)" "m (u_ID v) = None" and free: "\<not> in_use low m v"
  shows "fst (run_state (pg_GetUserByID db (u_ID v)) w) = Inr v"
    and "u_Email v \<noteq> [] \<Longrightarrow> low mail = low (u_Email v) \<Longrightarrow> fst (run_state (pg_GetUserByEmail db mail) w) = Inr v"
    and "\<forall>u\<in>ran m. low (u_Username u) \<noteq> low (u_Username v) \<Longrightarrow> low name = low (u_Username v) \<Longrightarrow>
      fst (run_state (pg_GetUserByUsername db name) w) = Inr v"
proof -
  have ran: "ran (aa_users (A w)) = insert v (ran m)" using m by simp
  show "fst (run_state (pg_GetUserByID db (u_ID v)) w) = Inr v"
    using ensuresD [OF by_id_spec w] m by simp
  show "fst (run_state (pg_GetUserByEmail db mail) w) = Inr v" if mail: "u_Email v \<noteq> []" "low mail = low (u_Email v)"
  proof (rule one_user_only)
    show "one_user (\<lambda>u. low (u_Email u) = low mail) (aa_users (A w)) (fst (run_state (pg_GetUserByEmail db mail) w))"
      using ensuresD [OF by_email_spec w] by simp
    fix v' assume v': "v' \<in> ran (aa_users (A w))" "low (u_Email v') = low mail"
    then have "u_Email v' \<noteq> []" using fold mail by metis
    then show "v' = v" using v' free mail by (auto simp: ran in_use_def)
  qed (use ran mail in auto)
  show "fst (run_state (pg_GetUserByUsername db name) w) = Inr v"
    if "\<forall>u\<in>ran m. low (u_Username u) \<noteq> low (u_Username v)" "low name = low (u_Username v)"
  proof (rule one_user_only)
    show "one_user (\<lambda>u. low (u_Username u) = low name) (aa_users (A w)) (fst (run_state (pg_GetUserByUsername db name) w))"
      using ensuresD [OF by_name_spec w] by simp
  qed (use ran that in auto)
qed

end

section \<open>A table in memory\<close>

text \<open>A server with the table of users that keeps the laws, its clock, and a counter for identifiers.\<close>

record PuWorld =
  pu_users :: "User list"
  pu_now :: gotime
  pu_next :: nat

definition user_at :: "User list \<Rightarrow> string \<Rightarrow> User option" where
  "user_at us i = find (\<lambda>u. u_ID u = i) us"

definition pu_uuid :: "nat \<Rightarrow> string" where
  "pu_uuid n = replicate (Suc n) (CHR ''u'')"

definition pu_accounts :: "PuWorld \<Rightarrow> auth_abs" where
  "pu_accounts w = \<lparr>aa_users = user_at (pu_users w), aa_refresh = Map.empty, aa_black = Map.empty, aa_codes = {},
     aa_ids = pu_uuid ` {..<pu_next w}, aa_now = pu_now w\<rparr>"

definition pu_live :: "PuWorld \<Rightarrow> bool" where
  "pu_live w \<longleftrightarrow> distinct (map u_ID (pu_users w)) \<and> list_all user_ok (pu_users w)"

definition pu_clock :: "(PuWorld, gotime) io" where
  "pu_clock = State (\<lambda>w. (pu_now w + 1, w\<lparr>pu_now := pu_now w + 1\<rparr>))"

definition pu_newString :: "(PuWorld, string) io" where
  "pu_newString = State (\<lambda>w. (pu_uuid (pu_next w), w\<lparr>pu_next := Suc (pu_next w)\<rparr>))"

definition pu_low :: "string \<Rightarrow> string" where
  "pu_low s = map lower_byte s"

definition pu_QueryRow :: "string \<Rightarrow> sqlval list \<Rightarrow> (PuWorld, error + sqlrow) io" where
  "pu_QueryRow sql args = reads (\<lambda>w.
     (let pick = (\<lambda>P. case find P (pu_users w) of None \<Rightarrow> Inl ErrNoRows | Some u \<Rightarrow> Inr (user_row u)) in
      case args of
        [VText s] \<Rightarrow>
          if sql = sql_user_by_id then pick (\<lambda>u. u_ID u = s)
          else if sql = sql_user_by_name then pick (\<lambda>u. pu_low (u_Username u) = pu_low s)
          else if sql = sql_user_by_email then pick (\<lambda>u. pu_low (u_Email u) = pu_low s)
          else Inl ErrSyntax
      | _ \<Rightarrow> Inl ErrSyntax))"

definition pu_Exec :: "string \<Rightarrow> sqlval list \<Rightarrow> (PuWorld, error + (error + int)) io" where
  "pu_Exec sql args = do {
     w \<leftarrow> State_Monad.get;
     let us = pu_users w in
     if sql = sql_insert_user then
       (case user_of_row args of
          None \<Rightarrow> State_Monad.return (Inl ErrSyntax)
        | Some u \<Rightarrow>
            if u_ID u \<in> u_ID ` set us \<or> list_ex (clashes pu_low u) us then State_Monad.return (Inl ErrDuplicate)
            else do {
              State_Monad.set (w\<lparr>pu_users := us @ [u\<lparr>u_CreatedAt := to_micros (u_CreatedAt u), u_UpdatedAt := to_micros (u_UpdatedAt u)\<rparr>]\<rparr>);
              State_Monad.return (Inr (Inr 1))
            })
     else if sql = sql_update_user then
       (case args of
          [VText email, VText name, VText h, VText nick, VText avatar, VText role, VTime t, VText i] \<Rightarrow>
            (case find (\<lambda>u. u_ID u = i) us of
               None \<Rightarrow> State_Monad.return (Inr (Inr 0))
             | Some u0 \<Rightarrow>
                 let u = u0\<lparr>u_Email := email, u_Username := name, u_PasswordHash := h, u_Nickname := nick, u_AvatarURL := avatar,
                   u_Role := role, u_UpdatedAt := to_micros t\<rparr> in
                 if list_ex (clashes pu_low u) us then State_Monad.return (Inl ErrDuplicate)
                 else do {
                   State_Monad.set (w\<lparr>pu_users := map (\<lambda>v. if u_ID v = i then u else v) us\<rparr>);
                   State_Monad.return (Inr (Inr 1))
                 })
        | _ \<Rightarrow> State_Monad.return (Inl ErrSyntax))
     else State_Monad.return (Inl ErrSyntax)
   }"

definition pu_db :: "PuWorld SqlDB" where
  "pu_db = \<lparr>db_QueryRow = pu_QueryRow, db_Query = \<lambda>_ _. State_Monad.return (Inl ErrSyntax), db_Exec = pu_Exec\<rparr>"

lemma pu_accounts_sel [simp]:
  "aa_users (pu_accounts w) = user_at (pu_users w)" "aa_now (pu_accounts w) = pu_now w"
  "aa_ids (pu_accounts w) = pu_uuid ` {..<pu_next w}"
  by (simp_all add: pu_accounts_def)

lemma pu_accounts_upd:
  "pu_accounts (w\<lparr>pu_users := us\<rparr>) = (pu_accounts w)\<lparr>aa_users := user_at us\<rparr>"
  "pu_accounts (w\<lparr>pu_now := t\<rparr>) = tick t (pu_accounts w)"
  "pu_accounts (w\<lparr>pu_next := Suc (pu_next w)\<rparr>) = (pu_accounts w)\<lparr>aa_ids := insert (pu_uuid (pu_next w)) (aa_ids (pu_accounts w))\<rparr>"
  by (simp_all add: pu_accounts_def tick_def lessThan_Suc)

lemma user_texts: "sql_user_by_name \<noteq> sql_user_by_id" "sql_user_by_email \<noteq> sql_user_by_id" "sql_user_by_email \<noteq> sql_user_by_name"
  "sql_update_user \<noteq> sql_insert_user"
  by (simp_all add: sql_user_by_id_def sql_user_by_name_def sql_user_by_email_def sql_update_user_def sql_insert_user_def)

lemma user_at_None: "user_at us i = None \<longleftrightarrow> i \<notin> u_ID ` set us"
  by (auto simp: user_at_def find_None_iff)

lemma user_at_Some: "user_at us i = Some u \<Longrightarrow> u \<in> set us \<and> u_ID u = i"
  by (auto simp: user_at_def find_Some_iff)

lemma user_at_simps [simp]: "user_at [] = Map.empty" "user_at (u # us) = (user_at us)(u_ID u \<mapsto> u)"
  by (auto simp: user_at_def)

lemma ran_user_at: "distinct (map u_ID us) \<Longrightarrow> ran (user_at us) = set us"
proof (induction us)
  case (Cons u us)
  then have "user_at us (u_ID u) = None" by (simp add: user_at_None)
  from ran_map_upd [where m = "user_at us", OF this, of u] Cons show ?case by (simp only: user_at_simps) simp
qed simp

lemma user_at_snoc: "user_at us (u_ID u) = None \<Longrightarrow> user_at (us @ [u]) = (user_at us)(u_ID u \<mapsto> u)"
  unfolding user_at_None by (induction us) (simp_all add: fun_upd_twist)

lemma user_at_map:
  assumes "u_ID u = i"
  shows "user_at (map (\<lambda>v. if u_ID v = i then u else v) us) = (if user_at us i = None then user_at us else (user_at us)(i \<mapsto> u))"
proof (induction us)
  case (Cons v us)
  then show ?case using assms by (auto simp: fun_eq_iff)
qed simp

lemma one_of_find:
  "distinct (map u_ID us) \<Longrightarrow>
    one_of P (user_at us) (case find P us of None \<Rightarrow> Inl ErrNoRows | Some u \<Rightarrow> Inr (user_row u))"
  by (auto simp: one_of_def ran_user_at find_None_iff find_Some_iff simp del: user_row.simps split: option.split)

lemma list_ex_taken: "distinct (map u_ID us) \<Longrightarrow> list_ex (clashes low u) us = taken low (user_at us) u"
  by (simp add: taken_def ran_user_at list_ex_iff)

text \<open>What the statements do in a live world.\<close>

lemma pu_insert_run:
  assumes w: "pu_live w" and t: "u_CreatedAt u mod 1000 = 0" "u_UpdatedAt u mod 1000 = 0"
  shows "run_state (pu_Exec sql_insert_user (user_row u)) w =
    (if user_at (pu_users w) (u_ID u) \<noteq> None \<or> taken pu_low (user_at (pu_users w)) u then (Inl ErrDuplicate, w)
     else (Inr (Inr 1), w\<lparr>pu_users := pu_users w @ [u]\<rparr>))"
proof -
  have "u\<lparr>u_CreatedAt := to_micros (u_CreatedAt u), u_UpdatedAt := to_micros (u_UpdatedAt u)\<rparr> = u"
    using t by (simp add: to_micros_id)
  moreover have "user_of_row (user_row u) = Some u" by simp
  ultimately show ?thesis
    using w by (simp add: pu_Exec_def pu_live_def Let_def list_ex_taken user_at_None del: user_row.simps User.update_convs)
qed

lemma pu_update_run:
  assumes w: "pu_live w" and t: "t mod 1000 = 0"
  shows "run_state (pu_Exec sql_update_user (user_update_args u t)) w =
    (case user_at (pu_users w) (u_ID u) of
       None \<Rightarrow> (Inr (Inr 0), w)
     | Some u0 \<Rightarrow> if taken pu_low (user_at (pu_users w)) u then (Inl ErrDuplicate, w)
         else (Inr (Inr 1), w\<lparr>pu_users := map (\<lambda>v. if u_ID v = u_ID u then u\<lparr>u_CreatedAt := u_CreatedAt u0, u_UpdatedAt := t\<rparr> else v)
           (pu_users w)\<rparr>))"
proof (cases "user_at (pu_users w) (u_ID u)")
  case None
  then have "find (\<lambda>v. u_ID v = u_ID u) (pu_users w) = None" by (simp add: user_at_def)
  then show ?thesis
    using None by (simp add: pu_Exec_def user_update_args_def user_texts Let_def)
next
  case (Some u0)
  then have f: "find (\<lambda>v. u_ID v = u_ID u) (pu_users w) = Some u0" by (simp add: user_at_def)
  have i: "u_ID u0 = u_ID u" using user_at_Some [OF Some] by simp
  have upd: "u0\<lparr>u_Email := u_Email u, u_Username := u_Username u, u_PasswordHash := u_PasswordHash u, u_Nickname := u_Nickname u,
      u_AvatarURL := u_AvatarURL u, u_Role := u_Role u, u_UpdatedAt := to_micros t\<rparr> = u\<lparr>u_CreatedAt := u_CreatedAt u0, u_UpdatedAt := t\<rparr>"
    using i t by (simp add: to_micros_id)
  have "taken pu_low m (u\<lparr>u_CreatedAt := u_CreatedAt u0, u_UpdatedAt := t\<rparr>) = taken pu_low m u" for m
    by (simp add: taken_def clashes_def)
  then show ?thesis
    using Some f w upd
    by (simp add: pu_Exec_def user_update_args_def user_texts Let_def pu_live_def list_ex_taken del: User.update_convs)
qed

lemma map_ids: "u_ID u = i \<Longrightarrow> map u_ID (map (\<lambda>v. if u_ID v = i then u else v) us) = map u_ID us"
  by simp

interpretation sim_users: sql_users pu_db pu_accounts pu_live pu_low "\<lambda>e. e = ErrDuplicate" pu_clock pu_newString
proof (unfold_locales, goal_cases)
  case (1 w i u)
  then show ?case by (auto simp: pu_live_def list_all_iff dest: user_at_Some)
next
  case (2 i a)
  show ?case by (rule ensuresI) (auto simp: pu_db_def pu_QueryRow_def user_at_def Let_def)
next
  case (3 n a)
  show ?case by (rule ensuresI) (auto simp: pu_db_def pu_QueryRow_def user_texts Let_def pu_live_def one_of_find)
next
  case (4 m a)
  show ?case by (rule ensuresI) (auto simp: pu_db_def pu_QueryRow_def user_texts Let_def pu_live_def one_of_find)
next
  case (5 u a)
  show ?case
  proof (rule ensuresI, goal_cases)
    case (1 w)
    have "pu_live (w\<lparr>pu_users := pu_users w @ [u]\<rparr>)" if "user_at (pu_users w) (u_ID u) = None"
      using 1(1) 5(1) that by (auto simp: pu_live_def user_at_None)
    then show ?case
      using 1 5 by (auto simp: pu_db_def pu_insert_run pu_accounts_upd user_at_snoc simp del: user_row.simps)
  qed
next
  case (6 u t a)
  show ?case
  proof (rule ensuresI, goal_cases)
    case (1 w)
    have "pu_live (w\<lparr>pu_users := map (\<lambda>v. if u_ID v = u_ID u then u\<lparr>u_CreatedAt := c, u_UpdatedAt := t\<rparr> else v) (pu_users w)\<rparr>)" for c
      using 1(1) 6(1) map_ids [of "u\<lparr>u_CreatedAt := c, u_UpdatedAt := t\<rparr>" "u_ID u" "pu_users w"]
      by (auto simp: pu_live_def list_all_iff user_ok_def simp del: map_map)
    then show ?case
      using 1 6 by (auto simp: pu_db_def pu_update_run pu_accounts_upd user_at_map split: option.splits)
  qed
next
  case (7 a)
  show ?case by (rule ensuresI) (auto simp: pu_clock_def pu_accounts_upd pu_live_def)
next
  case (8 a)
  show ?case
    by (rule ensuresI) (auto simp: pu_newString_def pu_accounts_upd pu_live_def pu_uuid_def is_ascii_def byte_def list_all_iff)
qed

section \<open>What the store promises\<close>

text \<open>
  C13: the user store on PostgreSQL keeps the contract that the account service relies on, with user names and e-mail
  addresses compared after folding, on every database that keeps the laws of its statements: lookups answer as on a map
  from ids to users, a creation adds one user under an id that was free or changes no user, and an update
  replaces one stored user or changes none.
\<close>

theorem pg_users_contract:
  assumes "sql_users db A live low unique clk uid"
  shows "user_store (pg_users db unique clk uid) A live (\<lambda>x y. low x = low y) (\<lambda>x y. low x = low y)"
  using assms by (rule sql_users.contract_store)

theorem pg_users_contract_witness:
  "user_store (pg_users pu_db (\<lambda>e. e = ErrDuplicate) pu_clock pu_newString) pu_accounts pu_live
     (\<lambda>x y. pu_low x = pu_low y) (\<lambda>x y. pu_low x = pu_low y)"
  by (rule pg_users_contract) (rule sim_users.sql_users_axioms)


text \<open>
  The names \<open>bob\<close> and \<open>Bob\<close> can both be stored, since the constraint compares them as they are written, while a lookup
  by name does not tell them apart; the account service folds a name before it stores it, so it relies on neither.  An
  e-mail address that is taken in another spelling is a conflict.
\<close>

definition new_user :: "string \<Rightarrow> string \<Rightarrow> User" where
  "new_user name mail = \<lparr>u_ID = [], u_Email = mail, u_Username = name, u_PasswordHash = ''h'', u_Nickname = name, u_AvatarURL = [],
     u_Role = UserRoleUser, u_CreatedAt = 0, u_UpdatedAt = 0\<rparr>"


theorem names_differ_in_case:
  "fst (run_state (do {
     x \<leftarrow> pg_CreateUser pu_db (\<lambda>e. e = ErrDuplicate) pu_clock pu_newString (new_user ''bob'' ''bob@example.org'');
     y \<leftarrow> pg_CreateUser pu_db (\<lambda>e. e = ErrDuplicate) pu_clock pu_newString (new_user ''Bob'' ''robert@example.org'');
     z \<leftarrow> pg_CreateUser pu_db (\<lambda>e. e = ErrDuplicate) pu_clock pu_newString (new_user ''rob'' ''BOB@example.org'');
     v \<leftarrow> pg_GetUserByUsername pu_db ''Bob'';
     State_Monad.return (map_sum id u_Username x, map_sum id u_Username y, map_sum id u_Username z, map_sum id u_Username v)
   }) \<lparr>pu_users = [], pu_now = 0, pu_next = 0\<rparr>) = (Inr ''bob'', Inr ''Bob'', Inl ErrConflict, Inr ''bob'')"
  by code_simp

end
