(* ===== verification/Pub_Sub.thy ===== *)
theory Pub_Sub
  imports Redis_Client "HOL-Library.Multiset"
begin

text \<open>
  The two publish/subscribe services, \<^verbatim>\<open>internal/cache/memory/pubsub.go\<close> and \<^verbatim>\<open>internal/cache/redis/pubsub.go\<close>.  A call of
  \<open>Publish\<close> in memory is not atomic: it copies the list of subscribers under the lock and sends after the lock is
  released, and a send to a full channel goes on in a goroutine of its own.  So the state holds the calls and goroutines
  that are under way, and the service is a step relation.  No handler of the server uses either service.
\<close>

section \<open>In memory\<close>

text \<open>A subscription's Go channel with its buffer of 16; the index in \<open>ps_chans\<close> is its identity.\<close>

record chan =
  ch_buf :: "string list"
  ch_closed :: bool

record PubSub =
  ps_subscribers :: "(string, nat list) gomap"
  ps_chans :: "chan list"
  ps_publishing :: "(nat list \<times> string) list"
  ps_waiting :: "(nat \<times> string) list"
  ps_panic :: bool

definition NewPubSub :: PubSub where
  "NewPubSub = \<lparr>ps_subscribers = [], ps_chans = [], ps_publishing = [], ps_waiting = [], ps_panic = False\<rparr>"

definition subscribers_of :: "PubSub \<Rightarrow> string \<Rightarrow> nat list" where
  "subscribers_of p channel = (case map_of (ps_subscribers p) channel of None \<Rightarrow> [] | Some ids \<Rightarrow> ids)"

definition ErrCanceled :: error where
  "ErrCanceled = OtherError ''context canceled''"

text \<open>\<open>ctxDone\<close>: the context was over when the call began.\<close>

definition Subscribe :: "bool \<Rightarrow> string \<Rightarrow> PubSub \<Rightarrow> (error + nat) \<times> PubSub" where
  "Subscribe ctxDone channel p =
     (if ctxDone then (Inl ErrCanceled, p)
      else
        let ch = length (ps_chans p) in
        (Inr ch, p\<lparr>ps_chans := ps_chans p @ [\<lparr>ch_buf = [], ch_closed = False\<rparr>],
           ps_subscribers := mput channel (ch # subscribers_of p channel) (ps_subscribers p)\<rparr>))"

definition close_chan :: "nat \<Rightarrow> PubSub \<Rightarrow> PubSub" where
  "close_chan ch p = p\<lparr>ps_chans := (ps_chans p)[ch := (ps_chans p ! ch)\<lparr>ch_closed := True\<rparr>]\<rparr>"

text \<open>The function that \<open>Subscribe\<close> returns; a second call does nothing (\<open>sync.Once\<close>).\<close>

definition unsubscribe :: "string \<Rightarrow> nat \<Rightarrow> PubSub \<Rightarrow> PubSub" where
  "unsubscribe channel ch p =
     (if ch_closed (ps_chans p ! ch) then p
      else
        let ids = removeAll ch (subscribers_of p channel) in
        close_chan ch
          (p\<lparr>ps_subscribers := (if ids = [] then mdelete channel (ps_subscribers p)
               else mput channel ids (ps_subscribers p))\<rparr>))"

text \<open>\<open>Publish\<close> up to the release of the lock; \<open>ids\<close> is the order in which the map of subscribers was walked.\<close>

definition publish_begin :: "bool \<Rightarrow> nat list \<Rightarrow> string \<Rightarrow> PubSub \<Rightarrow> error option \<times> PubSub" where
  "publish_begin ctxDone ids payload p =
     (if ctxDone then (Some ErrCanceled, p) else (None, p\<lparr>ps_publishing := ps_publishing p @ [(ids, payload)]\<rparr>))"

text \<open>One turn of its loop: a send on a closed channel panics, one on a full channel is left to a goroutine.\<close>

definition send :: "nat \<Rightarrow> string \<Rightarrow> PubSub \<Rightarrow> PubSub" where
  "send ch msg p =
     (let c = ps_chans p ! ch in
      if ch_closed c then p\<lparr>ps_panic := True\<rparr>
      else if length (ch_buf c) < 16 then p\<lparr>ps_chans := (ps_chans p)[ch := c\<lparr>ch_buf := ch_buf c @ [msg]\<rparr>]\<rparr>
      else p\<lparr>ps_waiting := ps_waiting p @ [(ch, msg)]\<rparr>)"

definition drop_nth :: "nat \<Rightarrow> 'a list \<Rightarrow> 'a list" where
  "drop_nth k xs = take k xs @ drop (Suc k) xs"

definition publish_next :: "nat \<Rightarrow> PubSub \<Rightarrow> PubSub" where
  "publish_next k p =
     (case ps_publishing p ! k of
        ([], payload) \<Rightarrow> p\<lparr>ps_publishing := drop_nth k (ps_publishing p)\<rparr>
      | (ch # ids, payload) \<Rightarrow> send ch payload (p\<lparr>ps_publishing := (ps_publishing p)[k := (ids, payload)]\<rparr>))"

text \<open>A goroutine goes on when its channel has room or is closed.\<close>

definition waiting_ready :: "nat \<Rightarrow> PubSub \<Rightarrow> bool" where
  "waiting_ready k p \<longleftrightarrow>
     (let c = ps_chans p ! fst (ps_waiting p ! k) in ch_closed c \<or> length (ch_buf c) < 16)"

definition waiting_next :: "nat \<Rightarrow> PubSub \<Rightarrow> PubSub" where
  "waiting_next k p =
     (let (ch, msg) = ps_waiting p ! k in send ch msg (p\<lparr>ps_waiting := drop_nth k (ps_waiting p)\<rparr>))"

definition receive :: "nat \<Rightarrow> PubSub \<Rightarrow> PubSub" where
  "receive ch p = p\<lparr>ps_chans := (ps_chans p)[ch := (ps_chans p ! ch)\<lparr>ch_buf := tl (ch_buf (ps_chans p ! ch))\<rparr>]\<rparr>"

inductive ps_step :: "PubSub \<Rightarrow> PubSub \<Rightarrow> bool" where
  subscribing: "\<not> ps_panic p \<Longrightarrow> ps_step p (snd (Subscribe ctxDone channel p))"
| unsubscribing: "\<not> ps_panic p \<Longrightarrow> ch \<in> set (subscribers_of p channel) \<or> ch < length (ps_chans p) \<and> ch_closed (ps_chans p ! ch) \<Longrightarrow>
    ps_step p (unsubscribe channel ch p)"
| publishing: "\<not> ps_panic p \<Longrightarrow> mset ids = mset (subscribers_of p channel) \<Longrightarrow>
    ps_step p (snd (publish_begin ctxDone ids payload p))"
| sending: "\<not> ps_panic p \<Longrightarrow> k < length (ps_publishing p) \<Longrightarrow> ps_step p (publish_next k p)"
| stopping: "\<not> ps_panic p \<Longrightarrow> k < length (ps_publishing p) \<Longrightarrow> ps_step p (p\<lparr>ps_publishing := drop_nth k (ps_publishing p)\<rparr>)"
| resuming: "\<not> ps_panic p \<Longrightarrow> k < length (ps_waiting p) \<Longrightarrow> waiting_ready k p \<Longrightarrow> ps_step p (waiting_next k p)"
| giving_up: "\<not> ps_panic p \<Longrightarrow> k < length (ps_waiting p) \<Longrightarrow> ps_step p (p\<lparr>ps_waiting := drop_nth k (ps_waiting p)\<rparr>)"
| receiving: "\<not> ps_panic p \<Longrightarrow> ch < length (ps_chans p) \<Longrightarrow> ch_buf (ps_chans p ! ch) \<noteq> [] \<Longrightarrow> ps_step p (receive ch p)"

inductive ps_reachable :: "PubSub \<Rightarrow> bool" where
  start: "ps_reachable NewPubSub"
| step: "ps_reachable p \<Longrightarrow> ps_step p q \<Longrightarrow> ps_reachable q"

inductive_cases ps_stepE: "ps_step p q"

section \<open>The invariant\<close>

definition open_chan :: "PubSub \<Rightarrow> nat \<Rightarrow> bool" where
  "open_chan p ch \<longleftrightarrow> ch < length (ps_chans p) \<and> \<not> ch_closed (ps_chans p ! ch)"

text \<open>
  A subscriber is listed once in one list, which is never empty; its channel is open; the calls under way know their
  channels; and no buffer holds more than 16 messages.
\<close>

definition ps_ok :: "PubSub \<Rightarrow> bool" where
  "ps_ok p \<longleftrightarrow>
     (\<forall>channel. map_of (ps_subscribers p) channel \<noteq> Some [] \<and> distinct (subscribers_of p channel) \<and>
        (\<forall>ch\<in>set (subscribers_of p channel). open_chan p ch \<and> (\<forall>c. ch \<in> set (subscribers_of p c) \<longrightarrow> c = channel))) \<and>
     (\<forall>x\<in>set (ps_publishing p). \<forall>ch\<in>set (fst x). ch < length (ps_chans p)) \<and>
     (\<forall>x\<in>set (ps_waiting p). fst x < length (ps_chans p)) \<and>
     (\<forall>c\<in>set (ps_chans p). length (ch_buf c) \<le> 16)"

lemma set_drop_nth: "set (drop_nth k xs) \<subseteq> set xs"
  by (auto simp: drop_nth_def dest: in_set_takeD in_set_dropD)

lemma ps_okD:
  assumes "ps_ok p"
  shows "ch \<in> set (subscribers_of p channel) \<Longrightarrow> open_chan p ch"
    and "k < length (ps_publishing p) \<Longrightarrow> ch \<in> set (fst (ps_publishing p ! k)) \<Longrightarrow> ch < length (ps_chans p)"
    and "k < length (ps_waiting p) \<Longrightarrow> fst (ps_waiting p ! k) < length (ps_chans p)"
  using assms by (auto simp: ps_ok_def)

text \<open>A change of the calls under way, and a change of one channel's buffer.\<close>

lemma ps_ok_flight:
  assumes "ps_ok p" and "\<forall>x\<in>set pub. \<forall>ch\<in>set (fst x). ch < length (ps_chans p)" and "\<forall>x\<in>set wait. fst x < length (ps_chans p)"
  shows "ps_ok (p\<lparr>ps_publishing := pub, ps_waiting := wait, ps_panic := b\<rparr>)"
  using assms by (simp add: ps_ok_def subscribers_of_def open_chan_def)

lemma ps_ok_buffer:
  assumes "ps_ok p" and "length buf \<le> 16"
  shows "ps_ok (p\<lparr>ps_chans := (ps_chans p)[ch := (ps_chans p ! ch)\<lparr>ch_buf := buf\<rparr>]\<rparr>)"
proof -
  let ?q = "p\<lparr>ps_chans := (ps_chans p)[ch := (ps_chans p ! ch)\<lparr>ch_buf := buf\<rparr>]\<rparr>"
  have "open_chan ?q c = open_chan p c" for c
    by (cases "c = ch"; cases "ch < length (ps_chans p)") (simp_all add: open_chan_def)
  moreover have "length (ch_buf c) \<le> 16" if "c \<in> set (ps_chans ?q)" for c
    using that assms by (auto simp: ps_ok_def dest!: set_mp [OF set_update_subset_insert])
  ultimately show ?thesis using assms(1) by (simp add: ps_ok_def subscribers_of_def)
qed

lemma ps_ok_send: "ps_ok p \<Longrightarrow> ch < length (ps_chans p) \<Longrightarrow> ps_ok (send ch msg p)"
  using ps_ok_flight [of p "ps_publishing p" "ps_waiting p" True] ps_ok_flight [of p "ps_publishing p" "ps_waiting p @ [(ch, msg)]" "ps_panic p"]
    ps_ok_buffer [of p "ch_buf (ps_chans p ! ch) @ [msg]" ch]
  by (auto simp: send_def Let_def ps_ok_def)

lemma subscribers_Subscribe:
  "subscribers_of (snd (Subscribe False channel p)) c = (if c = channel then length (ps_chans p) # subscribers_of p c else subscribers_of p c)"
  by (simp add: Subscribe_def subscribers_of_def update_conv' Let_def)

lemma ps_ok_Subscribe: 
  assumes "ps_ok p"
  shows "ps_ok (snd (Subscribe ctxDone channel p))"
proof (cases ctxDone)
  case True
  then show ?thesis using assms by (simp add: Subscribe_def)
next
  case False
  let ?q = "snd (Subscribe False channel p)"
  have chans: "ps_chans ?q = ps_chans p @ [\<lparr>ch_buf = [], ch_closed = False\<rparr>]" by (simp add: Subscribe_def Let_def)
  have opn: "open_chan ?q c \<longleftrightarrow> open_chan p c \<or> c = length (ps_chans p)" for c
    by (auto simp: open_chan_def chans nth_append)
  have fresh: "c \<noteq> length (ps_chans p)" if "c \<in> set (subscribers_of p c')" for c c'
    using ps_okD(1) [OF assms that] by (auto simp: open_chan_def)
  have keys: "map_of (ps_subscribers ?q) c \<noteq> Some []" for c
    using assms by (auto simp: Subscribe_def update_conv' ps_ok_def Let_def)
  have flight: "ps_publishing ?q = ps_publishing p" "ps_waiting ?q = ps_waiting p" by (simp_all add: Subscribe_def Let_def)
  have "ps_ok ?q"
    unfolding ps_ok_def flight
    using assms fresh keys by (auto simp: ps_ok_def subscribers_Subscribe opn chans less_SucI)
  then show ?thesis using False by simp
qed

lemma ps_ok_unsubscribe:
  assumes "ps_ok p" and "ch \<in> set (subscribers_of p channel) \<or> ch_closed (ps_chans p ! ch)"
  shows "ps_ok (unsubscribe channel ch p)"
proof (cases "ch_closed (ps_chans p ! ch)")
  case True
  then show ?thesis using assms by (simp add: unsubscribe_def)
next
  case False
  let ?q = "unsubscribe channel ch p"
  have ch: "ch \<in> set (subscribers_of p channel)" using assms False by simp
  have chans: "ps_chans ?q = (ps_chans p)[ch := (ps_chans p ! ch)\<lparr>ch_closed := True\<rparr>]"
    using False by (simp add: unsubscribe_def close_chan_def Let_def)
  have subs: "subscribers_of ?q c = (if c = channel then removeAll ch (subscribers_of p c) else subscribers_of p c)" for c
    using False by (simp add: unsubscribe_def close_chan_def Let_def subscribers_of_def delete_conv' update_conv')
  have keys: "map_of (ps_subscribers ?q) c \<noteq> Some []" for c
    using False assms(1) by (auto simp: unsubscribe_def close_chan_def Let_def delete_conv' update_conv' ps_ok_def)
  have opn: "open_chan ?q c \<longleftrightarrow> open_chan p c \<and> c \<noteq> ch" for c
    using ps_okD(1) [OF assms(1) ch] by (auto simp: open_chan_def chans nth_list_update)
  have bufs: "\<forall>c\<in>set (ps_chans ?q). length (ch_buf c) \<le> 16"
    using assms(1) ps_okD(1) [OF assms(1) ch] unfolding chans
    by (auto simp: ps_ok_def open_chan_def dest!: set_mp [OF set_update_subset_insert])
  have flight: "ps_publishing ?q = ps_publishing p" "ps_waiting ?q = ps_waiting p" "length (ps_chans ?q) = length (ps_chans p)"
    by (simp_all add: unsubscribe_def close_chan_def Let_def)
  have only: "c = channel" if "ch \<in> set (subscribers_of p c)" for c
    using assms(1) ch that by (auto simp: ps_ok_def)
  show ?thesis
    unfolding ps_ok_def flight
    using assms(1) keys bufs only by (auto simp: ps_ok_def subs opn distinct_removeAll)
qed

lemma ps_ok_publish_next:
  assumes "ps_ok p" and "k < length (ps_publishing p)"
  shows "ps_ok (publish_next k p)"
proof -
  obtain ids payload where k: "ps_publishing p ! k = (ids, payload)" by (cases "ps_publishing p ! k")
  have flight: "\<forall>x\<in>set (ps_publishing p). \<forall>ch\<in>set (fst x). ch < length (ps_chans p)" "\<forall>x\<in>set (ps_waiting p). fst x < length (ps_chans p)"
    using assms(1) by (simp_all add: ps_ok_def)
  show ?thesis
  proof (cases ids)
    case Nil
    have "ps_ok (p\<lparr>ps_publishing := drop_nth k (ps_publishing p), ps_waiting := ps_waiting p, ps_panic := ps_panic p\<rparr>)"
      using assms(1) flight set_drop_nth [of k "ps_publishing p"] by (intro ps_ok_flight) blast+
    then show ?thesis by (simp add: publish_next_def k Nil)
  next
    case (Cons ch rest)
    have ids: "\<forall>ch\<in>set ids. ch < length (ps_chans p)" using ps_okD(2) [OF assms] by (simp add: k)
    have "ps_ok (p\<lparr>ps_publishing := (ps_publishing p)[k := (rest, payload)], ps_waiting := ps_waiting p, ps_panic := ps_panic p\<rparr>)"
    proof (intro ps_ok_flight [OF assms(1) _ flight(2)] ballI)
      fix x c
      assume "x \<in> set ((ps_publishing p)[k := (rest, payload)])" and "c \<in> set (fst x)"
      then show "c < length (ps_chans p)"
        using set_update_subset_insert [of "ps_publishing p" k "(rest, payload)"] flight(1) ids Cons by auto
    qed
    then show ?thesis
      using ids Cons by (simp add: publish_next_def k ps_ok_send)
  qed
qed

lemma ps_ok_waiting_next:
  assumes "ps_ok p" and "k < length (ps_waiting p)"
  shows "ps_ok (waiting_next k p)"
proof -
  have "ps_ok (p\<lparr>ps_publishing := ps_publishing p, ps_waiting := drop_nth k (ps_waiting p), ps_panic := ps_panic p\<rparr>)"
    using assms(1) set_drop_nth [of k "ps_waiting p"] by (intro ps_ok_flight) (auto simp: ps_ok_def)
  then show ?thesis
    using ps_okD(3) [OF assms] by (auto simp: waiting_next_def ps_ok_send split: prod.split)
qed

lemma ps_ok_step:
  assumes "ps_step p q" and "ps_ok p"
  shows "ps_ok q"
  using assms
proof (cases rule: ps_step.cases)
  case (unsubscribing ch channel)
  then show ?thesis using assms(2) by (blast intro: ps_ok_unsubscribe)
next
  case (publishing ids channel ctxDone payload)
  have "\<forall>x\<in>set (ps_publishing p @ [(ids, payload)]). \<forall>ch\<in>set (fst x). ch < length (ps_chans p)"
    using assms(2) ps_okD(1) [OF assms(2), of _ channel] mset_eq_setD [OF publishing(3)] by (auto simp: ps_ok_def open_chan_def)
  then have "ps_ok (p\<lparr>ps_publishing := ps_publishing p @ [(ids, payload)], ps_waiting := ps_waiting p, ps_panic := ps_panic p\<rparr>)"
    using assms(2) by (intro ps_ok_flight) (auto simp: ps_ok_def)
  then show ?thesis using publishing(1) assms(2) by (simp add: publish_begin_def)
next
  case (stopping k)
  have "ps_ok (p\<lparr>ps_publishing := drop_nth k (ps_publishing p), ps_waiting := ps_waiting p, ps_panic := ps_panic p\<rparr>)"
    using assms(2) set_drop_nth [of k "ps_publishing p"] by (intro ps_ok_flight) (auto simp: ps_ok_def)
  then show ?thesis using stopping(1) by simp
next
  case (giving_up k)
  have "ps_ok (p\<lparr>ps_publishing := ps_publishing p, ps_waiting := drop_nth k (ps_waiting p), ps_panic := ps_panic p\<rparr>)"
    using assms(2) set_drop_nth [of k "ps_waiting p"] by (intro ps_ok_flight) (auto simp: ps_ok_def)
  then show ?thesis using giving_up(1) by simp
next
  case (receiving ch)
  have "length (ch_buf (ps_chans p ! ch)) \<le> 16" using assms(2) receiving(3) by (simp add: ps_ok_def)
  then show ?thesis unfolding receiving(1) receive_def using assms(2) by (intro ps_ok_buffer) simp_all
qed (simp_all add: ps_ok_Subscribe ps_ok_publish_next ps_ok_waiting_next assms(2))

text \<open>
  Whatever calls, goroutines and readers do in whatever order, a listed subscriber has an open channel of its own,
  listed under one name and once, an empty list is never kept, and no buffer holds more than 16 messages.
\<close>

theorem pubsub_invariant: "ps_reachable p \<Longrightarrow> ps_ok p"
proof (induction rule: ps_reachable.induct)
  case start
  show ?case by (simp add: ps_ok_def NewPubSub_def subscribers_of_def)
qed (rule ps_ok_step)

section \<open>A send on a closed channel\<close>

text \<open>One subscriber; a call of \<open>Publish\<close> has copied the list; the subscriber leaves; the call goes on.\<close>

definition race :: "PubSub list" where
  "race =
     (let p1 = snd (Subscribe False ''room'' NewPubSub);
          p2 = snd (publish_begin False [0] ''hello'' p1);
          p3 = unsubscribe ''room'' 0 p2
      in [p1, p2, p3, publish_next 0 p3])"

lemma race_run: "ps_reachable (race ! 3) \<and> ps_panic (race ! 3)"
proof -
  define p1 where "p1 = snd (Subscribe False ''room'' NewPubSub)"
  define p2 where "p2 = snd (publish_begin False [0] ''hello'' p1)"
  define p3 where "p3 = unsubscribe ''room'' 0 p2"
  have subs: "subscribers_of p1 ''room'' = [0]" "subscribers_of p2 ''room'' = [0]" and run: "\<not> ps_panic p1" "\<not> ps_panic p2" "\<not> ps_panic p3"
    "ps_publishing p3 = [([0], ''hello'')]"
    by (simp_all add: p1_def p2_def p3_def Subscribe_def publish_begin_def unsubscribe_def close_chan_def NewPubSub_def subscribers_of_def Let_def)
  have "ps_reachable p1"
    unfolding p1_def by (rule ps_reachable.step [OF ps_reachable.start ps_step.subscribing]) (simp add: NewPubSub_def)
  then have "ps_reachable p2"
    unfolding p2_def by (rule ps_reachable.step) (rule ps_step.publishing [where channel = "''room''"], simp_all add: run subs)
  then have "ps_reachable p3"
    unfolding p3_def by (rule ps_reachable.step) (rule ps_step.unsubscribing, simp_all add: run subs)
  then have "ps_reachable (publish_next 0 p3)"
    by (rule ps_reachable.step) (rule ps_step.sending, simp_all add: run)
  moreover have "race ! 3 = publish_next 0 p3"
    by (simp add: race_def p1_def p2_def p3_def Let_def numeral_3_eq_3)
  moreover have "ps_panic (publish_next 0 p3)"
    by (simp add: p1_def p2_def p3_def Subscribe_def publish_begin_def publish_next_def send_def unsubscribe_def close_chan_def
        NewPubSub_def subscribers_of_def Let_def)
  ultimately show ?thesis by simp
qed

theorem pubsub_invariant_witness: "ps_ok (race ! 3) \<and> ps_chans (race ! 3) \<noteq> []"
  using pubsub_invariant [OF race_run [THEN conjunct1]]
  by (simp add: race_def Let_def numeral_3_eq_3 Subscribe_def publish_begin_def publish_next_def send_def unsubscribe_def
      close_chan_def NewPubSub_def subscribers_of_def)

text \<open>
  C34: the service can panic: there is a run in which a subscriber leaves between the copy of the list and the send, and
  the send of \<open>Publish\<close> meets a closed channel.
\<close>

theorem publish_can_panic: "\<exists>p. ps_reachable p \<and> ps_panic p"
  using race_run by blast

text \<open>The panic needs a call or a goroutine that still has a closed channel before it.\<close>

definition no_stale_send :: "PubSub \<Rightarrow> bool" where
  "no_stale_send p \<longleftrightarrow> (\<forall>x\<in>set (ps_publishing p). \<forall>ch\<in>set (fst x). open_chan p ch) \<and> (\<forall>x\<in>set (ps_waiting p). open_chan p (fst x))"

lemma send_open: "open_chan p ch \<Longrightarrow> ps_panic (send ch msg p) = ps_panic p"
  by (simp add: send_def open_chan_def Let_def)

lemma panic_needs_stale_send:
  assumes "ps_step p q" and "no_stale_send p"
  shows "\<not> ps_panic q"
  using assms
proof (cases rule: ps_step.cases)
  case (sending k)
  obtain ids payload where k: "ps_publishing p ! k = (ids, payload)" by (cases "ps_publishing p ! k")
  have "\<forall>ch\<in>set ids. open_chan p ch"
    using assms(2) nth_mem [OF sending(3)] k by (fastforce simp: no_stale_send_def)
  then show ?thesis
    using sending(2) unfolding sending(1) publish_next_def k
    by (cases ids) (simp_all add: send_def open_chan_def Let_def)
next
  case (resuming k)
  obtain ch msg where k: "ps_waiting p ! k = (ch, msg)" by (cases "ps_waiting p ! k")
  have "open_chan p ch"
    using assms(2) nth_mem [OF resuming(3)] k by (fastforce simp: no_stale_send_def)
  then show ?thesis
    using resuming(2) unfolding resuming(1) waiting_next_def k by (simp add: send_def open_chan_def Let_def)
qed (auto simp: Subscribe_def unsubscribe_def close_chan_def publish_begin_def receive_def Let_def)

section \<open>On Redis\<close>

definition rc_Publish :: "'w Redis \<Rightarrow> string \<Rightarrow> string \<Rightarrow> ('w, error option) io" where
  "rc_Publish rd channel payload = do_err rd (PUBLISH channel payload)"

text \<open>
  The subscription of the client library: its first reply, closing it, and the messages that its channel gives out.
  \<open>forward\<close> is the goroutine of \<open>Subscribe\<close>: \<open>Taken\<close> means that the reader had room for the message, \<open>Cancelled\<close> that the
  context ended first.  Its result is what the reader's channel was given before it was closed.
\<close>

datatype source_event = SourceMessage string | SourceClosed | ContextDone
datatype reader_event = Taken | Cancelled

fun forward :: "(source_event \<times> reader_event) list \<Rightarrow> string list" where
  "forward [] = []"
| "forward ((ContextDone, _) # es) = []"
| "forward ((SourceClosed, _) # es) = []"
| "forward ((SourceMessage m, Taken) # es) = m # forward es"
| "forward ((SourceMessage m, Cancelled) # es) = []"

record 'w RedisSub =
  rs_Receive :: "('w, error option) io"
  rs_Close :: "('w, error option) io"

definition rc_Subscribe ::
  "(string \<Rightarrow> ('w, 'w RedisSub) io) \<Rightarrow> string \<Rightarrow> ('w, error + ((source_event \<times> reader_event) list \<Rightarrow> string list)) io" where
  "rc_Subscribe subscribe channel = do {
     pubsub \<leftarrow> subscribe channel;
     r \<leftarrow> rs_Receive pubsub;
     case r of
       Some err \<Rightarrow> do { _ \<leftarrow> rs_Close pubsub; State_Monad.return (Inl err) }
     | None \<Rightarrow> State_Monad.return (Inr forward)
   }"

lemma forward_prefix: "forward es = map (\<lambda>e. case fst e of SourceMessage m \<Rightarrow> m) (take (length (forward es)) es)"
  by (induction es rule: forward.induct) auto

end
