(* ===== verification/Tool_Check.thy ===== *)
theory Tool_Check
  imports Model Go_Text
begin

text \<open>
  Looking for external programs, \<^verbatim>\<open>pkg/toolcheck/toolcheck.go\<close>.  Finding and running a program is up to the operating
  system: \<open>lookPath\<close> and \<open>runCmd\<close> are parameters.
\<close>

definition DefaultTimeout :: duration where
  "DefaultTimeout = 5 * Second"

record Result =
  re_Name :: string
  re_Found :: bool
  re_Available :: bool
  re_Path :: string
  re_Version :: string
  re_Error :: string

text \<open>How a command ends: its output, the text of its error if any, and whether the deadline had passed.\<close>

record cmd_end =
  ce_out :: string
  ce_err :: "string option"
  ce_late :: bool

fun first_nonblank :: "string list \<Rightarrow> string" where
  "first_nonblank [] = []"
| "first_nonblank (l # ls) = (let line = TrimSpace l in if line \<noteq> [] then line else first_nonblank ls)"

definition firstLine :: "string \<Rightarrow> string" where
  "firstLine s = first_nonblank (SplitByte (CHR 0x0A) s)"

definition Check ::
  "(string \<Rightarrow> ('w, error + string) io) \<Rightarrow> (string \<Rightarrow> string list \<Rightarrow> duration \<Rightarrow> ('w, cmd_end) io) \<Rightarrow>
   string \<Rightarrow> string list \<Rightarrow> duration \<Rightarrow> ('w, Result) io" where
  "Check lookPath runCmd name args0 timeout0 =
     (let result = \<lparr>re_Name = name, re_Found = False, re_Available = False, re_Path = [], re_Version = [], re_Error = []\<rparr> in do {
     p \<leftarrow> lookPath name;
     case p of
       Inl err \<Rightarrow> State_Monad.return (result\<lparr>re_Error := ''not found in PATH''\<rparr>)
     | Inr path \<Rightarrow>
         let found = result\<lparr>re_Found := True, re_Path := path\<rparr>;
             args = (if length args0 = 0 then [''--version''] else args0);
             timeout = (if timeout0 \<le> 0 then DefaultTimeout else timeout0) in do {
         e \<leftarrow> runCmd path args timeout;
         State_Monad.return
           (case ce_err e of
              Some err \<Rightarrow> found\<lparr>re_Error := (if ce_late e then ''version check timed out'' else err)\<rparr>
            | None \<Rightarrow> found\<lparr>re_Available := True, re_Version := firstLine (ce_out e)\<rparr>)
         }
     })"

lemma first_nonblank_trimmed: "first_nonblank ls \<noteq> [] \<Longrightarrow> \<exists>l\<in>set ls. first_nonblank ls = TrimSpace l"
  by (induction ls) (auto simp: Let_def split: if_splits)

text \<open>
  A tool counts as available exactly when it was found and ran without an error; a tool that is not available always
  carries an error text, unless the error of the command has none.
\<close>

lemma Check_result:
  assumes "fst (run_state (Check lookPath runCmd name args timeout) w) = r"
  shows "re_Name r = name \<and> (re_Available r \<longrightarrow> re_Found r \<and> re_Error r = []) \<and> (\<not> re_Found r \<longrightarrow> re_Error r = ''not found in PATH'') \<and>
    (\<not> re_Available r \<longrightarrow> re_Version r = [])"
  using assms by (auto simp: Check_def Let_def case_prod_beta split: sum.splits option.splits)

end
