(* ===== verification/Go_Json_Text.thy ===== *)
theory Go_Json_Text
  imports Go_Text
begin

text \<open>
  The text that \<^verbatim>\<open>encoding/json\<close> writes for a string, escapes for HTML included, and a reader of such texts: what is read
  back is the string with each byte that belongs to no rune replaced by U+FFFD, and nothing that stands after the closing
  quote is touched.
\<close>

section \<open>Writing\<close>

definition quote :: char where "quote = CHR 0x22"
definition backslash :: char where "backslash = CHR 0x5C"

text \<open>\<open>htmlSafeSet\<close> of \<^verbatim>\<open>encoding/json\<close>, for a byte below 0x80.\<close>

definition html_safe :: "char \<Rightarrow> bool" where
  "html_safe c \<longleftrightarrow> 32 \<le> byte c \<and> c \<noteq> quote \<and> c \<noteq> backslash \<and> c \<noteq> CHR ''&'' \<and> c \<noteq> CHR ''<'' \<and> c \<noteq> CHR ''>''"

definition nibble :: "int \<Rightarrow> char" where
  "nibble k = ''0123456789abcdef'' ! nat k"

definition json_escape :: "char \<Rightarrow> string" where
  "json_escape c =
     (if c = quote \<or> c = backslash then [backslash, c]
      else if c = CHR 0x08 then [backslash, CHR ''b'']
      else if c = CHR 0x0C then [backslash, CHR ''f'']
      else if c = CHR 0x0A then [backslash, CHR ''n'']
      else if c = CHR 0x0D then [backslash, CHR ''r'']
      else if c = CHR 0x09 then [backslash, CHR ''t'']
      else [backslash, CHR ''u'', CHR ''0'', CHR ''0'', nibble (byte c div 16), nibble (byte c mod 16)])"

function json_chars :: "string \<Rightarrow> string" where
  "json_chars [] = []"
| "json_chars (c # s) =
     (if byte c < 128 then (if html_safe c then [c] else json_escape c) @ json_chars s
      else
        (if rune_len (c # s) = 1 then backslash # ''ufffd''
         else if take 3 (c # s) = [CHR 0xE2, CHR 0x80, CHR 0xA8] then backslash # ''u2028''
         else if take 3 (c # s) = [CHR 0xE2, CHR 0x80, CHR 0xA9] then backslash # ''u2029''
         else take (rune_len (c # s)) (c # s)) @ json_chars (drop (rune_len (c # s)) (c # s)))"
  by pat_completeness auto
termination by (relation "measure length") (auto simp del: drop_Suc_Cons)

definition json_string :: "string \<Rightarrow> string" where
  "json_string s = quote # json_chars s @ [quote]"

text \<open>A list of strings, as \<open>Marshal\<close> writes a \<open>[]string\<close>, and an object with one such member.\<close>

fun json_joined :: "string list \<Rightarrow> string" where
  "json_joined [] = []"
| "json_joined [x] = json_string x"
| "json_joined (x # y # xs) = json_string x @ CHR '','' # json_joined (y # xs)"

definition json_strings :: "string list \<Rightarrow> string" where
  "json_strings xs = CHR ''['' # json_joined xs @ '']''"

definition json_member :: "string \<Rightarrow> string list \<Rightarrow> string" where
  "json_member k xs = CHR ''{'' # json_string k @ CHR '':'' # json_strings xs @ ''}''"

section \<open>Reading\<close>

definition unhex :: "char \<Rightarrow> int option" where
  "unhex c =
     (if is_digit c then Some (byte c - 48)
      else if 97 \<le> byte c \<and> byte c \<le> 102 then Some (byte c - 87)
      else if 65 \<le> byte c \<and> byte c \<le> 70 then Some (byte c - 55) else None)"

fun unhex4 :: "string \<Rightarrow> int option" where
  "unhex4 (c # d # e # f # s) =
     (case (unhex c, unhex d, unhex e, unhex f) of
        (Some i, Some j, Some k, Some l) \<Rightarrow> Some (4096 * i + 256 * j + 16 * k + l)
      | _ \<Rightarrow> None)"
| "unhex4 _ = None"

definition chr :: "int \<Rightarrow> char" where
  "chr k = char_of (nat k)"

text \<open>The UTF-8 encoding of a code point below 0x10000.\<close>

definition utf8 :: "int \<Rightarrow> string" where
  "utf8 k =
     (if k < 128 then [chr k]
      else if k < 2048 then [chr (192 + k div 64), chr (128 + k mod 64)]
      else [chr (224 + k div 4096), chr (128 + k div 64 mod 64), chr (128 + k mod 64)])"

definition unescape :: "char \<Rightarrow> char option" where
  "unescape c =
     (if c = quote \<or> c = backslash \<or> c = CHR ''/'' then Some c
      else if c = CHR ''b'' then Some (CHR 0x08)
      else if c = CHR ''f'' then Some (CHR 0x0C)
      else if c = CHR ''n'' then Some (CHR 0x0A)
      else if c = CHR ''r'' then Some (CHR 0x0D)
      else if c = CHR ''t'' then Some (CHR 0x09) else None)"

text \<open>From behind the opening quote: the characters up to the closing quote, and what follows it.\<close>

function json_read :: "string \<Rightarrow> (string \<times> string) option" where
  "json_read [] = None"
| "json_read (c # s) =
     (if c = quote then Some ([], s)
      else if c \<noteq> backslash then map_option (apfst (Cons c)) (json_read s)
      else
        (case s of
           [] \<Rightarrow> None
         | d # r \<Rightarrow>
             if d = CHR ''u'' then
               (case unhex4 r of None \<Rightarrow> None | Some k \<Rightarrow> map_option (apfst ((@) (utf8 k))) (json_read (drop 4 r)))
             else (case unescape d of None \<Rightarrow> None | Some x \<Rightarrow> map_option (apfst (Cons x)) (json_read r))))"
  by pat_completeness auto
termination by (relation "measure length") auto

fun read_joined :: "nat \<Rightarrow> string \<Rightarrow> (string list \<times> string) option" where
  "read_joined 0 s = None"
| "read_joined (Suc n) s =
     (case s of
        [] \<Rightarrow> None
      | c # r \<Rightarrow>
          if c \<noteq> quote then None
          else
            (case json_read r of
               None \<Rightarrow> None
             | Some (x, []) \<Rightarrow> None
             | Some (x, d # t) \<Rightarrow>
                 if d = CHR '','' then map_option (apfst (Cons x)) (read_joined n t)
                 else if d = CHR '']'' then Some ([x], t) else None))"

text \<open>An object with exactly one member, a list of strings, and nothing behind it.\<close>

definition read_member :: "string \<Rightarrow> (string \<times> string list) option" where
  "read_member s =
     (case s of
        a # b # r \<Rightarrow>
          if a = CHR ''{'' \<and> b = quote then
            (case json_read r of
               Some (k, c # d # t) \<Rightarrow>
                 if c = CHR '':'' \<and> d = CHR ''['' then
                   (case read_joined (length t) t of Some (xs, ''}'') \<Rightarrow> Some (k, xs) | _ \<Rightarrow> None)
                 else None
             | _ \<Rightarrow> None)
          else None
      | _ \<Rightarrow> None)"

section \<open>Round trip\<close>

text \<open>\<open>strings.ToValidUTF8\<close> with U+FFFD: each byte that starts no rune is replaced.\<close>

function to_valid :: "string \<Rightarrow> string" where
  "to_valid [] = []"
| "to_valid (c # s) =
     (if byte c < 128 then c # to_valid s
      else (if rune_len (c # s) = 1 then [CHR 0xEF, CHR 0xBF, CHR 0xBD] else take (rune_len (c # s)) (c # s)) @
        to_valid (drop (rune_len (c # s)) (c # s)))"
  by pat_completeness auto
termination by (relation "measure length") (auto simp del: drop_Suc_Cons)

lemma to_valid_ascii: "is_ascii s \<Longrightarrow> to_valid s = s"
  by (induction s) (auto simp: is_ascii_def)

lemma chr_byte [simp]: "chr (byte c) = c"
  by (simp add: chr_def byte_def)

lemma byte_bounds: "0 \<le> byte c" "byte c < 256"
  by (simp_all add: byte_def) 

lemma unhex_nibble: "0 \<le> k \<Longrightarrow> k < 16 \<Longrightarrow> unhex (nibble k) = Some k"
proof -
  assume "0 \<le> k" "k < 16"
  then have "k \<in> set [0..15]" by simp
  then show ?thesis
    by (auto simp: upto.simps nibble_def unhex_def is_digit_def byte_def)
qed

declare json_read.simps(2) [simp del]

lemma json_read_quote [simp]: "json_read (quote # s) = Some ([], s)"
  by (simp add: json_read.simps)

lemma json_read_plain: "c \<noteq> quote \<Longrightarrow> c \<noteq> backslash \<Longrightarrow> json_read (c # s) = map_option (apfst (Cons c)) (json_read s)"
  by (simp add: json_read.simps)

lemma json_read_u:
  "json_read (backslash # CHR ''u'' # r) =
     (case unhex4 r of None \<Rightarrow> None | Some k \<Rightarrow> map_option (apfst ((@) (utf8 k))) (json_read (drop 4 r)))"
  by (simp add: json_read.simps quote_def backslash_def)

lemma json_read_escape:
  "d \<noteq> CHR ''u'' \<Longrightarrow> unescape d = Some x \<Longrightarrow> json_read (backslash # d # r) = map_option (apfst (Cons x)) (json_read r)"
  by (simp add: json_read.simps quote_def backslash_def)

lemma json_read_raw:
  "list_all (\<lambda>c. 128 \<le> byte c) u \<Longrightarrow> json_read (u @ s) = map_option (apfst ((@) u)) (json_read s)"
proof (induction u)
  case Nil
  show ?case by (cases "json_read s") auto
next
  case (Cons c u)
  then have "c \<noteq> quote" "c \<noteq> backslash" by (auto simp: quote_def backslash_def byte_def)
  then show ?case using Cons by (cases "json_read s") (auto simp: json_read_plain)
qed

lemma special_unescape:
  "unescape quote = Some quote" "unescape backslash = Some backslash" "unescape (CHR ''b'') = Some (CHR 0x08)"
  "unescape (CHR ''f'') = Some (CHR 0x0C)" "unescape (CHR ''n'') = Some (CHR 0x0A)" "unescape (CHR ''r'') = Some (CHR 0x0D)"
  "unescape (CHR ''t'') = Some (CHR 0x09)" "quote \<noteq> CHR ''u''" "backslash \<noteq> CHR ''u''"
  by code_simp+

lemma json_escape_read:
  assumes "byte c < 128"
  shows "json_read ((if html_safe c then [c] else json_escape c) @ s) = map_option (apfst (Cons c)) (json_read s)"
proof (cases "html_safe c")
  case True
  then show ?thesis by (simp add: json_read_plain html_safe_def)
next
  case False
  have u: "json_read (backslash # CHR ''u'' # CHR ''0'' # CHR ''0'' # nibble (byte c div 16) # nibble (byte c mod 16) # s) =
      map_option (apfst (Cons c)) (json_read s)"
  proof -
    have "0 \<le> byte c div 16" "byte c div 16 < 16" "0 \<le> byte c mod 16" "byte c mod 16 < 16"
      using byte_bounds [of c] assms by auto
    moreover have "unhex (CHR ''0'') = Some 0" by (simp add: unhex_def is_digit_def byte_def)
    ultimately have "unhex4 (CHR ''0'' # CHR ''0'' # nibble (byte c div 16) # nibble (byte c mod 16) # s) = Some (byte c)"
      by (simp add: unhex_nibble)
    moreover have "utf8 (byte c) = [c]" using assms by (simp add: utf8_def)
    ultimately show ?thesis by (simp add: json_read_u) (cases "json_read s"; simp)
  qed
  show ?thesis
  proof (cases "c = quote \<or> c = backslash")
    case True
    then show ?thesis using False by (elim disjE) (simp_all add: json_escape_def json_read_escape special_unescape)
  next
    case plain: False
    show ?thesis
      unfolding json_escape_def if_not_P [OF plain] if_not_P [OF False]
      by (simp add: u json_read_escape special_unescape)
  qed
qed

lemma second_ok_high: "second_ok c d \<Longrightarrow> 128 \<le> byte d"
  by (simp add: second_ok_def cont_def split: if_splits)

lemma cont_high: "cont c \<Longrightarrow> 128 \<le> byte c"
  by (simp add: cont_def)

lemma rune_bytes:
  assumes "s \<noteq> []" and "128 \<le> byte (hd s)"
  shows "list_all (\<lambda>c. 128 \<le> byte c) (take (rune_len s) s)"
  using assms by (cases s rule: rune_len.cases) (simp_all add: cont_high, (blast dest: second_ok_high)+)

lemma take3_rune:
  assumes "take 3 (c # s) = [CHR 0xE2, CHR 0x80, CHR 0xA8] \<or> take 3 (c # s) = [CHR 0xE2, CHR 0x80, CHR 0xA9]"
  shows "rune_len (c # s) = 3"
proof -
  have "byte (CHR 0xE2) = 226" "byte (CHR 0x80) = 128" "byte (CHR 0xA8) = 168" "byte (CHR 0xA9) = 169" by code_simp+
  then have "rune_len ([CHR 0xE2, CHR 0x80, CHR 0xA8] @ r) = 3 \<and> rune_len ([CHR 0xE2, CHR 0x80, CHR 0xA9] @ r) = 3" for r
    by (cases r) (simp_all add: second_ok_def cont_def)
  from this [of "drop 3 (c # s)"] show ?thesis using assms append_take_drop_id [of 3 "c # s"] by metis
qed

lemma replacement_read:
  "json_read (backslash # ''ufffd'' @ s) = map_option (apfst ((@) [CHR 0xEF, CHR 0xBF, CHR 0xBD])) (json_read s)"
  "json_read (backslash # ''u2028'' @ s) = map_option (apfst ((@) [CHR 0xE2, CHR 0x80, CHR 0xA8])) (json_read s)"
  "json_read (backslash # ''u2029'' @ s) = map_option (apfst ((@) [CHR 0xE2, CHR 0x80, CHR 0xA9])) (json_read s)"
proof -
  have u: "unhex4 (''fffd'' @ s) = Some 0xFFFD" "unhex4 (''2028'' @ s) = Some 0x2028" "unhex4 (''2029'' @ s) = Some 0x2029"
    by (simp_all add: unhex_def is_digit_def byte_def)
  have v: "utf8 0xFFFD = [CHR 0xEF, CHR 0xBF, CHR 0xBD]" "utf8 0x2028 = [CHR 0xE2, CHR 0x80, CHR 0xA8]"
    "utf8 0x2029 = [CHR 0xE2, CHR 0x80, CHR 0xA9]"
    by code_simp+
  show "json_read (backslash # ''ufffd'' @ s) = map_option (apfst ((@) [CHR 0xEF, CHR 0xBF, CHR 0xBD])) (json_read s)"
    using u(1) v(1) json_read_u [of "''fffd'' @ s"] by simp
  show "json_read (backslash # ''u2028'' @ s) = map_option (apfst ((@) [CHR 0xE2, CHR 0x80, CHR 0xA8])) (json_read s)"
    using u(2) v(2) json_read_u [of "''2028'' @ s"] by simp
  show "json_read (backslash # ''u2029'' @ s) = map_option (apfst ((@) [CHR 0xE2, CHR 0x80, CHR 0xA9])) (json_read s)"
    using u(3) v(3) json_read_u [of "''2029'' @ s"] by simp
qed

lemma json_read_chars: "json_read (json_chars s @ quote # r) = Some (to_valid s, r)"
proof (induction s rule: json_chars.induct)
  case 1
  show ?case by simp
next
  case (2 c s)
  show ?case
  proof (cases "byte c < 128")
    case True
    with 2(1) show ?thesis by (simp add: json_escape_read del: if_split) 
  next
    case False
    let ?n = "rune_len (c # s)"
    have ih: "json_read (json_chars (drop ?n (c # s)) @ quote # r) = Some (to_valid (drop ?n (c # s)), r)"
      using 2(2) False by simp
    have raw: "list_all (\<lambda>c. 128 \<le> byte c) (take ?n (c # s))"
      using rune_bytes [of "c # s"] False by simp
    show ?thesis
      using False take3_rune [of c s] ih json_read_raw [OF raw] replacement_read
      by (auto simp del: take_Suc_Cons drop_Suc_Cons)
  qed
qed

lemma json_read_joined: "xs \<noteq> [] \<Longrightarrow> length xs \<le> n \<Longrightarrow> read_joined n (json_joined xs @ CHR '']'' # r) = Some (map to_valid xs, r)"
proof (induction xs arbitrary: n rule: json_joined.induct)
  case (2 x)
  then show ?case by (cases n) (simp_all add: json_string_def json_read_chars)
next
  case (3 x y xs)
  then show ?case by (cases n) (simp_all add: json_string_def json_read_chars)
qed simp

lemma json_joined_length: "length xs \<le> length (json_joined xs)"
  by (induction xs rule: json_joined.induct) (auto simp: json_string_def)

theorem read_member_roundtrip:
  assumes "xs \<noteq> []"
  shows "read_member (json_member k xs) = Some (to_valid k, map to_valid xs)"
proof -
  have "length xs \<le> length (json_joined xs @ '']}'')" using json_joined_length [of xs] by simp
  from json_read_joined [OF assms this] show ?thesis
    by (simp add: read_member_def json_member_def json_string_def json_strings_def json_read_chars)
qed

end
