(* ===== verification/Realtime_Ably.thy ===== *)
theory Realtime_Ably
  imports Go_Json_Text Api_Context
begin

text \<open>
  The realtime service on Ably, \<^verbatim>\<open>internal/realtime/ably/\<close>: channel names, the capability of a room token, the token, and
  publishing.  The Ably client and the JWT package are not part of the repository: \<open>AblyREST\<close> is the one call of the
  client that the code makes, \<open>jwt_sign\<close> is \<open>SignedString\<close> of a token with a header and claims.
\<close>

section \<open>Channels\<close>

text \<open>\<open>strings.Trim(s, ":")\<close>\<close>

definition TrimColons :: "string \<Rightarrow> string" where
  "TrimColons s = rev (dropWhile (\<lambda>c. c = CHR '':'') (rev (dropWhile (\<lambda>c. c = CHR '':'') s)))"

definition ChannelName :: "string \<Rightarrow> string \<Rightarrow> string" where
  "ChannelName pre roomID = TrimColons (TrimSpace pre) @ '':room:'' @ TrimSpace roomID @ '':control''"

definition AdminChannelName :: "string \<Rightarrow> string" where
  "AdminChannelName pre = TrimColons (TrimSpace pre) @ '':admin''"

definition capability_ops :: "string list" where
  "capability_ops = [''subscribe'', ''presence'', ''history'']"

text \<open>\<open>Marshal\<close> of a map with string lists fails for no value, so the error branch of the source is never taken.\<close>

definition RoomCapability :: "string \<Rightarrow> error + string" where
  "RoomCapability channel = Inr (json_member channel capability_ops)"

section \<open>Tokens\<close>

record AblyHeader =
  ah_alg :: string
  ah_typ :: string
  ah_kid :: string

record AblyClaims =
  ac_iat :: int
  ac_exp :: int
  ac_capability :: string
  ac_clientId :: string
  ac_token_type :: string

type_synonym jwt_sign = "AblyHeader \<Rightarrow> AblyClaims \<Rightarrow> string \<Rightarrow> error + string"

definition IssueRoomJWT :: "jwt_sign \<Rightarrow> Config \<Rightarrow> string \<Rightarrow> string \<Rightarrow> gotime \<Rightarrow> error + (string \<times> gotime)" where
  "IssueRoomJWT jwt cfg roomID clientID0 now =
     (let clientID = TrimSpace clientID0 in
      if clientID = [] then Inl (OtherError ''client id is required'')
      else if cf_AblyKeyName cfg = [] \<or> cf_AblyKeySecret cfg = [] then Inl ErrRootKeyRequired
      else
        let channel = ChannelName (cf_AblyChannelPrefix cfg) roomID in
        case RoomCapability channel of
          Inl err \<Rightarrow> Inl err
        | Inr capJSON \<Rightarrow>
            let expiresAt = now + cf_AblyJWTTTL cfg;
                claims = \<lparr>ac_iat = Unix now, ac_exp = Unix expiresAt, ac_capability = capJSON, ac_clientId = clientID,
                  ac_token_type = ''jwt''\<rparr>;
                header = \<lparr>ah_alg = ''HS256'', ah_typ = ''JWT'', ah_kid = cf_AblyKeyName cfg\<rparr> in
            case jwt header claims (cf_AblyKeySecret cfg) of
              Inl err \<Rightarrow> Inl err
            | Inr signed \<Rightarrow> Inr (signed, expiresAt))"

section \<open>The service\<close>

text \<open>\<open>rest_Publish channel name data\<close> is \<open>Channels.Get(channel).Publish(ctx, name, data)\<close>.\<close>

record 'w AblyREST =
  rest_Publish :: "string \<Rightarrow> string \<Rightarrow> pub_data \<Rightarrow> ('w, error option) io"

record 'w AblyService =
  as_rest :: "'w AblyREST"
  as_cfg :: Config

definition NewAblyService :: "(string \<Rightarrow> error + 'w AblyREST) \<Rightarrow> Config \<Rightarrow> error + 'w AblyService" where
  "NewAblyService newREST cfg =
     (if TrimSpace (cf_AblyRootKey cfg) = [] then Inl ErrRootKeyRequired
      else case newREST (cf_AblyRootKey cfg) of Inl err \<Rightarrow> Inl err | Inr rest \<Rightarrow> Inr \<lparr>as_rest = rest, as_cfg = cfg\<rparr>)"

definition as_ChannelName :: "'w AblyService \<Rightarrow> string \<Rightarrow> string" where
  "as_ChannelName s roomID = ChannelName (cf_AblyChannelPrefix (as_cfg s)) roomID"

definition as_RoomCapability :: "'w AblyService \<Rightarrow> string \<Rightarrow> error + string" where
  "as_RoomCapability s roomID = RoomCapability (as_ChannelName s roomID)"

definition as_IssueRoomJWT ::
  "jwt_sign \<Rightarrow> ('w, gotime) io \<Rightarrow> 'w AblyService \<Rightarrow> string \<Rightarrow> string \<Rightarrow> ('w, error + (string \<times> gotime)) io" where
  "as_IssueRoomJWT jwt timeNow s roomID clientID =
     do { now \<leftarrow> timeNow; State_Monad.return (IssueRoomJWT jwt (as_cfg s) roomID clientID now) }"

definition as_PublishRoomMessage :: "'w AblyService \<Rightarrow> string \<Rightarrow> string \<Rightarrow> pub_data \<Rightarrow> ('w, error option) io" where
  "as_PublishRoomMessage s roomID name data = rest_Publish (as_rest s) (as_ChannelName s roomID) name data"

definition ably_realtime :: "jwt_sign \<Rightarrow> ('w, gotime) io \<Rightarrow> 'w AblyService \<Rightarrow> 'w Realtime" where
  "ably_realtime jwt timeNow s = \<lparr>rl_Publisher = \<lparr>PublishRoomMessage = as_PublishRoomMessage s\<rparr>,
     rl_ChannelName = as_ChannelName s, rl_IssueRoomJWT = as_IssueRoomJWT jwt timeNow s\<rparr>"

section \<open>What a token allows\<close>

text \<open>
  With one prefix, two rooms have one channel only if their trimmed ids are equal, and no room has the admin channel.
\<close>

theorem channels_apart:
  "(ChannelName pre r = ChannelName pre r' \<longleftrightarrow> TrimSpace r = TrimSpace r') \<and> ChannelName pre r \<noteq> AdminChannelName pre"
  by (simp add: ChannelName_def AdminChannelName_def)

lemma IssueRoomJWT_Inr:
  assumes "IssueRoomJWT jwt cfg r u now = Inr (tok, expiry)"
  shows "TrimSpace u \<noteq> [] \<and> cf_AblyKeyName cfg \<noteq> [] \<and> cf_AblyKeySecret cfg \<noteq> [] \<and> expiry = now + cf_AblyJWTTTL cfg \<and>
    jwt \<lparr>ah_alg = ''HS256'', ah_typ = ''JWT'', ah_kid = cf_AblyKeyName cfg\<rparr>
      \<lparr>ac_iat = Unix now, ac_exp = Unix expiry,
       ac_capability = json_member (ChannelName (cf_AblyChannelPrefix cfg) r) capability_ops, ac_clientId = TrimSpace u, ac_token_type = ''jwt''\<rparr>
      (cf_AblyKeySecret cfg) = Inr tok"
  using assms by (auto simp: IssueRoomJWT_def RoomCapability_def Let_def split: if_splits sum.splits)

text \<open>
  In an Ably capability the resource is a pattern: a name may contain a wildcard, and a leading bracket qualifies it.
  The matching is Ably's, a parameter \<open>matches\<close>.  A name is plain when it is ASCII text without the characters that
  have a meaning in a pattern; the ids that the stores make are plain.
\<close>

definition plain_name :: "string \<Rightarrow> bool" where
  "plain_name n \<longleftrightarrow> is_ascii n \<and> CHR ''*'' \<notin> set n \<and> CHR ''['' \<notin> set n"

definition capability_allows :: "(string \<Rightarrow> string \<Rightarrow> bool) \<Rightarrow> string \<Rightarrow> string \<Rightarrow> string \<Rightarrow> bool" where
  "capability_allows matches capability channel op \<longleftrightarrow>
     (case read_member capability of
        None \<Rightarrow> False
      | Some (pattern, ops) \<Rightarrow> matches pattern channel \<and> op \<in> set ops)"

lemma set_TrimSpace: "set (TrimSpace s) \<subseteq> set s"
proof -
  have "set (TrimLeftSpace s) \<subseteq> set s"
    unfolding TrimLeftSpace_def by (rule set_mono_suffix [OF suffix_strip_runes])
  then show ?thesis
    unfolding TrimSpace_def using set_mono_prefix [OF prefix_TrimRightSpace] by blast
qed

lemma set_TrimColons: "set (TrimColons s) \<subseteq> set s"
  by (auto simp: TrimColons_def dest!: set_dropWhileD)

lemma plain_name_append [simp]: "plain_name (m @ n) \<longleftrightarrow> plain_name m \<and> plain_name n"
  by (auto simp: plain_name_def is_ascii_def)

lemma plain_name_subset: "set m \<subseteq> set n \<Longrightarrow> plain_name n \<Longrightarrow> plain_name m"
  by (auto simp: plain_name_def is_ascii_def list_all_iff)

lemma plain_ChannelName:
  assumes "plain_name pre" and "plain_name r"
  shows "plain_name (ChannelName pre r)"
proof -
  have "plain_name '':room:''" "plain_name '':control''" by code_simp+
  moreover have "plain_name (TrimColons (TrimSpace pre))" "plain_name (TrimSpace r)"
    using assms plain_name_subset set_TrimColons set_TrimSpace by blast+
  ultimately show ?thesis unfolding ChannelName_def by (simp only: plain_name_append)
qed

lemma capability_allows_room:
  assumes matching: "\<And>p name. plain_name p \<Longrightarrow> matches p name \<longleftrightarrow> p = name" and plain: "plain_name channel"
  shows "capability_allows matches (json_member channel capability_ops) ch op \<longleftrightarrow>
    ch = channel \<and> op \<in> {''subscribe'', ''presence'', ''history''}"
proof -
  have "map to_valid capability_ops = [''subscribe'', ''presence'', ''history'']" "capability_ops \<noteq> []" by code_simp+
  moreover have "to_valid channel = channel" using plain to_valid_ascii by (simp add: plain_name_def)
  ultimately show ?thesis
    using matching [OF plain, of ch] by (auto simp: capability_allows_def read_member_roundtrip)
qed

text \<open>
  C14: a token is signed for one non-empty client with the configured key.  Suppose that, in Ably's matching of
  capabilities, a resource without pattern characters matches the channel of that name only.  Then the token of a room
  whose id, like the configured prefix, is plain allows exactly subscribe, presence and history, and on exactly one
  channel: the one on which the service publishes the messages of that room.  So it allows nothing on the channel of
  any other room and nothing on the admin channel, and no publishing at all.  For an id with a wildcard nothing is claimed.
\<close>

theorem room_token_capability:
  assumes run: "fst (run_state (as_IssueRoomJWT jwt timeNow s r u) w) = Inr (tok, expiry)"
    and matching: "\<And>p name. plain_name p \<Longrightarrow> matches p name \<longleftrightarrow> p = name"
    and plain: "plain_name (cf_AblyChannelPrefix (as_cfg s))" "plain_name r"
  shows "\<exists>header claims. jwt header claims (cf_AblyKeySecret (as_cfg s)) = Inr tok \<and> ah_kid header = cf_AblyKeyName (as_cfg s) \<and>
    ac_clientId claims = TrimSpace u \<and> TrimSpace u \<noteq> [] \<and> ac_exp claims = Unix expiry \<and>
    as_PublishRoomMessage s r = rest_Publish (as_rest s) (as_ChannelName s r) \<and>
    (\<forall>channel op. capability_allows matches (ac_capability claims) channel op \<longleftrightarrow>
       channel = as_ChannelName s r \<and> op \<in> {''subscribe'', ''presence'', ''history''}) \<and>
    (\<forall>r' op. capability_allows matches (ac_capability claims) (as_ChannelName s r') op \<longrightarrow> TrimSpace r' = TrimSpace r) \<and>
    (\<nexists>op. capability_allows matches (ac_capability claims) (AdminChannelName (cf_AblyChannelPrefix (as_cfg s))) op)"
proof -
  let ?pre = "cf_AblyChannelPrefix (as_cfg s)"
  from run obtain now where "IssueRoomJWT jwt (as_cfg s) r u now = Inr (tok, expiry)"
    by (auto simp: as_IssueRoomJWT_def case_prod_beta)
  note issued = IssueRoomJWT_Inr [OF this]
  have allows: "capability_allows matches (json_member (ChannelName ?pre r) capability_ops) ch op \<longleftrightarrow>
      ch = ChannelName ?pre r \<and> op \<in> {''subscribe'', ''presence'', ''history''}" for ch op
    by (rule capability_allows_room [OF matching plain_ChannelName [OF plain]])
  have publish: "as_PublishRoomMessage s r = rest_Publish (as_rest s) (as_ChannelName s r)"
    by (intro ext) (simp add: as_PublishRoomMessage_def)
  have apart: "ChannelName ?pre r' = ChannelName ?pre r \<longleftrightarrow> TrimSpace r' = TrimSpace r" "AdminChannelName ?pre \<noteq> ChannelName ?pre r" for r'
    using channels_apart [of ?pre] by metis+
  from issued show ?thesis
    by (intro exI conjI) (auto simp: publish allows apart as_ChannelName_def)
qed

definition sample_sign :: jwt_sign where
  "sample_sign header claims secret = Inr (ac_capability claims)"

definition sample_ably :: "(string \<times> string) list AblyService" where
  "sample_ably = \<lparr>as_rest = \<lparr>rest_Publish = (\<lambda>channel name data. do { l \<leftarrow> State_Monad.get; State_Monad.set ((channel, name) # l); State_Monad.return None })\<rparr>,
     as_cfg = Default\<lparr>cf_AblyKeyName := ''app.key'', cf_AblyKeySecret := ''secret''\<rparr>\<rparr>"

text \<open>Matching in which a final wildcard stands for any ending, and a signature that shows the capability.\<close>

definition sample_matches :: "string \<Rightarrow> string \<Rightarrow> bool" where
  "sample_matches p name \<longleftrightarrow> p = name \<or> p \<noteq> [] \<and> last p = CHR ''*'' \<and> prefix (butlast p) name"

lemma sample_matches_plain: "plain_name p \<Longrightarrow> sample_matches p name \<longleftrightarrow> p = name"
  by (auto simp: sample_matches_def plain_name_def dest!: last_in_set)

theorem room_token_capability_witness:
  "\<exists>cap. fst (run_state (as_IssueRoomJWT sample_sign (State_Monad.return 0) sample_ably ''r1'' '' u7 '') []) = Inr (cap, 0) \<and>
     capability_allows sample_matches cap (as_ChannelName sample_ably ''r1'') ''subscribe'' \<and>
     \<not> capability_allows sample_matches cap (as_ChannelName sample_ably ''r1'') ''publish'' \<and>
     \<not> capability_allows sample_matches cap (as_ChannelName sample_ably ''r2'') ''subscribe''"
proof -
  let ?cap = "json_member (ChannelName ''watchtogether'' ''r1'') capability_ops"
  have trim: "TrimSpace '' u7 '' = ''u7''" "TrimSpace ''r1'' = ''r1''" "TrimSpace ''r2'' = ''r2''" by code_simp+
  have run: "fst (run_state (as_IssueRoomJWT sample_sign (State_Monad.return 0) sample_ably ''r1'' '' u7 '') []) = Inr (?cap, 0)"
    by (simp add: as_IssueRoomJWT_def IssueRoomJWT_def RoomCapability_def sample_ably_def sample_sign_def Default_def Let_def trim)
  have plain: "plain_name (cf_AblyChannelPrefix (as_cfg sample_ably))" "plain_name ''r1''" by code_simp+
  from room_token_capability [OF run sample_matches_plain plain] obtain header claims
    where signed: "sample_sign header claims (cf_AblyKeySecret (as_cfg sample_ably)) = Inr ?cap"
      and allows: "\<forall>channel op. capability_allows sample_matches (ac_capability claims) channel op \<longleftrightarrow>
        channel = as_ChannelName sample_ably ''r1'' \<and> op \<in> {''subscribe'', ''presence'', ''history''}"
      and other: "\<forall>r' op. capability_allows sample_matches (ac_capability claims) (as_ChannelName sample_ably r') op \<longrightarrow>
        TrimSpace r' = TrimSpace ''r1''"
    by blast
  have "ac_capability claims = ?cap" using signed by (simp add: sample_sign_def)
  with run allows other trim show ?thesis by (intro exI conjI) (assumption | simp | force)+
qed

end
