(* ===== verification/Email_Sender.thy ===== *)
theory Email_Sender
  imports Auth_Service Api_Context
begin

text \<open>
  Mailing codes, \<^verbatim>\<open>internal/email/email.go\<close>: the sender and the text of its mails, byte by byte.  The Resend client is not
  part of the repository; \<open>rs_Send\<close> is the one call of it that the code makes.
\<close>

section \<open>The mail\<close>

text \<open>\<open>d.Round(m)\<close> of package \<open>time\<close> for a positive \<open>m\<close>: halves are rounded away from zero, and the result saturates.\<close>

definition Round :: "duration \<Rightarrow> duration \<Rightarrow> duration" where
  "Round d m =
     (if d < 0 then
        let r = (- d) mod m in if r + r < m then d + r else max minInt64 (d - m + r)
      else
        let r = d mod m in if r + r < m then d - r else min maxInt64 (d + m - r))"

text \<open>\<open>int(ttl.Round(time.Minute) / time.Minute)\<close>, a division that truncates.\<close>

definition whole_minutes :: "duration \<Rightarrow> int" where
  "whole_minutes ttl = (let d = Round ttl Minute in if d < 0 then - ((- d) div Minute) else d div Minute)"

definition ttl_minutes :: "duration \<Rightarrow> int" where
  "ttl_minutes ttl = (let ttlMin = whole_minutes ttl in if ttlMin \<le> 0 then 10 else ttlMin)"

definition purpose_label :: "string \<Rightarrow> string" where
  "purpose_label purpose =
     (if purpose = PurposeRegister then [CHR 0xE6, CHR 0xB3, CHR 0xA8, CHR 0xE5, CHR 0x86, CHR 0x8C]
      else if purpose = PurposeResetPassword then [CHR 0xE9, CHR 0x87, CHR 0x8D, CHR 0xE7, CHR 0xBD, CHR 0xAE, CHR 0xE5, CHR 0xAF, CHR 0x86, CHR 0xE7, CHR 0xA0, CHR 0x81]
      else [CHR 0xE9, CHR 0xAA, CHR 0x8C, CHR 0xE8, CHR 0xAF, CHR 0x81])"

definition html_head :: string where
  "html_head = ''<!DOCTYPE html>'' @ [CHR 0x0A]
      @ ''<html><head><meta charset='' @ [CHR 0x22] @ ''utf-8'' @ [CHR 0x22] @ ''><meta name='' @ [CHR 0x22] @ ''viewport'' @ [CHR 0x22] @ '' content='' @ [CHR 0x22] @ ''width=device-width,initial-scale=1'' @ [CHR 0x22] @ ''></head>'' @ [CHR 0x0A]
      @ ''<body style='' @ [CHR 0x22] @ ''font-family:system-ui,-apple-system,sans-serif;line-height:1.5;color:#111827;background:#f9fafb;padding:24px;'' @ [CHR 0x22] @ ''>'' @ [CHR 0x0A]
      @ ''<div style='' @ [CHR 0x22] @ ''max-width:480px;margin:0 auto;background:#fff;border-radius:12px;padding:28px 24px;box-shadow:0 1px 3px rgba(0,0,0,.08);'' @ [CHR 0x22] @ ''>'' @ [CHR 0x0A]
      @ ''<p style='' @ [CHR 0x22] @ ''margin:0 0 12px;font-size:15px;'' @ [CHR 0x22] @ ''>'' @ [CHR 0xE6, CHR 0x82, CHR 0xA8, CHR 0xE5, CHR 0xA5, CHR 0xBD, CHR 0xEF, CHR 0xBC, CHR 0x8C] @ ''</p>'' @ [CHR 0x0A]
      @ ''<p style='' @ [CHR 0x22] @ ''margin:0 0 20px;font-size:15px;'' @ [CHR 0x22] @ ''>'' @ [CHR 0xE6, CHR 0x82, CHR 0xA8, CHR 0xE6, CHR 0xAD, CHR 0xA3, CHR 0xE5, CHR 0x9C, CHR 0xA8, CHR 0xE8, CHR 0xBF, CHR 0x9B, CHR 0xE8, CHR 0xA1, CHR 0x8C] @ '' <strong>''"

definition html_within :: string where
  "html_within = ''</strong>'' @ [CHR 0xE3, CHR 0x80, CHR 0x82, CHR 0xE8, CHR 0xAF, CHR 0xB7, CHR 0xE5, CHR 0x9C, CHR 0xA8] @ '' <strong>''"

definition html_code :: string where
  "html_code = ''</strong> '' @ [CHR 0xE5, CHR 0x86, CHR 0x85, CHR 0xE4, CHR 0xBD, CHR 0xBF, CHR 0xE7, CHR 0x94, CHR 0xA8, CHR 0xE4, CHR 0xBB, CHR 0xA5, CHR 0xE4, CHR 0xB8, CHR 0x8B, CHR 0xE9, CHR 0xAA, CHR 0x8C, CHR 0xE8, CHR 0xAF, CHR 0x81, CHR 0xE7, CHR 0xA0, CHR 0x81, CHR 0xE5, CHR 0xAE, CHR 0x8C, CHR 0xE6, CHR 0x88, CHR 0x90, CHR 0xE6, CHR 0x93, CHR 0x8D, CHR 0xE4, CHR 0xBD, CHR 0x9C, CHR 0xEF, CHR 0xBC, CHR 0x9A] @ ''</p>'' @ [CHR 0x0A]
      @ ''<p style='' @ [CHR 0x22] @ ''margin:0 0 24px;font-size:32px;letter-spacing:8px;font-weight:700;text-align:center;color:#111827;'' @ [CHR 0x22] @ ''>''"

definition html_end :: string where
  "html_end = ''</p>'' @ [CHR 0x0A]
      @ ''<p style='' @ [CHR 0x22] @ ''margin:0;font-size:13px;color:#6b7280;'' @ [CHR 0x22] @ ''>'' @ [CHR 0xE5, CHR 0xA6, CHR 0x82, CHR 0xE9, CHR 0x9D, CHR 0x9E, CHR 0xE6, CHR 0x9C, CHR 0xAC, CHR 0xE4, CHR 0xBA, CHR 0xBA, CHR 0xE6, CHR 0x93, CHR 0x8D, CHR 0xE4, CHR 0xBD, CHR 0x9C, CHR 0xEF, CHR 0xBC, CHR 0x8C, CHR 0xE8, CHR 0xAF, CHR 0xB7, CHR 0xE5, CHR 0xBF, CHR 0xBD, CHR 0xE7, CHR 0x95, CHR 0xA5, CHR 0xE6, CHR 0xAD, CHR 0xA4, CHR 0xE9, CHR 0x82, CHR 0xAE, CHR 0xE4, CHR 0xBB, CHR 0xB6, CHR 0xE3, CHR 0x80, CHR 0x82, CHR 0xE8, CHR 0xAF, CHR 0xB7, CHR 0xE5, CHR 0x8B, CHR 0xBF, CHR 0xE5, CHR 0x90, CHR 0x91, CHR 0xE4, CHR 0xBB, CHR 0x96, CHR 0xE4, CHR 0xBA, CHR 0xBA, CHR 0xE9, CHR 0x80, CHR 0x8F, CHR 0xE9, CHR 0x9C, CHR 0xB2, CHR 0xE9, CHR 0xAA, CHR 0x8C, CHR 0xE8, CHR 0xAF, CHR 0x81, CHR 0xE7, CHR 0xA0, CHR 0x81, CHR 0xE3, CHR 0x80, CHR 0x82] @ ''</p>'' @ [CHR 0x0A]
      @ ''</div>'' @ [CHR 0x0A]
      @ ''<p style='' @ [CHR 0x22] @ ''text-align:center;font-size:12px;color:#9ca3af;margin-top:16px;'' @ [CHR 0x22] @ ''>WatchTogether</p>'' @ [CHR 0x0A]
      @ ''</body></html>''"

definition minutes_word :: string where
  "minutes_word = '' '' @ [CHR 0xE5, CHR 0x88, CHR 0x86, CHR 0xE9, CHR 0x92, CHR 0x9F]"

definition buildVerificationEmail :: "string \<Rightarrow> string \<Rightarrow> duration \<Rightarrow> string \<times> string \<times> string" where
  "buildVerificationEmail purpose code ttl =
     (let purposeLabel = purpose_label purpose;
          ttlStr = FormatInt (ttl_minutes ttl) @ minutes_word;
          subject = ''WatchTogether '' @ purposeLabel @ [CHR 0xE9, CHR 0xAA, CHR 0x8C, CHR 0xE8, CHR 0xAF, CHR 0x81, CHR 0xE7, CHR 0xA0, CHR 0x81];
          html = html_head @ purposeLabel @ html_within @ ttlStr @ html_code @ code @ html_end;
          plain = ''WatchTogether '' @ purposeLabel @ [CHR 0x0A, CHR 0x0A, CHR 0xE9, CHR 0xAA, CHR 0x8C, CHR 0xE8, CHR 0xAF, CHR 0x81, CHR 0xE7, CHR 0xA0, CHR 0x81, CHR 0xEF, CHR 0xBC, CHR 0x9A] @ code @ [CHR 0x0A, CHR 0x0A, CHR 0xE9, CHR 0xAA, CHR 0x8C, CHR 0xE8, CHR 0xAF, CHR 0x81, CHR 0xE7, CHR 0xA0, CHR 0x81, CHR 0xE5, CHR 0x9C, CHR 0xA8] @ '' '' @ ttlStr @ '' '' @ [CHR 0xE5, CHR 0x86, CHR 0x85, CHR 0xE6, CHR 0x9C, CHR 0x89, CHR 0xE6, CHR 0x95, CHR 0x88, CHR 0xE3, CHR 0x80, CHR 0x82, CHR 0xE5, CHR 0xA6, CHR 0x82, CHR 0xE9, CHR 0x9D, CHR 0x9E, CHR 0xE6, CHR 0x9C, CHR 0xAC, CHR 0xE4, CHR 0xBA, CHR 0xBA, CHR 0xE6, CHR 0x93, CHR 0x8D, CHR 0xE4, CHR 0xBD, CHR 0x9C, CHR 0xE8, CHR 0xAF, CHR 0xB7, CHR 0xE5, CHR 0xBF, CHR 0xBD, CHR 0xE7, CHR 0x95, CHR 0xA5, CHR 0xE3, CHR 0x80, CHR 0x82, CHR 0x0A]
      in (subject, html, plain))"

section \<open>The sender\<close>

record SendEmailRequest =
  rq_From :: string
  rq_To :: "string list"
  rq_Subject :: string
  rq_Html :: string
  rq_Text :: string

text \<open>The Resend client: a request, and the id of the mail or an error.\<close>

record 'w Resend =
  rs_Send :: "SendEmailRequest \<Rightarrow> ('w, error + string) io"

record 'w Sender =
  sn_cfg :: Config
  sn_client :: "'w Resend option"

definition NewSender :: "(string \<Rightarrow> 'w Resend) \<Rightarrow> Config \<Rightarrow> 'w Sender" where
  "NewSender newClient cfg =
     (let key = TrimSpace (cf_ResendAPIKey cfg) in
      if key = [] then \<lparr>sn_cfg = cfg, sn_client = None\<rparr> else \<lparr>sn_cfg = cfg, sn_client = Some (newClient key)\<rparr>)"

definition Enabled :: "'w Sender option \<Rightarrow> bool" where
  "Enabled s \<longleftrightarrow> (case s of None \<Rightarrow> False | Some sender \<Rightarrow> sn_client sender \<noteq> None)"

text \<open>The log line of a skipped mail is left out.\<close>

definition SendVerificationCode :: "'w Sender option \<Rightarrow> string \<Rightarrow> string \<Rightarrow> string \<Rightarrow> ('w, error + string) io" where
  "SendVerificationCode s to purpose code =
     (if \<not> Enabled s then State_Monad.return (Inl ErrDisabled)
      else case s of
        None \<Rightarrow> State_Monad.return (Inl ErrDisabled)
      | Some sender \<Rightarrow>
          (case sn_client sender of
             None \<Rightarrow> State_Monad.return (Inl ErrDisabled)
           | Some client \<Rightarrow>
               let (subject, html, plain) = buildVerificationEmail purpose code (cf_EmailCodeTTL (sn_cfg sender)) in do {
               resp \<leftarrow> rs_Send client \<lparr>rq_From = cf_EmailFrom (sn_cfg sender), rq_To = [to], rq_Subject = subject,
                 rq_Html = html, rq_Text = plain\<rparr>;
               State_Monad.return (case resp of Inl err \<Rightarrow> Inl err | Inr i \<Rightarrow> Inr i)
             }))"

definition sender_api :: "'w Sender \<Rightarrow> 'w SenderAPI" where
  "sender_api s = \<lparr>es_Enabled = Enabled (Some s), es_SendVerificationCode = SendVerificationCode (Some s)\<rparr>"

section \<open>What a mail says\<close>

lemma whole_minutes_near:
  assumes "0 \<le> ttl" and "ttl + Minute \<le> maxInt64"
  shows "\<bar>whole_minutes ttl * Minute - ttl\<bar> \<le> 30 * Second"
proof -
  have m: "Minute = 60 * Second" "0 < Second" by (simp_all add: Minute_def Second_def)
  have r: "0 \<le> ttl mod Minute" "ttl mod Minute < Minute" using m by simp_all
  have div_nonneg: "0 \<le> Minute * (ttl div Minute)" using m assms by (simp add: pos_imp_zdiv_nonneg_iff)
  have q: "ttl = ttl div Minute * Minute + ttl mod Minute" by simp
  show ?thesis
  proof (cases "ttl mod Minute + ttl mod Minute < Minute")
    case True
    then have "whole_minutes ttl = ttl div Minute"
      using assms m r div_nonneg by (simp add: whole_minutes_def Round_def Let_def minus_mod_eq_mult_div)
    then have "whole_minutes ttl * Minute - ttl = - (ttl mod Minute)" by (simp add: minus_mod_eq_div_mult [symmetric])
    then show ?thesis using True r m by simp
  next
    case False
    have "ttl + Minute - ttl mod Minute = (ttl div Minute + 1) * Minute" using q by (simp add: algebra_simps)
    then have "whole_minutes ttl = ttl div Minute + 1"
      using False assms m r div_nonneg by (simp add: whole_minutes_def Round_def Let_def)
    then have e: "whole_minutes ttl * Minute - ttl = Minute - ttl mod Minute"
      using \<open>ttl + Minute - ttl mod Minute = (ttl div Minute + 1) * Minute\<close> by simp
    show ?thesis unfolding e abs_le_iff using False r m by linarith
  qed
qed

lemma ttl_minutes_near:
  assumes "0 < ttl" and "ttl + Minute \<le> maxInt64"
  shows "if 30 * Second \<le> ttl then \<bar>ttl_minutes ttl * Minute - ttl\<bar> \<le> 30 * Second else ttl_minutes ttl = 10"
proof (cases "30 * Second \<le> ttl")
  case True
  have "0 < whole_minutes ttl"
  proof (rule ccontr)
    assume "\<not> 0 < whole_minutes ttl"
    then have "whole_minutes ttl * Minute \<le> 0" by (simp add: mult_nonpos_nonneg Minute_def Second_def)
    then have "ttl = 30 * Second" using whole_minutes_near [of ttl] assms True by linarith
    then have "whole_minutes ttl = 1" by (simp add: whole_minutes_def Round_def Minute_def Second_def maxInt64_def Let_def)
    then show False using \<open>\<not> 0 < whole_minutes ttl\<close> by simp
  qed
  then show ?thesis using True whole_minutes_near [of ttl] assms by (simp add: ttl_minutes_def Let_def)
next
  case False
  then have "ttl mod Minute = ttl" "ttl + ttl < Minute" using assms by (simp_all add: Minute_def Second_def)
  then have "Round ttl Minute = 0" using assms by (simp add: Round_def Let_def)
  then have "whole_minutes ttl = 0" by (simp add: whole_minutes_def)
  then show ?thesis using False by (simp add: ttl_minutes_def)
qed

text \<open>
  Both texts of a mail carry the code and a number of minutes that is within half a minute of the real lifetime when
  the lifetime is at least half a minute; below that they state ten minutes, although the code dies earlier.
\<close>

theorem mail_states_lifetime:
  assumes "0 < ttl" and "ttl + Minute \<le> maxInt64" and "buildVerificationEmail purpose code ttl = (subject, html, plain)"
  shows "(\<exists>a b c. plain = a @ code @ b @ FormatInt (ttl_minutes ttl) @ minutes_word @ c) \<and>
    html = html_head @ purpose_label purpose @ html_within @ FormatInt (ttl_minutes ttl) @ minutes_word @ html_code @ code @ html_end \<and>
    (if 30 * Second \<le> ttl then \<bar>ttl_minutes ttl * Minute - ttl\<bar> \<le> 30 * Second else ttl_minutes ttl = 10)"
proof (intro conjI)
  let ?b = "[CHR 0x0A, CHR 0x0A, CHR 0xE9, CHR 0xAA, CHR 0x8C, CHR 0xE8, CHR 0xAF, CHR 0x81, CHR 0xE7, CHR 0xA0, CHR 0x81, CHR 0xE5, CHR 0x9C, CHR 0xA8] @ '' ''"
  have plain: "plain = (''WatchTogether '' @ purpose_label purpose @ [CHR 0x0A, CHR 0x0A, CHR 0xE9, CHR 0xAA, CHR 0x8C, CHR 0xE8, CHR 0xAF, CHR 0x81, CHR 0xE7, CHR 0xA0, CHR 0x81, CHR 0xEF, CHR 0xBC, CHR 0x9A]) @ code @ ?b @ FormatInt (ttl_minutes ttl) @ minutes_word @ '' '' @ [CHR 0xE5, CHR 0x86, CHR 0x85, CHR 0xE6, CHR 0x9C, CHR 0x89, CHR 0xE6, CHR 0x95, CHR 0x88, CHR 0xE3, CHR 0x80, CHR 0x82, CHR 0xE5, CHR 0xA6, CHR 0x82, CHR 0xE9, CHR 0x9D, CHR 0x9E, CHR 0xE6, CHR 0x9C, CHR 0xAC, CHR 0xE4, CHR 0xBA, CHR 0xBA, CHR 0xE6, CHR 0x93, CHR 0x8D, CHR 0xE4, CHR 0xBD, CHR 0x9C, CHR 0xE8, CHR 0xAF, CHR 0xB7, CHR 0xE5, CHR 0xBF, CHR 0xBD, CHR 0xE7, CHR 0x95, CHR 0xA5, CHR 0xE3, CHR 0x80, CHR 0x82, CHR 0x0A]"
    and html: "html = html_head @ purpose_label purpose @ html_within @ FormatInt (ttl_minutes ttl) @ minutes_word @ html_code @ code @ html_end"
    using assms(3) by (simp_all add: buildVerificationEmail_def Let_def)
  show "\<exists>a b c. plain = a @ code @ b @ FormatInt (ttl_minutes ttl) @ minutes_word @ c"
    using plain by blast
  show "html = html_head @ purpose_label purpose @ html_within @ FormatInt (ttl_minutes ttl) @ minutes_word @ html_code @ code @ html_end"
    by (rule html)
  show "if 30 * Second \<le> ttl then \<bar>ttl_minutes ttl * Minute - ttl\<bar> \<le> 30 * Second else ttl_minutes ttl = 10"
    by (rule ttl_minutes_near [OF assms(1,2)])
qed

text \<open>A code that lives for twenty seconds: the mail says ten minutes.\<close>

theorem mail_states_lifetime_witness:
  "fst (snd (buildVerificationEmail PurposeRegister ''123456'' (20 * Second))) =
     html_head @ purpose_label PurposeRegister @ html_within @ FormatInt 10 @ minutes_word @ html_code @ ''123456'' @ html_end"
proof -
  obtain subject html plain where m: "buildVerificationEmail PurposeRegister ''123456'' (20 * Second) = (subject, html, plain)"
    by (cases "buildVerificationEmail PurposeRegister ''123456'' (20 * Second)") auto
  have "0 < 20 * Second" "20 * Second + Minute \<le> maxInt64" "\<not> 30 * Second \<le> 20 * Second"
    by (simp_all add: Second_def Minute_def maxInt64_def)
  with mail_states_lifetime [OF _ _ m] show ?thesis unfolding m by simp
qed

end
