(* ===== verification/Server_Main.thy ===== *)
theory Server_Main
  imports Postgres_Store Realtime_Ably Email_Sender Redis_Codes Redis_Caches Api_Router
begin

text \<open>
  Starting and stopping the server, \<^verbatim>\<open>cmd/server/main.go\<close>, with the functions that open its two backends,
  \<^verbatim>\<open>store/postgres/db.go\<close> and \<^verbatim>\<open>cache/redis/client.go\<close>.  The drivers, the HTTP server and the operating system are
  not part of the repository: they are the fields of \<open>Platform\<close>.
\<close>

section \<open>PostgreSQL\<close>

text \<open>A pool of connections as the driver hands it out.\<close>

record 'w SqlPool =
  sp_db :: "'w SqlDB"
  sp_SetMaxOpenConns :: "int \<Rightarrow> ('w, unit) io"
  sp_SetMaxIdleConns :: "int \<Rightarrow> ('w, unit) io"
  sp_SetConnMaxLifetime :: "duration \<Rightarrow> ('w, unit) io"
  sp_Ping :: "('w, error option) io"
  sp_Close :: "('w, error option) io"

text \<open>\<open>fmt.Errorf\<close> with \<open>%w\<close>: a sentinel stays what it is for \<open>errors.Is\<close>.\<close>

definition wrapf :: "string \<Rightarrow> error \<Rightarrow> error" where
  "wrapf what err = (case err of OtherError m \<Rightarrow> OtherError (what @ '': '' @ m) | _ \<Rightarrow> err)"

text \<open>\<open>schemaFS.ReadFile\<close> reads the embedded file.\<close>

definition schemaFS_ReadFile :: "string \<Rightarrow> error + string" where
  "schemaFS_ReadFile name = (if name = ''schema.sql'' then Inr schema_sql else Inl (OtherError ''file does not exist''))"

definition initSchema :: "'w SqlDB \<Rightarrow> ('w, error option) io" where
  "initSchema db =
     (case schemaFS_ReadFile ''schema.sql'' of
        Inl err \<Rightarrow> State_Monad.return (Some (wrapf ''read postgres schema'' err))
      | Inr schema \<Rightarrow> do {
          r \<leftarrow> db_Exec db schema [];
          State_Monad.return (case r of Inl err \<Rightarrow> Some (wrapf ''init postgres schema'' err) | Inr _ \<Rightarrow> None)
        })"

definition pg_Open :: "(string \<Rightarrow> string \<Rightarrow> ('w, error + 'w SqlPool) io) \<Rightarrow> string \<Rightarrow> ('w, error + 'w SqlPool) io" where
  "pg_Open sqlOpen dsn = do {
     r \<leftarrow> sqlOpen ''pgx'' dsn;
     case r of
       Inl err \<Rightarrow> State_Monad.return (Inl (wrapf ''open postgres'' err))
     | Inr db \<Rightarrow> do {
         _ \<leftarrow> sp_SetMaxOpenConns db 20;
         _ \<leftarrow> sp_SetMaxIdleConns db 10;
         _ \<leftarrow> sp_SetConnMaxLifetime db Hour;
         e \<leftarrow> sp_Ping db;
         case e of
           Some err \<Rightarrow> do { _ \<leftarrow> sp_Close db; State_Monad.return (Inl (wrapf ''ping postgres'' err)) }
         | None \<Rightarrow> do {
             e \<leftarrow> initSchema (sp_db db);
             case e of
               Some err \<Rightarrow> do { _ \<leftarrow> sp_Close db; State_Monad.return (Inl err) }
             | None \<Rightarrow> State_Monad.return (Inr db)
           }
       }
   }"

section \<open>Redis\<close>

record 'w RedisClient =
  cl_redis :: "'w Redis"
  cl_Ping :: "('w, error option) io"
  cl_Close :: "('w, error option) io"

text \<open>The constructors of the client library; \<open>'o\<close> are its options, \<open>gr_Addr\<close> those with an address only.\<close>

record ('w, 'o) GoRedis =
  gr_ParseURL :: "string \<Rightarrow> error + 'o"
  gr_Addr :: "string \<Rightarrow> 'o"
  gr_NewClient :: "'o \<Rightarrow> ('w, 'w RedisClient) io"

definition NewClient :: "('w, 'o) GoRedis \<Rightarrow> string \<Rightarrow> string \<Rightarrow> ('w, error + 'w RedisClient) io" where
  "NewClient lib addr redisURL =
     (let u = TrimSpace redisURL in
      if u \<noteq> [] then
        (case gr_ParseURL lib u of
           Inl err \<Rightarrow> State_Monad.return (Inl err)
         | Inr opts \<Rightarrow> do { c \<leftarrow> gr_NewClient lib opts; State_Monad.return (Inr c) })
      else
        let a = TrimSpace addr in
        if a = [] then
          State_Monad.return (Inl (OtherError ''redis: REDIS_URL or REDIS_ADDR is required when CACHE_BACKEND=redis''))
        else do { c \<leftarrow> gr_NewClient lib (gr_Addr lib a); State_Monad.return (Inr c) })"

section \<open>The parts of the server\<close>

record 'w stores =
  st_db :: "'w SqlPool"
  st_users :: "'w UserStore"
  st_rooms :: "'w RoomStore"

text \<open>The publish/subscribe service is left out, since no handler uses it.\<close>

record 'w caches =
  ca_close :: "('w, error option) io option"
  ca_redis :: "'w Redis option"
  ca_sessions :: "'w SessionCache"
  ca_roomStates :: "'w RoomStateCache"
  ca_roomPresence :: "'w RoomPresence"
  ca_roomAccess :: "'w RoomAccessCache"

text \<open>
  The HTTP server as \<open>run\<close> sets it up, and which of the two channels that \<open>run\<close> waits for delivers first: the error of
  the listener (other than \<open>ErrServerClosed\<close>), or a signal.
\<close>

record 'w http_Server =
  hv_Addr :: string
  hv_Handler :: "'w Server"
  hv_ReadHeaderTimeout :: duration

datatype serve_end = ListenFailed error | StopSignal

text \<open>
  What the code does not contain: the environment and the files for the configuration, the drivers, the JSON text of a
  playback state, the Ably and Resend clients, the HTTP server and its shutdown within a time limit.
\<close>

record ('w, 'o) Platform =
  pf_unmarshal :: "string \<Rightarrow> Config \<Rightarrow> error + Config"
  pf_lower :: "string \<Rightarrow> string"
  pf_getenv :: env
  pf_readFile :: "string \<Rightarrow> file_read"
  pf_sqlOpen :: "string \<Rightarrow> string \<Rightarrow> ('w, error + 'w SqlPool) io"
  pf_unique :: "error \<Rightarrow> bool"
  pf_redis :: "('w, 'o) GoRedis"
  pf_marshalState :: "RoomState \<Rightarrow> error + string"
  pf_unmarshalState :: "string \<Rightarrow> error + RoomState"
  pf_newREST :: "string \<Rightarrow> error + 'w AblyREST"
  pf_jwt :: jwt_sign
  pf_resend :: "string \<Rightarrow> 'w Resend"
  pf_host :: "'w Host"
  pf_serve :: "'w http_Server \<Rightarrow> ('w, serve_end) io"
  pf_shutdown :: "'w http_Server \<Rightarrow> duration \<Rightarrow> ('w, error option) io"

definition newStores :: "('w, 'o) Platform \<Rightarrow> Config \<Rightarrow> ('w, error + 'w stores) io" where
  "newStores pf cfg =
     (if cf_StorageBackend cfg = ''postgres'' then do {
        r \<leftarrow> pg_Open (pf_sqlOpen pf) (cf_PostgresDSN cfg);
        State_Monad.return
          (case r of
             Inl err \<Rightarrow> Inl err
           | Inr db \<Rightarrow> Inr \<lparr>st_db = db,
               st_users = pg_users (sp_db db) (pf_unique pf) (hs_now (pf_host pf)) (uuid_new (hs_pkg (pf_host pf))),
               st_rooms = pg_rooms (sp_db db) (pf_unique pf) (hs_now (pf_host pf)) (uuid_new (hs_pkg (pf_host pf)))\<rparr>)
      }
      else State_Monad.return (Inl (OtherError (''unsupported storage backend: '' @ cf_StorageBackend cfg))))"

definition newCaches :: "('w, 'o) Platform \<Rightarrow> Config \<Rightarrow> ('w, error + 'w caches) io" where
  "newCaches pf cfg =
     (if cf_CacheBackend cfg \<noteq> CacheBackendRedis then
        State_Monad.return (Inl (OtherError (''unsupported cache backend: '' @ cf_CacheBackend cfg @ '' (only redis is supported)'')))
      else do {
        r \<leftarrow> NewClient (pf_redis pf) (cf_RedisAddr cfg) (cf_RedisURL cfg);
        case r of
          Inl err \<Rightarrow> State_Monad.return (Inl err)
        | Inr client \<Rightarrow> do {
            e \<leftarrow> cl_Ping client;
            case e of
              Some err \<Rightarrow> do { _ \<leftarrow> cl_Close client; State_Monad.return (Inl err) }
            | None \<Rightarrow> State_Monad.return (Inr \<lparr>ca_close = Some (cl_Close client), ca_redis = Some (cl_redis client),
                ca_sessions = rc_sessions (cl_redis client),
                ca_roomStates = rc_states (cl_redis client) (hs_now (pf_host pf)) (pf_marshalState pf) (pf_unmarshalState pf),
                ca_roomPresence = rc_presence (cl_redis client), ca_roomAccess = rc_access (cl_redis client)\<rparr>)
          }
      })"

definition roomChatFromCaches :: "('w, gotime) io \<Rightarrow> 'w caches \<Rightarrow> 'w RoomChat option" where
  "roomChatFromCaches timeNow ca = (case ca_redis ca of Some redis \<Rightarrow> Some (rc_chat redis timeNow) | None \<Rightarrow> None)"

text \<open>\<open>emailcode.NewStore\<close> of a client; without one the store would keep its codes in memory, which \<open>run\<close> never does.\<close>

definition newCodes :: "('w, 'o) Platform \<Rightarrow> 'w Redis option \<Rightarrow> 'w EmailCodes option" where
  "newCodes pf r = map_option (\<lambda>rd. redis_codes rd (uni_lower (hs_pkg (pf_host pf))) (bc_generate (hs_pkg (pf_host pf)))
     (bc_compare (hs_pkg (pf_host pf)))) r"

definition dependencies :: "('w, 'o) Platform \<Rightarrow> Config \<Rightarrow> 'w stores \<Rightarrow> 'w caches \<Rightarrow> 'w AblyService \<Rightarrow> 'w Dependencies" where
  "dependencies pf cfg st ca realtime = \<lparr>dp_Config = cfg, dp_UserStore = st_users st, dp_RoomStore = st_rooms st,
     dp_EmailSender = Some (sender_api (NewSender (pf_resend pf) cfg)), dp_EmailCodes = newCodes pf (ca_redis ca),
     dp_SessionCache = ca_sessions ca, dp_RoomStateCache = ca_roomStates ca, dp_RoomPresence = Some (ca_roomPresence ca),
     dp_RoomAccess = Some (ca_roomAccess ca), dp_RoomChat = roomChatFromCaches (hs_now (pf_host pf)) ca,
     dp_Realtime = Some (ably_realtime (pf_jwt pf) (hs_now (pf_host pf)) realtime)\<rparr>"

text \<open>The deferred calls of \<open>run\<close> close the caches before the database, whichever return is taken.\<close>

definition run_with_caches :: "('w, 'o) Platform \<Rightarrow> Config \<Rightarrow> 'w stores \<Rightarrow> 'w caches \<Rightarrow> ('w, error option) io" where
  "run_with_caches pf cfg st ca =
     (case NewAblyService (pf_newREST pf) cfg of
        Inl err \<Rightarrow> State_Monad.return (Some err)
      | Inr realtime \<Rightarrow>
          let srv = \<lparr>hv_Addr = cf_Addr cfg, hv_Handler = NewRouter (pf_host pf) (dependencies pf cfg st ca realtime),
                hv_ReadHeaderTimeout = 5 * Second\<rparr> in do {
          ev \<leftarrow> pf_serve pf srv;
          case ev of
            ListenFailed err \<Rightarrow> State_Monad.return (Some err)
          | StopSignal \<Rightarrow> pf_shutdown pf srv (10 * Second)
        })"

definition run_with_stores :: "('w, 'o) Platform \<Rightarrow> Config \<Rightarrow> 'w stores \<Rightarrow> ('w, error option) io" where
  "run_with_stores pf cfg st = do {
     c \<leftarrow> newCaches pf cfg;
     case c of
       Inl err \<Rightarrow> State_Monad.return (Some err)
     | Inr ca \<Rightarrow> do {
         e \<leftarrow> run_with_caches pf cfg st ca;
         _ \<leftarrow> (case ca_close ca of Some close \<Rightarrow> close | None \<Rightarrow> State_Monad.return None);
         State_Monad.return e
       }
   }"

definition run :: "('w, 'o) Platform \<Rightarrow> ('w, error option) io" where
  "run pf =
     (case Load (pf_unmarshal pf) (pf_lower pf) (pf_getenv pf) (pf_readFile pf) ''config.yaml'' of
        Inl err \<Rightarrow> State_Monad.return (Some err)
      | Inr cfg \<Rightarrow> do {
          s \<leftarrow> newStores pf cfg;
          case s of
            Inl err \<Rightarrow> State_Monad.return (Some err)
          | Inr st \<Rightarrow> do {
              e \<leftarrow> run_with_stores pf cfg st;
              _ \<leftarrow> sp_Close (st_db st);
              State_Monad.return e
            }
        })"

section \<open>Handles\<close>

text \<open>
  What the drivers promise about the handles that they hand out: \<open>A\<close> counts the open pools and the open Redis clients,
  \<open>pool\<close> and \<open>client\<close> recognise handles of the drivers.  The server is only run with both of them open.
\<close>

locale handle_laws =
  fixes pf :: "('w, 'o) Platform" and A :: "'w \<Rightarrow> nat \<times> nat" and live :: "'w \<Rightarrow> bool"
    and pool :: "'w SqlPool \<Rightarrow> bool" and client :: "'w RedisClient \<Rightarrow> bool"
  assumes open_pool: "ensures live A (pf_sqlOpen pf drv dsn) a
      (\<lambda>x a'. case x of Inl _ \<Rightarrow> a' = a | Inr p \<Rightarrow> pool p \<and> a' = (Suc (fst a), snd a))"
    and set_pool: "pool p \<Longrightarrow> ensures live A (sp_SetMaxOpenConns p n) a (\<lambda>_ a'. a' = a)"
      "pool p \<Longrightarrow> ensures live A (sp_SetMaxIdleConns p n) a (\<lambda>_ a'. a' = a)"
      "pool p \<Longrightarrow> ensures live A (sp_SetConnMaxLifetime p d) a (\<lambda>_ a'. a' = a)"
    and ping_pool: "pool p \<Longrightarrow> ensures live A (sp_Ping p) a (\<lambda>_ a'. a' = a)"
    and exec_pool: "pool p \<Longrightarrow> ensures live A (db_Exec (sp_db p) sql args) a (\<lambda>_ a'. a' = a)"
    and close_pool: "pool p \<Longrightarrow> ensures live A (sp_Close p) a (\<lambda>_ a'. a' = (fst a - 1, snd a))"
    and open_client: "ensures live A (gr_NewClient (pf_redis pf) opts) a (\<lambda>c a'. client c \<and> a' = (fst a, Suc (snd a)))"
    and ping_client: "client c \<Longrightarrow> ensures live A (cl_Ping c) a (\<lambda>_ a'. a' = a)"
    and close_client: "client c \<Longrightarrow> ensures live A (cl_Close c) a (\<lambda>_ a'. a' = (fst a, snd a - 1))"
    and serve: "0 < fst a \<Longrightarrow> 0 < snd a \<Longrightarrow> ensures live A (pf_serve pf srv) a (\<lambda>_ a'. a' = a)"
    and shut: "ensures live A (pf_shutdown pf srv d) a (\<lambda>_ a'. a' = a)"
begin

lemma keep: "ensures live A m a (\<lambda>_ a'. a' = a) \<Longrightarrow> (\<And>x. ensures live A (f x) a Q) \<Longrightarrow> ensures live A (m \<bind> f) a Q"
  by (rule ensures_step, assumption) simp

lemma initSchema_keeps: "pool p \<Longrightarrow> ensures live A (initSchema (sp_db p)) a (\<lambda>_ a'. a' = a)"
  by (auto simp: initSchema_def schemaFS_ReadFile_def intro!: keep exec_pool ensures_return)

lemma pg_Open_handles:
  "ensures live A (pg_Open (pf_sqlOpen pf) dsn) a (\<lambda>x a'. case x of Inl _ \<Rightarrow> a' = a | Inr p \<Rightarrow> pool p \<and> a' = (Suc (fst a), snd a))"
  unfolding pg_Open_def
proof (rule ensures_step [OF open_pool], goal_cases)
  case (1 x a1)
  have close: "ensures live A (sp_Close p \<bind> (\<lambda>_. State_Monad.return (Inl err))) (Suc (fst a), snd a)
      (\<lambda>x a'. case x of Inl _ \<Rightarrow> a' = a | Inr p \<Rightarrow> pool p \<and> a' = (Suc (fst a), snd a))" if "pool p" for p err
    by (rule ensures_step [OF close_pool [OF that]]) (auto intro!: ensures_return)
  show ?case
  proof (cases x)
    case (Inl err)
    then show ?thesis using 1 by (auto intro!: ensures_return)
  next
    case (Inr p)
    then have p: "pool p" "a1 = (Suc (fst a), snd a)" using 1 by simp_all
    show ?thesis
      unfolding Inr sum.case p(2)
    proof (rule keep [OF set_pool(1) [OF p(1)]], rule keep [OF set_pool(2) [OF p(1)]], rule keep [OF set_pool(3) [OF p(1)]],
        rule keep [OF ping_pool [OF p(1)]], rule ensures_option)
      show "ensures live A (initSchema (sp_db p) \<bind> (\<lambda>e. case e of None \<Rightarrow> State_Monad.return (Inr p)
          | Some err \<Rightarrow> sp_Close p \<bind> (\<lambda>_. State_Monad.return (Inl err)))) (Suc (fst a), snd a)
        (\<lambda>x a'. case x of Inl _ \<Rightarrow> a' = a | Inr p \<Rightarrow> pool p \<and> a' = (Suc (fst a), snd a))"
        by (rule keep [OF initSchema_keeps [OF p(1)]], rule ensures_option) (simp_all add: close [OF p(1)] ensures_return p(1))
    qed (simp add: close [OF p(1)])
  qed
qed

lemma NewClient_handles:
  "ensures live A (NewClient (pf_redis pf) addr url) a (\<lambda>x a'. case x of Inl _ \<Rightarrow> a' = a | Inr c \<Rightarrow> client c \<and> a' = (fst a, Suc (snd a)))"
  unfolding NewClient_def Let_def
  by (intro ensures_branch ensures_return ensures_step [OF open_client]) auto

lemma newCaches_handles:
  "ensures live A (newCaches pf cfg) a (\<lambda>x a'. case x of Inl _ \<Rightarrow> a' = a
     | Inr ca \<Rightarrow> \<exists>c. client c \<and> ca_close ca = Some (cl_Close c) \<and> a' = (fst a, Suc (snd a)))"
  unfolding newCaches_def
proof (intro ensures_if ensures_return ensures_step [OF NewClient_handles], goal_cases)
  case (2 x a1)
  show ?case
  proof (cases x)
    case (Inl err)
    then show ?thesis using 2 by (auto intro!: ensures_return)
  next
    case (Inr c)
    then have c: "client c" "a1 = (fst a, Suc (snd a))" using 2 by simp_all
    show ?thesis
      unfolding Inr sum.case c(2)
      by (intro keep ping_client c(1) ensures_option ensures_return ensures_step [OF close_client [OF c(1)]]) (use c(1) in auto)
  qed
qed simp

lemma run_with_stores_handles:
  assumes "0 < fst a"
  shows "ensures live A (run_with_stores pf cfg st) a (\<lambda>_ a'. a' = a)"
  unfolding run_with_stores_def
proof (rule ensures_step [OF newCaches_handles], goal_cases)
  case (1 x a1)
  show ?case
  proof (cases x)
    case (Inl err)
    then show ?thesis using 1 by (auto intro!: ensures_return)
  next
    case (Inr ca)
    then obtain c where c: "client c" "ca_close ca = Some (cl_Close c)" and a1: "a1 = (fst a, Suc (snd a))" using 1 by auto
    have "ensures live A (run_with_caches pf cfg st ca) (fst a, Suc (snd a)) (\<lambda>_ a'. a' = (fst a, Suc (snd a)))"
      unfolding run_with_caches_def Let_def using assms
      by (intro ensures_sum ensures_return keep [OF serve]) (auto intro!: ensures_return shut split: serve_end.split)
    then show ?thesis
      unfolding Inr sum.case a1 c(2) option.case
      by (intro keep ensures_step [OF close_client [OF c(1)]]) (auto intro!: ensures_return)
  qed
qed

lemma newStores_handles:
  "ensures live A (newStores pf cfg) a (\<lambda>x a'. case x of Inl _ \<Rightarrow> a' = a | Inr st \<Rightarrow> pool (st_db st) \<and> a' = (Suc (fst a), snd a))"
  unfolding newStores_def
  by (intro ensures_if ensures_step [OF pg_Open_handles] ensures_return) (auto split: sum.splits)

lemma run_handles: "ensures live A (run pf) a (\<lambda>_ a'. a' = a)"
  unfolding run_def
proof (rule ensures_sum)
  show "ensures live A (State_Monad.return (Some err)) a (\<lambda>_ a'. a' = a)" for err by (rule ensures_return) simp
  show "ensures live A (newStores pf cfg \<bind> (\<lambda>s. case s of Inl err \<Rightarrow> State_Monad.return (Some err)
      | Inr st \<Rightarrow> run_with_stores pf cfg st \<bind> (\<lambda>e. sp_Close (st_db st) \<bind> (\<lambda>_. State_Monad.return e)))) a (\<lambda>_ a'. a' = a)" for cfg
  proof (rule ensures_step [OF newStores_handles], goal_cases)
    case (1 x a1)
    show ?case
    proof (cases x)
      case (Inl err)
      then show ?thesis using 1 by (auto intro!: ensures_return)
    next
      case (Inr st)
      then have st: "pool (st_db st)" "a1 = (Suc (fst a), snd a)" using 1 by simp_all
      show ?thesis
        unfolding Inr sum.case st(2)
        by (rule keep [OF run_with_stores_handles], simp, rule ensures_step [OF close_pool [OF st(1)]]) (auto intro!: ensures_return)
    qed
  qed
qed

end

text \<open>
  C15: however starting and serving end, with an error of any part or after a signal, every connection pool and every
  Redis client that was opened on the way has been closed again, and the server only runs while both are open.
\<close>

theorem run_closes_handles:
  assumes "handle_laws pf A live pool client" and "live w"
  shows "live (snd (run_state (run pf) w)) \<and> A (snd (run_state (run pf) w)) = A w"
  using ensuresD [OF handle_laws.run_handles [OF assms(1)] assms(2)] by simp

section \<open>What is served\<close>

text \<open>
  A server whose chat, realtime service, codes and mail sender are all there, with a valid configuration and an Ably key.
  The sender sends mail exactly if the configuration has a Resend key; without one it is there but disabled.
\<close>

definition well_wired :: "'w Server \<Rightarrow> bool" where
  "well_wired sv \<longleftrightarrow>
     config_ok (dp_Config (sr_deps sv)) \<and> cf_AblyKeyName (dp_Config (sr_deps sv)) \<noteq> [] \<and> cf_AblyKeySecret (dp_Config (sr_deps sv)) \<noteq> [] \<and>
     dp_RoomChat (sr_deps sv) \<noteq> None \<and> dp_Realtime (sr_deps sv) \<noteq> None \<and> dp_RoomPresence (sr_deps sv) \<noteq> None \<and>
     dp_RoomAccess (sr_deps sv) \<noteq> None \<and> dp_EmailCodes (sr_deps sv) \<noteq> None \<and>
     (case dp_EmailSender (sr_deps sv) of
        None \<Rightarrow> False
      | Some sender \<Rightarrow> es_Enabled sender \<longleftrightarrow> TrimSpace (cf_ResendAPIKey (dp_Config (sr_deps sv))) \<noteq> []) \<and>
     sr_ticker sv \<noteq> None"

lemma io_eqI: "(\<And>w. run_state m w = run_state m' w) \<Longrightarrow> m = m'"
  by (cases m; cases m') auto

lemma bind_agree:
  assumes "\<And>x w w'. run_state m w = (x, w') \<Longrightarrow> f x = g x"
  shows "m \<bind> f = m \<bind> g"
proof (rule io_eqI)
  fix w
  obtain x w' where "run_state m w = (x, w')" by (cases "run_state m w")
  then show "run_state (m \<bind> f) w = run_state (m \<bind> g) w" using assms by simp
qed

lemma newCaches_redis: "run_state (newCaches pf cfg) w = (Inr ca, w') \<Longrightarrow> ca_redis ca \<noteq> None"
  by (auto simp: newCaches_def case_prod_beta split: if_splits sum.splits option.splits)

lemma served_well_wired:
  assumes "config_ok cfg" and "ca_redis ca \<noteq> None" and "NewAblyService newREST cfg = Inr realtime"
  shows "well_wired (NewRouter host (dependencies pf cfg st ca realtime))"
proof -
  have "TrimSpace (cf_AblyRootKey cfg) \<noteq> []" using assms(3) by (auto simp: NewAblyService_def split: if_splits)
  then have "cf_AblyKeyName cfg \<noteq> []" "cf_AblyKeySecret cfg \<noteq> []" using assms(1) by (auto simp: config_ok_def ably_key_ok_def)
  then show ?thesis
    using assms(1,2) by (auto simp: well_wired_def NewRouter_def dependencies_def roomChatFromCaches_def newCodes_def sender_api_def Enabled_def NewSender_def Let_def)
qed

text \<open>
  C16: only a fully wired server is ever served: with a configuration that satisfies every bound that loading checks, an
  Ably key that can sign tokens, chat, presence, access grants and codes in place, a mail sender that is enabled exactly
  if there is a Resend key, and the redelivery job running.  What would happen
  on any other server has no influence on \<open>run\<close>.
\<close>

theorem run_serves_well_wired:
  assumes "\<And>srv. well_wired (hv_Handler srv) \<Longrightarrow> listen srv = listen' srv"
  shows "run (pf\<lparr>pf_serve := listen\<rparr>) = run (pf\<lparr>pf_serve := listen'\<rparr>)"
proof -
  have parts: "newStores (pf\<lparr>pf_serve := s\<rparr>) = newStores pf" "newCaches (pf\<lparr>pf_serve := s\<rparr>) = newCaches pf"
    "dependencies (pf\<lparr>pf_serve := s\<rparr>) = dependencies pf" for s
    by (simp_all add: fun_eq_iff newStores_def newCaches_def dependencies_def newCodes_def cong: sum.case_cong option.case_cong)
  have caches: "run_with_caches (pf\<lparr>pf_serve := listen\<rparr>) cfg st ca = run_with_caches (pf\<lparr>pf_serve := listen'\<rparr>) cfg st ca"
    if "config_ok cfg" "ca_redis ca \<noteq> None" for cfg st ca
  proof (cases "NewAblyService (pf_newREST pf) cfg")
    case (Inr realtime)
    let ?srv = "\<lparr>hv_Addr = cf_Addr cfg, hv_Handler = NewRouter (pf_host pf) (dependencies pf cfg st ca realtime),
      hv_ReadHeaderTimeout = 5 * Second\<rparr>"
    have "listen ?srv = listen' ?srv" by (rule assms) (simp add: served_well_wired [OF that Inr])
    then show ?thesis by (simp add: run_with_caches_def parts Inr Let_def cong: serve_end.case_cong)
  qed (simp add: run_with_caches_def)
  have stores: "run_with_stores (pf\<lparr>pf_serve := listen\<rparr>) cfg st = run_with_stores (pf\<lparr>pf_serve := listen'\<rparr>) cfg st"
    if "config_ok cfg" for cfg st
    unfolding run_with_stores_def parts
    by (rule bind_agree) (auto simp: caches [OF that newCaches_redis] split: sum.split)
  show ?thesis
    unfolding run_def parts by (auto simp: stores [OF Load_valid] cong: sum.case_cong split: sum.split)
qed

section \<open>A platform\<close>

text \<open>A world that counts open handles and the servers that ran, and a platform on it with an Ably key in its environment.\<close>

record HandleWorld =
  hw_pools :: nat
  hw_clients :: nat
  hw_served :: nat

definition modify :: "('w \<Rightarrow> 'w) \<Rightarrow> 'a \<Rightarrow> ('w, 'a) io" where
  "modify f x = do { w \<leftarrow> State_Monad.get; State_Monad.set (f w); State_Monad.return x }"

lemma run_modify [simp]: "run_state (modify f x) w = (x, f w)"
  by (simp add: modify_def)

definition count_pool :: "HandleWorld SqlPool" where
  "count_pool = \<lparr>sp_db = fresh_db, sp_SetMaxOpenConns = \<lambda>n. State_Monad.return (), sp_SetMaxIdleConns = \<lambda>n. State_Monad.return (),
     sp_SetConnMaxLifetime = \<lambda>d. State_Monad.return (), sp_Ping = State_Monad.return None,
     sp_Close = modify (\<lambda>w. w\<lparr>hw_pools := hw_pools w - 1\<rparr>) None\<rparr>"

definition count_client :: "HandleWorld RedisClient" where
  "count_client = \<lparr>cl_redis = \<lparr>rd_Do = \<lambda>c. State_Monad.return (Inr NoValue), rd_TxPipeline = \<lambda>cs. State_Monad.return (Inr []),
       rd_Eval = \<lambda>c. State_Monad.return (Inr [])\<rparr>,
     cl_Ping = State_Monad.return None, cl_Close = modify (\<lambda>w. w\<lparr>hw_clients := hw_clients w - 1\<rparr>) None\<rparr>"

definition idle_host :: "HandleWorld Host" where
  "idle_host = \<lparr>hs_now = State_Monad.return 1,
     hs_pkg = \<lparr>jw_date = \<lambda>t. t, jw_sign = \<lambda>_ _. Inr [], jw_parse = \<lambda>_ _ _ _. None, bc_generate = \<lambda>p. State_Monad.return (Inr p),
       bc_compare = (=), uuid_new = State_Monad.return ''id'', uni_lower = \<lambda>s. s, uni_isLower = \<lambda>_. False, uni_isDigit = \<lambda>_. False,
       mail_parse = Some\<rparr>,
     hs_rt = \<lparr>rt_ctxErr = \<lambda>_. State_Monad.return None, rt_wait = \<lambda>_ _. State_Monad.return None, rt_IntN = \<lambda>_. State_Monad.return 0,
       marshalChat = \<lambda>m. Inr [], unmarshalChat = \<lambda>s. Inl ErrNotFound\<rparr>,
     hs_newCode = \<lambda>n. State_Monad.return (Inr ''123456''),
     hs_ipLimiter = \<lparr>ref_get = State_Monad.return (newIPLimiter 1 1), ref_put = \<lambda>_. State_Monad.return ()\<rparr>,
     hs_regLastHit = \<lparr>ref_get = State_Monad.return [], ref_put = \<lambda>_. State_Monad.return ()\<rparr>,
     hs_go = \<lambda>_. State_Monad.return (), hs_fuel = 0\<rparr>"

definition count_platform :: "(HandleWorld, string) Platform" where
  "count_platform = \<lparr>pf_unmarshal = \<lambda>_. Inr, pf_lower = \<lambda>s. s,
     pf_getenv = (\<lambda>k. if k = ''ABLY_ROOT_KEY'' then ''app.key:secret'' else []), pf_readFile = \<lambda>_. NotExist,
     pf_sqlOpen = \<lambda>drv dsn. modify (\<lambda>w. w\<lparr>hw_pools := Suc (hw_pools w)\<rparr>) (Inr count_pool), pf_unique = \<lambda>_. False,
     pf_redis = \<lparr>gr_ParseURL = Inr, gr_Addr = \<lambda>a. a, gr_NewClient = \<lambda>_. modify (\<lambda>w. w\<lparr>hw_clients := Suc (hw_clients w)\<rparr>) count_client\<rparr>,
     pf_marshalState = \<lambda>_. Inr [], pf_unmarshalState = \<lambda>_. Inl ErrNotFound,
     pf_newREST = \<lambda>_. Inr \<lparr>rest_Publish = \<lambda>_ _ _. State_Monad.return None\<rparr>, pf_jwt = sample_sign,
     pf_resend = \<lambda>_. \<lparr>rs_Send = \<lambda>_. State_Monad.return (Inr ''mail'')\<rparr>, pf_host = idle_host,
     pf_serve = \<lambda>srv. modify (\<lambda>w. w\<lparr>hw_served := Suc (hw_served w)\<rparr>) StopSignal, pf_shutdown = \<lambda>_ _. State_Monad.return None\<rparr>"

interpretation counted: handle_laws count_platform "\<lambda>w. (hw_pools w, hw_clients w)" "\<lambda>_. True" "\<lambda>p. p = count_pool" "\<lambda>c. c = count_client"
  by unfold_locales
    (auto simp: ensures_def count_platform_def count_pool_def count_client_def fresh_db_def)

theorem run_closes_handles_witness:
  "hw_pools (snd (run_state (run count_platform) \<lparr>hw_pools = 0, hw_clients = 0, hw_served = 0\<rparr>)) = 0 \<and>
   hw_clients (snd (run_state (run count_platform) \<lparr>hw_pools = 0, hw_clients = 0, hw_served = 0\<rparr>)) = 0"
  using run_closes_handles [OF counted.handle_laws_axioms, of "\<lparr>hw_pools = 0, hw_clients = 0, hw_served = 0\<rparr>"] by simp

text \<open>On this platform the server is really reached.\<close>

lemma count_platform_serves: "hw_served (snd (run_state (run count_platform) \<lparr>hw_pools = 0, hw_clients = 0, hw_served = 0\<rparr>)) = 1"
  by code_simp

theorem run_serves_well_wired_witness:
  "run (count_platform\<lparr>pf_serve := \<lambda>srv. State_Monad.return (if well_wired (hv_Handler srv) then StopSignal else ListenFailed ErrNotFound)\<rparr>) =
   run (count_platform\<lparr>pf_serve := \<lambda>srv. State_Monad.return StopSignal\<rparr>)"
  by (rule run_serves_well_wired) simp

end
