(* ===== verification/Spec2Isabelle.thy ===== *)
theory Spec2Isabelle
  imports Queue_Url Room_Runs Auth_Runs Api_Sample Redis_Chat Postgres_Rooms Postgres_Users Cors Pub_Sub Tool_Check Server_Main
begin

text \<open>
  WatchTvTogether: a server that keeps several viewers of one video in step.  Users register with a mailed code and log in;
  a room has an owner, members, a queue of videos and one playback state that its managers control; every control is
  published on the room's channel, and clients compute the current position from the last control and the clock.  Empty
  rooms are torn down by a sweep.  Accounts and rooms live in PostgreSQL; sessions, playback states, presence, grants, chat
  and codes live in Redis; the memory versions of these backends serve the tests.

  \<^bold>\<open>How the code is translated.\<close>  A Go struct is a record, an interface a record of operations, a named string type a
  \<open>string\<close> of bytes.  A call with effects is a computation of \<open>HOL-Library.State_Monad\<close> over a world \<open>'w\<close>; an error is a
  value (\<open>error + 'a\<close>, or \<open>error option\<close> where nothing else is returned), so that every early return is a branch.  Go maps
  are association lists with distinct keys (\<open>gomap\<close>); \<open>float64\<close> positions are the binary64 numbers of \<open>Go_Float64\<close>;
  \<open>int\<close> arithmetic that can overflow is written with \<open>wrap64\<close>; a time is its distance in nanoseconds from the zero time.
  Packages outside the repository (JWT, bcrypt, UUID, YAML, gin, the Redis, PostgreSQL, Ably and Resend clients) are
  parameters: records of the calls that the code makes, with their documented behaviour as the laws of a locale.

  \<^bold>\<open>The language.\<close>  \<open>Go_Prelude\<close> (white space, 64-bit integers, times, maps, effects), \<open>Go_Float64\<close> (rounding and
  arithmetic), \<open>Go_Text\<close> (packages \<open>strings\<close>, \<open>strconv\<close>, UTF-8, \<open>ParseDuration\<close>), \<open>Go_Date\<close> (the text of a UTC day and its
  round trip), \<open>Go_Json\<close> (JSON values), \<open>Go_Json_Text\<close> (the text of strings, with a reader and the round trip).

  \<^bold>\<open>Data and rules\<close> (\<^verbatim>\<open>internal/model\<close>, \<^verbatim>\<open>internal/config\<close>, \<^verbatim>\<open>pkg\<close>).  \<open>Model\<close>: users, rooms, states, errors.  \<open>Config\<close>:
  defaults, environment, normalisation; a loaded configuration satisfies every bound that the code checks (it checks none
  for the lifetimes of the server's own tokens), and normalising again changes nothing.  \<open>Queue_Url\<close>: the URL filter.
  \<open>Cors\<close>: the configuration of the middleware, and the origin check, which is the same policy.  \<open>Tool_Check\<close>: looking for external programs.

  \<^bold>\<open>Playback and rooms\<close> (\<^verbatim>\<open>internal/room\<close>).  \<open>Playback\<close>: projected positions stay within the video and are exact for whole
  seconds; queue successors.  \<open>Room_Interfaces\<close>: the interfaces of the room service, an abstract room database, the program
  logic \<open>ensures\<close>, and one contract per interface as a locale; \<open>room_backend\<close> joins them.  \<open>Room_Service\<close>
  (\<^verbatim>\<open>hub.go\<close>) and \<open>Room_Chat\<close> (\<^verbatim>\<open>chat.go\<close>): the operations, proved against the contracts.  \<open>Presence_Memory\<close> and
  \<open>Memory_Backend\<close>: the memory backends and their interpretation of the contracts.  \<open>Room_Runs\<close>: the results on these
  backends, with a step relation over all operations and its reachable worlds: states stay well-formed, an accepted control
  replaces the state and is published, a second control with the same version is stale, the sweep spares occupied rooms and
  leaves no empty one, and the cleanup is throttled and gives its lock back.  \<open>Chat_Queue\<close>: redelivery of chat messages
  returns and, with sendable messages, empties the queues.

  \<^bold>\<open>Accounts\<close> (\<^verbatim>\<open>internal/auth\<close>, \<^verbatim>\<open>internal/emailcode\<close>, \<^verbatim>\<open>internal/email\<close>).  \<open>Session_Memory\<close>, \<open>Email_Code\<close>, \<open>Auth_Service\<close>:
  the operations.  \<open>Auth_Contracts\<close> and \<open>Auth_Proofs\<close>: contracts of the user store, the sessions, the codes and the
  cryptographic packages, and the service proved against them.  \<open>Account_Memory\<close> and \<open>Auth_Sample\<close>: the interpretation on
  the memory backends and a concrete setting.  \<open>Auth_Runs\<close>: a refresh token works once, a logout revokes both tokens, a reset
  ends the session, what login and registration check and change, and the five seconds of leeway in which every logged-out
  access token is accepted again.  \<open>Email_Sender\<close>: the mail, byte by byte, and the lifetime it states.

  \<^bold>\<open>HTTP\<close> (\<^verbatim>\<open>internal/api\<close>, \<^verbatim>\<open>pkg/apierr\<close>).  \<open>Api_Context\<close>, \<open>Rate_Limiter\<close>, \<open>Api_Rooms\<close>, \<open>Api_Auth\<close>, \<open>Api_Admin\<close>,
  \<open>Api_Router\<close>: one definition per handler, token check included, \<open>serve\<close> for all routes, and \<open>ServeHTTP\<close> with the cross-origin
  middleware as a parameter in front; every answer of the routes is well formed, and requests without a token, without the
  admin role or with a broken body are turned away before a handler touches a backend.
  \<open>Api_Access\<close>, \<open>Api_Memory\<close>, \<open>Api_Sample\<close>: the room endpoints refine a specification over the abstract database, only
  managers delete, control and kick, a private room opens to managers, grants and the right password, a deleted room is gone.

  \<^bold>\<open>Redis\<close> (\<^verbatim>\<open>internal/cache/redis\<close>, the Redis half of \<^verbatim>\<open>internal/emailcode\<close>).  \<open>Redis_Client\<close>: commands, replies, transactions,
  scripts, and the documented behaviour of the commands as the locale \<open>redis_server\<close>, with a server in memory that keeps it.  Where the documentation leaves the server a choice the
  laws do too: \<open>XADD\<close> with \<open>MAXLEN ~\<close> may keep more entries than the limit, and a scan, locale \<open>redis_scan\<close>, comes in any
  number of pages, with only the keys promised that are there throughout; the server in memory scans 256 slots page by page.
  \<open>Redis_Caches\<close>: all operations.  \<open>Redis_Views\<close>: reasoning about the keys that are alive.  \<open>Redis_Presence\<close>, \<open>Redis_Codes\<close>,
  \<open>Redis_Chat\<close>: joining refines the seating plan while a stale leave breaks it, the daily quota and the bound on guesses, the
  chat round trip under approximate trimming, and redelivery on every Redis with such scans (locale \<open>redis_chat\<close>).  The contract \<open>presence_store\<close> is not interpreted here: the stale leave breaks it.

  \<^bold>\<open>PostgreSQL\<close> (\<^verbatim>\<open>internal/store/postgres\<close>).  \<open>Postgres_Store\<close>: all operations with the text of their statements; listing sends
  fixed statements only; the embedded schema lacks the column \<open>email\<close> that every statement on users names.  \<open>Postgres_Rooms\<close>: the laws of the
  statements on a table of rooms as the locale \<open>sql_rooms\<close>, the contract \<open>room_store\<close> as its sublocale, and a table in memory
  that keeps the laws.  \<open>Postgres_Users\<close>: the same for the users, with conflicts of ids, names and folded e-mail addresses:
  locale \<open>sql_users\<close>, the contract \<open>user_store\<close> of the account service as its sublocale, and that a created account is found
  again while a taken name or address is a conflict.

  \<^bold>\<open>The rest of the server\<close> (\<^verbatim>\<open>internal/realtime/ably\<close>, \<^verbatim>\<open>internal/cache/*/pubsub.go\<close>, \<^verbatim>\<open>cmd/server\<close>).  \<open>Realtime_Ably\<close>: channels and
  tokens; for ids without pattern characters, a token allows exactly listening on the room's own channel.  \<open>Pub_Sub\<close>: publish/subscribe as a step relation over
  calls and goroutines, its invariant, and the send on a closed channel that it can reach.  \<open>Server_Main\<close>: opening the
  backends, wiring and shutdown; every opened handle is closed, and only a fully wired server is served.

  \<^bold>\<open>Fuel.\<close>  One loop carries fuel: the scan over rooms with waiting chat messages, which ends when Redis returns the cursor
  0.  \<open>None\<close> means that the fuel ran out; \<open>redelivery_returns\<close> shows that fuel above the number of pages of a scan is enough.
  Without a chat service the loop is not entered, so the cleanup results need no fuel.  All other loops are structural or
  have a termination proof.

  \<^bold>\<open>Not modelled.\<close>  Log lines (\<^verbatim>\<open>internal/applog\<close>, the cleanup log of \<^verbatim>\<open>hub.go\<close>); matching of paths, decoding of requests and
  printing of whole answers, which gin does; how the cross-origin middleware decides and Ably matches the resources of a
  capability, which are parameters; the mutexes of the memory backends, whose operations are atomic steps
  (\<open>Pub_Sub\<close> is the exception, since its lock does not cover the sends); deadlines of contexts other than those of the chat;
  the SQL migrations, which the server does not run, and the test suites, apart from the stores of the API tests, which
  serve as backends here.
\<close>

end
